(* ===== verification/Prelude.thy ===== *)
theory Prelude
  imports Main "HOL-Library.Word" "HOL-Library.Option_ord" "HOL-Library.Product_Lexorder"
begin

text \<open>
  Shared ground of the development: the machine types of the Rust sources, the
  \<open>Result\<close> plumbing (\<open>?\<close> and \<open>collect\<close>), the ordering conventions of
  \<open>core::cmp\<close> on options and pairs, and the generic list lemmas the components use.

  \<^item> \<open>u8\<close> and \<open>u32\<close> are words of that width; \<open>usize\<close> values of the sources are counts
    and sizes of in-memory data and are \<open>nat\<close>.
  \<^item> \<open>Result<T, E>\<close> is the sum \<open>'e + 'a\<close> (\<open>Inl\<close> is the error), \<open>Option<T>\<close> is
    \<open>'a option\<close> with \<open>None\<close> below every \<open>Some\<close> (HOL-Library.Option\_ord), tuples are
    ordered lexicographically (HOL-Library.Product\_Lexorder), as Rust derives them.
\<close>

named_theorems rust_defs \<open>unfolding rules of the straight-line operations of the model\<close>

type_synonym u8 = "8 word"
type_synonym u32 = "32 word"
type_synonym bytes = "u8 list"

section \<open>The \<open>?\<close> operator and \<open>collect\<close> on results\<close>

fun bind_res :: "'e + 'a \<Rightarrow> ('a \<Rightarrow> 'e + 'b) \<Rightarrow> 'e + 'b" where
  "bind_res (Inl e) f = Inl e"
| "bind_res (Inr x) f = f x"

lemma bind_res_Inr [simp]: "bind_res r f = Inr y \<longleftrightarrow> (\<exists>x. r = Inr x \<and> f x = Inr y)"
  by (cases r) auto

lemma bind_res_cong [fundef_cong]:
  "r = r' \<Longrightarrow> (\<And>x. r' = Inr x \<Longrightarrow> f x = g x) \<Longrightarrow> bind_res r f = bind_res r' g"
  by (cases r') auto

text \<open>\<open>iter().map(f).collect::<Result<Vec<_>, _>>()\<close>: the first error stops the collection.\<close>

fun collect_res :: "('a \<Rightarrow> 'e + 'b) \<Rightarrow> 'a list \<Rightarrow> 'e + 'b list" where
  "collect_res f [] = Inr []"
| "collect_res f (x # xs) = bind_res (f x) (\<lambda>y. bind_res (collect_res f xs) (\<lambda>ys. Inr (y # ys)))"

lemma collect_res_cong [fundef_cong]:
  "xs = ys \<Longrightarrow> (\<And>x. x \<in> set ys \<Longrightarrow> f x = g x) \<Longrightarrow> collect_res f xs = collect_res g ys"
  by (induction ys arbitrary: xs) auto

lemma collect_res_Inr: "collect_res f xs = Inr ys \<longleftrightarrow> list_all2 (\<lambda>x y. f x = Inr y) xs ys"
  by (induction xs arbitrary: ys) (auto simp: list_all2_Cons1)

lemma collect_res_length: "collect_res f xs = Inr ys \<Longrightarrow> length ys = length xs"
  by (auto simp: collect_res_Inr dest: list_all2_lengthD)

definition map_res :: "('a \<Rightarrow> 'b) \<Rightarrow> 'err + 'a \<Rightarrow> 'err + 'b" where
  "map_res f r = bind_res r (\<lambda>x. Inr (f x))"

definition map_res2 :: "('a \<Rightarrow> 'b \<Rightarrow> 'c) \<Rightarrow> 'err + 'a \<Rightarrow> 'err + 'b \<Rightarrow> 'err + 'c" where
  "map_res2 f r s = bind_res r (\<lambda>x. bind_res s (\<lambda>y. Inr (f x y)))"

lemma map_res_Inr [simp]: "map_res f r = Inr y \<longleftrightarrow> (\<exists>x. r = Inr x \<and> y = f x)"
  by (auto simp: map_res_def)

lemma map_res2_Inr [simp]: "map_res2 f r s = Inr z \<longleftrightarrow> (\<exists>x y. r = Inr x \<and> s = Inr y \<and> z = f x y)"
  by (auto simp: map_res2_def)

text \<open>The same for computations that may panic: \<open>None\<close> is the panic.\<close>

fun collect_opt :: "('a \<Rightarrow> 'b option) \<Rightarrow> 'a list \<Rightarrow> 'b list option" where
  "collect_opt f [] = Some []"
| "collect_opt f (x # xs) = Option.bind (f x) (\<lambda>y. Option.bind (collect_opt f xs) (\<lambda>ys. Some (y # ys)))"

lemma collect_opt_cong [fundef_cong]:
  "xs = ys \<Longrightarrow> (\<And>x. x \<in> set ys \<Longrightarrow> f x = g x) \<Longrightarrow> collect_opt f xs = collect_opt g ys"
  by (induction ys arbitrary: xs) auto

lemma collect_opt_Some: "collect_opt f xs = Some ys \<longleftrightarrow> list_all2 (\<lambda>x y. f x = Some y) xs ys"
  by (induction xs arbitrary: ys) (auto simp: list_all2_Cons1 bind_eq_Some_conv)

section \<open>Byte strings\<close>

text \<open>\<open>slice_to_u32_le\<close>, of \<open>util.rs\<close>, with its \<open>assert_eq!\<close> on the length.\<close>

definition slice_to_u32_le :: "bytes \<Rightarrow> u32 option" where
  "slice_to_u32_le sl =
     (if length sl = 4 then Some (horner_sum ucast 256 sl) else None)"

section \<open>Options as Rust combines them\<close>

definition opt_add :: "nat option \<Rightarrow> nat option \<Rightarrow> nat option" where
  "opt_add a b = Option.bind a (\<lambda>x. map_option (\<lambda>y. x + y) b)"

definition opt_max :: "'a::linorder option \<Rightarrow> 'a option \<Rightarrow> 'a option" where
  "opt_max a b = (case (a, b) of (Some x, Some y) \<Rightarrow> Some (max x y) | _ \<Rightarrow> None)"

lemma opt_add_simps [simp]:
  "opt_add None b = None" "opt_add a None = None" "opt_add (Some x) (Some y) = Some (x + y)"
  by (auto simp: opt_add_def bind_eq_None_conv)

lemma opt_max_simps [simp]:
  "opt_max None b = None" "opt_max a None = None" "opt_max (Some x) (Some y) = Some (max x y)"
  by (auto simp: opt_max_def split: option.splits)

lemma max_option_None [simp]:
  "max None b = (b :: 'a::linorder option)" "max a None = (a :: 'a::linorder option)"
  by (cases b; simp add: max_def) (cases a; simp add: max_def)

lemma max_option_Some [simp]: "max (Some x) (Some y) = Some (max x (y::'a::linorder))"
  by (simp add: max_def)

lemma option_le_None [simp]: "x \<le> None \<longleftrightarrow> x = (None :: 'a::linorder option)"
  by (cases x) auto

section \<open>Lists\<close>

lemma all_less_Suc: "(\<forall>j<Suc n. P j) \<longleftrightarrow> P 0 \<and> (\<forall>j<n. P (Suc j))"
  by (auto simp: less_Suc_eq_0_disj)

lemma list_all2_ex: "\<forall>x\<in>set xs. \<exists>y. P x y \<Longrightarrow> \<exists>ys. list_all2 P xs ys"
  by (induction xs) (auto simp: list_all2_Cons1)

section \<open>Translators\<close>

text \<open>
  The \<open>Translator\<close> trait of \<open>lib.rs\<close>: how keys and the four kinds of hashes are translated. The
  methods take \<open>&mut self\<close>; translators whose answers depend on earlier calls are not covered.
\<close>

record ('pk, 'h, 'pk', 'h', 'err) translator =
  tr_pk :: "'pk \<Rightarrow> 'err + 'pk'"
  tr_sha256 :: "'h \<Rightarrow> 'err + 'h'"
  tr_hash256 :: "'h \<Rightarrow> 'err + 'h'"
  tr_ripemd160 :: "'h \<Rightarrow> 'err + 'h'"
  tr_hash160 :: "'h \<Rightarrow> 'err + 'h'"

end
