(* ===== verification/Types_Correctness.thy ===== *)
theory Types_Correctness
  imports Prelude
begin

text \<open>
  Correctness types (\<open>miniscript/types/correctness.rs\<close>) and the type-checking errors
  (\<open>ErrorKind\<close> of \<open>miniscript/types/mod.rs\<close>): the four base types, the input property, and
  the rule by which every fragment computes its correctness type from its children's.
\<close>

section \<open>Base types, inputs, errors\<close>

datatype base_type = Base_B | Base_K | Base_V | Base_W

datatype input_type = Input_Zero | Input_One | Input_Any | Input_OneNonZero | Input_AnyNonZero

datatype error_kind =
    InvalidTime
  | NonZeroDupIf
  | ZeroThreshold
  | OverThreshold nat nat
  | NoStrongChild
  | LeftNotDissatisfiable
  | RightNotDissatisfiable
  | SwapNonOne
  | NonZeroZero
  | LeftNotUnit
  | ChildBase1 base_type
  | ChildBase2 base_type base_type
  | ChildBase3 base_type base_type base_type
  | ThresholdBase nat base_type
  | ThresholdDissat nat
  | ThresholdNonUnit nat
  | ThresholdNotStrong nat nat nat

fun input_is_subtype :: "input_type \<Rightarrow> input_type \<Rightarrow> bool" where
  "input_is_subtype x y =
     (if x = y then True
      else case (x, y) of
        (Input_OneNonZero, Input_One) \<Rightarrow> True
      | (Input_OneNonZero, Input_AnyNonZero) \<Rightarrow> True
      | (_, Input_Any) \<Rightarrow> True
      | _ \<Rightarrow> False)"

record correctness =
  base :: base_type
  input :: input_type
  dissatisfiable :: bool
  is_unit :: bool

definition corr_is_subtype :: "correctness \<Rightarrow> correctness \<Rightarrow> bool" where
  "corr_is_subtype self other \<longleftrightarrow>
     base self = base other \<and> input_is_subtype (input self) (input other)
     \<and> dissatisfiable self \<ge> dissatisfiable other \<and> is_unit self \<ge> is_unit other"

definition corr_sanity_checks :: "correctness \<Rightarrow> bool" where
  "corr_sanity_checks c =
     (case base c of
        Base_B \<Rightarrow> True
      | Base_K \<Rightarrow> is_unit c
      | Base_V \<Rightarrow> \<not> is_unit c \<and> \<not> dissatisfiable c
      | Base_W \<Rightarrow> input c \<noteq> Input_OneNonZero \<and> input c \<noteq> Input_AnyNonZero)"

section \<open>Leaves\<close>

definition corr_from_true :: correctness where
  "corr_from_true = \<lparr>base = Base_B, input = Input_Zero, dissatisfiable = False, is_unit = True\<rparr>"

definition corr_from_false :: correctness where
  "corr_from_false = \<lparr>base = Base_B, input = Input_Zero, dissatisfiable = True, is_unit = True\<rparr>"

definition corr_from_pk_k :: correctness where
  "corr_from_pk_k = \<lparr>base = Base_K, input = Input_OneNonZero, dissatisfiable = True, is_unit = True\<rparr>"

definition corr_from_pk_h :: correctness where
  "corr_from_pk_h = \<lparr>base = Base_K, input = Input_AnyNonZero, dissatisfiable = True, is_unit = True\<rparr>"

definition corr_from_multi :: "nat \<Rightarrow> nat \<Rightarrow> correctness" where
  "corr_from_multi k n = \<lparr>base = Base_B, input = Input_AnyNonZero, dissatisfiable = True, is_unit = True\<rparr>"

definition corr_from_multi_a :: "nat \<Rightarrow> nat \<Rightarrow> correctness" where
  "corr_from_multi_a k n = \<lparr>base = Base_B, input = Input_Any, dissatisfiable = True, is_unit = True\<rparr>"

definition corr_from_hash :: correctness where
  "corr_from_hash = \<lparr>base = Base_B, input = Input_OneNonZero, dissatisfiable = True, is_unit = True\<rparr>"

definition corr_from_time :: "u32 \<Rightarrow> correctness" where
  "corr_from_time t = \<lparr>base = Base_B, input = Input_Zero, dissatisfiable = False, is_unit = False\<rparr>"

section \<open>Wrappers\<close>

definition corr_cast_alt :: "correctness \<Rightarrow> error_kind + correctness" where
  "corr_cast_alt c =
     (case base c of
        Base_B \<Rightarrow> Inr \<lparr>base = Base_W, input = Input_Any,
                  dissatisfiable = dissatisfiable c, is_unit = is_unit c\<rparr>
      | x \<Rightarrow> Inl (ChildBase1 x))"

definition corr_cast_swap :: "correctness \<Rightarrow> error_kind + correctness" where
  "corr_cast_swap c =
     (case base c of
        Base_B \<Rightarrow>
          (case input c of
             Input_One \<Rightarrow> Inr \<lparr>base = Base_W, input = Input_Any,
                            dissatisfiable = dissatisfiable c, is_unit = is_unit c\<rparr>
           | Input_OneNonZero \<Rightarrow> Inr \<lparr>base = Base_W, input = Input_Any,
                            dissatisfiable = dissatisfiable c, is_unit = is_unit c\<rparr>
           | _ \<Rightarrow> Inl SwapNonOne)
      | x \<Rightarrow> Inl (ChildBase1 x))"

definition corr_cast_check :: "correctness \<Rightarrow> error_kind + correctness" where
  "corr_cast_check c =
     (case base c of
        Base_K \<Rightarrow> Inr \<lparr>base = Base_B, input = input c,
                  dissatisfiable = dissatisfiable c, is_unit = True\<rparr>
      | x \<Rightarrow> Inl (ChildBase1 x))"

definition corr_cast_dupif :: "correctness \<Rightarrow> error_kind + correctness" where
  "corr_cast_dupif c =
     (case base c of
        Base_V \<Rightarrow>
          (case input c of
             Input_Zero \<Rightarrow> Inr \<lparr>base = Base_B, input = Input_OneNonZero,
                             dissatisfiable = True, is_unit = False\<rparr>
           | _ \<Rightarrow> Inl NonZeroDupIf)
      | x \<Rightarrow> Inl (ChildBase1 x))"

definition corr_cast_verify :: "correctness \<Rightarrow> error_kind + correctness" where
  "corr_cast_verify c =
     (case base c of
        Base_B \<Rightarrow> Inr \<lparr>base = Base_V, input = input c, dissatisfiable = False, is_unit = False\<rparr>
      | x \<Rightarrow> Inl (ChildBase1 x))"

definition corr_cast_nonzero :: "correctness \<Rightarrow> error_kind + correctness" where
  "corr_cast_nonzero c =
     (if input c \<noteq> Input_OneNonZero \<and> input c \<noteq> Input_AnyNonZero then Inl NonZeroZero
      else case base c of
        Base_B \<Rightarrow> Inr \<lparr>base = Base_B, input = input c, dissatisfiable = True, is_unit = is_unit c\<rparr>
      | x \<Rightarrow> Inl (ChildBase1 x))"

definition corr_cast_zeronotequal :: "correctness \<Rightarrow> error_kind + correctness" where
  "corr_cast_zeronotequal c =
     (case base c of
        Base_B \<Rightarrow> Inr \<lparr>base = Base_B, input = input c,
                  dissatisfiable = dissatisfiable c, is_unit = True\<rparr>
      | x \<Rightarrow> Inl (ChildBase1 x))"

definition corr_cast_true :: "correctness \<Rightarrow> error_kind + correctness" where
  "corr_cast_true c =
     (case base c of
        Base_V \<Rightarrow> Inr \<lparr>base = Base_B, input = input c, dissatisfiable = False, is_unit = True\<rparr>
      | x \<Rightarrow> Inl (ChildBase1 x))"

definition corr_cast_or_i_false :: "correctness \<Rightarrow> error_kind + correctness" where
  "corr_cast_or_i_false c =
     (case base c of
        Base_B \<Rightarrow> Inr \<lparr>base = Base_B,
                  input = (case input c of Input_Zero \<Rightarrow> Input_One | _ \<Rightarrow> Input_Any),
                  dissatisfiable = True, is_unit = is_unit c\<rparr>
      | x \<Rightarrow> Inl (ChildBase1 x))"

section \<open>Conjunctions, disjunctions, thresholds\<close>

text \<open>The input of \<open>and_b\<close> and \<open>and_v\<close>, which the source spells out twice with the same arms.\<close>

fun and_input :: "input_type \<Rightarrow> input_type \<Rightarrow> input_type" where
  "and_input Input_Zero Input_Zero = Input_Zero"
| "and_input Input_Zero Input_One = Input_One"
| "and_input Input_One Input_Zero = Input_One"
| "and_input Input_Zero Input_OneNonZero = Input_OneNonZero"
| "and_input Input_OneNonZero Input_Zero = Input_OneNonZero"
| "and_input Input_OneNonZero _ = Input_AnyNonZero"
| "and_input Input_AnyNonZero _ = Input_AnyNonZero"
| "and_input Input_Zero Input_AnyNonZero = Input_AnyNonZero"
| "and_input _ _ = Input_Any"

definition corr_and_b :: "correctness \<Rightarrow> correctness \<Rightarrow> error_kind + correctness" where
  "corr_and_b l r =
     (case (base l, base r) of
        (Base_B, Base_W) \<Rightarrow> Inr \<lparr>base = Base_B, input = and_input (input l) (input r),
            dissatisfiable = dissatisfiable l \<and> dissatisfiable r, is_unit = True\<rparr>
      | (x, y) \<Rightarrow> Inl (ChildBase2 x y))"

definition corr_and_v :: "correctness \<Rightarrow> correctness \<Rightarrow> error_kind + correctness" where
  "corr_and_v l r =
     (let res = (\<lambda>b. Inr \<lparr>base = b, input = and_input (input l) (input r),
                        dissatisfiable = False, is_unit = is_unit r\<rparr>)
      in case (base l, base r) of
           (Base_V, Base_B) \<Rightarrow> res Base_B
         | (Base_V, Base_K) \<Rightarrow> res Base_K
         | (Base_V, Base_V) \<Rightarrow> res Base_V
         | (x, y) \<Rightarrow> Inl (ChildBase2 x y))"

fun or_b_input :: "input_type \<Rightarrow> input_type \<Rightarrow> input_type" where
  "or_b_input Input_Zero Input_Zero = Input_Zero"
| "or_b_input Input_Zero Input_One = Input_One"
| "or_b_input Input_One Input_Zero = Input_One"
| "or_b_input Input_Zero Input_OneNonZero = Input_One"
| "or_b_input Input_OneNonZero Input_Zero = Input_One"
| "or_b_input _ _ = Input_Any"

definition corr_or_b :: "correctness \<Rightarrow> correctness \<Rightarrow> error_kind + correctness" where
  "corr_or_b l r =
     (if \<not> dissatisfiable l then Inl LeftNotDissatisfiable
      else if \<not> dissatisfiable r then Inl RightNotDissatisfiable
      else case (base l, base r) of
        (Base_B, Base_W) \<Rightarrow> Inr \<lparr>base = Base_B, input = or_b_input (input l) (input r),
                              dissatisfiable = True, is_unit = True\<rparr>
      | (x, y) \<Rightarrow> Inl (ChildBase2 x y))"

text \<open>The input of \<open>or_d\<close> and \<open>or_c\<close>.\<close>

fun or_dc_input :: "input_type \<Rightarrow> input_type \<Rightarrow> input_type" where
  "or_dc_input Input_Zero Input_Zero = Input_Zero"
| "or_dc_input Input_One Input_Zero = Input_One"
| "or_dc_input Input_OneNonZero Input_Zero = Input_One"
| "or_dc_input _ _ = Input_Any"

definition corr_or_d :: "correctness \<Rightarrow> correctness \<Rightarrow> error_kind + correctness" where
  "corr_or_d l r =
     (if \<not> dissatisfiable l then Inl LeftNotDissatisfiable
      else if \<not> is_unit l then Inl LeftNotUnit
      else case (base l, base r) of
        (Base_B, Base_B) \<Rightarrow> Inr \<lparr>base = Base_B, input = or_dc_input (input l) (input r),
                              dissatisfiable = dissatisfiable r, is_unit = is_unit r\<rparr>
      | (x, y) \<Rightarrow> Inl (ChildBase2 x y))"

definition corr_or_c :: "correctness \<Rightarrow> correctness \<Rightarrow> error_kind + correctness" where
  "corr_or_c l r =
     (if \<not> dissatisfiable l then Inl LeftNotDissatisfiable
      else if \<not> is_unit l then Inl LeftNotUnit
      else case (base l, base r) of
        (Base_B, Base_V) \<Rightarrow> Inr \<lparr>base = Base_V, input = or_dc_input (input l) (input r),
                              dissatisfiable = False, is_unit = False\<rparr>
      | (x, y) \<Rightarrow> Inl (ChildBase2 x y))"

definition corr_or_i :: "correctness \<Rightarrow> correctness \<Rightarrow> error_kind + correctness" where
  "corr_or_i l r =
     (let res = (\<lambda>b. Inr \<lparr>base = b,
                  input = (case (input l, input r) of
                             (Input_Zero, Input_Zero) \<Rightarrow> Input_One | _ \<Rightarrow> Input_Any),
                  dissatisfiable = dissatisfiable l \<or> dissatisfiable r,
                  is_unit = is_unit l \<and> is_unit r\<rparr>)
      in case (base l, base r) of
           (Base_B, Base_B) \<Rightarrow> res Base_B
         | (Base_V, Base_V) \<Rightarrow> res Base_V
         | (Base_K, Base_K) \<Rightarrow> res Base_K
         | (x, y) \<Rightarrow> Inl (ChildBase2 x y))"

fun and_or_input :: "input_type \<Rightarrow> input_type \<Rightarrow> input_type \<Rightarrow> input_type" where
  "and_or_input Input_Zero Input_Zero Input_Zero = Input_Zero"
| "and_or_input Input_Zero Input_One Input_One = Input_One"
| "and_or_input Input_Zero Input_One Input_OneNonZero = Input_One"
| "and_or_input Input_Zero Input_OneNonZero Input_One = Input_One"
| "and_or_input Input_Zero Input_OneNonZero Input_OneNonZero = Input_One"
| "and_or_input Input_One Input_Zero Input_Zero = Input_One"
| "and_or_input Input_OneNonZero Input_Zero Input_Zero = Input_One"
| "and_or_input _ _ _ = Input_Any"

definition corr_and_or :: "correctness \<Rightarrow> correctness \<Rightarrow> correctness \<Rightarrow> error_kind + correctness" where
  "corr_and_or a b c =
     (if \<not> dissatisfiable a then Inl LeftNotDissatisfiable
      else if \<not> is_unit a then Inl LeftNotUnit
      else
        let res = (\<lambda>bt. Inr \<lparr>base = bt, input = and_or_input (input a) (input b) (input c),
                     dissatisfiable = dissatisfiable c, is_unit = is_unit b \<and> is_unit c\<rparr>)
        in case (base a, base b, base c) of
             (Base_B, Base_B, Base_B) \<Rightarrow> res Base_B
           | (Base_B, Base_K, Base_K) \<Rightarrow> res Base_K
           | (Base_B, Base_V, Base_V) \<Rightarrow> res Base_V
           | (x, y, z) \<Rightarrow> Inl (ChildBase3 x y z))"

fun input_num_args :: "input_type \<Rightarrow> nat" where
  "input_num_args Input_Zero = 0"
| "input_num_args Input_One = 1"
| "input_num_args Input_OneNonZero = 1"
| "input_num_args Input_Any = 2"
| "input_num_args Input_AnyNonZero = 2"

text \<open>The loop of \<open>threshold\<close>: \<open>i\<close> is the index of the next child, \<open>num_args\<close> the accumulator.\<close>

fun corr_threshold_loop :: "nat \<Rightarrow> nat \<Rightarrow> correctness list \<Rightarrow> error_kind + nat" where
  "corr_threshold_loop i num_args [] = Inr num_args"
| "corr_threshold_loop i num_args (c # cs) =
     (if i = 0 \<and> base c \<noteq> Base_B then Inl (ThresholdBase i (base c))
      else if i \<noteq> 0 \<and> base c \<noteq> Base_W then Inl (ThresholdBase i (base c))
      else if \<not> is_unit c then Inl (ThresholdNonUnit i)
      else if \<not> dissatisfiable c then Inl (ThresholdDissat i)
      else corr_threshold_loop (Suc i) (num_args + input_num_args (input c)) cs)"

definition corr_threshold :: "nat \<Rightarrow> correctness list \<Rightarrow> error_kind + correctness" where
  "corr_threshold k cs =
     bind_res (corr_threshold_loop 0 0 cs) (\<lambda>num_args.
       Inr \<lparr>base = Base_B,
            input = (if num_args = 0 then Input_Zero
                     else if num_args = 1 then Input_One else Input_Any),
            dissatisfiable = True, is_unit = True\<rparr>)"

lemmas corr_leaf_defs = corr_from_true_def corr_from_false_def corr_from_pk_k_def
  corr_from_pk_h_def corr_from_multi_def corr_from_multi_a_def corr_from_hash_def corr_from_time_def

lemmas corr_cast_defs = corr_cast_alt_def corr_cast_swap_def corr_cast_check_def
  corr_cast_dupif_def corr_cast_verify_def corr_cast_nonzero_def corr_cast_zeronotequal_def
  corr_cast_true_def corr_cast_or_i_false_def

lemmas corr_comb_defs = corr_and_b_def corr_and_v_def corr_or_b_def corr_or_d_def corr_or_c_def
  corr_or_i_def corr_and_or_def

section \<open>Inversion of the rules\<close>

text \<open>When each rule succeeds, and with what: the form in which the type invariants use them.\<close>

lemma corr_cast_Inr:
  "corr_cast_alt c = Inr c' \<longleftrightarrow> base c = Base_B
     \<and> c' = \<lparr>base = Base_W, input = Input_Any, dissatisfiable = dissatisfiable c, is_unit = is_unit c\<rparr>"
  "corr_cast_swap c = Inr c' \<longleftrightarrow> base c = Base_B \<and> input c \<in> {Input_One, Input_OneNonZero}
     \<and> c' = \<lparr>base = Base_W, input = Input_Any, dissatisfiable = dissatisfiable c, is_unit = is_unit c\<rparr>"
  "corr_cast_check c = Inr c' \<longleftrightarrow> base c = Base_K
     \<and> c' = \<lparr>base = Base_B, input = input c, dissatisfiable = dissatisfiable c, is_unit = True\<rparr>"
  "corr_cast_dupif c = Inr c' \<longleftrightarrow> base c = Base_V \<and> input c = Input_Zero
     \<and> c' = \<lparr>base = Base_B, input = Input_OneNonZero, dissatisfiable = True, is_unit = False\<rparr>"
  "corr_cast_verify c = Inr c' \<longleftrightarrow> base c = Base_B
     \<and> c' = \<lparr>base = Base_V, input = input c, dissatisfiable = False, is_unit = False\<rparr>"
  "corr_cast_nonzero c = Inr c' \<longleftrightarrow> base c = Base_B \<and> input c \<in> {Input_OneNonZero, Input_AnyNonZero}
     \<and> c' = \<lparr>base = Base_B, input = input c, dissatisfiable = True, is_unit = is_unit c\<rparr>"
  "corr_cast_zeronotequal c = Inr c' \<longleftrightarrow> base c = Base_B
     \<and> c' = \<lparr>base = Base_B, input = input c, dissatisfiable = dissatisfiable c, is_unit = True\<rparr>"
  by (auto simp: corr_cast_defs split: base_type.splits input_type.splits)

lemma corr_comb_Inr:
  "corr_and_b l r = Inr c \<longleftrightarrow> base l = Base_B \<and> base r = Base_W
     \<and> c = \<lparr>base = Base_B, input = and_input (input l) (input r),
           dissatisfiable = dissatisfiable l \<and> dissatisfiable r, is_unit = True\<rparr>"
  "corr_and_v l r = Inr c \<longleftrightarrow> base l = Base_V \<and> base r \<noteq> Base_W
     \<and> c = \<lparr>base = base r, input = and_input (input l) (input r),
           dissatisfiable = False, is_unit = is_unit r\<rparr>"
  "corr_or_b l r = Inr c \<longleftrightarrow> dissatisfiable l \<and> dissatisfiable r \<and> base l = Base_B \<and> base r = Base_W
     \<and> c = \<lparr>base = Base_B, input = or_b_input (input l) (input r), dissatisfiable = True, is_unit = True\<rparr>"
  "corr_or_d l r = Inr c \<longleftrightarrow> dissatisfiable l \<and> is_unit l \<and> base l = Base_B \<and> base r = Base_B
     \<and> c = \<lparr>base = Base_B, input = or_dc_input (input l) (input r),
           dissatisfiable = dissatisfiable r, is_unit = is_unit r\<rparr>"
  "corr_or_c l r = Inr c \<longleftrightarrow> dissatisfiable l \<and> is_unit l \<and> base l = Base_B \<and> base r = Base_V
     \<and> c = \<lparr>base = Base_V, input = or_dc_input (input l) (input r), dissatisfiable = False, is_unit = False\<rparr>"
  "corr_or_i l r = Inr c \<longleftrightarrow> base l = base r \<and> base r \<noteq> Base_W
     \<and> c = \<lparr>base = base r,
           input = (if input l = Input_Zero \<and> input r = Input_Zero then Input_One else Input_Any),
           dissatisfiable = dissatisfiable l \<or> dissatisfiable r, is_unit = is_unit l \<and> is_unit r\<rparr>"
  by (auto simp: corr_comb_defs Let_def split: base_type.splits input_type.splits)

lemma corr_and_or_Inr:
  "corr_and_or a b c = Inr d \<longleftrightarrow> dissatisfiable a \<and> is_unit a \<and> base a = Base_B
     \<and> base b = base c \<and> base c \<noteq> Base_W
     \<and> d = \<lparr>base = base c, input = and_or_input (input a) (input b) (input c),
           dissatisfiable = dissatisfiable c, is_unit = is_unit b \<and> is_unit c\<rparr>"
  by (cases "base a"; cases "base b"; cases "base c") (auto simp: corr_and_or_def Let_def)

text \<open>A child of a threshold, by its position.\<close>

definition thresh_child_ok :: "nat \<Rightarrow> correctness \<Rightarrow> bool" where
  "thresh_child_ok i c \<longleftrightarrow> base c = (if i = 0 then Base_B else Base_W) \<and> is_unit c \<and> dissatisfiable c"

lemma corr_threshold_loop_Inr:
  "corr_threshold_loop i acc cs = Inr m \<longleftrightarrow>
     (\<forall>j<length cs. thresh_child_ok (i + j) (cs ! j)) \<and> m = acc + sum_list (map (\<lambda>c. input_num_args (input c)) cs)"
proof (induction cs arbitrary: i acc)
  case Nil
  then show ?case by auto
next
  case (Cons c cs)
  have all: "(\<forall>j<length (c # cs). thresh_child_ok (i + j) ((c # cs) ! j)) \<longleftrightarrow>
      thresh_child_ok i c \<and> (\<forall>j<length cs. thresh_child_ok (Suc i + j) (cs ! j))"
    by (simp add: all_less_Suc)
  show ?case
    unfolding all using Cons.IH [of "Suc i" "acc + input_num_args (input c)"]
    by (auto simp: thresh_child_ok_def split: if_splits)
qed

lemma corr_threshold_Inr:
  "corr_threshold k cs = Inr c \<longleftrightarrow> (\<forall>j<length cs. thresh_child_ok j (cs ! j))
     \<and> c = \<lparr>base = Base_B,
           input = (let m = sum_list (map (\<lambda>c. input_num_args (input c)) cs)
                    in if m = 0 then Input_Zero else if m = 1 then Input_One else Input_Any),
           dissatisfiable = True, is_unit = True\<rparr>"
  by (auto simp: corr_threshold_def corr_threshold_loop_Inr Let_def)

section \<open>Subtyping is a partial order\<close>

text \<open>What \<open>is_subtype\<close> promises on every layer of the type: a partial order.\<close>

locale subtype_order =
  fixes sub :: "'t \<Rightarrow> 't \<Rightarrow> bool"
  assumes sub_refl: "sub a a"
    and sub_trans: "sub a b \<Longrightarrow> sub b c \<Longrightarrow> sub a c"
    and sub_antisym: "sub a b \<Longrightarrow> sub b a \<Longrightarrow> a = b"
begin

lemma sub_cycle: "sub a b \<Longrightarrow> sub b c \<Longrightarrow> sub c a \<Longrightarrow> a = b \<and> b = c"
  using sub_trans sub_antisym by blast

lemma sub_partial_order: "reflp sub \<and> transp sub \<and> antisymp sub"
  by (blast intro: reflpI transpI antisympI sub_refl sub_trans sub_antisym)

end

interpretation input_sub: subtype_order input_is_subtype
proof unfold_locales
  fix a b c :: input_type
  show "input_is_subtype a a" by simp
  show "input_is_subtype a b \<Longrightarrow> input_is_subtype b c \<Longrightarrow> input_is_subtype a c"
    by (cases a; cases b; cases c) auto
  show "input_is_subtype a b \<Longrightarrow> input_is_subtype b a \<Longrightarrow> a = b"
    by (cases a; cases b) auto
qed

interpretation corr_sub: subtype_order corr_is_subtype
proof unfold_locales
  fix a b c :: correctness
  show "corr_is_subtype a a" by (simp add: corr_is_subtype_def)
  show "corr_is_subtype a b \<Longrightarrow> corr_is_subtype b c \<Longrightarrow> corr_is_subtype a c"
    by (auto simp: corr_is_subtype_def simp del: input_is_subtype.simps
        intro: input_sub.sub_trans)
  show "corr_is_subtype a b \<Longrightarrow> corr_is_subtype b a \<Longrightarrow> a = b"
    by (auto simp: corr_is_subtype_def simp del: input_is_subtype.simps
        intro: correctness.equality input_sub.sub_antisym)
qed

end
