(* ===== verification/Types_Malleability.thy ===== *)
theory Types_Malleability
  imports Types_Correctness
begin

text \<open>
  Malleability types (\<open>miniscript/types/malleability.rs\<close>): whether a fragment has a
  dissatisfaction and whether it is unique, whether satisfactions need a signature
  (\<open>safe\<close>), and whether a non-malleable satisfaction is guaranteed to exist.
  Every operation of the trait returns a \<open>Result\<close>; here none of them can fail.
\<close>

datatype dissat = Dissat_None | Dissat_Unique | Dissat_Unknown

fun dissat_is_subtype :: "dissat \<Rightarrow> dissat \<Rightarrow> bool" where
  "dissat_is_subtype x y = (if x = y then True else case (x, y) of (_, Dissat_Unknown) \<Rightarrow> True | _ \<Rightarrow> False)"

record malleability =
  dissat :: dissat
  safe :: bool
  non_malleable :: bool

definition mall_is_subtype :: "malleability \<Rightarrow> malleability \<Rightarrow> bool" where
  "mall_is_subtype self other \<longleftrightarrow>
     dissat_is_subtype (dissat self) (dissat other)
     \<and> safe self \<ge> safe other \<and> non_malleable self \<ge> non_malleable other"

section \<open>Leaves\<close>

definition mall_from_true :: malleability where
  "mall_from_true = \<lparr>dissat = Dissat_None, safe = False, non_malleable = True\<rparr>"

definition mall_from_false :: malleability where
  "mall_from_false = \<lparr>dissat = Dissat_Unique, safe = True, non_malleable = True\<rparr>"

definition mall_from_pk_k :: malleability where
  "mall_from_pk_k = \<lparr>dissat = Dissat_Unique, safe = True, non_malleable = True\<rparr>"

definition mall_from_pk_h :: malleability where
  "mall_from_pk_h = \<lparr>dissat = Dissat_Unique, safe = True, non_malleable = True\<rparr>"

definition mall_from_multi :: "nat \<Rightarrow> nat \<Rightarrow> malleability" where
  "mall_from_multi k n = \<lparr>dissat = Dissat_Unique, safe = True, non_malleable = True\<rparr>"

definition mall_from_multi_a :: "nat \<Rightarrow> nat \<Rightarrow> malleability" where
  "mall_from_multi_a k n = \<lparr>dissat = Dissat_Unique, safe = True, non_malleable = True\<rparr>"

definition mall_from_hash :: malleability where
  "mall_from_hash = \<lparr>dissat = Dissat_Unknown, safe = False, non_malleable = True\<rparr>"

definition mall_from_time :: "u32 \<Rightarrow> malleability" where
  "mall_from_time t = \<lparr>dissat = Dissat_None, safe = False, non_malleable = True\<rparr>"

section \<open>Wrappers\<close>

definition mall_cast_alt :: "malleability \<Rightarrow> error_kind + malleability" where
  "mall_cast_alt m = Inr m"

definition mall_cast_swap :: "malleability \<Rightarrow> error_kind + malleability" where
  "mall_cast_swap m = Inr m"

definition mall_cast_check :: "malleability \<Rightarrow> error_kind + malleability" where
  "mall_cast_check m = Inr m"

definition mall_cast_dupif :: "malleability \<Rightarrow> error_kind + malleability" where
  "mall_cast_dupif m =
     Inr \<lparr>dissat = (if dissat m = Dissat_None then Dissat_Unique else Dissat_Unknown),
          safe = safe m, non_malleable = non_malleable m\<rparr>"

definition mall_cast_verify :: "malleability \<Rightarrow> error_kind + malleability" where
  "mall_cast_verify m = Inr \<lparr>dissat = Dissat_None, safe = safe m, non_malleable = non_malleable m\<rparr>"

definition mall_cast_nonzero :: "malleability \<Rightarrow> error_kind + malleability" where
  "mall_cast_nonzero m =
     Inr \<lparr>dissat = (if dissat m = Dissat_None then Dissat_Unique else Dissat_Unknown),
          safe = safe m, non_malleable = non_malleable m\<rparr>"

definition mall_cast_zeronotequal :: "malleability \<Rightarrow> error_kind + malleability" where
  "mall_cast_zeronotequal m = Inr m"

definition mall_cast_true :: "malleability \<Rightarrow> error_kind + malleability" where
  "mall_cast_true m = Inr \<lparr>dissat = Dissat_None, safe = safe m, non_malleable = non_malleable m\<rparr>"

definition mall_cast_or_i_false :: "malleability \<Rightarrow> error_kind + malleability" where
  "mall_cast_or_i_false m =
     Inr \<lparr>dissat = (if dissat m = Dissat_None then Dissat_Unique else Dissat_Unknown),
          safe = safe m, non_malleable = non_malleable m\<rparr>"

section \<open>Conjunctions, disjunctions, thresholds\<close>

definition mall_and_b :: "malleability \<Rightarrow> malleability \<Rightarrow> error_kind + malleability" where
  "mall_and_b l r =
     Inr \<lparr>dissat =
            (if dissat l = Dissat_None \<and> dissat r = Dissat_None then Dissat_None
             else if dissat l = Dissat_None \<and> safe l then Dissat_None
             else if dissat r = Dissat_None \<and> safe r then Dissat_None
             else if dissat l = Dissat_Unique \<and> dissat r = Dissat_Unique
               then (if safe l \<and> safe r then Dissat_Unique else Dissat_Unknown)
             else Dissat_Unknown),
          safe = safe l \<or> safe r,
          non_malleable = non_malleable l \<and> non_malleable r\<rparr>"

definition mall_and_v :: "malleability \<Rightarrow> malleability \<Rightarrow> error_kind + malleability" where
  "mall_and_v l r =
     Inr \<lparr>dissat = (case (safe l, dissat r) of
                     (_, Dissat_None) \<Rightarrow> Dissat_None
                   | (True, _) \<Rightarrow> Dissat_None
                   | _ \<Rightarrow> Dissat_Unknown),
          safe = safe l \<or> safe r,
          non_malleable = non_malleable l \<and> non_malleable r\<rparr>"

definition mall_or_b :: "malleability \<Rightarrow> malleability \<Rightarrow> error_kind + malleability" where
  "mall_or_b l r =
     Inr \<lparr>dissat = Dissat_Unique, safe = safe l \<and> safe r,
          non_malleable = non_malleable l \<and> dissat l = Dissat_Unique
            \<and> non_malleable r \<and> dissat r = Dissat_Unique \<and> (safe l \<or> safe r)\<rparr>"

definition mall_or_d :: "malleability \<Rightarrow> malleability \<Rightarrow> error_kind + malleability" where
  "mall_or_d l r =
     Inr \<lparr>dissat = dissat r, safe = safe l \<and> safe r,
          non_malleable = non_malleable l \<and> dissat l = Dissat_Unique
            \<and> non_malleable r \<and> (safe l \<or> safe r)\<rparr>"

definition mall_or_c :: "malleability \<Rightarrow> malleability \<Rightarrow> error_kind + malleability" where
  "mall_or_c l r =
     Inr \<lparr>dissat = Dissat_None, safe = safe l \<and> safe r,
          non_malleable = non_malleable l \<and> dissat l = Dissat_Unique
            \<and> non_malleable r \<and> (safe l \<or> safe r)\<rparr>"

definition mall_or_i :: "malleability \<Rightarrow> malleability \<Rightarrow> error_kind + malleability" where
  "mall_or_i l r =
     Inr \<lparr>dissat = (case (dissat l, dissat r) of
                     (Dissat_None, Dissat_None) \<Rightarrow> Dissat_None
                   | (Dissat_Unique, Dissat_None) \<Rightarrow> Dissat_Unique
                   | (Dissat_None, Dissat_Unique) \<Rightarrow> Dissat_Unique
                   | _ \<Rightarrow> Dissat_Unknown),
          safe = safe l \<and> safe r,
          non_malleable = non_malleable l \<and> non_malleable r \<and> (safe l \<or> safe r)\<rparr>"

definition mall_and_or :: "malleability \<Rightarrow> malleability \<Rightarrow> malleability \<Rightarrow> error_kind + malleability" where
  "mall_and_or a b c =
     Inr \<lparr>dissat = (case (safe a, dissat b, dissat c) of
                     (_, Dissat_None, Dissat_Unique) \<Rightarrow> Dissat_Unique
                   | (True, _, Dissat_Unique) \<Rightarrow> Dissat_Unique
                   | (_, Dissat_None, Dissat_None) \<Rightarrow> Dissat_None
                   | (True, _, Dissat_None) \<Rightarrow> Dissat_None
                   | _ \<Rightarrow> Dissat_Unknown),
          safe = (safe a \<or> safe b) \<and> safe c,
          non_malleable = non_malleable a \<and> non_malleable c \<and> dissat a = Dissat_Unique
            \<and> non_malleable b \<and> (safe a \<or> safe b \<or> safe c)\<rparr>"

text \<open>
  The loop of \<open>threshold\<close> with its three accumulators. \<open>type_check\<close> calls it with
  \<open>0 < k \<le> n\<close> only, so the source's \<open>n - k\<close> does not underflow.
\<close>

fun mall_threshold_loop :: "nat \<Rightarrow> bool \<Rightarrow> bool \<Rightarrow> malleability list \<Rightarrow> nat \<times> bool \<times> bool" where
  "mall_threshold_loop safe_count all_e all_m [] = (safe_count, all_e, all_m)"
| "mall_threshold_loop safe_count all_e all_m (m # ms) =
     mall_threshold_loop (safe_count + (if safe m then 1 else 0))
       (all_e \<and> dissat m = Dissat_Unique) (all_m \<and> non_malleable m) ms"

definition mall_threshold :: "nat \<Rightarrow> malleability list \<Rightarrow> error_kind + malleability" where
  "mall_threshold k ms =
     (let n = length ms;
          (safe_count, all_are_dissat_unique, all_are_non_malleable) = mall_threshold_loop 0 True True ms
      in Inr \<lparr>dissat = (if all_are_dissat_unique \<and> safe_count = n then Dissat_Unique else Dissat_Unknown),
              safe = safe_count > n - k,
              non_malleable = all_are_non_malleable \<and> safe_count \<ge> n - k \<and> all_are_dissat_unique\<rparr>)"

lemmas mall_leaf_defs = mall_from_true_def mall_from_false_def mall_from_pk_k_def
  mall_from_pk_h_def mall_from_multi_def mall_from_multi_a_def mall_from_hash_def mall_from_time_def

lemmas mall_cast_defs = mall_cast_alt_def mall_cast_swap_def mall_cast_check_def
  mall_cast_dupif_def mall_cast_verify_def mall_cast_nonzero_def mall_cast_zeronotequal_def
  mall_cast_true_def mall_cast_or_i_false_def

lemmas mall_comb_defs = mall_and_b_def mall_and_v_def mall_or_b_def mall_or_d_def mall_or_c_def
  mall_or_i_def mall_and_or_def

section \<open>Lemmas\<close>

lemma mall_threshold_loop_eq:
  "mall_threshold_loop s e m ms =
     (s + length (filter safe ms), e \<and> (\<forall>x\<in>set ms. dissat x = Dissat_Unique),
      m \<and> (\<forall>x\<in>set ms. non_malleable x))"
  by (induction s e m ms rule: mall_threshold_loop.induct) auto

text \<open>The threshold rule without its loop: how many children are safe decides everything.\<close>

lemma mall_threshold_eq:
  "mall_threshold k ms =
     Inr \<lparr>dissat = (if (\<forall>x\<in>set ms. dissat x = Dissat_Unique \<and> safe x) then Dissat_Unique else Dissat_Unknown),
          safe = length (filter safe ms) > length ms - k,
          non_malleable = (\<forall>x\<in>set ms. non_malleable x \<and> dissat x = Dissat_Unique)
            \<and> length (filter safe ms) \<ge> length ms - k\<rparr>"
proof -
  have "length (filter safe ms) = length ms \<longleftrightarrow> (\<forall>x\<in>set ms. safe x)"
    by (metis filter_id_conv length_filter_less order_less_irrefl)
  then show ?thesis
    by (auto simp: mall_threshold_def mall_threshold_loop_eq Let_def)
qed

text \<open>The rules never fail; their results, oriented for substitution.\<close>

lemma mall_cast_Inr:
  "mall_cast_alt m = Inr m' \<longleftrightarrow> m' = m"
  "mall_cast_swap m = Inr m' \<longleftrightarrow> m' = m"
  "mall_cast_check m = Inr m' \<longleftrightarrow> m' = m"
  "mall_cast_dupif m = Inr m' \<longleftrightarrow>
     m' = \<lparr>dissat = (if dissat m = Dissat_None then Dissat_Unique else Dissat_Unknown),
           safe = safe m, non_malleable = non_malleable m\<rparr>"
  "mall_cast_verify m = Inr m' \<longleftrightarrow>
     m' = \<lparr>dissat = Dissat_None, safe = safe m, non_malleable = non_malleable m\<rparr>"
  "mall_cast_nonzero m = Inr m' \<longleftrightarrow>
     m' = \<lparr>dissat = (if dissat m = Dissat_None then Dissat_Unique else Dissat_Unknown),
           safe = safe m, non_malleable = non_malleable m\<rparr>"
  "mall_cast_zeronotequal m = Inr m' \<longleftrightarrow> m' = m"
  by (auto simp: mall_cast_defs)

lemma mall_and_v_eq:
  "mall_and_v l r = Inr \<lparr>dissat = (if dissat r = Dissat_None \<or> safe l then Dissat_None else Dissat_Unknown),
     safe = safe l \<or> safe r, non_malleable = non_malleable l \<and> non_malleable r\<rparr>"
  by (auto simp: mall_and_v_def split: dissat.splits bool.splits)

lemma mall_or_i_eq:
  "mall_or_i l r = Inr \<lparr>dissat =
       (if dissat l = Dissat_None \<and> dissat r = Dissat_None then Dissat_None
        else if dissat l = Dissat_Unique \<and> dissat r = Dissat_None
          \<or> dissat l = Dissat_None \<and> dissat r = Dissat_Unique then Dissat_Unique
        else Dissat_Unknown),
     safe = safe l \<and> safe r,
     non_malleable = non_malleable l \<and> non_malleable r \<and> (safe l \<or> safe r)\<rparr>"
  by (cases "dissat l"; cases "dissat r") (auto simp: mall_or_i_def)

lemma mall_and_or_eq:
  "mall_and_or a b c = Inr \<lparr>dissat =
       (if dissat c \<noteq> Dissat_Unknown \<and> (dissat b = Dissat_None \<or> safe a) then dissat c else Dissat_Unknown),
     safe = (safe a \<or> safe b) \<and> safe c,
     non_malleable = non_malleable a \<and> non_malleable c \<and> dissat a = Dissat_Unique
       \<and> non_malleable b \<and> (safe a \<or> safe b \<or> safe c)\<rparr>"
  by (cases "dissat c"; cases "dissat b"; cases "safe a") (auto simp: mall_and_or_def)

interpretation dissat_sub: subtype_order dissat_is_subtype
proof unfold_locales
  fix a b c :: dissat
  show "dissat_is_subtype a a" by simp
  show "dissat_is_subtype a b \<Longrightarrow> dissat_is_subtype b c \<Longrightarrow> dissat_is_subtype a c"
    by (cases a; cases b; cases c) auto
  show "dissat_is_subtype a b \<Longrightarrow> dissat_is_subtype b a \<Longrightarrow> a = b"
    by (cases a; cases b) auto
qed

interpretation mall_sub: subtype_order mall_is_subtype
proof unfold_locales
  fix a b c :: malleability
  show "mall_is_subtype a a" by (simp add: mall_is_subtype_def)
  show "mall_is_subtype a b \<Longrightarrow> mall_is_subtype b c \<Longrightarrow> mall_is_subtype a c"
    by (auto simp: mall_is_subtype_def simp del: dissat_is_subtype.simps
        intro: dissat_sub.sub_trans)
  show "mall_is_subtype a b \<Longrightarrow> mall_is_subtype b a \<Longrightarrow> a = b"
    by (auto simp: mall_is_subtype_def simp del: dissat_is_subtype.simps
        intro: malleability.equality dissat_sub.sub_antisym)
qed

end
