(* ===== verification/Types_ExtData.thy ===== *)
theory Types_ExtData
  imports Types_Correctness
begin

text \<open>
  Extra type data (\<open>miniscript/types/extra_props.rs\<close>): script size, opcode counts, witness
  element counts and sizes, and timelock mixing, each computed bottom-up like a type.

  The methods of \<open>elements::LockTime\<close> and \<open>elements::Sequence\<close> are third-party code; they
  are the fields of the parameter \<open>lock_lib\<close>. A lock time or a sequence number is its
  consensus \<open>u32\<close>. The panics of \<open>threshold\<close> (its two \<open>expect\<close>s) are the value \<open>None\<close>.
\<close>

record lock_lib =
  is_block_height :: "u32 \<Rightarrow> bool"
  is_block_time :: "u32 \<Rightarrow> bool"
  is_relative_lock_time :: "u32 \<Rightarrow> bool"
  is_height_locked :: "u32 \<Rightarrow> bool"
  is_time_locked :: "u32 \<Rightarrow> bool"

datatype sig_type = Ecdsa | Schnorr

definition script_num_size :: "nat \<Rightarrow> nat" where
  "script_num_size n =
     (if n \<le> 0x10 then 1
      else if n < 0x80 then 2
      else if n < 0x8000 then 3
      else if n < 0x800000 then 4
      else if n < 0x80000000 then 5
      else 6)"

section \<open>Timelock information\<close>

record timelock_info =
  csv_with_height :: bool
  csv_with_time :: bool
  cltv_with_height :: bool
  cltv_with_time :: bool
  contains_combination :: bool

definition timelock_default :: timelock_info where
  "timelock_default = \<lparr>csv_with_height = False, csv_with_time = False,
     cltv_with_height = False, cltv_with_time = False, contains_combination = False\<rparr>"

definition contains_unspendable_path :: "timelock_info \<Rightarrow> bool" where
  "contains_unspendable_path t = contains_combination t"

definition height_and_time :: "timelock_info \<Rightarrow> timelock_info \<Rightarrow> bool" where
  "height_and_time acc t \<longleftrightarrow>
     (csv_with_height acc \<and> csv_with_time t) \<or> (csv_with_time acc \<and> csv_with_height t)
     \<or> (cltv_with_time acc \<and> cltv_with_height t) \<or> (cltv_with_height acc \<and> cltv_with_time t)"

definition combine_step :: "nat \<Rightarrow> timelock_info \<Rightarrow> timelock_info \<Rightarrow> timelock_info" where
  "combine_step k acc t =
     \<lparr>csv_with_height = csv_with_height acc \<or> csv_with_height t,
      csv_with_time = csv_with_time acc \<or> csv_with_time t,
      cltv_with_height = cltv_with_height acc \<or> cltv_with_height t,
      cltv_with_time = cltv_with_time acc \<or> cltv_with_time t,
      contains_combination = contains_combination acc \<or> (k > 1 \<and> height_and_time acc t)
        \<or> contains_combination t\<rparr>"

definition combine_threshold :: "nat \<Rightarrow> timelock_info list \<Rightarrow> timelock_info" where
  "combine_threshold k ts = foldl (combine_step k) timelock_default ts"

definition combine_and :: "timelock_info \<Rightarrow> timelock_info \<Rightarrow> timelock_info" where
  "combine_and a b = combine_threshold 2 [a, b]"

definition combine_or :: "timelock_info \<Rightarrow> timelock_info \<Rightarrow> timelock_info" where
  "combine_or a b = combine_threshold 1 [a, b]"

section \<open>Opcode limits and the extra data record\<close>

record op_limits =
  op_count_static :: nat
  op_sat :: "nat option"
  op_nsat :: "nat option"

definition op_limits_new :: "nat \<Rightarrow> nat option \<Rightarrow> nat option \<Rightarrow> op_limits" where
  "op_limits_new c s n = \<lparr>op_count_static = c, op_sat = s, op_nsat = n\<rparr>"

definition op_count :: "op_limits \<Rightarrow> nat option" where
  "op_count l = map_option (\<lambda>s. op_count_static l + s) (op_sat l)"

record ext_data =
  pk_cost :: nat
  has_free_verify :: bool
  ops :: op_limits
  stack_elem_count_sat :: "nat option"
  stack_elem_count_dissat :: "nat option"
  max_sat_size :: "(nat \<times> nat) option"
  max_dissat_size :: "(nat \<times> nat) option"
  timelock_info :: timelock_info
  exec_stack_elem_count_sat :: "nat option"
  exec_stack_elem_count_dissat :: "nat option"

definition ext_sanity_checks :: "ext_data \<Rightarrow> bool" where
  "ext_sanity_checks e \<longleftrightarrow>
     (stack_elem_count_sat e \<noteq> None) = (exec_stack_elem_count_sat e \<noteq> None)
     \<and> (stack_elem_count_dissat e \<noteq> None) = (exec_stack_elem_count_dissat e \<noteq> None)"

text \<open>Component-wise sum of two \<open>(witness, scriptSig)\<close> costs, when both are known.\<close>

definition size_add :: "(nat \<times> nat) option \<Rightarrow> (nat \<times> nat) option \<Rightarrow> (nat \<times> nat) option" where
  "size_add a b = Option.bind a (\<lambda>(wa, sa). map_option (\<lambda>(wb, sb). (wa + wb, sa + sb)) b)"

section \<open>Leaves\<close>

definition ext_from_true :: ext_data where
  "ext_from_true = \<lparr>pk_cost = 1, has_free_verify = False, ops = op_limits_new 0 (Some 0) None,
     stack_elem_count_sat = Some 0, stack_elem_count_dissat = None,
     max_sat_size = Some (0, 0), max_dissat_size = None, timelock_info = timelock_default,
     exec_stack_elem_count_sat = Some 1, exec_stack_elem_count_dissat = None\<rparr>"

definition ext_from_false :: ext_data where
  "ext_from_false = \<lparr>pk_cost = 1, has_free_verify = False, ops = op_limits_new 0 None (Some 0),
     stack_elem_count_sat = None, stack_elem_count_dissat = Some 0,
     max_sat_size = None, max_dissat_size = Some (0, 0), timelock_info = timelock_default,
     exec_stack_elem_count_sat = None, exec_stack_elem_count_dissat = Some 1\<rparr>"

definition ext_from_pk_k :: "sig_type \<Rightarrow> ext_data" where
  "ext_from_pk_k st = \<lparr>pk_cost = (case st of Ecdsa \<Rightarrow> 34 | Schnorr \<Rightarrow> 33),
     has_free_verify = False, ops = op_limits_new 0 (Some 0) (Some 0),
     stack_elem_count_sat = Some 1, stack_elem_count_dissat = Some 1,
     max_sat_size = (case st of Ecdsa \<Rightarrow> Some (73, 73) | Schnorr \<Rightarrow> Some (66, 66)),
     max_dissat_size = Some (1, 1), timelock_info = timelock_default,
     exec_stack_elem_count_sat = Some 1, exec_stack_elem_count_dissat = Some 1\<rparr>"

definition ext_from_pk_h :: "sig_type \<Rightarrow> ext_data" where
  "ext_from_pk_h st = \<lparr>pk_cost = 24,
     has_free_verify = False, ops = op_limits_new 3 (Some 0) (Some 0),
     stack_elem_count_sat = Some 2, stack_elem_count_dissat = Some 2,
     max_sat_size = (case st of Ecdsa \<Rightarrow> Some (34 + 73, 34 + 73) | Schnorr \<Rightarrow> Some (66 + 33, 33 + 66)),
     max_dissat_size = (case st of Ecdsa \<Rightarrow> Some (35, 35) | Schnorr \<Rightarrow> Some (34, 34)),
     timelock_info = timelock_default,
     exec_stack_elem_count_sat = Some 2, exec_stack_elem_count_dissat = Some 2\<rparr>"

definition multi_num_cost :: "nat \<Rightarrow> nat \<Rightarrow> nat" where
  "multi_num_cost k n =
     (case (k > 16, n > 16) of
        (True, True) \<Rightarrow> 4 | (False, True) \<Rightarrow> 3 | (True, False) \<Rightarrow> 3 | (False, False) \<Rightarrow> 2)"

definition ext_from_multi :: "nat \<Rightarrow> nat \<Rightarrow> ext_data" where
  "ext_from_multi k n = \<lparr>pk_cost = multi_num_cost k n + 34 * n + 1,
     has_free_verify = True, ops = op_limits_new 1 (Some n) (Some n),
     stack_elem_count_sat = Some (k + 1), stack_elem_count_dissat = Some (k + 1),
     max_sat_size = Some (1 + 73 * k, 1 + 73 * k), max_dissat_size = Some (1 + k, 1 + k),
     timelock_info = timelock_default,
     exec_stack_elem_count_sat = Some n, exec_stack_elem_count_dissat = Some n\<rparr>"

definition ext_from_multi_a :: "nat \<Rightarrow> nat \<Rightarrow> ext_data" where
  "ext_from_multi_a k n = \<lparr>pk_cost = multi_num_cost k n + 33 * n + (n - 1) + 1,
     has_free_verify = True, ops = op_limits_new n (Some 0) (Some 0),
     stack_elem_count_sat = Some n, stack_elem_count_dissat = Some n,
     max_sat_size = Some ((n - k) + 66 * k, (n - k) + 66 * k), max_dissat_size = Some (n, n),
     timelock_info = timelock_default,
     exec_stack_elem_count_sat = Some 2, exec_stack_elem_count_dissat = Some 2\<rparr>"

definition ext_from_sha256 :: ext_data where
  "ext_from_sha256 = \<lparr>pk_cost = 33 + 6, has_free_verify = True,
     ops = op_limits_new 4 (Some 0) (Some 0),
     stack_elem_count_sat = Some 1, stack_elem_count_dissat = Some 1,
     max_sat_size = Some (33, 33), max_dissat_size = Some (33, 33),
     timelock_info = timelock_default,
     exec_stack_elem_count_sat = Some 2, exec_stack_elem_count_dissat = Some 2\<rparr>"

definition ext_from_hash256 :: ext_data where
  "ext_from_hash256 = \<lparr>pk_cost = 33 + 6, has_free_verify = True,
     ops = op_limits_new 4 (Some 0) (Some 0),
     stack_elem_count_sat = Some 1, stack_elem_count_dissat = Some 1,
     max_sat_size = Some (33, 33), max_dissat_size = Some (33, 33),
     timelock_info = timelock_default,
     exec_stack_elem_count_sat = Some 2, exec_stack_elem_count_dissat = Some 2\<rparr>"

definition ext_from_ripemd160 :: ext_data where
  "ext_from_ripemd160 = \<lparr>pk_cost = 21 + 6, has_free_verify = True,
     ops = op_limits_new 4 (Some 0) (Some 0),
     stack_elem_count_sat = Some 1, stack_elem_count_dissat = Some 1,
     max_sat_size = Some (33, 33), max_dissat_size = Some (33, 33),
     timelock_info = timelock_default,
     exec_stack_elem_count_sat = Some 2, exec_stack_elem_count_dissat = Some 2\<rparr>"

definition ext_from_hash160 :: ext_data where
  "ext_from_hash160 = \<lparr>pk_cost = 21 + 6, has_free_verify = True,
     ops = op_limits_new 4 (Some 0) (Some 0),
     stack_elem_count_sat = Some 1, stack_elem_count_dissat = Some 1,
     max_sat_size = Some (33, 33), max_dissat_size = Some (33, 33),
     timelock_info = timelock_default,
     exec_stack_elem_count_sat = Some 2, exec_stack_elem_count_dissat = Some 2\<rparr>"

definition ext_from_after :: "lock_lib \<Rightarrow> u32 \<Rightarrow> ext_data" where
  "ext_from_after L t = \<lparr>pk_cost = script_num_size (unat t) + 1, has_free_verify = False,
     ops = op_limits_new 1 (Some 0) None,
     stack_elem_count_sat = Some 0, stack_elem_count_dissat = None,
     max_sat_size = Some (0, 0), max_dissat_size = None,
     timelock_info = \<lparr>csv_with_height = False, csv_with_time = False,
       cltv_with_height = is_block_height L t, cltv_with_time = is_block_time L t,
       contains_combination = False\<rparr>,
     exec_stack_elem_count_sat = Some 1, exec_stack_elem_count_dissat = None\<rparr>"

definition ext_from_older :: "lock_lib \<Rightarrow> u32 \<Rightarrow> ext_data" where
  "ext_from_older L t = \<lparr>pk_cost = script_num_size (unat t) + 1, has_free_verify = False,
     ops = op_limits_new 1 (Some 0) None,
     stack_elem_count_sat = Some 0, stack_elem_count_dissat = None,
     max_sat_size = Some (0, 0), max_dissat_size = None,
     timelock_info = \<lparr>csv_with_height = is_height_locked L t, csv_with_time = is_time_locked L t,
       cltv_with_height = False, cltv_with_time = False, contains_combination = False\<rparr>,
     exec_stack_elem_count_sat = Some 1, exec_stack_elem_count_dissat = None\<rparr>"

section \<open>Wrappers\<close>

definition ext_cast_alt :: "ext_data \<Rightarrow> error_kind + ext_data" where
  "ext_cast_alt s = Inr (s\<lparr>pk_cost := pk_cost s + 2, has_free_verify := False,
     ops := op_limits_new (2 + op_count_static (ops s)) (op_sat (ops s)) (op_nsat (ops s))\<rparr>)"

definition ext_cast_swap :: "ext_data \<Rightarrow> error_kind + ext_data" where
  "ext_cast_swap s = Inr (s\<lparr>pk_cost := pk_cost s + 1,
     ops := op_limits_new (1 + op_count_static (ops s)) (op_sat (ops s)) (op_nsat (ops s))\<rparr>)"

definition ext_cast_check :: "ext_data \<Rightarrow> error_kind + ext_data" where
  "ext_cast_check s = Inr (s\<lparr>pk_cost := pk_cost s + 1, has_free_verify := True,
     ops := op_limits_new (1 + op_count_static (ops s)) (op_sat (ops s)) (op_nsat (ops s))\<rparr>)"

definition ext_cast_dupif :: "ext_data \<Rightarrow> error_kind + ext_data" where
  "ext_cast_dupif s = Inr (s\<lparr>pk_cost := pk_cost s + 3, has_free_verify := False,
     ops := op_limits_new (3 + op_count_static (ops s)) (op_sat (ops s)) (Some 0),
     stack_elem_count_sat := map_option (\<lambda>x. x + 1) (stack_elem_count_sat s),
     stack_elem_count_dissat := Some 1,
     max_sat_size := map_option (\<lambda>(w, ss). (w + 2, ss + 1)) (max_sat_size s),
     max_dissat_size := Some (1, 1),
     exec_stack_elem_count_dissat := Some 1\<rparr>)"

definition ext_cast_verify :: "ext_data \<Rightarrow> error_kind + ext_data" where
  "ext_cast_verify s =
     (let verify_cost = (if has_free_verify s then 0 else 1)
      in Inr (s\<lparr>pk_cost := pk_cost s + verify_cost, has_free_verify := False,
           ops := op_limits_new (verify_cost + op_count_static (ops s)) (op_sat (ops s)) None,
           stack_elem_count_dissat := None, max_dissat_size := None,
           exec_stack_elem_count_dissat := None\<rparr>))"

definition ext_cast_nonzero :: "ext_data \<Rightarrow> error_kind + ext_data" where
  "ext_cast_nonzero s = Inr (s\<lparr>pk_cost := pk_cost s + 4, has_free_verify := False,
     ops := op_limits_new (4 + op_count_static (ops s)) (op_sat (ops s)) (Some 0),
     stack_elem_count_dissat := Some 1, max_dissat_size := Some (1, 1),
     exec_stack_elem_count_dissat := Some 1\<rparr>)"

definition ext_cast_zeronotequal :: "ext_data \<Rightarrow> error_kind + ext_data" where
  "ext_cast_zeronotequal s = Inr (s\<lparr>pk_cost := pk_cost s + 1, has_free_verify := False,
     ops := op_limits_new (1 + op_count_static (ops s)) (op_sat (ops s)) (op_nsat (ops s))\<rparr>)"

section \<open>Conjunctions and disjunctions\<close>

definition ext_and_b :: "ext_data \<Rightarrow> ext_data \<Rightarrow> error_kind + ext_data" where
  "ext_and_b l r = Inr \<lparr>pk_cost = pk_cost l + pk_cost r + 1, has_free_verify = False,
     ops = op_limits_new (1 + op_count_static (ops l) + op_count_static (ops r))
       (opt_add (op_sat (ops l)) (op_sat (ops r))) (opt_add (op_nsat (ops l)) (op_nsat (ops r))),
     stack_elem_count_sat = opt_add (stack_elem_count_sat l) (stack_elem_count_sat r),
     stack_elem_count_dissat = opt_add (stack_elem_count_dissat l) (stack_elem_count_dissat r),
     max_sat_size = size_add (max_sat_size l) (max_sat_size r),
     max_dissat_size = size_add (max_dissat_size l) (max_dissat_size r),
     timelock_info = combine_and (timelock_info l) (timelock_info r),
     exec_stack_elem_count_sat = opt_max (exec_stack_elem_count_sat l)
       (map_option (\<lambda>x. x + 1) (exec_stack_elem_count_sat r)),
     exec_stack_elem_count_dissat = opt_max (exec_stack_elem_count_dissat l)
       (map_option (\<lambda>x. x + 1) (exec_stack_elem_count_dissat r))\<rparr>"

definition ext_and_v :: "ext_data \<Rightarrow> ext_data \<Rightarrow> error_kind + ext_data" where
  "ext_and_v l r = Inr \<lparr>pk_cost = pk_cost l + pk_cost r, has_free_verify = has_free_verify r,
     ops = op_limits_new (op_count_static (ops l) + op_count_static (ops r))
       (opt_add (op_sat (ops l)) (op_sat (ops r))) None,
     stack_elem_count_sat = opt_add (stack_elem_count_sat l) (stack_elem_count_sat r),
     stack_elem_count_dissat = None,
     max_sat_size = size_add (max_sat_size l) (max_sat_size r),
     max_dissat_size = None,
     timelock_info = combine_and (timelock_info l) (timelock_info r),
     exec_stack_elem_count_sat = opt_max (exec_stack_elem_count_sat l) (exec_stack_elem_count_sat r),
     exec_stack_elem_count_dissat = None\<rparr>"

definition ext_or_b :: "ext_data \<Rightarrow> ext_data \<Rightarrow> error_kind + ext_data" where
  "ext_or_b l r = Inr \<lparr>pk_cost = pk_cost l + pk_cost r + 1, has_free_verify = False,
     ops = op_limits_new (op_count_static (ops l) + op_count_static (ops r) + 1)
       (max (opt_add (op_sat (ops l)) (op_nsat (ops r))) (opt_add (op_nsat (ops l)) (op_sat (ops r))))
       (opt_add (op_nsat (ops l)) (op_nsat (ops r))),
     stack_elem_count_sat = max (opt_add (stack_elem_count_sat l) (stack_elem_count_dissat r))
       (opt_add (stack_elem_count_dissat l) (stack_elem_count_sat r)),
     stack_elem_count_dissat = opt_add (stack_elem_count_dissat l) (stack_elem_count_dissat r),
     max_sat_size = max (size_add (max_sat_size l) (max_dissat_size r))
       (size_add (max_dissat_size l) (max_sat_size r)),
     max_dissat_size = size_add (max_dissat_size l) (max_dissat_size r),
     timelock_info = combine_or (timelock_info l) (timelock_info r),
     exec_stack_elem_count_sat =
       max (opt_max (exec_stack_elem_count_sat l) (map_option (\<lambda>x. x + 1) (exec_stack_elem_count_dissat r)))
           (opt_max (exec_stack_elem_count_dissat l) (map_option (\<lambda>x. x + 1) (exec_stack_elem_count_sat r))),
     exec_stack_elem_count_dissat =
       opt_max (exec_stack_elem_count_dissat l) (map_option (\<lambda>x. x + 1) (exec_stack_elem_count_dissat r))\<rparr>"

definition ext_or_d :: "ext_data \<Rightarrow> ext_data \<Rightarrow> error_kind + ext_data" where
  "ext_or_d l r = Inr \<lparr>pk_cost = pk_cost l + pk_cost r + 3, has_free_verify = False,
     ops = op_limits_new (op_count_static (ops l) + op_count_static (ops r) + 3)
       (max (op_sat (ops l)) (opt_add (op_nsat (ops l)) (op_sat (ops r))))
       (opt_add (op_nsat (ops l)) (op_nsat (ops r))),
     stack_elem_count_sat = max (stack_elem_count_sat l)
       (opt_add (stack_elem_count_dissat l) (stack_elem_count_sat r)),
     stack_elem_count_dissat = opt_add (stack_elem_count_dissat l) (stack_elem_count_dissat r),
     max_sat_size = max (max_sat_size l) (size_add (max_dissat_size l) (max_sat_size r)),
     max_dissat_size = size_add (max_dissat_size l) (max_dissat_size r),
     timelock_info = combine_or (timelock_info l) (timelock_info r),
     exec_stack_elem_count_sat = max (exec_stack_elem_count_sat l)
       (opt_max (exec_stack_elem_count_sat r) (exec_stack_elem_count_dissat l)),
     exec_stack_elem_count_dissat =
       opt_max (exec_stack_elem_count_dissat l) (map_option (\<lambda>x. x + 1) (exec_stack_elem_count_dissat r))\<rparr>"

definition ext_or_c :: "ext_data \<Rightarrow> ext_data \<Rightarrow> error_kind + ext_data" where
  "ext_or_c l r = Inr \<lparr>pk_cost = pk_cost l + pk_cost r + 2, has_free_verify = False,
     ops = op_limits_new (op_count_static (ops l) + op_count_static (ops r) + 2)
       (max (op_sat (ops l)) (opt_add (op_nsat (ops l)) (op_sat (ops r)))) None,
     stack_elem_count_sat = max (stack_elem_count_sat l)
       (opt_add (stack_elem_count_dissat l) (stack_elem_count_sat r)),
     stack_elem_count_dissat = None,
     max_sat_size = max (max_sat_size l) (size_add (max_dissat_size l) (max_sat_size r)),
     max_dissat_size = None,
     timelock_info = combine_or (timelock_info l) (timelock_info r),
     exec_stack_elem_count_sat = max (exec_stack_elem_count_sat l)
       (opt_max (exec_stack_elem_count_sat r) (exec_stack_elem_count_dissat l)),
     exec_stack_elem_count_dissat = None\<rparr>"

definition or_i_count :: "nat option \<Rightarrow> nat option \<Rightarrow> nat option" where
  "or_i_count l r =
     (case (l, r) of
        (Some l, Some r) \<Rightarrow> Some (1 + max l r)
      | (Some l, None) \<Rightarrow> Some (1 + l)
      | (None, Some r) \<Rightarrow> Some (1 + r)
      | (None, None) \<Rightarrow> None)"

definition ext_or_i :: "ext_data \<Rightarrow> ext_data \<Rightarrow> error_kind + ext_data" where
  "ext_or_i l r = Inr \<lparr>pk_cost = pk_cost l + pk_cost r + 3, has_free_verify = False,
     ops = op_limits_new (op_count_static (ops l) + op_count_static (ops r) + 3)
       (max (op_sat (ops l)) (op_sat (ops r))) (max (op_nsat (ops l)) (op_nsat (ops r))),
     stack_elem_count_sat = or_i_count (stack_elem_count_sat l) (stack_elem_count_sat r),
     stack_elem_count_dissat = or_i_count (stack_elem_count_dissat l) (stack_elem_count_dissat r),
     max_sat_size = max (map_option (\<lambda>(w, s). (w + 2, s + 1)) (max_sat_size l))
       (map_option (\<lambda>(w, s). (w + 1, s + 1)) (max_sat_size r)),
     max_dissat_size =
       (case (max_dissat_size l, max_dissat_size r) of
          (Some l, Some r) \<Rightarrow> (let m = max l r in Some (1 + fst m, 1 + snd m))
        | (None, Some r) \<Rightarrow> Some (1 + fst r, 1 + snd r)
        | (Some l, None) \<Rightarrow> Some (2 + fst l, 1 + snd l)
        | (None, None) \<Rightarrow> None),
     timelock_info = combine_or (timelock_info l) (timelock_info r),
     exec_stack_elem_count_sat = max (exec_stack_elem_count_sat l) (exec_stack_elem_count_sat r),
     exec_stack_elem_count_dissat = max (exec_stack_elem_count_dissat l) (exec_stack_elem_count_dissat r)\<rparr>"

definition ext_and_or :: "ext_data \<Rightarrow> ext_data \<Rightarrow> ext_data \<Rightarrow> error_kind + ext_data" where
  "ext_and_or a b c = Inr \<lparr>pk_cost = pk_cost a + pk_cost b + pk_cost c + 3, has_free_verify = False,
     ops = op_limits_new
       (op_count_static (ops a) + op_count_static (ops b) + op_count_static (ops c) + 3)
       (max (opt_add (op_sat (ops a)) (op_sat (ops b))) (opt_add (op_nsat (ops a)) (op_sat (ops c))))
       (opt_add (op_nsat (ops a)) (op_nsat (ops c))),
     stack_elem_count_sat = max (opt_add (stack_elem_count_sat a) (stack_elem_count_sat b))
       (opt_add (stack_elem_count_dissat a) (stack_elem_count_sat c)),
     stack_elem_count_dissat = opt_add (stack_elem_count_dissat a) (stack_elem_count_dissat c),
     max_sat_size = max (size_add (max_sat_size a) (max_sat_size b))
       (size_add (max_dissat_size a) (max_sat_size c)),
     max_dissat_size = size_add (max_dissat_size a) (max_dissat_size c),
     timelock_info = combine_or (combine_and (timelock_info a) (timelock_info b)) (timelock_info c),
     exec_stack_elem_count_sat =
       max (opt_max (exec_stack_elem_count_sat a) (exec_stack_elem_count_sat b))
           (opt_max (exec_stack_elem_count_sat c) (exec_stack_elem_count_dissat a)),
     exec_stack_elem_count_dissat =
       opt_max (exec_stack_elem_count_dissat a) (exec_stack_elem_count_dissat c)\<rparr>"

section \<open>Thresholds\<close>

text \<open>The sort keys of the three comparison functions passed to \<open>sort_by\<close>, which is stable.\<close>

definition sat_minus_dissat :: "nat option \<times> nat \<Rightarrow> int option" where
  "sat_minus_dissat a = map_option (\<lambda>x. int x - int (snd a)) (fst a)"

definition sat_minus_option_dissat :: "nat option \<times> nat option \<Rightarrow> int option option" where
  "sat_minus_option_dissat a =
     map_option (\<lambda>x. map_option (\<lambda>y. int x - int y) (snd a)) (fst a)"

definition sat_minus_dissat_witness ::
  "(nat \<times> nat) option \<times> (nat \<times> nat) option \<Rightarrow> int option option" where
  "sat_minus_dissat_witness a =
     map_option (\<lambda>x. map_option (\<lambda>y. int (fst x) - int (fst y)) (snd a)) (fst a)"

text \<open>
  \<open>enumerate().try_fold(acc, ...)\<close> as \<open>threshold\<close> uses it: positions up to and including
  \<open>k\<close> contribute their satisfaction cost, the others their dissatisfaction cost.
\<close>

fun thresh_try_fold :: "('acc \<Rightarrow> 'x \<Rightarrow> 'acc) \<Rightarrow> nat \<Rightarrow> nat \<Rightarrow> 'acc \<Rightarrow> ('x option \<times> 'x option) list \<Rightarrow> 'acc option" where
  "thresh_try_fold f k i acc [] = Some acc"
| "thresh_try_fold f k i acc ((x, y) # ps) =
     (case (if i \<le> k then x else y) of
        None \<Rightarrow> None
      | Some v \<Rightarrow> thresh_try_fold f k (Suc i) (f acc v) ps)"

text \<open>
  The loop over the children keeps the running sums of dissatisfaction costs; \<open>None\<close> is a
  failed \<open>expect\<close>.
\<close>

fun ext_dissat_loop :: "nat option \<Rightarrow> (nat \<times> nat) option \<Rightarrow> nat option \<Rightarrow> nat \<Rightarrow> ext_data list \<Rightarrow>
    (nat option \<times> (nat \<times> nat) option \<times> nat option \<times> nat) option" where
  "ext_dissat_loop elems sz exec nsat [] = Some (elems, sz, exec, nsat)"
| "ext_dissat_loop elems sz exec nsat (e # es) =
     Option.bind
       (case stack_elem_count_dissat e of
          Some n_items \<Rightarrow>
            (case max_dissat_size e of
               None \<Rightarrow> None
             | Some sub \<Rightarrow> Some (map_option (\<lambda>x. x + n_items) elems,
                 map_option (\<lambda>(w, s). (w + fst sub, s + snd sub)) sz))
        | None \<Rightarrow> Some (None, sz))
       (\<lambda>(elems', sz').
          case op_nsat (ops e) of
            None \<Rightarrow> None
          | Some sub_nsat \<Rightarrow>
              ext_dissat_loop elems' sz' (opt_max exec (exec_stack_elem_count_dissat e))
                (nsat + sub_nsat) es)"

definition ext_threshold :: "nat \<Rightarrow> ext_data list \<Rightarrow> (error_kind + ext_data) option" where
  "ext_threshold k es =
     Option.bind (ext_dissat_loop (Some 0) (Some (0, 0)) (Some 0) 0 es)
       (\<lambda>(elems_dissat, size_dissat, exec_dissat, nsat_sum).
         let n = length es;
             stack_vec = sort_key sat_minus_option_dissat
               (map (\<lambda>e. (stack_elem_count_sat e, stack_elem_count_dissat e)) es);
             exec_vec = sort_key sat_minus_option_dissat
               (map (\<lambda>e. (exec_stack_elem_count_sat e, exec_stack_elem_count_dissat e)) es);
             size_vec = sort_key sat_minus_dissat_witness
               (map (\<lambda>e. (max_sat_size e, max_sat_size e)) es);
             ops_vec = sort_key sat_minus_dissat
               (map (\<lambda>e. (op_sat (ops e), the (op_nsat (ops e)))) es)
         in Some (Inr \<lparr>
              pk_cost = 1 + script_num_size k + sum_list (map pk_cost es) + n - 1,
              has_free_verify = True,
              ops = op_limits_new (sum_list (map (\<lambda>e. op_count_static (ops e)) es) + 1 + (n - 1))
                (thresh_try_fold (+) k 0 0 (map (\<lambda>(x, y). (x, Some y)) ops_vec))
                (Some nsat_sum),
              stack_elem_count_sat = thresh_try_fold (+) k 0 0 (rev stack_vec),
              stack_elem_count_dissat = elems_dissat,
              max_sat_size =
                thresh_try_fold (\<lambda>acc x. (fst acc + fst x, snd acc + snd x)) k 0 (0, 0) size_vec,
              max_dissat_size = size_dissat,
              timelock_info = combine_threshold k (map timelock_info es),
              exec_stack_elem_count_sat = thresh_try_fold max k 0 0 (rev exec_vec),
              exec_stack_elem_count_dissat = exec_dissat\<rparr>))"

lemmas ext_leaf_defs = ext_from_true_def ext_from_false_def ext_from_pk_k_def ext_from_pk_h_def
  ext_from_multi_def ext_from_multi_a_def ext_from_sha256_def ext_from_hash256_def
  ext_from_ripemd160_def ext_from_hash160_def ext_from_after_def ext_from_older_def

lemmas ext_cast_defs = ext_cast_alt_def ext_cast_swap_def ext_cast_check_def ext_cast_dupif_def
  ext_cast_verify_def ext_cast_nonzero_def ext_cast_zeronotequal_def

lemmas ext_comb_defs = ext_and_b_def ext_and_v_def ext_or_b_def ext_or_d_def ext_or_c_def
  ext_or_i_def ext_and_or_def

end
