(* ===== verification/Ast.thy ===== *)
theory Ast
  imports Types_Malleability Types_ExtData
begin

text \<open>
  The syntax tree (\<open>Terminal\<close> of \<open>miniscript/decode.rs\<close>, \<open>Miniscript\<close> of
  \<open>miniscript/mod.rs\<close>), the combined type (\<open>Type\<close> of \<open>miniscript/types/mod.rs\<close>) and the
  two type checkers that compute a node's cached \<open>ty\<close> and \<open>ext\<close> from its children's.

  Keys are a type variable \<open>'pk\<close>; the four associated hash types of \<open>MiniscriptKey\<close> share the
  type variable \<open>'h\<close>. Extension fragments are \<open>'e\<close>, with the methods of the \<open>Extension\<close> trait
  passed as the dictionary \<open>extension\<close>.
\<close>

record ms_type =
  corr :: correctness
  mall :: malleability

definition type_is_subtype :: "ms_type \<Rightarrow> ms_type \<Rightarrow> bool" where
  "type_is_subtype self other \<longleftrightarrow>
     corr_is_subtype (corr self) (corr other) \<and> mall_is_subtype (mall self) (mall other)"

definition type_sanity_checks :: "ms_type \<Rightarrow> bool" where
  "type_sanity_checks t \<longleftrightarrow>
     (\<not> dissatisfiable (corr t) \<or> dissat (mall t) \<noteq> Dissat_None)
     \<and> (dissat (mall t) = Dissat_None \<or> base (corr t) \<noteq> Base_V)
     \<and> (safe (mall t) \<or> base (corr t) \<noteq> Base_K)
     \<and> (non_malleable (mall t) \<or> input (corr t) \<noteq> Input_Zero)"

record 'e extension =
  corr_prop :: "'e \<Rightarrow> correctness"
  mall_prop :: "'e \<Rightarrow> malleability"
  extra_prop :: "'e \<Rightarrow> ext_data"

datatype (terminal_pk: 'pk, terminal_h: 'h, terminal_e: 'e) terminal =
    TrueT
  | FalseT
  | PkK 'pk
  | PkH 'pk
  | RawPkH bytes
  | After u32
  | Older u32
  | Sha256 'h
  | Hash256 'h
  | Ripemd160 'h
  | Hash160 'h
  | Alt "('pk, 'h, 'e) miniscript"
  | Swap "('pk, 'h, 'e) miniscript"
  | Check "('pk, 'h, 'e) miniscript"
  | DupIf "('pk, 'h, 'e) miniscript"
  | Verify "('pk, 'h, 'e) miniscript"
  | NonZero "('pk, 'h, 'e) miniscript"
  | ZeroNotEqual "('pk, 'h, 'e) miniscript"
  | AndV "('pk, 'h, 'e) miniscript" "('pk, 'h, 'e) miniscript"
  | AndB "('pk, 'h, 'e) miniscript" "('pk, 'h, 'e) miniscript"
  | AndOr "('pk, 'h, 'e) miniscript" "('pk, 'h, 'e) miniscript" "('pk, 'h, 'e) miniscript"
  | OrB "('pk, 'h, 'e) miniscript" "('pk, 'h, 'e) miniscript"
  | OrD "('pk, 'h, 'e) miniscript" "('pk, 'h, 'e) miniscript"
  | OrC "('pk, 'h, 'e) miniscript" "('pk, 'h, 'e) miniscript"
  | OrI "('pk, 'h, 'e) miniscript" "('pk, 'h, 'e) miniscript"
  | Thresh nat "('pk, 'h, 'e) miniscript list"
  | Multi nat "'pk list"
  | MultiA nat "'pk list"
  | ExtT 'e
and (miniscript_pk: 'pk, miniscript_h: 'h, miniscript_e: 'e) miniscript =
    Miniscript (node: "('pk, 'h, 'e) terminal") (ty: ms_type) (ext: ext_data)

section \<open>Children, recursion and induction\<close>

fun children :: "('pk, 'h, 'e) terminal \<Rightarrow> ('pk, 'h, 'e) miniscript list" where
  "children (Alt a) = [a]"
| "children (Swap a) = [a]"
| "children (Check a) = [a]"
| "children (DupIf a) = [a]"
| "children (Verify a) = [a]"
| "children (NonZero a) = [a]"
| "children (ZeroNotEqual a) = [a]"
| "children (AndV a b) = [a, b]"
| "children (AndB a b) = [a, b]"
| "children (AndOr a b c) = [a, b, c]"
| "children (OrB a b) = [a, b]"
| "children (OrD a b) = [a, b]"
| "children (OrC a b) = [a, b]"
| "children (OrI a b) = [a, b]"
| "children (Thresh k subs) = subs"
| "children _ = []"

lemma size_node [termination_simp]: "size (node m) < size m"
  by (cases m) simp

lemma size_children [termination_simp]:
  "m \<in> set (children t) \<Longrightarrow> size m < size t"
  by (cases t) (auto dest: size_list_estimation' [where f = size, OF _ order_refl] simp: less_Suc_eq_le)

lemma size_node_less [termination_simp]: "size m \<le> n \<Longrightarrow> size (node m) < n"
  using size_node [of m] by simp

lemma size_node_list [termination_simp]:
  "m \<in> set subs \<Longrightarrow> size (node m) < Suc (size_list size subs)"
  using size_node [of m] size_list_estimation' [of m subs "size m" size] by simp

text \<open>Induction with one hypothesis for all children of a fragment.\<close>

lemma terminal_children_induct [case_names step]:
  assumes "\<And>t. (\<And>c. c \<in> set (children t) \<Longrightarrow> P (node c)) \<Longrightarrow> P t"
  shows "P t"
proof (induction t rule: measure_induct_rule [where f = size])
  case (less t)
  show ?case
  proof (rule assms)
    fix c assume "c \<in> set (children t)"
    then have "size c < size t" by (rule size_children)
    then have "size (node c) < size t" using size_node [of c] by simp
    then show "P (node c)" by (rule less.IH)
  qed
qed

text \<open>\<open>every_child Q t\<close>: all nodes strictly below the root fragment \<open>t\<close> satisfy \<open>Q\<close>.\<close>

fun every_child :: "(('pk, 'h, 'e) miniscript \<Rightarrow> bool) \<Rightarrow> ('pk, 'h, 'e) terminal \<Rightarrow> bool" where
  "every_child Q t = list_all (\<lambda>c. Q c \<and> every_child Q (node c)) (children t)"

definition every_node :: "(('pk, 'h, 'e) miniscript \<Rightarrow> bool) \<Rightarrow> ('pk, 'h, 'e) miniscript \<Rightarrow> bool" where
  "every_node Q ms \<longleftrightarrow> Q ms \<and> every_child Q (node ms)"

declare every_child.simps [simp del]

lemma every_child_iff: "every_child Q t \<longleftrightarrow> (\<forall>c\<in>set (children t). every_node Q c)"
  by (subst every_child.simps) (auto simp: list_all_iff every_node_def)

lemma every_node_root: "every_node Q ms \<Longrightarrow> Q ms"
  by (simp add: every_node_def)

lemma every_node_child: "every_node Q ms \<Longrightarrow> c \<in> set (children (node ms)) \<Longrightarrow> every_node Q c"
  using every_child_iff [of Q "node ms"] by (simp add: every_node_def [of Q ms])

section \<open>The combined type: both layers at once\<close>

definition ty_both :: "error_kind + correctness \<Rightarrow> error_kind + malleability \<Rightarrow> error_kind + ms_type" where
  "ty_both c m = bind_res c (\<lambda>c'. bind_res m (\<lambda>m'. Inr \<lparr>corr = c', mall = m'\<rparr>))"

definition ty_from_true :: ms_type where
  "ty_from_true = \<lparr>corr = corr_from_true, mall = mall_from_true\<rparr>"
definition ty_from_false :: ms_type where
  "ty_from_false = \<lparr>corr = corr_from_false, mall = mall_from_false\<rparr>"
definition ty_from_pk_k :: ms_type where
  "ty_from_pk_k = \<lparr>corr = corr_from_pk_k, mall = mall_from_pk_k\<rparr>"
definition ty_from_pk_h :: ms_type where
  "ty_from_pk_h = \<lparr>corr = corr_from_pk_h, mall = mall_from_pk_h\<rparr>"
definition ty_from_multi :: "nat \<Rightarrow> nat \<Rightarrow> ms_type" where
  "ty_from_multi k n = \<lparr>corr = corr_from_multi k n, mall = mall_from_multi k n\<rparr>"
definition ty_from_multi_a :: "nat \<Rightarrow> nat \<Rightarrow> ms_type" where
  "ty_from_multi_a k n = \<lparr>corr = corr_from_multi_a k n, mall = mall_from_multi_a k n\<rparr>"
definition ty_from_hash :: ms_type where
  "ty_from_hash = \<lparr>corr = corr_from_hash, mall = mall_from_hash\<rparr>"
definition ty_from_time :: "u32 \<Rightarrow> ms_type" where
  "ty_from_time t = \<lparr>corr = corr_from_time t, mall = mall_from_time t\<rparr>"

definition ty_cast_alt :: "ms_type \<Rightarrow> error_kind + ms_type" where
  "ty_cast_alt t = ty_both (corr_cast_alt (corr t)) (mall_cast_alt (mall t))"
definition ty_cast_swap :: "ms_type \<Rightarrow> error_kind + ms_type" where
  "ty_cast_swap t = ty_both (corr_cast_swap (corr t)) (mall_cast_swap (mall t))"
definition ty_cast_check :: "ms_type \<Rightarrow> error_kind + ms_type" where
  "ty_cast_check t = ty_both (corr_cast_check (corr t)) (mall_cast_check (mall t))"
definition ty_cast_dupif :: "ms_type \<Rightarrow> error_kind + ms_type" where
  "ty_cast_dupif t = ty_both (corr_cast_dupif (corr t)) (mall_cast_dupif (mall t))"
definition ty_cast_verify :: "ms_type \<Rightarrow> error_kind + ms_type" where
  "ty_cast_verify t = ty_both (corr_cast_verify (corr t)) (mall_cast_verify (mall t))"
definition ty_cast_nonzero :: "ms_type \<Rightarrow> error_kind + ms_type" where
  "ty_cast_nonzero t = ty_both (corr_cast_nonzero (corr t)) (mall_cast_nonzero (mall t))"
definition ty_cast_zeronotequal :: "ms_type \<Rightarrow> error_kind + ms_type" where
  "ty_cast_zeronotequal t = ty_both (corr_cast_zeronotequal (corr t)) (mall_cast_zeronotequal (mall t))"
definition ty_cast_true :: "ms_type \<Rightarrow> error_kind + ms_type" where
  "ty_cast_true t = ty_both (corr_cast_true (corr t)) (mall_cast_true (mall t))"
definition ty_cast_or_i_false :: "ms_type \<Rightarrow> error_kind + ms_type" where
  "ty_cast_or_i_false t = ty_both (corr_cast_or_i_false (corr t)) (mall_cast_or_i_false (mall t))"

definition ty_and_b :: "ms_type \<Rightarrow> ms_type \<Rightarrow> error_kind + ms_type" where
  "ty_and_b l r = ty_both (corr_and_b (corr l) (corr r)) (mall_and_b (mall l) (mall r))"
definition ty_and_v :: "ms_type \<Rightarrow> ms_type \<Rightarrow> error_kind + ms_type" where
  "ty_and_v l r = ty_both (corr_and_v (corr l) (corr r)) (mall_and_v (mall l) (mall r))"
definition ty_or_b :: "ms_type \<Rightarrow> ms_type \<Rightarrow> error_kind + ms_type" where
  "ty_or_b l r = ty_both (corr_or_b (corr l) (corr r)) (mall_or_b (mall l) (mall r))"
definition ty_or_d :: "ms_type \<Rightarrow> ms_type \<Rightarrow> error_kind + ms_type" where
  "ty_or_d l r = ty_both (corr_or_d (corr l) (corr r)) (mall_or_d (mall l) (mall r))"
definition ty_or_c :: "ms_type \<Rightarrow> ms_type \<Rightarrow> error_kind + ms_type" where
  "ty_or_c l r = ty_both (corr_or_c (corr l) (corr r)) (mall_or_c (mall l) (mall r))"
definition ty_or_i :: "ms_type \<Rightarrow> ms_type \<Rightarrow> error_kind + ms_type" where
  "ty_or_i l r = ty_both (corr_or_i (corr l) (corr r)) (mall_or_i (mall l) (mall r))"
definition ty_and_or :: "ms_type \<Rightarrow> ms_type \<Rightarrow> ms_type \<Rightarrow> error_kind + ms_type" where
  "ty_and_or a b c =
     ty_both (corr_and_or (corr a) (corr b) (corr c)) (mall_and_or (mall a) (mall b) (mall c))"
definition ty_threshold :: "nat \<Rightarrow> ms_type list \<Rightarrow> error_kind + ms_type" where
  "ty_threshold k ts = ty_both (corr_threshold k (map corr ts)) (mall_threshold k (map mall ts))"
definition ty_from_ext :: "('e, 'z) extension_scheme \<Rightarrow> 'e \<Rightarrow> ms_type" where
  "ty_from_ext E e = \<lparr>corr = corr_prop E e, mall = mall_prop E e\<rparr>"

definition ty_cast_unlikely :: "ms_type \<Rightarrow> error_kind + ms_type" where
  "ty_cast_unlikely t =
     ty_both (corr_or_i (corr t) corr_from_false) (mall_or_i (mall t) mall_from_false)"
definition ty_cast_likely :: "ms_type \<Rightarrow> error_kind + ms_type" where
  "ty_cast_likely t =
     ty_both (corr_or_i corr_from_false (corr t)) (mall_or_i mall_from_false (mall t))"

section \<open>The two type checkers and \<open>from_ast\<close>\<close>

text \<open>The error names the fragment that failed and the reason, as \<open>types::Error\<close> does.\<close>

type_synonym ('pk, 'h, 'e) type_error = "('pk, 'h, 'e) terminal \<times> error_kind"

definition wrap_err :: "('pk, 'h, 'e) terminal \<Rightarrow> error_kind + 'a \<Rightarrow> ('pk, 'h, 'e) type_error + 'a" where
  "wrap_err t r = (case r of Inl k \<Rightarrow> Inl (t, k) | Inr x \<Rightarrow> Inr x)"

definition check_k :: "nat \<Rightarrow> nat \<Rightarrow> error_kind + 'a \<Rightarrow> error_kind + 'a" where
  "check_k k n r = (if k = 0 then Inl ZeroThreshold else if k > n then Inl (OverThreshold k n) else r)"

fun type_rule :: "('e, 'z) extension_scheme \<Rightarrow> lock_lib \<Rightarrow> ('pk, 'h, 'e) terminal \<Rightarrow> error_kind + ms_type" where
  "type_rule E L TrueT = Inr ty_from_true"
| "type_rule E L FalseT = Inr ty_from_false"
| "type_rule E L (PkK _) = Inr ty_from_pk_k"
| "type_rule E L (PkH _) = Inr ty_from_pk_h"
| "type_rule E L (RawPkH _) = Inr ty_from_pk_h"
| "type_rule E L (Multi k pks) = check_k k (length pks) (Inr (ty_from_multi k (length pks)))"
| "type_rule E L (MultiA k pks) = check_k k (length pks) (Inr (ty_from_multi_a k (length pks)))"
| "type_rule E L (After t) = (if t = 0 then Inl InvalidTime else Inr (ty_from_time t))"
| "type_rule E L (Older t) =
     (if t = 0 \<or> \<not> is_relative_lock_time L t then Inl InvalidTime else Inr (ty_from_time t))"
| "type_rule E L (Sha256 _) = Inr ty_from_hash"
| "type_rule E L (Hash256 _) = Inr ty_from_hash"
| "type_rule E L (Ripemd160 _) = Inr ty_from_hash"
| "type_rule E L (Hash160 _) = Inr ty_from_hash"
| "type_rule E L (Alt a) = ty_cast_alt (ty a)"
| "type_rule E L (Swap a) = ty_cast_swap (ty a)"
| "type_rule E L (Check a) = ty_cast_check (ty a)"
| "type_rule E L (DupIf a) = ty_cast_dupif (ty a)"
| "type_rule E L (Verify a) = ty_cast_verify (ty a)"
| "type_rule E L (NonZero a) = ty_cast_nonzero (ty a)"
| "type_rule E L (ZeroNotEqual a) = ty_cast_zeronotequal (ty a)"
| "type_rule E L (AndB l r) = ty_and_b (ty l) (ty r)"
| "type_rule E L (AndV l r) = ty_and_v (ty l) (ty r)"
| "type_rule E L (OrB l r) = ty_or_b (ty l) (ty r)"
| "type_rule E L (OrD l r) = ty_or_d (ty l) (ty r)"
| "type_rule E L (OrC l r) = ty_or_c (ty l) (ty r)"
| "type_rule E L (OrI l r) = ty_or_i (ty l) (ty r)"
| "type_rule E L (AndOr a b c) = ty_and_or (ty a) (ty b) (ty c)"
| "type_rule E L (Thresh k subs) = check_k k (length subs) (ty_threshold k (map ty subs))"
| "type_rule E L (ExtT e) = Inr (ty_from_ext E e)"

definition type_check :: "('e, 'z) extension_scheme \<Rightarrow> lock_lib \<Rightarrow> ('pk, 'h, 'e) terminal \<Rightarrow>
    ('pk, 'h, 'e) type_error + ms_type" where
  "type_check E L t = wrap_err t (type_rule E L t)"

fun ext_rule :: "('e, 'z) extension_scheme \<Rightarrow> lock_lib \<Rightarrow> sig_type \<Rightarrow> ('pk, 'h, 'e) terminal \<Rightarrow>
    (error_kind + ext_data) option" where
  "ext_rule E L st TrueT = Some (Inr ext_from_true)"
| "ext_rule E L st FalseT = Some (Inr ext_from_false)"
| "ext_rule E L st (PkK _) = Some (Inr (ext_from_pk_k st))"
| "ext_rule E L st (PkH _) = Some (Inr (ext_from_pk_h st))"
| "ext_rule E L st (RawPkH _) = Some (Inr (ext_from_pk_h st))"
| "ext_rule E L st (Multi k pks) = Some (check_k k (length pks) (Inr (ext_from_multi k (length pks))))"
| "ext_rule E L st (MultiA k pks) = Some (check_k k (length pks) (Inr (ext_from_multi_a k (length pks))))"
| "ext_rule E L st (After t) = Some (if t = 0 then Inl InvalidTime else Inr (ext_from_after L t))"
| "ext_rule E L st (Older t) =
     Some (if t = 0 \<or> \<not> is_relative_lock_time L t then Inl InvalidTime else Inr (ext_from_older L t))"
| "ext_rule E L st (Sha256 _) = Some (Inr ext_from_sha256)"
| "ext_rule E L st (Hash256 _) = Some (Inr ext_from_hash256)"
| "ext_rule E L st (Ripemd160 _) = Some (Inr ext_from_ripemd160)"
| "ext_rule E L st (Hash160 _) = Some (Inr ext_from_hash160)"
| "ext_rule E L st (Alt a) = Some (ext_cast_alt (ext a))"
| "ext_rule E L st (Swap a) = Some (ext_cast_swap (ext a))"
| "ext_rule E L st (Check a) = Some (ext_cast_check (ext a))"
| "ext_rule E L st (DupIf a) = Some (ext_cast_dupif (ext a))"
| "ext_rule E L st (Verify a) = Some (ext_cast_verify (ext a))"
| "ext_rule E L st (NonZero a) = Some (ext_cast_nonzero (ext a))"
| "ext_rule E L st (ZeroNotEqual a) = Some (ext_cast_zeronotequal (ext a))"
| "ext_rule E L st (AndB l r) = Some (ext_and_b (ext l) (ext r))"
| "ext_rule E L st (AndV l r) = Some (ext_and_v (ext l) (ext r))"
| "ext_rule E L st (OrB l r) = Some (ext_or_b (ext l) (ext r))"
| "ext_rule E L st (OrD l r) = Some (ext_or_d (ext l) (ext r))"
| "ext_rule E L st (OrC l r) = Some (ext_or_c (ext l) (ext r))"
| "ext_rule E L st (OrI l r) = Some (ext_or_i (ext l) (ext r))"
| "ext_rule E L st (AndOr a b c) = Some (ext_and_or (ext a) (ext b) (ext c))"
| "ext_rule E L st (Thresh k subs) =
     (if k = 0 then Some (Inl ZeroThreshold)
      else if k > length subs then Some (Inl (OverThreshold k (length subs)))
      else ext_threshold k (map ext subs))"
| "ext_rule E L st (ExtT e) = Some (Inr (extra_prop E e))"

definition ext_type_check :: "('e, 'z) extension_scheme \<Rightarrow> lock_lib \<Rightarrow> sig_type \<Rightarrow> ('pk, 'h, 'e) terminal \<Rightarrow>
    (('pk, 'h, 'e) type_error + ext_data) option" where
  "ext_type_check E L st t = map_option (wrap_err t) (ext_rule E L st t)"

definition from_ast :: "('e, 'z) extension_scheme \<Rightarrow> lock_lib \<Rightarrow> sig_type \<Rightarrow> ('pk, 'h, 'e) terminal \<Rightarrow>
    (('pk, 'h, 'e) type_error + ('pk, 'h, 'e) miniscript) option" where
  "from_ast E L st t =
     (case type_check E L t of
        Inl e \<Rightarrow> Some (Inl e)
      | Inr tt \<Rightarrow> map_option (\<lambda>r. bind_res r (\<lambda>x. Inr (Miniscript t tt x))) (ext_type_check E L st t))"

text \<open>
  A miniscript is well-formed when every node carries exactly the type and the extra data
  that \<open>from_ast\<close> computes for it: what the private constructors of the crate maintain.
\<close>

definition node_wf :: "('e, 'z) extension_scheme \<Rightarrow> lock_lib \<Rightarrow> sig_type \<Rightarrow> ('pk, 'h, 'e) miniscript \<Rightarrow> bool" where
  "node_wf E L st ms \<longleftrightarrow> from_ast E L st (node ms) = Some (Inr ms)"

definition ms_wf :: "('e, 'z) extension_scheme \<Rightarrow> lock_lib \<Rightarrow> sig_type \<Rightarrow> ('pk, 'h, 'e) miniscript \<Rightarrow> bool" where
  "ms_wf E L st ms \<longleftrightarrow> every_node (node_wf E L st) ms"

lemmas ty_leaf_defs = ty_from_true_def ty_from_false_def ty_from_pk_k_def ty_from_pk_h_def
  ty_from_multi_def ty_from_multi_a_def ty_from_hash_def ty_from_time_def ty_from_ext_def

lemmas ty_cast_defs = ty_cast_alt_def ty_cast_swap_def ty_cast_check_def ty_cast_dupif_def
  ty_cast_verify_def ty_cast_nonzero_def ty_cast_zeronotequal_def ty_cast_true_def
  ty_cast_or_i_false_def

lemmas ty_comb_defs = ty_and_b_def ty_and_v_def ty_or_b_def ty_or_d_def ty_or_c_def ty_or_i_def
  ty_and_or_def

lemma ms_type_eq: "\<lparr>corr = a, mall = b\<rparr> = t \<longleftrightarrow> corr t = a \<and> mall t = b"
  by (cases t) auto

lemma ty_both_Inr: "ty_both c m = Inr t \<longleftrightarrow> c = Inr (corr t) \<and> m = Inr (mall t)"
  by (cases t) (auto simp: ty_both_def)

text \<open>With a malleability rule that has been evaluated, the type is known outright.\<close>

lemma ty_both_eval: "ty_both c (Inr m) = Inr t \<longleftrightarrow> (\<exists>c'. c = Inr c' \<and> t = \<lparr>corr = c', mall = m\<rparr>)"
  by (auto simp: ty_both_def)

lemma check_k_Inr [simp]: "check_k k n r = Inr x \<longleftrightarrow> 0 < k \<and> k \<le> n \<and> r = Inr x"
  by (auto simp: check_k_def)

lemma wrap_err_Inr [simp]: "wrap_err t r = Inr x \<longleftrightarrow> r = Inr x"
  by (auto simp: wrap_err_def split: sum.splits)

lemma type_check_Inr [simp]: "type_check E L t = Inr x \<longleftrightarrow> type_rule E L t = Inr x"
  by (simp add: type_check_def)

lemma from_ast_Inr:
  "from_ast E L st t = Some (Inr ms) \<longleftrightarrow>
     node ms = t \<and> type_rule E L t = Inr (ty ms) \<and> ext_rule E L st t = Some (Inr (ext ms))"
proof -
  have "map_option (\<lambda>r. bind_res r (\<lambda>x. Inr (Miniscript t tt x))) (map_option (wrap_err t) e) = Some (Inr ms)
    \<longleftrightarrow> node ms = t \<and> tt = ty ms \<and> e = Some (Inr (ext ms))" for tt e
    by (cases ms; cases e; cases "the e") (auto simp: wrap_err_def)
  then show ?thesis
    by (auto simp: from_ast_def ext_type_check_def type_check_def wrap_err_def split: sum.splits)
qed

lemma node_wf_iff:
  "node_wf E L st ms \<longleftrightarrow>
     type_rule E L (node ms) = Inr (ty ms) \<and> ext_rule E L st (node ms) = Some (Inr (ext ms))"
  by (auto simp: node_wf_def from_ast_Inr)

lemma ms_wf_iff:
  "ms_wf E L st ms \<longleftrightarrow> node_wf E L st ms \<and> (\<forall>c\<in>set (children (node ms)). ms_wf E L st c)"
  by (auto simp: ms_wf_def every_node_def [of _ ms] every_child_iff)

interpretation type_sub: subtype_order type_is_subtype
proof unfold_locales
  fix a b c :: ms_type
  show "type_is_subtype a a"
    by (simp add: type_is_subtype_def corr_sub.sub_refl mall_sub.sub_refl)
  show "type_is_subtype a b \<Longrightarrow> type_is_subtype b c \<Longrightarrow> type_is_subtype a c"
    by (auto simp: type_is_subtype_def intro: corr_sub.sub_trans mall_sub.sub_trans)
  show "type_is_subtype a b \<Longrightarrow> type_is_subtype b a \<Longrightarrow> a = b"
    by (auto simp: type_is_subtype_def intro: ms_type.equality corr_sub.sub_antisym mall_sub.sub_antisym)
qed

end
