(* ===== verification/Witness.thy ===== *)
theory Witness
  imports Prelude
begin

text \<open>
  Satisfiers, witnesses and satisfactions (first half of \<open>miniscript/satisfy.rs\<close>, and
  \<open>witness_size\<close> of \<open>util.rs\<close>).

  Values of third-party types are represented by their serialisation: an ECDSA signature by
  its DER bytes, a Schnorr signature, a public key, a hash and a leaf hash by their bytes.
  A transaction, an output, an outpoint and a confidential value are their consensus
  encodings; the control block map is its list of entries in key order.
  \<open>bitcoin::VarInt::size\<close> is the parameter \<open>vl\<close> of \<open>witness_size\<close>.
\<close>

section \<open>The \<open>Satisfier\<close> trait as a dictionary\<close>

type_synonym elements_sig = "bytes \<times> u8"

definition elementssig_to_rawsig :: "elements_sig \<Rightarrow> bytes" where
  "elementssig_to_rawsig sig = fst sig @ [snd sig]"

record ('pk, 'h) satisfier =
  lookup_ecdsa_sig :: "'pk \<Rightarrow> elements_sig option"
  lookup_tap_key_spend_sig :: "bytes option"
  lookup_tap_leaf_script_sig :: "'pk \<Rightarrow> bytes \<Rightarrow> bytes option"
  lookup_raw_pkh_pk :: "bytes \<Rightarrow> bytes option"
  lookup_raw_pkh_x_only_pk :: "bytes \<Rightarrow> bytes option"
  lookup_raw_pkh_ecdsa_sig :: "bytes \<Rightarrow> (bytes \<times> elements_sig) option"
  lookup_raw_pkh_tap_leaf_script_sig :: "bytes \<times> bytes \<Rightarrow> (bytes \<times> bytes) option"
  lookup_sha256 :: "'h \<Rightarrow> bytes option"
  lookup_hash256 :: "'h \<Rightarrow> bytes option"
  lookup_ripemd160 :: "'h \<Rightarrow> bytes option"
  lookup_hash160 :: "'h \<Rightarrow> bytes option"
  check_older :: "u32 \<Rightarrow> bool"
  check_after :: "u32 \<Rightarrow> bool"
  lookup_nversion :: "u32 option"
  lookup_tap_control_block_map :: "(bytes \<times> bytes \<times> u8) list option"
  lookup_hashprevouts :: "bytes option"
  lookup_hashsequence :: "bytes option"
  lookup_hashissuances :: "bytes option"
  lookup_outpoint :: "bytes option"
  lookup_scriptcode :: "bytes option"
  lookup_value :: "bytes option"
  lookup_nsequence :: "u32 option"
  lookup_outputs :: "bytes list option"
  lookup_nlocktime :: "u32 option"
  lookup_sighashu32 :: "u32 option"
  lookup_tx :: "bytes option"
  lookup_spent_utxos :: "bytes list option"
  lookup_curr_inp :: "nat option"
  lookup_csfs_sig :: "bytes \<Rightarrow> bytes \<Rightarrow> bytes option"
  lookup_price_oracle_sig :: "bytes \<Rightarrow> 64 word \<Rightarrow> (bytes \<times> 64 word \<times> 64 word) option"

text \<open>The default methods: \<open>impl Satisfier for ()\<close>.\<close>

definition empty_satisfier :: "('pk, 'h) satisfier" where
  "empty_satisfier = \<lparr>
     lookup_ecdsa_sig = (\<lambda>_. None), lookup_tap_key_spend_sig = None,
     lookup_tap_leaf_script_sig = (\<lambda>_ _. None),
     lookup_raw_pkh_pk = (\<lambda>_. None), lookup_raw_pkh_x_only_pk = (\<lambda>_. None),
     lookup_raw_pkh_ecdsa_sig = (\<lambda>_. None), lookup_raw_pkh_tap_leaf_script_sig = (\<lambda>_. None),
     lookup_sha256 = (\<lambda>_. None), lookup_hash256 = (\<lambda>_. None),
     lookup_ripemd160 = (\<lambda>_. None), lookup_hash160 = (\<lambda>_. None),
     check_older = (\<lambda>_. False), check_after = (\<lambda>_. False), lookup_nversion = None,
     lookup_tap_control_block_map = None,
     lookup_hashprevouts = None,
     lookup_hashsequence = None,
     lookup_hashissuances = None,
     lookup_outpoint = None,
     lookup_scriptcode = None,
     lookup_value = None,
     lookup_nsequence = None,
     lookup_outputs = None,
     lookup_nlocktime = None,
     lookup_sighashu32 = None,
     lookup_tx = None,
     lookup_spent_utxos = None,
     lookup_curr_inp = None,
     lookup_csfs_sig = (\<lambda>_ _. None),
     lookup_price_oracle_sig = (\<lambda>_ _. None)\<rparr>"

text \<open>
  \<open>impl Satisfier for Sequence\<close>: the lock time and type bits are compared after masking. The
  third-party test \<open>is_relative_lock_time\<close> is the parameter \<open>rel\<close>.
\<close>

definition SEQUENCE_LOCKTIME_MASK :: u32 where
  "SEQUENCE_LOCKTIME_MASK = 0x0000ffff"

definition SEQUENCE_LOCKTIME_TYPE_FLAG :: u32 where
  "SEQUENCE_LOCKTIME_TYPE_FLAG = 0x00400000"

unbundle bit_operations_syntax

definition sequence_check_older :: "(u32 \<Rightarrow> bool) \<Rightarrow> u32 \<Rightarrow> u32 \<Rightarrow> bool" where
  "sequence_check_older rel self n =
     (if \<not> rel self then False
      else
        let mask = SEQUENCE_LOCKTIME_MASK OR SEQUENCE_LOCKTIME_TYPE_FLAG;
            masked_n = n AND mask;
            masked_seq = self AND mask
        in if masked_n < SEQUENCE_LOCKTIME_TYPE_FLAG \<and> masked_seq \<ge> SEQUENCE_LOCKTIME_TYPE_FLAG
           then False else masked_n \<le> masked_seq)"

definition sequence_satisfier :: "(u32 \<Rightarrow> bool) \<Rightarrow> u32 \<Rightarrow> ('pk, 'h) satisfier" where
  "sequence_satisfier rel self = empty_satisfier\<lparr>check_older := sequence_check_older rel self\<rparr>"

text \<open>
  \<open>impl Satisfier for LockTime\<close>: both lock times in blocks, or both in seconds. The parameter
  \<open>blocks\<close> is the third-party classification of a consensus \<open>u32\<close> (\<open>LockTime::Blocks\<close>).
\<close>

definition lock_time_check_after :: "(u32 \<Rightarrow> bool) \<Rightarrow> u32 \<Rightarrow> u32 \<Rightarrow> bool" where
  "lock_time_check_after blocks self n =
     (case (blocks n, blocks self) of
        (True, True) \<Rightarrow> n \<le> self
      | (False, False) \<Rightarrow> n \<le> self
      | _ \<Rightarrow> False)"

definition lock_time_satisfier :: "(u32 \<Rightarrow> bool) \<Rightarrow> u32 \<Rightarrow> ('pk, 'h) satisfier" where
  "lock_time_satisfier blocks self = empty_satisfier\<lparr>check_after := lock_time_check_after blocks self\<rparr>"

text \<open>\<open>HashMap\<close>s from keys, or from key and leaf hash, to signatures.\<close>

definition ecdsa_map_satisfier :: "('pk \<rightharpoonup> elements_sig) \<Rightarrow> ('pk, 'h) satisfier" where
  "ecdsa_map_satisfier m = empty_satisfier\<lparr>lookup_ecdsa_sig := m\<rparr>"

definition schnorr_map_satisfier :: "('pk \<times> bytes \<rightharpoonup> bytes) \<Rightarrow> ('pk, 'h) satisfier" where
  "schnorr_map_satisfier m = empty_satisfier\<lparr>lookup_tap_leaf_script_sig := (\<lambda>k h. m (k, h))\<rparr>"

text \<open>\<open>HashMap\<close>s indexed by key hash; \<open>pkh\<close> is \<open>to_pubkeyhash\<close>, \<open>ser\<close> the serialised key.\<close>

definition pkh_ecdsa_map_satisfier ::
  "('pk \<Rightarrow> bytes) \<Rightarrow> ('pk \<Rightarrow> bytes) \<Rightarrow> (bytes \<rightharpoonup> 'pk \<times> elements_sig) \<Rightarrow> ('pk, 'h) satisfier" where
  "pkh_ecdsa_map_satisfier pkh ser m = empty_satisfier\<lparr>
     lookup_ecdsa_sig := (\<lambda>k. map_option snd (m (pkh k))),
     lookup_raw_pkh_pk := (\<lambda>h. map_option (\<lambda>x. ser (fst x)) (m h)),
     lookup_raw_pkh_ecdsa_sig := (\<lambda>h. map_option (\<lambda>x. (ser (fst x), snd x)) (m h))\<rparr>"

definition pkh_schnorr_map_satisfier ::
  "('pk \<Rightarrow> bytes) \<Rightarrow> ('pk \<Rightarrow> bytes) \<Rightarrow> (bytes \<times> bytes \<rightharpoonup> 'pk \<times> bytes) \<Rightarrow> ('pk, 'h) satisfier" where
  "pkh_schnorr_map_satisfier pkh ser m = empty_satisfier\<lparr>
     lookup_tap_leaf_script_sig := (\<lambda>k h. map_option snd (m (pkh k, h))),
     lookup_raw_pkh_tap_leaf_script_sig := (\<lambda>h. map_option (\<lambda>x. (ser (fst x), snd x)) (m h))\<rparr>"

text \<open>\<open>impl Satisfier for &S\<close> and \<open>for &mut S\<close>: every method is forwarded.\<close>

definition ref_satisfier :: "('pk, 'h) satisfier \<Rightarrow> ('pk, 'h) satisfier" where
  "ref_satisfier s = \<lparr>
     lookup_ecdsa_sig = lookup_ecdsa_sig s,
     lookup_tap_key_spend_sig = lookup_tap_key_spend_sig s,
     lookup_tap_leaf_script_sig = lookup_tap_leaf_script_sig s,
     lookup_raw_pkh_pk = lookup_raw_pkh_pk s,
     lookup_raw_pkh_x_only_pk = lookup_raw_pkh_x_only_pk s,
     lookup_raw_pkh_ecdsa_sig = lookup_raw_pkh_ecdsa_sig s,
     lookup_raw_pkh_tap_leaf_script_sig = lookup_raw_pkh_tap_leaf_script_sig s,
     lookup_sha256 = lookup_sha256 s,
     lookup_hash256 = lookup_hash256 s,
     lookup_ripemd160 = lookup_ripemd160 s,
     lookup_hash160 = lookup_hash160 s,
     check_older = check_older s,
     check_after = check_after s,
     lookup_nversion = lookup_nversion s,
     lookup_tap_control_block_map = lookup_tap_control_block_map s,
     lookup_hashprevouts = lookup_hashprevouts s,
     lookup_hashsequence = lookup_hashsequence s,
     lookup_hashissuances = lookup_hashissuances s,
     lookup_outpoint = lookup_outpoint s,
     lookup_scriptcode = lookup_scriptcode s,
     lookup_value = lookup_value s,
     lookup_nsequence = lookup_nsequence s,
     lookup_outputs = lookup_outputs s,
     lookup_nlocktime = lookup_nlocktime s,
     lookup_sighashu32 = lookup_sighashu32 s,
     lookup_tx = lookup_tx s,
     lookup_spent_utxos = lookup_spent_utxos s,
     lookup_curr_inp = lookup_curr_inp s,
     lookup_csfs_sig = lookup_csfs_sig s,
     lookup_price_oracle_sig = lookup_price_oracle_sig s\<rparr>"

lemma ref_satisfier_transparent: "ref_satisfier s = s"
  by (simp add: ref_satisfier_def)

text \<open>Tuples of satisfiers (\<open>impl_tuple_satisfier\<close>): the first one that answers.\<close>

fun first_some :: "'a option list \<Rightarrow> 'a option" where
  "first_some [] = None"
| "first_some (Some x # _) = Some x"
| "first_some (None # xs) = first_some xs"

definition tuple_satisfier :: "('pk, 'h) satisfier list \<Rightarrow> ('pk, 'h) satisfier" where
  "tuple_satisfier ss = \<lparr>
     lookup_ecdsa_sig = (\<lambda>k. first_some (map (\<lambda>s. lookup_ecdsa_sig s k) ss)),
     lookup_tap_key_spend_sig = first_some (map lookup_tap_key_spend_sig ss),
     lookup_tap_leaf_script_sig = (\<lambda>k h. first_some (map (\<lambda>s. lookup_tap_leaf_script_sig s k h) ss)),
     lookup_raw_pkh_pk = (\<lambda>h. first_some (map (\<lambda>s. lookup_raw_pkh_pk s h) ss)),
     lookup_raw_pkh_x_only_pk = (\<lambda>h. first_some (map (\<lambda>s. lookup_raw_pkh_x_only_pk s h) ss)),
     lookup_raw_pkh_ecdsa_sig = (\<lambda>h. first_some (map (\<lambda>s. lookup_raw_pkh_ecdsa_sig s h) ss)),
     lookup_raw_pkh_tap_leaf_script_sig =
       (\<lambda>h. first_some (map (\<lambda>s. lookup_raw_pkh_tap_leaf_script_sig s h) ss)),
     lookup_sha256 = (\<lambda>h. first_some (map (\<lambda>s. lookup_sha256 s h) ss)),
     lookup_hash256 = (\<lambda>h. first_some (map (\<lambda>s. lookup_hash256 s h) ss)),
     lookup_ripemd160 = (\<lambda>h. first_some (map (\<lambda>s. lookup_ripemd160 s h) ss)),
     lookup_hash160 = (\<lambda>h. first_some (map (\<lambda>s. lookup_hash160 s h) ss)),
     check_older = (\<lambda>n. list_ex (\<lambda>s. check_older s n) ss),
     check_after = (\<lambda>n. list_ex (\<lambda>s. check_after s n) ss),
     lookup_nversion = first_some (map lookup_nversion ss),
     lookup_tap_control_block_map = first_some (map lookup_tap_control_block_map ss),
     lookup_hashprevouts = first_some (map lookup_hashprevouts ss),
     lookup_hashsequence = first_some (map lookup_hashsequence ss),
     lookup_hashissuances = first_some (map lookup_hashissuances ss),
     lookup_outpoint = first_some (map lookup_outpoint ss),
     lookup_scriptcode = first_some (map lookup_scriptcode ss),
     lookup_value = first_some (map lookup_value ss),
     lookup_nsequence = first_some (map lookup_nsequence ss),
     lookup_outputs = first_some (map lookup_outputs ss),
     lookup_nlocktime = first_some (map lookup_nlocktime ss),
     lookup_sighashu32 = first_some (map lookup_sighashu32 ss),
     lookup_tx = first_some (map lookup_tx ss),
     lookup_spent_utxos = first_some (map lookup_spent_utxos ss),
     lookup_curr_inp = first_some (map lookup_curr_inp ss),
     lookup_csfs_sig = (\<lambda>x y. first_some (map (\<lambda>s. lookup_csfs_sig s x y) ss)),
     lookup_price_oracle_sig = (\<lambda>x y. first_some (map (\<lambda>s. lookup_price_oracle_sig s x y) ss))\<rparr>"

lemma first_some_Some: "first_some xs = Some y \<Longrightarrow> Some y \<in> set xs"
  by (induction xs rule: first_some.induct) auto

lemma first_some_None [simp]: "first_some xs = None \<longleftrightarrow> (\<forall>x\<in>set xs. x = None)"
  by (induction xs rule: first_some.induct) auto

lemma first_some_append: "first_some (xs @ ys) = (case first_some xs of None \<Rightarrow> first_some ys | r \<Rightarrow> r)"
  by (induction xs rule: first_some.induct) auto

lemma first_some_concat: "first_some (map (\<lambda>ss. first_some (map f ss)) sss) = first_some (map f (concat sss))"
proof (induction sss)
  case (Cons ss sss)
  then show ?case by (cases "first_some (map f ss)") (simp_all add: first_some_append del: first_some_None)
qed simp

lemma list_ex_nested: "list_ex P (concat sss) = list_ex (\<lambda>ss. list_ex P ss) sss"
  by (auto simp: list_ex_iff)

lemma list_ex_map_comp: "list_ex P (map f xs) = list_ex (\<lambda>x. P (f x)) xs"
  by (simp add: list_ex_iff)

text \<open>A tuple of tuples answers like the flat tuple.\<close>

lemma tuple_satisfier_concat: "tuple_satisfier (map tuple_satisfier sss) = tuple_satisfier (concat sss)"
  by (simp add: tuple_satisfier_def o_def first_some_concat list_ex_map_comp list_ex_nested)

section \<open>Witnesses\<close>

datatype witness = Stack "bytes list" | Unavailable | Impossible

datatype ordering = Less | Equal | Greater

definition nat_cmp :: "nat \<Rightarrow> nat \<Rightarrow> ordering" where
  "nat_cmp a b = (if a < b then Less else if a = b then Equal else Greater)"

definition witness_size :: "(nat \<Rightarrow> nat) \<Rightarrow> bytes list \<Rightarrow> nat" where
  "witness_size vl wit = sum_list (map length wit) + vl (length wit)"

fun wit_cmp :: "(nat \<Rightarrow> nat) \<Rightarrow> witness \<Rightarrow> witness \<Rightarrow> ordering" where
  "wit_cmp vl (Stack v1) (Stack v2) = nat_cmp (witness_size vl v1) (witness_size vl v2)"
| "wit_cmp vl (Stack _) _ = Less"
| "wit_cmp vl _ (Stack _) = Greater"
| "wit_cmp vl Impossible Unavailable = Less"
| "wit_cmp vl Unavailable Impossible = Greater"
| "wit_cmp vl Impossible Impossible = Equal"
| "wit_cmp vl Unavailable Unavailable = Equal"

text \<open>\<open>cmp::min\<close>: the first argument when the two compare equal.\<close>

definition wit_min :: "(nat \<Rightarrow> nat) \<Rightarrow> witness \<Rightarrow> witness \<Rightarrow> witness" where
  "wit_min vl a b = (if wit_cmp vl a b = Greater then b else a)"

definition hash_dissatisfaction :: witness where
  "hash_dissatisfaction = Stack [replicate 32 0]"

definition wit_empty :: witness where
  "wit_empty = Stack []"

definition push_1 :: witness where
  "push_1 = Stack [[1]]"

definition push_0 :: witness where
  "push_0 = Stack [[]]"

fun wit_combine :: "witness \<Rightarrow> witness \<Rightarrow> witness" where
  "wit_combine Impossible _ = Impossible"
| "wit_combine _ Impossible = Impossible"
| "wit_combine Unavailable _ = Unavailable"
| "wit_combine _ Unavailable = Unavailable"
| "wit_combine (Stack a) (Stack b) = Stack (a @ b)"

lemma wit_combine_Stack [simp]:
  "wit_combine x y = Stack w \<longleftrightarrow> (\<exists>a b. x = Stack a \<and> y = Stack b \<and> w = a @ b)"
  by (cases "(x, y)" rule: wit_combine.cases) auto

lemma wit_combine_Impossible [simp]:
  "wit_combine x y = Impossible \<longleftrightarrow> x = Impossible \<or> y = Impossible"
  by (cases "(x, y)" rule: wit_combine.cases) auto

lemma wit_combine_assoc: "wit_combine (wit_combine x y) z = wit_combine x (wit_combine y z)"
  by (cases x; cases y; cases z) auto

lemma wit_combine_empty [simp]: "wit_combine wit_empty x = x" "wit_combine x wit_empty = x"
  by (cases x; simp add: wit_empty_def)+

section \<open>Satisfactions\<close>

record satisfaction =
  stack :: witness
  has_sig :: bool

abbreviation Sat :: "witness \<Rightarrow> bool \<Rightarrow> satisfaction" where
  "Sat w s \<equiv> \<lparr>stack = w, has_sig = s\<rparr>"

definition satisfaction_impossible :: satisfaction where
  "satisfaction_impossible = Sat Impossible False"

definition satisfaction_empty :: satisfaction where
  "satisfaction_empty = Sat wit_empty False"

definition satisfaction_combine :: "satisfaction \<Rightarrow> satisfaction \<Rightarrow> satisfaction" where
  "satisfaction_combine one two =
     Sat (wit_combine (stack one) (stack two)) (has_sig one \<or> has_sig two)"

definition minimum :: "(nat \<Rightarrow> nat) \<Rightarrow> satisfaction \<Rightarrow> satisfaction \<Rightarrow> satisfaction" where
  "minimum vl sat1 sat2 =
     (if stack sat1 = Impossible then sat2
      else if stack sat2 = Impossible then sat1
      else
        case (has_sig sat1, has_sig sat2) of
          (False, False) \<Rightarrow> Sat Unavailable False
        | (False, True) \<Rightarrow> Sat (stack sat1) False
        | (True, False) \<Rightarrow> Sat (stack sat2) False
        | (True, True) \<Rightarrow> Sat (wit_min vl (stack sat1) (stack sat2)) True)"

definition minimum_mall :: "(nat \<Rightarrow> nat) \<Rightarrow> satisfaction \<Rightarrow> satisfaction \<Rightarrow> satisfaction" where
  "minimum_mall vl sat1 sat2 =
     (if stack sat1 = Impossible \<or> stack sat1 = Unavailable then sat2
      else if stack sat2 = Impossible \<or> stack sat2 = Unavailable then sat1
      else Sat (wit_min vl (stack sat1) (stack sat2)) (has_sig sat1 \<and> has_sig sat2))"

text \<open>The order of witnesses is total and transitive; equality under it is equality of size.\<close>

lemma wit_cmp_refl [simp]: "wit_cmp vl a a = Equal"
  by (cases a) (auto simp: nat_cmp_def)

lemma wit_cmp_swap: "wit_cmp vl a b = Less \<longleftrightarrow> wit_cmp vl b a = Greater"
  by (cases a; cases b) (auto simp: nat_cmp_def)

lemma wit_cmp_trans:
  "wit_cmp vl a b \<noteq> Greater \<Longrightarrow> wit_cmp vl b c \<noteq> Greater \<Longrightarrow> wit_cmp vl a c \<noteq> Greater"
  by (cases a; cases b; cases c) (auto simp: nat_cmp_def split: if_splits)

lemma wit_min_cases: "wit_min vl a b = a \<or> wit_min vl a b = b"
  by (simp add: wit_min_def)

lemma wit_min_le: "wit_cmp vl (wit_min vl a b) a \<noteq> Greater \<and> wit_cmp vl (wit_min vl a b) b \<noteq> Greater"
  using wit_cmp_swap [of vl b a] by (auto simp: wit_min_def)

lemma wit_min_Stack: "wit_min vl a b = Stack w \<Longrightarrow> a = Stack w \<or> b = Stack w"
  using wit_min_cases [of vl a b] by auto

text \<open>What both selection functions guarantee: the witness is one of the two offered.\<close>

lemma minimum_Stack:
  "stack (minimum vl s1 s2) = Stack w \<Longrightarrow> stack s1 = Stack w \<or> stack s2 = Stack w"
  by (auto simp: minimum_def split: if_splits bool.splits dest: wit_min_Stack)

lemma minimum_mall_Stack:
  "stack (minimum_mall vl s1 s2) = Stack w \<Longrightarrow> stack s1 = Stack w \<or> stack s2 = Stack w"
  by (auto simp: minimum_mall_def split: if_splits dest: wit_min_Stack)

lemma minimum_mall_nosig:
  assumes "\<not> has_sig s1" "stack s1 = Stack w1"
  shows "\<not> has_sig (minimum_mall vl s1 s2) \<and> (\<exists>w. stack (minimum_mall vl s1 s2) = Stack w)"
    and "\<not> has_sig (minimum_mall vl s2 s1) \<and> (\<exists>w. stack (minimum_mall vl s2 s1) = Stack w)"
  using assms by (cases "stack s2"; auto simp: minimum_mall_def wit_min_def)+

end
