(* ===== verification/Satisfy.thy ===== *)
theory Satisfy
  imports Ast Witness "HOL-Library.Monad_Syntax"
begin

text \<open>
  Producing satisfactions and dissatisfactions (second half of \<open>miniscript/satisfy.rs\<close>).

  A failed \<open>assert!\<close>, an \<open>unreachable!\<close> or an index out of bounds is the value \<open>None\<close>, in the
  methods of an extension too.
  The arguments that the recursion passes around unchanged (context, satisfier, root flag,
  leaf hash, the third-party key serialisations and the extension's methods) are the fields
  of \<open>sat_env\<close>. The two functions passed as \<open>min_fn\<close> and \<open>thresh_fn\<close> remain arguments;
  \<open>thresh_fn\<close> receives the satisfactions and dissatisfactions of the children, which is the
  part of \<open>Satisfaction::thresh\<close> and \<open>thresh_mall\<close> after their two recursive calls.
\<close>

record ('pk, 'h, 'e) sat_env =
  env_sig_type :: sig_type
  env_pk_bytes :: "'pk \<Rightarrow> bytes"
  env_x_only_bytes :: "'pk \<Rightarrow> bytes"
  env_varint :: "nat \<Rightarrow> nat"
  env_stfr :: "('pk, 'h) satisfier"
  env_root_has_sig :: bool
  env_leaf_hash :: bytes
  env_ext_satisfy :: "('pk, 'h) satisfier \<Rightarrow> 'e \<Rightarrow> satisfaction option"
  env_ext_dissatisfy :: "('pk, 'h) satisfier \<Rightarrow> 'e \<Rightarrow> satisfaction option"

section \<open>Leaves\<close>

definition wit_signature :: "('pk, 'h, 'e) sat_env \<Rightarrow> 'pk \<Rightarrow> witness" where
  "wit_signature env pk =
     (case env_sig_type env of
        Ecdsa \<Rightarrow>
          (case lookup_ecdsa_sig (env_stfr env) pk of
             Some sig \<Rightarrow> Stack [elementssig_to_rawsig sig] | None \<Rightarrow> Impossible)
      | Schnorr \<Rightarrow>
          (case lookup_tap_leaf_script_sig (env_stfr env) pk (env_leaf_hash env) of
             Some sig \<Rightarrow> Stack [sig] | None \<Rightarrow> Impossible))"

definition wit_pkh_public_key :: "('pk, 'h, 'e) sat_env \<Rightarrow> bytes \<Rightarrow> witness" where
  "wit_pkh_public_key env pkh =
     (case env_sig_type env of
        Ecdsa \<Rightarrow>
          (case lookup_raw_pkh_pk (env_stfr env) pkh of Some pk \<Rightarrow> Stack [pk] | None \<Rightarrow> Unavailable)
      | Schnorr \<Rightarrow>
          (case lookup_raw_pkh_x_only_pk (env_stfr env) pkh of Some pk \<Rightarrow> Stack [pk] | None \<Rightarrow> Unavailable))"

definition wit_pkh_signature :: "('pk, 'h, 'e) sat_env \<Rightarrow> bytes \<Rightarrow> witness" where
  "wit_pkh_signature env pkh =
     (case env_sig_type env of
        Ecdsa \<Rightarrow>
          (case lookup_raw_pkh_ecdsa_sig (env_stfr env) pkh of
             Some (pk, sig) \<Rightarrow> Stack [elementssig_to_rawsig sig, pk] | None \<Rightarrow> Impossible)
      | Schnorr \<Rightarrow>
          (case lookup_raw_pkh_tap_leaf_script_sig (env_stfr env) (pkh, env_leaf_hash env) of
             Some (pk, sig) \<Rightarrow> Stack [sig, pk] | None \<Rightarrow> Impossible))"

definition wit_preimage :: "bytes option \<Rightarrow> witness" where
  "wit_preimage pre = (case pre of Some p \<Rightarrow> Stack [p] | None \<Rightarrow> Unavailable)"

definition key_bytes :: "('pk, 'h, 'e) sat_env \<Rightarrow> 'pk \<Rightarrow> bytes" where
  "key_bytes env pk =
     (case env_sig_type env of Ecdsa \<Rightarrow> env_pk_bytes env pk | Schnorr \<Rightarrow> env_x_only_bytes env pk)"

definition timelock_sat :: "('pk, 'h, 'e) sat_env \<Rightarrow> bool \<Rightarrow> satisfaction" where
  "timelock_sat env met =
     Sat (if met then wit_empty else if env_root_has_sig env then Impossible else Unavailable) False"

section \<open>Multisignatures\<close>

text \<open>\<open>max_by_key\<close>: the position of the last maximum.\<close>

fun last_max_idx :: "nat list \<Rightarrow> nat option" where
  "last_max_idx [] = None"
| "last_max_idx (x # xs) =
     (case last_max_idx xs of
        None \<Rightarrow> Some 0
      | Some j \<Rightarrow> if x \<le> xs ! j then Some (Suc j) else Some 0)"

text \<open>Collecting the available signatures; \<open>None\<close> is the \<open>unreachable!\<close>.\<close>

fun collect_sigs :: "('pk \<Rightarrow> witness) \<Rightarrow> 'pk list \<Rightarrow> bytes list list option" where
  "collect_sigs f [] = Some []"
| "collect_sigs f (pk # pks) =
     (case f pk of
        Stack sig \<Rightarrow> map_option (\<lambda>sigs. sig # sigs) (collect_sigs f pks)
      | Impossible \<Rightarrow> collect_sigs f pks
      | Unavailable \<Rightarrow> None)"

text \<open>The loop that throws signatures away: the longest entry is replaced by an empty one.\<close>

fun throw_away :: "nat \<Rightarrow> bytes list list \<Rightarrow> bytes list list option" where
  "throw_away 0 sigs = Some sigs"
| "throw_away (Suc n) sigs =
     (case last_max_idx (map length sigs) of
        None \<Rightarrow> None
      | Some i \<Rightarrow> throw_away n (sigs[i := []]))"

definition multi_sat :: "('pk, 'h, 'e) sat_env \<Rightarrow> nat \<Rightarrow> 'pk list \<Rightarrow> satisfaction option" where
  "multi_sat env k keys =
     Option.bind (collect_sigs (wit_signature env) keys) (\<lambda>sigs.
       if length sigs < k then Some (Sat Impossible False)
       else Option.bind (throw_away (length sigs - k) sigs) (\<lambda>sigs'.
         Some (Sat (foldl (\<lambda>acc sig. wit_combine acc (Stack sig)) push_0 sigs') True)))"

text \<open>
  The loop of \<open>MultiA\<close> over the reversed keys, with the count of signatures found; positions
  never reached keep the initial entry \<open>vec![vec![]]\<close>.
\<close>

fun multi_a_loop :: "('pk \<Rightarrow> witness) \<Rightarrow> nat \<Rightarrow> nat \<Rightarrow> 'pk list \<Rightarrow> (bytes list list \<times> nat) option" where
  "multi_a_loop f k cnt [] = Some ([], cnt)"
| "multi_a_loop f k cnt (pk # pks) =
     (case f pk of
        Stack sig \<Rightarrow>
          if Suc cnt = k then Some (sig # replicate (length pks) [[]], Suc cnt)
          else map_option (\<lambda>(sigs, c). (sig # sigs, c)) (multi_a_loop f k (Suc cnt) pks)
      | Impossible \<Rightarrow> map_option (\<lambda>(sigs, c). ([[]] # sigs, c)) (multi_a_loop f k cnt pks)
      | Unavailable \<Rightarrow> None)"

definition multi_a_sat :: "('pk, 'h, 'e) sat_env \<Rightarrow> nat \<Rightarrow> 'pk list \<Rightarrow> satisfaction option" where
  "multi_a_sat env k keys =
     Option.bind (multi_a_loop (wit_signature env) k 0 (rev keys)) (\<lambda>(sigs, sig_count).
       if sig_count < k then Some (Sat Impossible False)
       else Some (Sat (foldl (\<lambda>acc sig. wit_combine acc (Stack sig)) wit_empty sigs) True))"

section \<open>Thresholds\<close>

definition I64_MAX :: int where "I64_MAX = 2 ^ 63 - 1"
definition I64_MIN :: int where "I64_MIN = - (2 ^ 63)"

definition stack_weight :: "(nat \<Rightarrow> nat) \<Rightarrow> witness \<Rightarrow> witness \<Rightarrow> int" where
  "stack_weight vl s_wit d_wit =
     (case s_wit of
        Unavailable \<Rightarrow> I64_MAX
      | Impossible \<Rightarrow> I64_MAX
      | Stack s \<Rightarrow>
          (case d_wit of
             Unavailable \<Rightarrow> I64_MIN
           | Impossible \<Rightarrow> I64_MIN
           | Stack d \<Rightarrow> int (witness_size vl s) - int (witness_size vl d)))"

text \<open>\<open>mem::swap\<close> of the entries of two vectors at the given positions.\<close>

fun swap_at :: "nat list \<Rightarrow> 'a list \<Rightarrow> 'a list \<Rightarrow> 'a list \<times> 'a list" where
  "swap_at [] xs ys = (xs, ys)"
| "swap_at (i # is) xs ys = swap_at is (xs[i := ys ! i]) (ys[i := xs ! i])"

definition flatten_stacks :: "satisfaction list \<Rightarrow> witness" where
  "flatten_stacks ret_stack = foldl (\<lambda>acc next. wit_combine (stack next) acc) wit_empty ret_stack"

definition thresh_key :: "(nat \<Rightarrow> nat) \<Rightarrow> satisfaction list \<Rightarrow> satisfaction list \<Rightarrow> nat \<Rightarrow> bool \<times> bool \<times> int" where
  "thresh_key vl sats dissats i =
     (stack (sats ! i) = Impossible, has_sig (sats ! i),
      stack_weight vl (stack (sats ! i)) (stack (dissats ! i)))"

definition thresh :: "(nat \<Rightarrow> nat) \<Rightarrow> nat \<Rightarrow> satisfaction list \<Rightarrow> satisfaction list \<Rightarrow> satisfaction option" where
  "thresh vl k sats0 dissats =
     (let n = length sats0;
          sat_indices = sort_key (thresh_key vl sats0 dissats) [0..<n]
      in if k > n then None
         else
           let (ret_stack, sats) = swap_at (take k sat_indices) dissats sats0
           in if k = 0 then None
              else if stack (sats ! (sat_indices ! (k - 1))) = Impossible then Some (Sat Impossible False)
              else if k < n \<and> \<not> has_sig (sats ! (sat_indices ! k))
                      \<and> stack (sats ! (sat_indices ! k)) \<noteq> Impossible
              then (if list_ex has_sig ret_stack then None else Some (Sat Unavailable False))
              else Some (Sat (flatten_stacks ret_stack) (list_ex has_sig ret_stack)))"

definition thresh_mall_key :: "(nat \<Rightarrow> nat) \<Rightarrow> satisfaction list \<Rightarrow> satisfaction list \<Rightarrow> nat \<Rightarrow> int" where
  "thresh_mall_key vl sats dissats i = stack_weight vl (stack (sats ! i)) (stack (dissats ! i))"

definition thresh_mall :: "(nat \<Rightarrow> nat) \<Rightarrow> nat \<Rightarrow> satisfaction list \<Rightarrow> satisfaction list \<Rightarrow> satisfaction option" where
  "thresh_mall vl k sats0 dissats =
     (let n = length sats0;
          sat_indices = sort_key (thresh_mall_key vl sats0 dissats) [0..<n]
      in if k > n then None
         else
           let (ret_stack, sats) = swap_at (take k sat_indices) dissats sats0
           in Some (Sat (flatten_stacks ret_stack) (list_ex has_sig ret_stack)))"

section \<open>The recursion\<close>

type_synonym min_fn = "satisfaction \<Rightarrow> satisfaction \<Rightarrow> satisfaction"
type_synonym thresh_fn = "nat \<Rightarrow> satisfaction list \<Rightarrow> satisfaction list \<Rightarrow> satisfaction option"

text \<open>\<open>assert!(!nsat.has_sig)\<close>.\<close>

definition assert_nosig :: "satisfaction \<Rightarrow> 'a option \<Rightarrow> 'a option" where
  "assert_nosig s r = (if has_sig s then None else r)"

fun satisfy_helper :: "('pk, 'h, 'e) sat_env \<Rightarrow> min_fn \<Rightarrow> thresh_fn \<Rightarrow> ('pk, 'h, 'e) terminal \<Rightarrow> satisfaction option"
  and dissatisfy_helper :: "('pk, 'h, 'e) sat_env \<Rightarrow> min_fn \<Rightarrow> thresh_fn \<Rightarrow> ('pk, 'h, 'e) terminal \<Rightarrow> satisfaction option"
where
  "satisfy_helper env mf tf (PkK pk) = Some (Sat (wit_signature env pk) True)"
| "satisfy_helper env mf tf (PkH pk) =
     Some (Sat (wit_combine (wit_signature env pk) (Stack [key_bytes env pk])) True)"
| "satisfy_helper env mf tf (RawPkH pkh) = Some (Sat (wit_pkh_signature env pkh) True)"
| "satisfy_helper env mf tf (After t) = Some (timelock_sat env (check_after (env_stfr env) t))"
| "satisfy_helper env mf tf (Older t) = Some (timelock_sat env (check_older (env_stfr env) t))"
| "satisfy_helper env mf tf (Ripemd160 h) = Some (Sat (wit_preimage (lookup_ripemd160 (env_stfr env) h)) False)"
| "satisfy_helper env mf tf (Hash160 h) = Some (Sat (wit_preimage (lookup_hash160 (env_stfr env) h)) False)"
| "satisfy_helper env mf tf (Sha256 h) = Some (Sat (wit_preimage (lookup_sha256 (env_stfr env) h)) False)"
| "satisfy_helper env mf tf (Hash256 h) = Some (Sat (wit_preimage (lookup_hash256 (env_stfr env) h)) False)"
| "satisfy_helper env mf tf TrueT = Some (Sat wit_empty False)"
| "satisfy_helper env mf tf FalseT = Some (Sat Impossible False)"
| "satisfy_helper env mf tf (Alt sub) = satisfy_helper env mf tf (node sub)"
| "satisfy_helper env mf tf (Swap sub) = satisfy_helper env mf tf (node sub)"
| "satisfy_helper env mf tf (Check sub) = satisfy_helper env mf tf (node sub)"
| "satisfy_helper env mf tf (Verify sub) = satisfy_helper env mf tf (node sub)"
| "satisfy_helper env mf tf (NonZero sub) = satisfy_helper env mf tf (node sub)"
| "satisfy_helper env mf tf (ZeroNotEqual sub) = satisfy_helper env mf tf (node sub)"
| "satisfy_helper env mf tf (DupIf sub) = do {
     sat \<leftarrow> satisfy_helper env mf tf (node sub);
     Some (Sat (wit_combine (stack sat) push_1) (has_sig sat)) }"
| "satisfy_helper env mf tf (AndV l r) = do {
     l_sat \<leftarrow> satisfy_helper env mf tf (node l);
     r_sat \<leftarrow> satisfy_helper env mf tf (node r);
     Some (Sat (wit_combine (stack r_sat) (stack l_sat)) (has_sig l_sat \<or> has_sig r_sat)) }"
| "satisfy_helper env mf tf (AndB l r) = do {
     l_sat \<leftarrow> satisfy_helper env mf tf (node l);
     r_sat \<leftarrow> satisfy_helper env mf tf (node r);
     Some (Sat (wit_combine (stack r_sat) (stack l_sat)) (has_sig l_sat \<or> has_sig r_sat)) }"
| "satisfy_helper env mf tf (AndOr a b c) = do {
     a_sat \<leftarrow> satisfy_helper env mf tf (node a);
     a_nsat \<leftarrow> dissatisfy_helper env mf tf (node a);
     b_sat \<leftarrow> satisfy_helper env mf tf (node b);
     c_sat \<leftarrow> satisfy_helper env mf tf (node c);
     Some (mf (Sat (wit_combine (stack b_sat) (stack a_sat)) (has_sig a_sat \<or> has_sig b_sat))
              (Sat (wit_combine (stack c_sat) (stack a_nsat)) (has_sig a_nsat \<or> has_sig c_sat))) }"
| "satisfy_helper env mf tf (OrB l r) = do {
     l_sat \<leftarrow> satisfy_helper env mf tf (node l);
     r_sat \<leftarrow> satisfy_helper env mf tf (node r);
     l_nsat \<leftarrow> dissatisfy_helper env mf tf (node l);
     r_nsat \<leftarrow> dissatisfy_helper env mf tf (node r);
     assert_nosig l_nsat (assert_nosig r_nsat (Some
       (mf (Sat (wit_combine (stack r_sat) (stack l_nsat)) (has_sig r_sat))
           (Sat (wit_combine (stack r_nsat) (stack l_sat)) (has_sig l_sat))))) }"
| "satisfy_helper env mf tf (OrD l r) = do {
     l_sat \<leftarrow> satisfy_helper env mf tf (node l);
     r_sat \<leftarrow> satisfy_helper env mf tf (node r);
     l_nsat \<leftarrow> dissatisfy_helper env mf tf (node l);
     assert_nosig l_nsat (Some
       (mf l_sat (Sat (wit_combine (stack r_sat) (stack l_nsat)) (has_sig r_sat)))) }"
| "satisfy_helper env mf tf (OrC l r) = do {
     l_sat \<leftarrow> satisfy_helper env mf tf (node l);
     r_sat \<leftarrow> satisfy_helper env mf tf (node r);
     l_nsat \<leftarrow> dissatisfy_helper env mf tf (node l);
     assert_nosig l_nsat (Some
       (mf l_sat (Sat (wit_combine (stack r_sat) (stack l_nsat)) (has_sig r_sat)))) }"
| "satisfy_helper env mf tf (OrI l r) = do {
     l_sat \<leftarrow> satisfy_helper env mf tf (node l);
     r_sat \<leftarrow> satisfy_helper env mf tf (node r);
     Some (mf (Sat (wit_combine (stack l_sat) push_1) (has_sig l_sat))
              (Sat (wit_combine (stack r_sat) push_0) (has_sig r_sat))) }"
| "satisfy_helper env mf tf (Thresh k subs) = do {
     sats \<leftarrow> collect_opt (\<lambda>s. satisfy_helper env mf tf (node s)) subs;
     dissats \<leftarrow> collect_opt (\<lambda>s. dissatisfy_helper env mf tf (node s)) subs;
     tf k sats dissats }"
| "satisfy_helper env mf tf (Multi k keys) = multi_sat env k keys"
| "satisfy_helper env mf tf (MultiA k keys) = multi_a_sat env k keys"
| "satisfy_helper env mf tf (ExtT e) = env_ext_satisfy env (env_stfr env) e"

| "dissatisfy_helper env mf tf (PkK pk) = Some (Sat push_0 False)"
| "dissatisfy_helper env mf tf (PkH pk) =
     Some (Sat (wit_combine push_0 (Stack [key_bytes env pk])) False)"
| "dissatisfy_helper env mf tf (RawPkH pkh) =
     Some (Sat (wit_combine push_0 (wit_pkh_public_key env pkh)) False)"
| "dissatisfy_helper env mf tf FalseT = Some (Sat wit_empty False)"
| "dissatisfy_helper env mf tf TrueT = Some (Sat Impossible False)"
| "dissatisfy_helper env mf tf (Older _) = Some (Sat Impossible False)"
| "dissatisfy_helper env mf tf (After _) = Some (Sat Impossible False)"
| "dissatisfy_helper env mf tf (Sha256 _) = Some (Sat hash_dissatisfaction False)"
| "dissatisfy_helper env mf tf (Hash256 _) = Some (Sat hash_dissatisfaction False)"
| "dissatisfy_helper env mf tf (Ripemd160 _) = Some (Sat hash_dissatisfaction False)"
| "dissatisfy_helper env mf tf (Hash160 _) = Some (Sat hash_dissatisfaction False)"
| "dissatisfy_helper env mf tf (Alt sub) = dissatisfy_helper env mf tf (node sub)"
| "dissatisfy_helper env mf tf (Swap sub) = dissatisfy_helper env mf tf (node sub)"
| "dissatisfy_helper env mf tf (Check sub) = dissatisfy_helper env mf tf (node sub)"
| "dissatisfy_helper env mf tf (ZeroNotEqual sub) = dissatisfy_helper env mf tf (node sub)"
| "dissatisfy_helper env mf tf (DupIf _) = Some (Sat push_0 False)"
| "dissatisfy_helper env mf tf (NonZero _) = Some (Sat push_0 False)"
| "dissatisfy_helper env mf tf (Verify _) = Some (Sat Impossible False)"
| "dissatisfy_helper env mf tf (AndV v other) = do {
     vsat \<leftarrow> satisfy_helper env mf tf (node v);
     odissat \<leftarrow> dissatisfy_helper env mf tf (node other);
     Some (Sat (wit_combine (stack odissat) (stack vsat)) (has_sig vsat \<or> has_sig odissat)) }"
| "dissatisfy_helper env mf tf (AndB l r) = do {
     lnsat \<leftarrow> dissatisfy_helper env mf tf (node l);
     rnsat \<leftarrow> dissatisfy_helper env mf tf (node r);
     Some (Sat (wit_combine (stack rnsat) (stack lnsat)) (has_sig rnsat \<or> has_sig lnsat)) }"
| "dissatisfy_helper env mf tf (OrB l r) = do {
     lnsat \<leftarrow> dissatisfy_helper env mf tf (node l);
     rnsat \<leftarrow> dissatisfy_helper env mf tf (node r);
     Some (Sat (wit_combine (stack rnsat) (stack lnsat)) (has_sig rnsat \<or> has_sig lnsat)) }"
| "dissatisfy_helper env mf tf (OrD l r) = do {
     lnsat \<leftarrow> dissatisfy_helper env mf tf (node l);
     rnsat \<leftarrow> dissatisfy_helper env mf tf (node r);
     Some (Sat (wit_combine (stack rnsat) (stack lnsat)) (has_sig rnsat \<or> has_sig lnsat)) }"
| "dissatisfy_helper env mf tf (AndOr l _ r) = do {
     lnsat \<leftarrow> dissatisfy_helper env mf tf (node l);
     rnsat \<leftarrow> dissatisfy_helper env mf tf (node r);
     Some (Sat (wit_combine (stack rnsat) (stack lnsat)) (has_sig rnsat \<or> has_sig lnsat)) }"
| "dissatisfy_helper env mf tf (OrC _ _) = Some (Sat Impossible False)"
| "dissatisfy_helper env mf tf (OrI l r) = do {
     lnsat \<leftarrow> dissatisfy_helper env mf tf (node l);
     rnsat \<leftarrow> dissatisfy_helper env mf tf (node r);
     Some (minimum_mall (env_varint env)
       (Sat (wit_combine (stack lnsat) push_1) (has_sig lnsat))
       (Sat (wit_combine (stack rnsat) push_0) (has_sig rnsat))) }"
| "dissatisfy_helper env mf tf (Thresh _ subs) = do {
     nsats \<leftarrow> collect_opt (\<lambda>s. dissatisfy_helper env mf tf (node s)) subs;
     (if list_ex has_sig nsats then None else Some (Sat (flatten_stacks nsats) False)) }"
| "dissatisfy_helper env mf tf (Multi k _) = Some (Sat (Stack (replicate (k + 1) [])) False)"
| "dissatisfy_helper env mf tf (MultiA _ pks) = Some (Sat (Stack (replicate (length pks) [])) False)"
| "dissatisfy_helper env mf tf (ExtT e) = env_ext_dissatisfy env (env_stfr env) e"

section \<open>Entry points\<close>

definition satisfy :: "('pk, 'h, 'e) sat_env \<Rightarrow> ('pk, 'h, 'e) terminal \<Rightarrow> satisfaction option" where
  "satisfy env t = satisfy_helper env (minimum (env_varint env)) (thresh (env_varint env)) t"

definition satisfy_mall :: "('pk, 'h, 'e) sat_env \<Rightarrow> ('pk, 'h, 'e) terminal \<Rightarrow> satisfaction option" where
  "satisfy_mall env t = satisfy_helper env (minimum_mall (env_varint env)) (thresh_mall (env_varint env)) t"

datatype 'c satisfy_error = CouldNotSatisfy | ContextError 'c

text \<open>
  \<open>Miniscript::satisfy\<close> and \<open>satisfy_malleable\<close>. The leaf hash of the encoded script and the
  context's \<open>check_witness\<close> are the arguments \<open>lh\<close> and \<open>check_witness\<close>.
\<close>

definition ms_satisfy :: "('pk, 'h, 'e) sat_env \<Rightarrow> bytes \<Rightarrow> (bytes list \<Rightarrow> 'c + unit) \<Rightarrow>
    ('pk, 'h, 'e) miniscript \<Rightarrow> ('c satisfy_error + bytes list) option" where
  "ms_satisfy env lh check_witness ms =
     map_option (\<lambda>s.
       case stack s of
         Stack w \<Rightarrow> (case check_witness w of Inl e \<Rightarrow> Inl (ContextError e) | Inr _ \<Rightarrow> Inr w)
       | _ \<Rightarrow> Inl CouldNotSatisfy)
     (satisfy (env\<lparr>env_root_has_sig := safe (mall (ty ms)), env_leaf_hash := lh\<rparr>) (node ms))"

definition ms_satisfy_malleable :: "('pk, 'h, 'e) sat_env \<Rightarrow> bytes \<Rightarrow> (bytes list \<Rightarrow> 'c + unit) \<Rightarrow>
    ('pk, 'h, 'e) miniscript \<Rightarrow> ('c satisfy_error + bytes list) option" where
  "ms_satisfy_malleable env lh check_witness ms =
     map_option (\<lambda>s.
       case stack s of
         Stack w \<Rightarrow> (case check_witness w of Inl e \<Rightarrow> Inl (ContextError e) | Inr _ \<Rightarrow> Inr w)
       | _ \<Rightarrow> Inl CouldNotSatisfy)
     (satisfy_mall (env\<lparr>env_root_has_sig := safe (mall (ty ms)), env_leaf_hash := lh\<rparr>) (node ms))"

text \<open>A witness returned by the entry points is the stack of the helper's satisfaction.\<close>

lemma checked_stack_Inr:
  "(case x of Stack w' \<Rightarrow> (case cw w' of Inl e \<Rightarrow> Inl (ContextError e) | Inr _ \<Rightarrow> Inr w') | _ \<Rightarrow> Inl CouldNotSatisfy) = Inr w
     \<Longrightarrow> x = Stack w"
  by (cases x) (auto split: sum.splits)

lemma ms_satisfy_Inr:
  assumes "ms_satisfy env lh check_witness m = Some (Inr w)"
  obtains s where "satisfy_helper (env\<lparr>env_root_has_sig := safe (mall (ty m)), env_leaf_hash := lh\<rparr>)
      (minimum (env_varint env)) (thresh (env_varint env)) (node m) = Some s" "stack s = Stack w"
  using assms by (auto simp: ms_satisfy_def satisfy_def dest!: checked_stack_Inr)

lemma ms_satisfy_malleable_Inr:
  assumes "ms_satisfy_malleable env lh check_witness m = Some (Inr w)"
  obtains s where "satisfy_helper (env\<lparr>env_root_has_sig := safe (mall (ty m)), env_leaf_hash := lh\<rparr>)
      (minimum_mall (env_varint env)) (thresh_mall (env_varint env)) (node m) = Some s" "stack s = Stack w"
  using assms by (auto simp: ms_satisfy_malleable_def satisfy_mall_def dest!: checked_stack_Inr)

end
