(* ===== verification/Selection.thy ===== *)
theory Selection
  imports Satisfy
begin

text \<open>
  The contract between the recursion of \<open>satisfy_helper\<close> and the two functions it is given.
  The locale states what a selection of alternatives must guarantee; both pairs the crate
  uses, \<open>(minimum, thresh)\<close> and \<open>(minimum_mall, thresh_mall)\<close>, provide it.
\<close>

text \<open>
  \<open>picks k sats dissats w\<close>: the witness \<open>w\<close> stacks one available witness per child, the first
  child's on top, \<open>k\<close> of them satisfactions and the others dissatisfactions.
\<close>

definition picks :: "nat \<Rightarrow> satisfaction list \<Rightarrow> satisfaction list \<Rightarrow> bytes list \<Rightarrow> bool" where
  "picks k sats dissats w \<longleftrightarrow>
     (\<exists>S ws. S \<subseteq> {..<length sats} \<and> card S = k \<and> length ws = length sats \<and> w = concat (rev ws)
        \<and> (\<forall>i<length sats. stack ((if i \<in> S then sats else dissats) ! i) = Stack (ws ! i)))"

locale selection =
  fixes mf :: min_fn and tf :: thresh_fn
  assumes min_choice: "stack (mf s1 s2) = Stack w \<Longrightarrow> stack s1 = Stack w \<or> stack s2 = Stack w"
    and thresh_total: "0 < k \<Longrightarrow> k \<le> length sats \<Longrightarrow> length dissats = length sats \<Longrightarrow>
      \<not> list_ex has_sig dissats \<Longrightarrow> \<exists>r. tf k sats dissats = Some r"
    and thresh_choice: "tf k sats dissats = Some r \<Longrightarrow> stack r = Stack w \<Longrightarrow>
      length dissats = length sats \<Longrightarrow> picks k sats dissats w"

section \<open>Swapping and flattening\<close>

lemma swap_at_eq:
  assumes "distinct is" "set is \<subseteq> {..<length xs}" "length ys = length xs"
  shows "swap_at is xs ys =
    (map (\<lambda>i. if i \<in> set is then ys ! i else xs ! i) [0..<length xs],
     map (\<lambda>i. if i \<in> set is then xs ! i else ys ! i) [0..<length xs])"
  using assms
proof (induction "is" xs ys rule: swap_at.induct)
  case (1 xs ys)
  have "map (\<lambda>i. xs ! i) [0..<length xs] = xs" "map (\<lambda>i. ys ! i) [0..<length xs] = ys"
    using 1 by (simp_all add: map_nth [of ys, unfolded 1(3)] map_nth)
  then show ?case by simp
next
  case (2 i "is" xs ys)
  then show ?case by (auto simp: nth_list_update)
qed

lemma flatten_stuck:
  "\<forall>u. a \<noteq> Stack u \<Longrightarrow> foldl (\<lambda>acc next. wit_combine (stack next) acc) a rs \<noteq> Stack w"
  by (induction rs arbitrary: a) simp_all

lemma flatten_from:
  "foldl (\<lambda>acc next. wit_combine (stack next) acc) (Stack v) rs = Stack w \<longleftrightarrow>
     (\<exists>ws. list_all2 (\<lambda>r x. stack r = Stack x) rs ws \<and> w = concat (rev ws) @ v)"
proof (induction rs arbitrary: v)
  case (Cons r rs)
  show ?case
  proof (cases "stack r")
    case (Stack u)
    then show ?thesis using Cons.IH [of "u @ v"] by (auto simp: list_all2_Cons1)
  qed (use flatten_stuck [of Impossible] flatten_stuck [of Unavailable] in \<open>auto simp: list_all2_Cons1\<close>)
qed auto

lemma flatten_Stack:
  "flatten_stacks rs = Stack w \<longleftrightarrow> (\<exists>ws. list_all2 (\<lambda>r x. stack r = Stack x) rs ws \<and> w = concat (rev ws))"
  by (simp add: flatten_stacks_def wit_empty_def flatten_from)

text \<open>The first \<open>k\<close> entries of a sorted list of positions.\<close>

lemma sorted_positions:
  fixes key :: "nat \<Rightarrow> 'b::linorder" and k n :: nat
  defines "idx \<equiv> sort_key key [0..<n]"
  assumes "k \<le> n"
  shows "distinct (take k idx)" "set (take k idx) \<subseteq> {..<n}" "card (set (take k idx)) = k"
    and "k < n \<Longrightarrow> idx ! k \<notin> set (take k idx) \<and> idx ! k < n"
    and "k < n \<Longrightarrow> \<forall>i\<in>set (take k idx). key i \<le> key (idx ! k)"
proof -
  have d: "distinct idx" and s: "set idx = {..<n}" and l: "length idx = n"
    unfolding idx_def by auto
  show "distinct (take k idx)" using d by simp
  moreover show "set (take k idx) \<subseteq> {..<n}" using s by (metis set_take_subset)
  ultimately show "card (set (take k idx)) = k" using l \<open>k \<le> n\<close> by (simp add: distinct_card)
  assume kn: "k < n"
  show "idx ! k \<notin> set (take k idx) \<and> idx ! k < n"
    using d s l kn by (auto simp: in_set_conv_nth nth_eq_iff_index_eq dest!: nth_mem)
  show "\<forall>i\<in>set (take k idx). key i \<le> key (idx ! k)"
    using sorted_sort_key [of key "[0..<n]", folded idx_def] l kn
    by (auto simp: in_set_conv_nth sorted_iff_nth_mono)
qed

lemma picks_flatten:
  assumes S: "S \<subseteq> {..<length sats}" "card S = k"
    and w: "flatten_stacks (map (\<lambda>i. if i \<in> S then sats ! i else dissats ! i) [0..<length sats]) = Stack w"
  shows "picks k sats dissats w"
proof -
  from w obtain ws where ws: "list_all2 (\<lambda>r x. stack r = Stack x)
      (map (\<lambda>i. if i \<in> S then sats ! i else dissats ! i) [0..<length sats]) ws" "w = concat (rev ws)"
    by (auto simp: flatten_Stack)
  then have "length ws = length sats" by (auto dest: list_all2_lengthD)
  moreover have "stack ((if i \<in> S then sats else dissats) ! i) = Stack (ws ! i)" if "i < length sats" for i
    using list_all2_nthD2 [OF ws(1), of i] that \<open>length ws = length sats\<close> by (auto split: if_splits)
  ultimately show ?thesis
    unfolding picks_def using S ws(2) by blast
qed

section \<open>The non-malleable selection\<close>

lemma thresh_unfold:
  fixes vl k and sats dissats :: "satisfaction list"
  defines "idx \<equiv> sort_key (thresh_key vl sats dissats) [0..<length sats]"
  defines "ret \<equiv> map (\<lambda>i. if i \<in> set (take k idx) then sats ! i else dissats ! i) [0..<length sats]"
  assumes "k \<le> length sats" "0 < k" "length dissats = length sats"
  shows "thresh vl k sats dissats =
    (if stack (dissats ! (idx ! (k - 1))) = Impossible then Some (Sat Impossible False)
     else if k < length sats \<and> \<not> has_sig (sats ! (idx ! k)) \<and> stack (sats ! (idx ! k)) \<noteq> Impossible
     then (if list_ex has_sig ret then None else Some (Sat Unavailable False))
     else Some (Sat (flatten_stacks ret) (list_ex has_sig ret)))"
proof -
  note pos = sorted_positions [where key = "thresh_key vl sats dissats" and n = "length sats" and k = k,
      folded idx_def, OF assms(3)]
  have sw: "swap_at (take k idx) dissats sats =
      (ret, map (\<lambda>i. if i \<in> set (take k idx) then dissats ! i else sats ! i) [0..<length sats])"
    using pos(1,2) assms by (subst swap_at_eq) (auto simp: ret_def)
  have l: "length idx = length sats" by (simp add: idx_def)
  then have "take k idx ! (k - 1) \<in> set (take k idx)" using assms by (intro nth_mem) simp
  then have "idx ! (k - 1) \<in> set (take k idx)" using assms by simp
  moreover have "idx ! (k - 1) < length sats" using calculation pos(2) by auto
  ultimately show ?thesis
    using assms(3-5) pos(4) by (auto simp: thresh_def Let_def idx_def [symmetric] sw)
qed

lemma thresh_nosig:
  fixes vl k and sats dissats :: "satisfaction list"
  defines "idx \<equiv> sort_key (thresh_key vl sats dissats) [0..<length sats]"
  assumes "k < length sats" "\<not> has_sig (sats ! (idx ! k))" "stack (sats ! (idx ! k)) \<noteq> Impossible"
    and "i \<in> set (take k idx)"
  shows "\<not> has_sig (sats ! i)"
proof -
  have "thresh_key vl sats dissats i \<le> thresh_key vl sats dissats (idx ! k)"
    using sorted_positions(5) [of k "length sats" "thresh_key vl sats dissats"] assms
    unfolding idx_def by auto
  then show ?thesis using assms(3,4) by (auto simp: thresh_key_def less_eq_prod_def)
qed

text \<open>
  What makes the selection non-malleable: every alternative that was passed over is impossible
  or needs a signature, so no third party can put it in place of the chosen one.
\<close>

lemma minimum_rejects:
  assumes "stack (minimum vl s1 s2) = Stack w"
  shows "(stack s1 = Stack w \<and> (stack s2 = Impossible \<or> has_sig s2))
    \<or> (stack s2 = Stack w \<and> (stack s1 = Impossible \<or> has_sig s1))"
  using assms by (auto simp: minimum_def split: if_splits bool.splits dest!: wit_min_Stack)

lemma sorted_after:
  fixes key :: "nat \<Rightarrow> 'b::linorder"
  assumes "i < n" "i \<notin> set (take k (sort_key key [0..<n]))" "k < n"
  shows "key (sort_key key [0..<n] ! k) \<le> key i"
proof -
  let ?idx = "sort_key key [0..<n]"
  have "i \<in> set ?idx" using assms(1) by simp
  then obtain j where "j < length ?idx" "i = ?idx ! j" unfolding in_set_conv_nth by blast
  then have j: "j < n" "i = ?idx ! j" by simp_all
  have "k \<le> j"
  proof (rule ccontr)
    assume "\<not> k \<le> j"
    then have "i \<in> set (take k ?idx)" using j by (auto simp: in_set_conv_nth intro!: exI [of _ j])
    then show False using assms(2) by simp
  qed
  then have "map key ?idx ! k \<le> map key ?idx ! j"
    using j(1) by (intro sorted_nth_mono [OF sorted_sort_key]) simp_all
  then show ?thesis using j assms(3) by simp
qed

lemma thresh_rejects:
  assumes r: "thresh vl k sats dissats = Some r" "stack r = Stack w" and l: "length dissats = length sats"
  shows "\<exists>S \<subseteq> {..<length sats}. card S = k
    \<and> (\<forall>i<length sats. i \<notin> S \<longrightarrow> stack (sats ! i) = Impossible \<or> has_sig (sats ! i))
    \<and> flatten_stacks (map (\<lambda>i. if i \<in> S then sats ! i else dissats ! i) [0..<length sats]) = Stack w"
proof -
  have k: "0 < k" "k \<le> length sats" using r by (auto simp: thresh_def Let_def split: if_splits prod.splits)
  let ?key = "thresh_key vl sats dissats" and ?idx = "sort_key (thresh_key vl sats dissats) [0..<length sats]"
  let ?S = "set (take k ?idx)"
  note pos = sorted_positions [OF k(2), of ?key]
  have "stack (sats ! i) = Impossible \<or> has_sig (sats ! i)" if i: "i < length sats" "i \<notin> ?S" for i
  proof -
    have kn: "k < length sats" using i pos(2,3) k(2)
      by (metis card_subset_eq card_lessThan finite_lessThan lessThan_iff le_neq_implies_less)
    then have "stack (sats ! (?idx ! k)) = Impossible \<or> has_sig (sats ! (?idx ! k))"
      using r l k by (auto simp: thresh_unfold split: if_splits)
    moreover have "?key (?idx ! k) \<le> ?key i" by (rule sorted_after [OF i kn])
    ultimately show ?thesis by (auto simp: thresh_key_def less_eq_prod_def)
  qed
  moreover have "flatten_stacks (map (\<lambda>i. if i \<in> ?S then sats ! i else dissats ! i) [0..<length sats]) = Stack w"
    using r l k by (auto simp: thresh_unfold split: if_splits)
  ultimately show ?thesis using pos(2,3) by (intro exI [of _ ?S]) blast
qed

lemma guarded_Some:
  "(b \<Longrightarrow> \<not> c) \<Longrightarrow> \<exists>r. (if a then Some x else if b then (if c then None else Some y) else Some z) = Some r"
  by auto

interpretation nonmall: selection "minimum vl" "thresh vl" for vl
proof unfold_locales
  fix s1 s2 w
  show "stack (minimum vl s1 s2) = Stack w \<Longrightarrow> stack s1 = Stack w \<or> stack s2 = Stack w"
    by (rule minimum_Stack)
next
  fix k :: nat and sats dissats :: "satisfaction list"
  assume a: "0 < k" "k \<le> length sats" "length dissats = length sats" "\<not> list_ex has_sig dissats"
  let ?idx = "sort_key (thresh_key vl sats dissats) [0..<length sats]"
  have "\<not> list_ex has_sig (map (\<lambda>i. if i \<in> set (take k ?idx) then sats ! i else dissats ! i) [0..<length sats])"
    if "k < length sats \<and> \<not> has_sig (sats ! (?idx ! k)) \<and> stack (sats ! (?idx ! k)) \<noteq> Impossible"
    using thresh_nosig [of k sats vl dissats] that a(3,4) by (fastforce simp: list_ex_iff)
  then show "\<exists>r. thresh vl k sats dissats = Some r"
    unfolding thresh_unfold [OF a(2,1,3)] by (rule guarded_Some)
next
  fix k r w and sats dissats :: "satisfaction list"
  assume r: "thresh vl k sats dissats = Some r" "stack r = Stack w" and l: "length dissats = length sats"
  then have k: "0 < k" "k \<le> length sats" by (auto simp: thresh_def Let_def split: if_splits prod.splits)
  note pos = sorted_positions [OF k(2), of "thresh_key vl sats dissats"]
  show "picks k sats dissats w"
    using r l k pos by (intro picks_flatten [OF pos(2,3)]) (auto simp: thresh_unfold split: if_splits)
qed

section \<open>The malleable selection\<close>

lemma thresh_mall_unfold:
  fixes vl k and sats dissats :: "satisfaction list"
  defines "idx \<equiv> sort_key (thresh_mall_key vl sats dissats) [0..<length sats]"
  defines "ret \<equiv> map (\<lambda>i. if i \<in> set (take k idx) then sats ! i else dissats ! i) [0..<length sats]"
  assumes "k \<le> length sats" "length dissats = length sats"
  shows "thresh_mall vl k sats dissats = Some (Sat (flatten_stacks ret) (list_ex has_sig ret))"
proof -
  note pos = sorted_positions [where key = "thresh_mall_key vl sats dissats" and n = "length sats" and k = k,
      folded idx_def, OF assms(3)]
  have "fst (swap_at (take k idx) dissats sats) = ret"
    using pos(1,2) assms by (subst swap_at_eq) (auto simp: ret_def)
  then show ?thesis
    using assms(3) by (simp add: thresh_mall_def Let_def idx_def [symmetric] case_prod_unfold)
qed

interpretation malleable: selection "minimum_mall vl" "thresh_mall vl" for vl
proof unfold_locales
  fix s1 s2 w
  show "stack (minimum_mall vl s1 s2) = Stack w \<Longrightarrow> stack s1 = Stack w \<or> stack s2 = Stack w"
    by (rule minimum_mall_Stack)
next
  fix k :: nat and sats dissats :: "satisfaction list"
  assume "0 < k" "k \<le> length sats" "length dissats = length sats"
  then show "\<exists>r. thresh_mall vl k sats dissats = Some r" by (simp add: thresh_mall_unfold)
next
  fix k r w and sats dissats :: "satisfaction list"
  assume r: "thresh_mall vl k sats dissats = Some r" "stack r = Stack w" and l: "length dissats = length sats"
  then have k: "k \<le> length sats" by (auto simp: thresh_mall_def Let_def split: if_splits)
  note pos = sorted_positions [OF k, of "thresh_mall_key vl sats dissats"]
  show "picks k sats dissats w"
    using r l k by (intro picks_flatten [OF pos(2,3)]) (auto simp: thresh_mall_unfold)
qed

end
