(* ===== verification/Type_Invariants.thy ===== *)
theory Type_Invariants
  imports Ast "HOL-Library.Multiset"
begin

text \<open>
  What every well-formed miniscript's cached data satisfies. The type checkers of
  \<open>types/mod.rs\<close> and \<open>types/extra_props.rs\<close> run \<open>sanity_checks\<close> as debug assertions after
  each rule; here the assertions are theorems. The locale carries the induction over the
  tree once, for any data a node caches.
\<close>

section \<open>Bottom-up properties of cached data\<close>

locale node_property =
  fixes rule :: "('pk, 'h, 'e) terminal \<Rightarrow> 'p option"
    and attr :: "('pk, 'h, 'e) miniscript \<Rightarrow> 'p"
    and good :: "'p \<Rightarrow> bool"
  assumes rule_good: "(\<And>c. c \<in> set (children t) \<Longrightarrow> good (attr c)) \<Longrightarrow> rule t = Some p \<Longrightarrow> good p"
begin

lemma all_good:
  "every_node (\<lambda>ms. rule (node ms) = Some (attr ms)) ms \<Longrightarrow> good (attr ms)"
proof (induction "node ms" arbitrary: ms rule: terminal_children_induct)
  case step
  have "good (attr c)" if "c \<in> set (children (node ms))" for c
    using step.hyps [OF that refl] every_node_child [OF step.prems that] by blast
  then show ?case
    using rule_good every_node_root [OF step.prems] by blast
qed

end

lemma every_node_mono: "(\<And>ms. Q ms \<Longrightarrow> R ms) \<Longrightarrow> every_node Q ms \<Longrightarrow> every_node R ms"
proof (induction "node ms" arbitrary: ms rule: terminal_children_induct)
  case step
  have "every_node R c" if "c \<in> set (children (node ms))" for c
    using step.hyps [OF that refl step.prems(1)] every_node_child [OF step.prems(2) that] by blast
  then show ?case
    using every_node_root [OF step.prems(2)] step.prems(1)
    by (auto simp: every_node_def [of R ms] every_child_iff)
qed

lemma every_node_conj:
  "every_node Q ms \<Longrightarrow> every_node R ms \<Longrightarrow> every_node (\<lambda>m. Q m \<and> R m) ms"
proof (induction "node ms" arbitrary: ms rule: terminal_children_induct)
  case step
  have "every_node (\<lambda>m. Q m \<and> R m) c" if "c \<in> set (children (node ms))" for c
    using step.hyps [OF that refl] every_node_child [OF _ that] step.prems by blast
  then show ?case
    using step.prems [THEN every_node_root]
    by (auto simp: every_node_def [of "\<lambda>m. Q m \<and> R m" ms] every_child_iff)
qed

section \<open>The invariant of types\<close>

text \<open>
  The debug assertions of both layers, and what makes them inductive: a fragment that reads
  no input and can be dissatisfied is never satisfiable (unique dissatisfaction, safe), and a
  key expression always reads input.
\<close>

definition type_inv :: "ms_type \<Rightarrow> bool" where
  "type_inv t \<longleftrightarrow>
     corr_sanity_checks (corr t) \<and> type_sanity_checks t
     \<and> (input (corr t) = Input_Zero \<and> dissatisfiable (corr t) \<longrightarrow>
          dissat (mall t) = Dissat_Unique \<and> safe (mall t))
     \<and> (base (corr t) = Base_K \<longrightarrow> input (corr t) \<noteq> Input_Zero)"

definition ext_type_ok :: "('e, 'z) extension_scheme \<Rightarrow> ('pk, 'h, 'e) terminal \<Rightarrow> bool" where
  "ext_type_ok E t = (case t of ExtT e \<Rightarrow> type_inv (ty_from_ext E e) | _ \<Rightarrow> True)"

lemmas type_inv_defs = type_inv_def corr_sanity_checks_def type_sanity_checks_def

lemma type_inv_leaves:
  "type_inv ty_from_true" "type_inv ty_from_false" "type_inv ty_from_pk_k" "type_inv ty_from_pk_h"
  "type_inv (ty_from_multi k n)" "type_inv (ty_from_multi_a k n)" "type_inv ty_from_hash"
  "type_inv (ty_from_time t)"
  by (simp_all add: type_inv_defs ty_leaf_defs corr_leaf_defs mall_leaf_defs)

lemma type_inv_casts:
  assumes "type_inv t"
  shows "ty_cast_alt t = Inr t' \<Longrightarrow> type_inv t'"
    and "ty_cast_swap t = Inr t' \<Longrightarrow> type_inv t'"
    and "ty_cast_check t = Inr t' \<Longrightarrow> type_inv t'"
    and "ty_cast_dupif t = Inr t' \<Longrightarrow> type_inv t'"
    and "ty_cast_verify t = Inr t' \<Longrightarrow> type_inv t'"
    and "ty_cast_nonzero t = Inr t' \<Longrightarrow> type_inv t'"
    and "ty_cast_zeronotequal t = Inr t' \<Longrightarrow> type_inv t'"
  using assms
  by (auto simp: ty_cast_defs mall_cast_defs ty_both_eval corr_cast_Inr type_inv_defs
      split: base_type.splits)

lemmas mall_comb_eqs = mall_and_b_def mall_and_v_eq mall_or_b_def mall_or_d_def mall_or_c_def
  mall_or_i_eq mall_and_or_eq

lemma and_input_Zero: "and_input i j = Input_Zero \<longleftrightarrow> i = Input_Zero \<and> j = Input_Zero"
  by (cases i; cases j) auto

lemma or_b_input_Zero: "or_b_input i j = Input_Zero \<longleftrightarrow> i = Input_Zero \<and> j = Input_Zero"
  by (cases i; cases j) auto

lemma or_dc_input_Zero: "or_dc_input i j = Input_Zero \<longleftrightarrow> i = Input_Zero \<and> j = Input_Zero"
  by (cases i; cases j) auto

lemma and_or_input_Zero:
  "and_or_input i j k = Input_Zero \<longleftrightarrow> i = Input_Zero \<and> j = Input_Zero \<and> k = Input_Zero"
  by (cases i; cases j; cases k) auto

lemmas input_Zero_iffs = and_input_Zero or_b_input_Zero or_dc_input_Zero and_or_input_Zero

lemma type_inv_combs:
  assumes "type_inv l" "type_inv r"
  shows "ty_and_b l r = Inr t \<Longrightarrow> type_inv t"
    and "ty_and_v l r = Inr t \<Longrightarrow> type_inv t"
    and "ty_or_b l r = Inr t \<Longrightarrow> type_inv t"
    and "ty_or_d l r = Inr t \<Longrightarrow> type_inv t"
    and "ty_or_c l r = Inr t \<Longrightarrow> type_inv t"
    and "ty_or_i l r = Inr t \<Longrightarrow> type_inv t"
  using assms
  by (simp_all add: ty_comb_defs mall_comb_eqs ty_both_eval corr_comb_Inr)
    (auto simp: type_inv_defs input_Zero_iffs split: base_type.splits if_splits)

lemma type_inv_and_or:
  "type_inv a \<Longrightarrow> type_inv b \<Longrightarrow> type_inv c \<Longrightarrow> ty_and_or a b c = Inr t \<Longrightarrow> type_inv t"
  by (simp add: ty_and_or_def mall_and_or_eq ty_both_eval corr_and_or_Inr)
    (auto simp: type_inv_defs input_Zero_iffs split: base_type.splits if_splits)

lemma input_num_args_0: "input_num_args i = 0 \<longleftrightarrow> i = Input_Zero"
  by (cases i) auto

lemma type_inv_threshold:
  assumes inv: "\<forall>t\<in>set ts. type_inv t" and t: "ty_threshold k ts = Inr t"
    and k: "0 < k" "k \<le> length ts"
  shows "type_inv t"
proof -
  let ?m = "sum_list (map (\<lambda>c. input_num_args (input c)) (map corr ts))"
  have c: "base (corr t) = Base_B" "dissatisfiable (corr t)"
    "input (corr t) = Input_Zero \<longleftrightarrow> ?m = 0"
    and kids: "\<forall>j<length ts. thresh_child_ok j (corr (ts ! j))"
    using t by (auto simp: ty_threshold_def ty_both_Inr corr_threshold_Inr Let_def)
  have d: "dissatisfiable (corr x)" if "x \<in> set ts" for x
    using kids that by (auto simp: thresh_child_ok_def in_set_conv_nth)
  have "dissat (mall x) = Dissat_Unique \<and> safe (mall x) \<and> non_malleable (mall x)"
    if "?m = 0" "x \<in> set ts" for x
  proof -
    from that have "input (corr x) = Input_Zero" by (simp add: input_num_args_0)
    then show ?thesis
      using inv d that(2) by (auto simp: type_inv_def type_sanity_checks_def)
  qed
  then have all: "?m = 0 \<Longrightarrow> \<forall>x\<in>set ts. dissat (mall x) = Dissat_Unique \<and> safe (mall x) \<and> non_malleable (mall x)"
    by blast
  have flt: "\<forall>x\<in>set ts. safe (mall x) \<Longrightarrow> filter (safe \<circ> mall) ts = ts"
    by simp
  from t have "Inr (mall t) = mall_threshold k (map mall ts)"
    by (simp add: ty_threshold_def ty_both_Inr)
  then have m: "dissat (mall t) \<noteq> Dissat_None"
    "?m = 0 \<Longrightarrow> dissat (mall t) = Dissat_Unique \<and> safe (mall t) \<and> non_malleable (mall t)"
    using all flt k by (auto simp: mall_threshold_eq filter_map split: if_splits)
  then show ?thesis
    using c by (auto simp: type_inv_defs)
qed

lemma type_inv_threshold_subs:
  assumes "\<And>c. c \<in> set subs \<Longrightarrow> type_inv (ty c)" "ty_threshold k (map ty subs) = Inr t"
    "0 < k" "k \<le> length subs"
  shows "type_inv t"
  by (rule type_inv_threshold [OF _ assms(2)]) (use assms in auto)

text \<open>The rule of the type checker, on fragments whose extensions declare sane types.\<close>

definition sane_type_rule :: "('e, 'z) extension_scheme \<Rightarrow> lock_lib \<Rightarrow> ('pk, 'h, 'e) terminal \<Rightarrow> ms_type option" where
  "sane_type_rule E L t =
     (if ext_type_ok E t then (case type_rule E L t of Inl _ \<Rightarrow> None | Inr x \<Rightarrow> Some x) else None)"

lemma sane_type_rule_inv:
  assumes kids: "\<And>c. c \<in> set (children t) \<Longrightarrow> type_inv (ty c)" and t: "sane_type_rule E L t = Some p"
  shows "type_inv p"
proof -
  from t have "ext_type_ok E t" "type_rule E L t = Inr p"
    by (auto simp: sane_type_rule_def split: if_splits sum.splits)
  then show ?thesis
    using kids
    by (cases t) (auto simp: ext_type_ok_def type_inv_leaves split: if_splits
        intro: type_inv_casts type_inv_combs type_inv_and_or type_inv_threshold_subs)
qed

interpretation ty_node: node_property "sane_type_rule E L" ty type_inv for E L
  by unfold_locales (rule sane_type_rule_inv)

lemma ms_wf_type_inv:
  assumes "ms_wf E L st ms" and "every_node (\<lambda>m. ext_type_ok E (node m)) ms"
  shows "type_inv (ty ms)"
proof (rule ty_node.all_good)
  have "every_node (\<lambda>m. node_wf E L st m \<and> ext_type_ok E (node m)) ms"
    using assms unfolding ms_wf_def by (rule every_node_conj)
  then show "every_node (\<lambda>m. sane_type_rule E L (node m) = Some (ty m)) ms"
    by (rule every_node_mono [rotated]) (auto simp: sane_type_rule_def node_wf_iff)
qed

section \<open>The invariant of the extra data\<close>

text \<open>
  The four dissatisfaction fields are known together, and known whenever the type promises a
  dissatisfaction; the two satisfaction counts of \<open>sanity_checks\<close> are known together. This is
  what the \<open>expect\<close>s of \<open>threshold\<close> rely on.
\<close>

definition ext_inv :: "correctness \<Rightarrow> ext_data \<Rightarrow> bool" where
  "ext_inv c e \<longleftrightarrow>
     (stack_elem_count_sat e = None) = (exec_stack_elem_count_sat e = None)
     \<and> (exec_stack_elem_count_dissat e = None) = (stack_elem_count_dissat e = None)
     \<and> (max_dissat_size e = None) = (stack_elem_count_dissat e = None)
     \<and> (op_nsat (ops e) = None) = (stack_elem_count_dissat e = None)
     \<and> (dissatisfiable c \<longrightarrow> stack_elem_count_dissat e \<noteq> None)"

lemma ext_inv_sanity: "ext_inv c e \<Longrightarrow> ext_sanity_checks e"
  by (auto simp: ext_inv_def ext_sanity_checks_def)

lemma ext_inv_dissat:
  "ext_inv c e \<Longrightarrow> dissatisfiable c \<Longrightarrow>
     stack_elem_count_dissat e \<noteq> None \<and> max_dissat_size e \<noteq> None
     \<and> exec_stack_elem_count_dissat e \<noteq> None \<and> op_nsat (ops e) \<noteq> None"
  unfolding ext_inv_def by blast

lemma ext_inv_sat:
  "ext_inv c e \<Longrightarrow> (stack_elem_count_sat e = None) = (exec_stack_elem_count_sat e = None)"
  unfolding ext_inv_def by blast

lemma opt_None_simps [simp]:
  "opt_add a b = None \<longleftrightarrow> a = None \<or> b = None"
  "or_i_count a b = None \<longleftrightarrow> a = None \<and> b = None"
  by (cases a; cases b; simp add: or_i_count_def)+

lemma opt_max_None [simp]: "opt_max c d = None \<longleftrightarrow> c = None \<or> d = None"
  by (cases c; cases d) simp_all

lemma size_add_None [simp]: "size_add e f = None \<longleftrightarrow> e = None \<or> f = None"
  by (cases e; cases f) (auto simp: size_add_def)

lemma max_None_iff [simp]: "max a b = None \<longleftrightarrow> a = None \<and> b = (None :: 'a::linorder option)"
  by (cases a; cases b) auto

lemma thresh_try_fold_None:
  "thresh_try_fold f k i acc ps \<noteq> None \<longleftrightarrow>
     (\<forall>j<length ps. (if i + j \<le> k then fst (ps ! j) else snd (ps ! j)) \<noteq> None)"
proof (induction f k i acc ps rule: thresh_try_fold.induct)
  case (2 f k i acc x y ps)
  have all: "(\<forall>j<length ((x, y) # ps). (if i + j \<le> k then fst (((x, y) # ps) ! j) else snd (((x, y) # ps) ! j)) \<noteq> None)
    \<longleftrightarrow> (if i \<le> k then x else y) \<noteq> None
      \<and> (\<forall>j<length ps. (if Suc i + j \<le> k then fst (ps ! j) else snd (ps ! j)) \<noteq> None)"
    by (simp add: all_less_Suc)
  show ?case unfolding all using 2 by (auto split: option.splits if_splits)
qed simp

text \<open>In a list sorted by an optional key, the missing keys are counted from one end.\<close>

lemma descending_prefix_known:
  fixes key :: "'a \<Rightarrow> 'b::linorder option"
  assumes "sorted_wrt (\<lambda>a b. key b \<le> key a) ys"
  shows "(\<forall>j<length ys. j \<le> k \<longrightarrow> key (ys ! j) \<noteq> None) \<longleftrightarrow>
    min (Suc k) (length ys) \<le> length (filter (\<lambda>y. key y \<noteq> None) ys)"
  using assms
proof (induction ys arbitrary: k)
  case (Cons y ys)
  show ?case
  proof (cases "key y")
    case None
    with Cons.prems have "filter (\<lambda>y. key y \<noteq> None) ys = []"
      by (auto simp: filter_empty_conv)
    with None show ?thesis by (simp add: all_less_Suc)
  next
    case (Some v)
    with Cons.IH [of "k - 1"] Cons.prems show ?thesis
      by (cases k) (auto simp: all_less_Suc)
  qed
qed simp

lemma thresh_fold_known:
  fixes key :: "'x option \<times> 'x option \<Rightarrow> 'b::linorder option"
  assumes key: "\<And>p. snd p \<noteq> None \<Longrightarrow> key p = None \<longleftrightarrow> fst p = None"
    and snd: "\<forall>p\<in>set ps. snd p \<noteq> None"
  shows "thresh_try_fold f k 0 acc (rev (sort_key key ps)) \<noteq> None \<longleftrightarrow>
    min (Suc k) (length ps) \<le> length (filter (\<lambda>p. fst p \<noteq> None) ps)"
proof -
  let ?ys = "rev (sort_key key ps)"
  have mem: "set ?ys = set ps" by simp
  have srt: "sorted_wrt (\<lambda>a b. key b \<le> key a) ?ys"
    using sorted_sort_key [of key ps] by (simp only: sorted_wrt_rev sorted_wrt_map)
  have at: "snd (?ys ! j) \<noteq> None \<and> (key (?ys ! j) = None \<longleftrightarrow> fst (?ys ! j) = None)"
    if "j < length ?ys" for j
    using snd key mem nth_mem [OF that] by blast
  have "filter (\<lambda>p. key p \<noteq> None) ?ys = filter (\<lambda>p. fst p \<noteq> None) ?ys"
    using snd key mem by (intro filter_cong) auto
  then have flt: "length (filter (\<lambda>p. key p \<noteq> None) ?ys) = length (filter (\<lambda>p. fst p \<noteq> None) ps)"
    by (simp flip: size_mset add: mset_filter)
  have "thresh_try_fold f k 0 acc ?ys \<noteq> None \<longleftrightarrow>
      (\<forall>j<length ?ys. (if 0 + j \<le> k then fst (?ys ! j) else snd (?ys ! j)) \<noteq> None)"
    by (rule thresh_try_fold_None)
  also have "\<dots> \<longleftrightarrow> (\<forall>j<length ?ys. j \<le> k \<longrightarrow> key (?ys ! j) \<noteq> None)"
    using at by auto
  also have "\<dots> \<longleftrightarrow> min (Suc k) (length ?ys) \<le> length (filter (\<lambda>p. key p \<noteq> None) ?ys)"
    by (rule descending_prefix_known [OF srt])
  also have "\<dots> \<longleftrightarrow> min (Suc k) (length ps) \<le> length (filter (\<lambda>p. fst p \<noteq> None) ps)"
    unfolding flt by simp
  finally show ?thesis .
qed

lemma sat_minus_option_dissat_None:
  "snd p \<noteq> None \<Longrightarrow> sat_minus_option_dissat p = None \<longleftrightarrow> fst p = None"
  by (auto simp: sat_minus_option_dissat_def)

lemma ext_dissat_loop_inv:
  assumes "\<forall>e\<in>set es. stack_elem_count_dissat e \<noteq> None \<and> max_dissat_size e \<noteq> None
      \<and> exec_stack_elem_count_dissat e \<noteq> None \<and> op_nsat (ops e) \<noteq> None"
    and "a \<noteq> None" "b \<noteq> None" "c \<noteq> None"
  obtains a' b' c' n' where "ext_dissat_loop a b c n es = Some (Some a', Some b', Some c', n')"
  using assms
proof (induction a b c n es arbitrary: thesis rule: ext_dissat_loop.induct)
  case (1 a b c n)
  then show ?case by auto
next
  case (2 elems sz ex n e es)
  then obtain n_items sub c' m where e: "stack_elem_count_dissat e = Some n_items"
    "max_dissat_size e = Some sub" "exec_stack_elem_count_dissat e = Some c'"
    "op_nsat (ops e) = Some m" by auto
  show ?case
    by (rule "2.IH" [of "(map_option (\<lambda>x. x + n_items) elems,
          map_option (\<lambda>(w, s). (w + fst sub, s + snd sub)) sz)", OF _ refl e(4)])
      (use "2.prems" e in auto)
qed

lemma ext_inv_threshold:
  assumes inv: "\<forall>(c, e)\<in>set (zip cs es). ext_inv c e" and len: "length cs = length es"
    and c: "corr_threshold k cs = Inr c"
  shows "\<exists>e. ext_threshold k es = Some (Inr e) \<and> ext_inv c e"
proof -
  have kids: "ext_inv (cs ! j) (es ! j) \<and> dissatisfiable (cs ! j)" if "j < length es" for j
    using inv len that c by (force simp: set_zip corr_threshold_Inr thresh_child_ok_def)
  then have d: "\<forall>e\<in>set es. stack_elem_count_dissat e \<noteq> None \<and> max_dissat_size e \<noteq> None
      \<and> exec_stack_elem_count_dissat e \<noteq> None \<and> op_nsat (ops e) \<noteq> None"
    and s: "\<forall>e\<in>set es. (stack_elem_count_sat e = None) = (exec_stack_elem_count_sat e = None)"
    using ext_inv_dissat ext_inv_sat by (metis in_set_conv_nth)+
  obtain a' b' c' n' where loop:
    "ext_dissat_loop (Some 0) (Some (0, 0)) (Some 0) 0 es = Some (Some a', Some b', Some c', n')"
    by (rule ext_dissat_loop_inv [OF d]) auto
  let ?fold = "\<lambda>f sat dis. thresh_try_fold f k 0 (0::nat)
    (rev (sort_key sat_minus_option_dissat (map (\<lambda>e. (sat e, dis e)) es)))"
  have "?fold (+) stack_elem_count_sat stack_elem_count_dissat \<noteq> None \<longleftrightarrow>
      min (Suc k) (length es) \<le> length (filter (\<lambda>e. stack_elem_count_sat e \<noteq> None) es)"
    using d by (subst thresh_fold_known) (auto simp: sat_minus_option_dissat_None filter_map o_def)
  moreover have "?fold max exec_stack_elem_count_sat exec_stack_elem_count_dissat \<noteq> None \<longleftrightarrow>
      min (Suc k) (length es) \<le> length (filter (\<lambda>e. exec_stack_elem_count_sat e \<noteq> None) es)"
    using d by (subst thresh_fold_known) (auto simp: sat_minus_option_dissat_None filter_map o_def)
  moreover have "filter (\<lambda>e. stack_elem_count_sat e \<noteq> None) es =
      filter (\<lambda>e. exec_stack_elem_count_sat e \<noteq> None) es"
    using s by (intro filter_cong) auto
  ultimately show ?thesis
    by (auto simp: ext_threshold_def loop ext_inv_def Let_def op_limits_new_def)
qed

lemma ext_inv_casts:
  assumes "ext_inv c e"
  shows "corr_cast_alt c = Inr c' \<Longrightarrow> \<exists>e'. ext_cast_alt e = Inr e' \<and> ext_inv c' e'"
    and "corr_cast_swap c = Inr c' \<Longrightarrow> \<exists>e'. ext_cast_swap e = Inr e' \<and> ext_inv c' e'"
    and "corr_cast_check c = Inr c' \<Longrightarrow> \<exists>e'. ext_cast_check e = Inr e' \<and> ext_inv c' e'"
    and "corr_cast_dupif c = Inr c' \<Longrightarrow> \<exists>e'. ext_cast_dupif e = Inr e' \<and> ext_inv c' e'"
    and "corr_cast_verify c = Inr c' \<Longrightarrow> \<exists>e'. ext_cast_verify e = Inr e' \<and> ext_inv c' e'"
    and "corr_cast_nonzero c = Inr c' \<Longrightarrow> \<exists>e'. ext_cast_nonzero e = Inr e' \<and> ext_inv c' e'"
    and "corr_cast_zeronotequal c = Inr c' \<Longrightarrow> \<exists>e'. ext_cast_zeronotequal e = Inr e' \<and> ext_inv c' e'"
  using assms
  by (simp_all add: ext_inv_def ext_cast_defs corr_cast_Inr op_limits_new_def Let_def)

lemma or_i_dissat_size_None [simp]:
  "(case a of None \<Rightarrow> case b of None \<Rightarrow> None | Some r \<Rightarrow> Some (g r)
      | Some l \<Rightarrow> case b of None \<Rightarrow> Some (h l) | Some r \<Rightarrow> let m = max l r in Some (f m)) = None
    \<longleftrightarrow> a = None \<and> b = None"
  by (cases a; cases b) (simp_all add: Let_def)

lemma ext_inv_combs:
  assumes "ext_inv c e" "ext_inv d f"
  shows "corr_and_b c d = Inr c' \<Longrightarrow> \<exists>e'. ext_and_b e f = Inr e' \<and> ext_inv c' e'"
    and "corr_and_v c d = Inr c' \<Longrightarrow> \<exists>e'. ext_and_v e f = Inr e' \<and> ext_inv c' e'"
    and "corr_or_b c d = Inr c' \<Longrightarrow> \<exists>e'. ext_or_b e f = Inr e' \<and> ext_inv c' e'"
    and "corr_or_d c d = Inr c' \<Longrightarrow> \<exists>e'. ext_or_d e f = Inr e' \<and> ext_inv c' e'"
    and "corr_or_c c d = Inr c' \<Longrightarrow> \<exists>e'. ext_or_c e f = Inr e' \<and> ext_inv c' e'"
    and "corr_or_i c d = Inr c' \<Longrightarrow> \<exists>e'. ext_or_i e f = Inr e' \<and> ext_inv c' e'"
  using assms
  by (simp_all add: ext_inv_def ext_comb_defs corr_comb_Inr op_limits_new_def del: not_None_eq not_Some_eq)

lemma ext_inv_and_or:
  assumes "ext_inv a e" "ext_inv b f" "ext_inv c g" "corr_and_or a b c = Inr c'"
  shows "\<exists>e'. ext_and_or e f g = Inr e' \<and> ext_inv c' e'"
  using assms
  by (simp add: ext_inv_def ext_and_or_def corr_and_or_Inr op_limits_new_def del: not_None_eq not_Some_eq)

lemma ext_inv_leaves:
  "ext_inv corr_from_true ext_from_true" "ext_inv corr_from_false ext_from_false"
  "ext_inv corr_from_pk_k (ext_from_pk_k st)" "ext_inv corr_from_pk_h (ext_from_pk_h st)"
  "ext_inv (corr_from_multi k n) (ext_from_multi k n)"
  "ext_inv (corr_from_multi_a k n) (ext_from_multi_a k n)"
  "ext_inv corr_from_hash ext_from_sha256" "ext_inv corr_from_hash ext_from_hash256"
  "ext_inv corr_from_hash ext_from_ripemd160" "ext_inv corr_from_hash ext_from_hash160"
  "ext_inv (corr_from_time t) (ext_from_after L t)" "ext_inv (corr_from_time t) (ext_from_older L t)"
  by (simp_all add: ext_inv_def ext_leaf_defs corr_leaf_defs op_limits_new_def split: sig_type.splits)

text \<open>An extension fragment whose declared cost data agrees with its declared type.\<close>

definition ext_data_ok :: "('e, 'z) extension_scheme \<Rightarrow> ('pk, 'h, 'e) terminal \<Rightarrow> bool" where
  "ext_data_ok E t = (case t of ExtT e \<Rightarrow> ext_inv (corr_prop E e) (extra_prop E e) | _ \<Rightarrow> True)"

text \<open>
  The central fact: on a fragment whose type checks, the computation of the extra data
  neither panics nor fails, and keeps the invariant.
\<close>

lemma ext_rule_total:
  assumes kids: "\<forall>c\<in>set (children t). ext_inv (corr (ty c)) (ext c)"
    and t: "type_rule E L t = Inr p" and ok: "ext_data_ok E t"
  shows "\<exists>x. ext_rule E L st t = Some (Inr x) \<and> ext_inv (corr p) x"
proof (cases t)
  case (Thresh k subs)
  have "\<exists>e. ext_threshold k (map ext subs) = Some (Inr e) \<and> ext_inv (corr p) e"
  proof (rule ext_inv_threshold)
    show "\<forall>(c, e)\<in>set (zip (map (corr \<circ> ty) subs) (map ext subs)). ext_inv c e"
      using kids Thresh by (auto simp: zip_map_map zip_same)
    show "corr_threshold k (map (corr \<circ> ty) subs) = Inr (corr p)"
      using t Thresh by (auto simp: ty_threshold_def ty_both_Inr)
  qed simp
  with Thresh t show ?thesis by auto
qed (use kids t ok in \<open>auto simp: ext_data_ok_def ty_leaf_defs ty_cast_defs ty_comb_defs ty_both_Inr
    ext_inv_leaves ext_inv_casts ext_inv_combs ext_inv_and_or check_k_def split: if_splits\<close>)

definition sane_data_rule ::
  "('e, 'z) extension_scheme \<Rightarrow> lock_lib \<Rightarrow> sig_type \<Rightarrow> ('pk, 'h, 'e) terminal \<Rightarrow> (ms_type \<times> ext_data) option" where
  "sane_data_rule E L st t =
     (if ext_data_ok E t then
        (case (type_rule E L t, ext_rule E L st t) of
           (Inr x, Some (Inr y)) \<Rightarrow> Some (x, y) | _ \<Rightarrow> None)
      else None)"

interpretation data_node: node_property
  "sane_data_rule E L st" "\<lambda>ms. (ty ms, ext ms)" "\<lambda>(t, e). ext_inv (corr t) e" for E L st
proof unfold_locales
  fix t :: "('pk, 'h, 'a) terminal" and p
  assume kids: "\<And>c. c \<in> set (children t) \<Longrightarrow> (case (ty c, ext c) of (t, e) \<Rightarrow> ext_inv (corr t) e)"
    and "sane_data_rule E L st t = Some p"
  then obtain x y where p: "p = (x, y)" "type_rule E L t = Inr x" "ext_rule E L st t = Some (Inr y)"
      "ext_data_ok E t"
    by (auto simp: sane_data_rule_def split: if_splits sum.splits option.splits)
  with kids show "case p of (t, e) \<Rightarrow> ext_inv (corr t) e"
    using ext_rule_total [of t E L x st] by auto
qed

lemma ms_wf_ext_inv:
  assumes "ms_wf E L st ms" and "every_node (\<lambda>m. ext_data_ok E (node m)) ms"
  shows "ext_inv (corr (ty ms)) (ext ms)"
proof -
  have "every_node (\<lambda>m. node_wf E L st m \<and> ext_data_ok E (node m)) ms"
    using assms unfolding ms_wf_def by (rule every_node_conj)
  then have "every_node (\<lambda>m. sane_data_rule E L st (node m) = Some (ty m, ext m)) ms"
    by (rule every_node_mono [rotated]) (auto simp: sane_data_rule_def node_wf_iff)
  then show ?thesis using data_node.all_good by fastforce
qed

text \<open>
  \<open>from_ast\<close> on a fragment over well-formed children: it returns the type checker's verdict,
  and never panics.
\<close>

lemma from_ast_total:
  assumes "\<And>c. c \<in> set (children t) \<Longrightarrow> ms_wf E L st c \<and> every_node (\<lambda>m. ext_data_ok E (node m)) c"
    and "ext_data_ok E t"
  shows "case type_rule E L t of
      Inl k \<Rightarrow> from_ast E L st t = Some (Inl (t, k))
    | Inr p \<Rightarrow> \<exists>ms. from_ast E L st t = Some (Inr ms) \<and> node ms = t \<and> ty ms = p \<and> ms_wf E L st ms"
proof (cases "type_rule E L t")
  case (Inl k)
  then show ?thesis by (simp add: from_ast_def type_check_def wrap_err_def)
next
  case (Inr p)
  then obtain x where x: "ext_rule E L st t = Some (Inr x)"
    using ext_rule_total [OF _ Inr assms(2)] ms_wf_ext_inv assms(1) by blast
  then have "from_ast E L st t = Some (Inr (Miniscript t p x))"
    using Inr by (simp add: from_ast_Inr)
  moreover have "ms_wf E L st (Miniscript t p x)"
    using assms(1) calculation by (subst ms_wf_iff) (auto simp: node_wf_def)
  ultimately show ?thesis using Inr by auto
qed

end
