(* ===== verification/Satisfy_Typed.thy ===== *)
theory Satisfy_Typed
  imports Selection Type_Invariants
begin

text \<open>
  What the types of \<open>types/correctness.rs\<close> promise about the satisfier's output: on a
  well-formed miniscript no \<open>assert!\<close> of \<open>satisfy.rs\<close> fails, a dissatisfiable fragment has a
  signature-free dissatisfaction, and the input modifier bounds the witness.
\<close>

section \<open>Multisignatures in closed form\<close>

definition sig_of :: "('pk, 'h, 'e) sat_env \<Rightarrow> 'pk \<Rightarrow> bytes option" where
  "sig_of env pk = (case wit_signature env pk of Stack [x] \<Rightarrow> Some x | _ \<Rightarrow> None)"

definition available_sigs :: "('pk, 'h, 'e) sat_env \<Rightarrow> 'pk list \<Rightarrow> bytes list" where
  "available_sigs env keys = List.map_filter (sig_of env) keys"

lemma wit_signature_eq:
  "wit_signature env pk = (case sig_of env pk of None \<Rightarrow> Impossible | Some x \<Rightarrow> Stack [x])"
  by (auto simp: sig_of_def wit_signature_def split: sig_type.splits option.splits)

lemma map_filter_Cons:
  "List.map_filter f (x # xs) = (case f x of None \<Rightarrow> List.map_filter f xs | Some y \<Rightarrow> y # List.map_filter f xs)"
  by (simp add: List.map_filter_def split: option.splits)

lemma collect_sigs_eq:
  "collect_sigs (wit_signature env) keys = Some (map (\<lambda>x. [x]) (available_sigs env keys))"
  by (induction keys) (auto simp: available_sigs_def map_filter_Cons wit_signature_eq
      List.map_filter_def split: option.splits)

lemma last_max_zeros: "last_max_idx (replicate m 0) = (if m = 0 then None else Some (m - 1))"
  by (induction m) auto

lemma last_max_ones: "last_max_idx (replicate (Suc a) 1 @ replicate m 0) = Some a"
proof (induction a)
  case 0
  then show ?case by (auto simp: last_max_zeros split: option.splits)
next
  case (Suc a)
  have "(replicate (Suc a) 1 @ replicate m 0) ! a = (1::nat)"
    by (simp add: nth_append del: replicate_Suc)
  then show ?case using Suc by simp
qed

text \<open>Each round removes the last signature that is left, so the first ones remain.\<close>

lemma throw_away_eq:
  "n \<le> length xs \<Longrightarrow> throw_away n (map (\<lambda>x. [x]) xs @ replicate m []) =
     Some (map (\<lambda>x. [x]) (take (length xs - n) xs) @ replicate (n + m) [])"
proof (induction n arbitrary: xs m)
  case (Suc n)
  then obtain ys y where xs: "xs = ys @ [y]" by (metis Suc_le_length_iff rev_exhaust list.distinct(1))
  have lens: "map length (map (\<lambda>x. [x]) xs @ replicate m []) = replicate (Suc (length ys)) 1 @ replicate m 0"
    by (auto simp: xs replicate_append_same [symmetric] o_def map_replicate_const)
  have upd: "(map (\<lambda>x. [x]) xs @ replicate m [])[length ys := []] = map (\<lambda>x. [x]) ys @ replicate (Suc m) []"
    by (simp add: xs list_update_append)
  have "throw_away (Suc n) (map (\<lambda>x. [x]) xs @ replicate m [])
      = throw_away n (map (\<lambda>x. [x]) ys @ replicate (Suc m) [])"
    by (simp only: throw_away.simps lens last_max_ones option.case upd)
  also have "\<dots> = Some (map (\<lambda>x. [x]) (take (length ys - n) ys) @ replicate (n + Suc m) [])"
    using Suc by (intro Suc.IH) (simp add: xs)
  finally show ?case by (simp add: xs)
qed simp

lemma foldl_combine_singletons:
  "foldl (\<lambda>acc sig. wit_combine acc (Stack sig)) (Stack v) sigs = Stack (v @ concat sigs)"
  by (induction sigs arbitrary: v) auto

lemma multi_sat_eq:
  "multi_sat env k keys = Some
     (if length (available_sigs env keys) < k then Sat Impossible False
      else Sat (Stack ([] # take k (available_sigs env keys))) True)"
  using throw_away_eq [of "length (available_sigs env keys) - k" "available_sigs env keys" 0]
  by (auto simp: multi_sat_def collect_sigs_eq push_0_def foldl_combine_singletons)

text \<open>\<open>MultiA\<close> keeps the first \<open>k\<close> signatures found from the last key on.\<close>

fun greedy :: "nat \<Rightarrow> bytes option list \<Rightarrow> bytes list" where
  "greedy n [] = []"
| "greedy (Suc n) (Some x # xs) = x # greedy n xs"
| "greedy n (_ # xs) = [] # greedy n xs"

lemma greedy_0 [simp]: "greedy 0 xs = replicate (length xs) []"
  by (induction xs) auto

lemma greedy_None [simp]: "greedy n (None # xs) = [] # greedy n xs"
  by (cases n) auto

lemma available_sigs_Cons:
  "available_sigs env (pk # pks) =
     (case sig_of env pk of None \<Rightarrow> available_sigs env pks | Some x \<Rightarrow> x # available_sigs env pks)"
  by (simp add: available_sigs_def map_filter_Cons split: option.splits)

lemma available_sigs_in: "x \<in> set (available_sigs env keys) \<Longrightarrow> \<exists>pk\<in>set keys. sig_of env pk = Some x"
  by (auto simp: available_sigs_def List.map_filter_def)

lemma multi_a_loop_eq:
  assumes "0 < n"
  shows "multi_a_loop (wit_signature env) (cnt + n) cnt pks =
    Some (map (\<lambda>x. [x]) (greedy n (map (sig_of env) pks)),
      cnt + min n (length (available_sigs env pks)))"
  using assms
proof (induction pks arbitrary: n cnt)
  case (Cons pk pks)
  show ?case
  proof (cases "sig_of env pk")
    case None
    then show ?thesis using Cons.IH [OF Cons.prems, of cnt]
      by (simp add: wit_signature_eq [of env pk] available_sigs_Cons)
  next
    case (Some x)
    obtain m where n: "n = Suc m" using Cons.prems by (cases n) auto
    show ?thesis
    proof (cases m)
      case 0
      then show ?thesis using Some n
        by (simp add: wit_signature_eq [of env pk] available_sigs_Cons map_replicate_const)
    next
      case (Suc m')
      then show ?thesis using Some n Cons.IH [of m "Suc cnt"]
        by (simp add: wit_signature_eq [of env pk] available_sigs_Cons)
    qed
  qed
qed (simp add: available_sigs_def List.map_filter_def)

lemma available_sigs_rev: "length (available_sigs env (rev keys)) = length (available_sigs env keys)"
  by (simp add: available_sigs_def List.map_filter_def rev_filter [symmetric])

lemma multi_a_sat_eq:
  "0 < k \<Longrightarrow> multi_a_sat env k keys = Some
     (if length (available_sigs env keys) < k then Sat Impossible False
      else Sat (Stack (greedy k (map (sig_of env) (rev keys)))) True)"
  using multi_a_loop_eq [of k env 0 "rev keys"]
  by (auto simp: multi_a_sat_def wit_empty_def foldl_combine_singletons available_sigs_rev)

section \<open>No assertion fails, and dissatisfiable fragments have dissatisfactions\<close>

text \<open>
  What is needed of the environment: the keys of raw key hashes are known, the methods of an
  extension return, and one that declares itself dissatisfiable has a dissatisfaction.
\<close>

definition dissat_ready :: "satisfaction \<Rightarrow> bool" where
  "dissat_ready d \<longleftrightarrow> \<not> has_sig d \<and> (\<exists>w. stack d = Stack w)"

definition env_dissat_ok :: "('pk, 'h, 'e) sat_env \<Rightarrow> ('pk, 'h, 'e) miniscript \<Rightarrow> bool" where
  "env_dissat_ok env m =
     (case node m of
        RawPkH h \<Rightarrow> wit_pkh_public_key env h \<noteq> Unavailable
      | ExtT e \<Rightarrow> env_ext_satisfy env (env_stfr env) e \<noteq> None
          \<and> (\<exists>d. env_ext_dissatisfy env (env_stfr env) e = Some d \<and> (dissatisfiable (corr (ty m)) \<longrightarrow> dissat_ready d))
      | _ \<Rightarrow> True)"

lemma wit_pkh_public_key_cases: "wit_pkh_public_key env h \<noteq> Unavailable \<Longrightarrow> \<exists>w. wit_pkh_public_key env h = Stack w"
  by (auto simp: wit_pkh_public_key_def split: sig_type.splits option.splits)

lemma dissat_ready_min:
  "dissat_ready s1 \<or> dissat_ready s2 \<Longrightarrow> dissat_ready (minimum_mall vl s1 s2)"
  using minimum_mall_nosig(1) [of s1 _ vl s2] minimum_mall_nosig(2) [of s2 _ vl s1]
  by (auto simp: dissat_ready_def)

lemma flatten_ready: "\<forall>d\<in>set ds. dissat_ready d \<Longrightarrow> \<exists>w. flatten_stacks ds = Stack w"
  using list_all2_ex [of ds "\<lambda>d x. stack d = Stack x"] by (auto simp: flatten_Stack dissat_ready_def)

text \<open>What the induction carries for a node: both helpers return, and keep the promise of the type.\<close>

definition helpers_ok :: "min_fn \<Rightarrow> thresh_fn \<Rightarrow> ('pk, 'h, 'e) sat_env \<Rightarrow> ('pk, 'h, 'e) miniscript \<Rightarrow> bool" where
  "helpers_ok mf tf env m \<longleftrightarrow>
     (\<exists>s. satisfy_helper env mf tf (node m) = Some s)
     \<and> (\<exists>d. dissatisfy_helper env mf tf (node m) = Some d
          \<and> (dissatisfiable (corr (ty m)) \<longrightarrow> dissat_ready d))"

lemma helpers_okE:
  assumes "helpers_ok mf tf env m"
  obtains s d where "satisfy_helper env mf tf (node m) = Some s"
    "dissatisfy_helper env mf tf (node m) = Some d"
    "dissatisfiable (corr (ty m)) \<longrightarrow> dissat_ready d"
  using assms by (auto simp: helpers_ok_def)

lemma collect_opt_ex: "\<forall>x\<in>set xs. \<exists>y. f x = Some y \<and> Q x y \<Longrightarrow>
    \<exists>ys. collect_opt f xs = Some ys \<and> list_all2 Q xs ys"
proof -
  assume "\<forall>x\<in>set xs. \<exists>y. f x = Some y \<and> Q x y"
  then obtain ys where "list_all2 (\<lambda>x y. f x = Some y \<and> Q x y) xs ys"
    using list_all2_ex [of xs "\<lambda>x y. f x = Some y \<and> Q x y"] by auto
  then show ?thesis
    by (auto simp: collect_opt_Some elim: list_all2_mono intro!: exI [of _ ys])
qed

lemmas ready_simps = dissat_ready_def push_0_def push_1_def wit_empty_def hash_dissatisfaction_def
  assert_nosig_def

context selection
begin

lemma thresh_node_ok:
  assumes t: "type_rule E L (Thresh k subs) = Inr p"
    and kids: "\<forall>c\<in>set subs. helpers_ok mf tf env c"
  shows "(\<exists>s. satisfy_helper env mf tf (Thresh k subs) = Some s)
    \<and> (\<exists>d. dissatisfy_helper env mf tf (Thresh k subs) = Some d \<and> dissat_ready d)"
proof -
  from t have k: "0 < k" "k \<le> length subs"
    and d: "\<forall>c\<in>set subs. dissatisfiable (corr (ty c))"
    by (auto simp: ty_threshold_def ty_both_Inr corr_threshold_Inr thresh_child_ok_def in_set_conv_nth Let_def)
  have "\<exists>ys. collect_opt (\<lambda>s. satisfy_helper env mf tf (node s)) subs = Some ys \<and> list_all2 (\<lambda>_ _. True) subs ys"
    using kids by (intro collect_opt_ex) (auto elim: helpers_okE)
  then obtain sats where sats: "collect_opt (\<lambda>s. satisfy_helper env mf tf (node s)) subs = Some sats"
    "length sats = length subs" by (auto dest: list_all2_lengthD)
  have "\<exists>ys. collect_opt (\<lambda>s. dissatisfy_helper env mf tf (node s)) subs = Some ys
      \<and> list_all2 (\<lambda>_. dissat_ready) subs ys"
    using kids d by (intro collect_opt_ex) (fastforce elim: helpers_okE)
  then obtain dissats where dissats: "collect_opt (\<lambda>s. dissatisfy_helper env mf tf (node s)) subs = Some dissats"
    "length dissats = length subs" "\<forall>d\<in>set dissats. dissat_ready d"
    by (auto simp: list_all2_conv_all_nth all_set_conv_all_nth)
  then have nosig: "\<not> list_ex has_sig dissats" by (auto simp: list_ex_iff dissat_ready_def)
  obtain r where "tf k sats dissats = Some r"
    using thresh_total [of k sats dissats] k nosig sats(2) dissats(2) by auto
  then show ?thesis
    using sats dissats nosig flatten_ready [OF dissats(3)] by (simp add: dissat_ready_def)
qed

lemma node_helpers_ok:
  assumes t: "type_rule E L (node m) = Inr (ty m)" and env: "env_dissat_ok env m"
    and kids: "\<forall>c\<in>set (children (node m)). helpers_ok mf tf env c"
  shows "helpers_ok mf tf env m"
proof (cases "node m")
  case (Thresh k subs)
  then show ?thesis
    using thresh_node_ok [of E L k subs "ty m" env] t kids by (auto simp: helpers_ok_def)
next
  case (OrI l r)
  then show ?thesis
    using t kids
    by (auto simp: helpers_ok_def ty_or_i_def ty_both_Inr corr_comb_Inr ready_simps
        intro!: dissat_ready_min [unfolded dissat_ready_def])
next
  case (RawPkH h)
  then show ?thesis
    using env wit_pkh_public_key_cases [of env h] by (auto simp: helpers_ok_def env_dissat_ok_def ready_simps)
next
  case (ExtT e)
  then show ?thesis using env by (auto simp: helpers_ok_def env_dissat_ok_def)
next
  case (MultiA k keys)
  then show ?thesis using t by (auto simp: helpers_ok_def multi_a_sat_eq ready_simps)
qed (use t kids in \<open>auto simp: helpers_ok_def multi_sat_eq ready_simps ty_leaf_defs ty_cast_defs ty_comb_defs
      corr_leaf_defs ms_type_eq ty_both_Inr corr_cast_Inr corr_comb_Inr corr_and_or_Inr split: if_splits\<close>)

lemma helpers_total:
  assumes "ms_wf E L st m" and "every_node (env_dissat_ok env) m"
  shows "helpers_ok mf tf env m"
  using assms
proof (induction "node m" arbitrary: m rule: terminal_children_induct)
  case step
  have "helpers_ok mf tf env c" if "c \<in> set (children (node m))" for c
    using step.hyps [OF that refl] step.prems that every_node_child [OF step.prems(2) that]
    by (auto simp: ms_wf_iff [of E L st m])
  then show ?case
    using step.prems by (intro node_helpers_ok [of E L]) (auto simp: ms_wf_iff [of E L st m] node_wf_iff dest: every_node_root)
qed

end

section \<open>The input modifier bounds the witness\<close>

text \<open>
  The meaning of \<open>z\<close>, \<open>o\<close> and \<open>n\<close> on a satisfaction (the top of the witness is its last
  element), and of \<open>z\<close> and \<open>o\<close> on a dissatisfaction.
\<close>

fun sat_shape :: "input_type \<Rightarrow> bytes list \<Rightarrow> bool" where
  "sat_shape Input_Zero w \<longleftrightarrow> w = []"
| "sat_shape Input_One w \<longleftrightarrow> length w = 1"
| "sat_shape Input_Any w \<longleftrightarrow> True"
| "sat_shape Input_OneNonZero w \<longleftrightarrow> length w = 1 \<and> last w \<noteq> []"
| "sat_shape Input_AnyNonZero w \<longleftrightarrow> w \<noteq> [] \<and> last w \<noteq> []"

fun dissat_shape :: "input_type \<Rightarrow> bytes list \<Rightarrow> bool" where
  "dissat_shape Input_Zero w \<longleftrightarrow> w = []"
| "dissat_shape Input_One w \<longleftrightarrow> length w = 1"
| "dissat_shape Input_OneNonZero w \<longleftrightarrow> length w = 1"
| "dissat_shape _ w \<longleftrightarrow> True"

lemma sat_dissat_shape: "sat_shape i w \<Longrightarrow> dissat_shape i w"
  by (cases i) auto

lemma shape_and: "sat_shape i wl \<Longrightarrow> sat_shape j wr \<Longrightarrow> sat_shape (and_input i j) (wr @ wl)"
  by (cases i; cases j) (auto simp: last_append)

lemma dissat_shape_and:
  "dissat_shape i wl \<Longrightarrow> dissat_shape j wr \<Longrightarrow> dissat_shape (and_input i j) (wr @ wl)"
  by (cases i; cases j) auto

lemma shape_or_b:
  "dissat_shape i wl \<Longrightarrow> dissat_shape j wr \<Longrightarrow> sat_shape (or_b_input i j) (wr @ wl)"
  by (cases i; cases j) auto

lemma shape_or_left: "sat_shape i wl \<Longrightarrow> sat_shape (or_dc_input i j) wl"
  by (cases i; cases j) auto

lemma shape_or_right:
  "dissat_shape i wl \<Longrightarrow> dissat_shape j wr \<Longrightarrow> sat_shape (or_dc_input i j) (wr @ wl)"
  by (cases i; cases j) auto

lemma shape_and_or_left:
  "dissat_shape i wa \<Longrightarrow> dissat_shape j wb \<Longrightarrow> sat_shape (and_or_input i j l) (wb @ wa)"
  by (cases i; cases j; cases l) auto

lemma shape_and_or_right:
  "dissat_shape i wa \<Longrightarrow> dissat_shape l wc \<Longrightarrow> sat_shape (and_or_input i j l) (wc @ wa)"
  by (cases i; cases j; cases l) auto

lemmas sd = sat_dissat_shape

lemmas shapes_and_or = shape_and_or_left [OF sd sd] shape_and_or_right [OF _ sd]
  shape_and_or_right [THEN sd]
lemmas shapes_or_b = shape_or_b [OF _ sd] shape_or_b [OF sd] shape_or_b [THEN sd]
lemmas shapes_or_dc = shape_or_left shape_or_right [OF _ sd] shape_or_right [THEN sd]
lemmas shapes_and = shape_and dissat_shape_and [OF sd] dissat_shape_and

lemma shape_num_args: "dissat_shape i w \<Longrightarrow> input_num_args i \<le> 1 \<Longrightarrow> length w = input_num_args i"
  by (cases i) auto

lemma shape_threshold:
  assumes c: "corr_threshold k cs = Inr c" and len: "length ws = length cs"
    and ws: "\<forall>i<length cs. dissat_shape (input (cs ! i)) (ws ! i)"
  shows "sat_shape (input c) (concat (rev ws)) \<and> dissat_shape (input c) (concat (rev ws))"
proof -
  let ?m = "sum_list (map (\<lambda>c. input_num_args (input c)) cs)"
  have m: "input c = (if ?m = 0 then Input_Zero else if ?m = 1 then Input_One else Input_Any)"
    using c by (auto simp: corr_threshold_Inr Let_def)
  have len: "length (concat (rev ws)) = ?m" if "?m \<le> 1"
  proof -
    have "input_num_args (input x) \<le> 1" if "x \<in> set cs" for x
      using member_le_sum_list [of "input_num_args (input x)" "map (\<lambda>c. input_num_args (input c)) cs"]
        that \<open>?m \<le> 1\<close> by simp
    then have "map length ws = map (\<lambda>c. input_num_args (input c)) cs"
      using ws len by (intro nth_equalityI) (auto intro!: shape_num_args)
    then show ?thesis by (simp add: length_concat rev_map [symmetric] sum_list_rev)
  qed
  then have "concat (rev ws) = []" if "?m = 0"
    using that by (metis length_0_conv zero_le)
  then show ?thesis using m len by (cases "?m = 0"; cases "?m = 1") simp_all
qed

text \<open>
  What the third-party serialisations and the satisfier must deliver at each leaf: no empty
  keys, signatures or preimages, and extensions that respect their declared type.
\<close>

definition leaf_bytes_ok :: "('pk, 'h, 'e) sat_env \<Rightarrow> ('pk, 'h, 'e) miniscript \<Rightarrow> bool" where
  "leaf_bytes_ok env m =
     (case node m of
        PkK pk \<Rightarrow> sig_of env pk \<noteq> Some []
      | PkH pk \<Rightarrow> key_bytes env pk \<noteq> []
      | RawPkH h \<Rightarrow> (\<forall>w. wit_pkh_signature env h = Stack w \<longrightarrow> last w \<noteq> [])
      | Sha256 h \<Rightarrow> lookup_sha256 (env_stfr env) h \<noteq> Some []
      | Hash256 h \<Rightarrow> lookup_hash256 (env_stfr env) h \<noteq> Some []
      | Ripemd160 h \<Rightarrow> lookup_ripemd160 (env_stfr env) h \<noteq> Some []
      | Hash160 h \<Rightarrow> lookup_hash160 (env_stfr env) h \<noteq> Some []
      | Multi k keys \<Rightarrow> (\<forall>pk\<in>set keys. sig_of env pk \<noteq> Some [])
      | ExtT e \<Rightarrow>
          (\<forall>s w. env_ext_satisfy env (env_stfr env) e = Some s \<and> stack s = Stack w \<longrightarrow> sat_shape (input (corr (ty m))) w)
          \<and> (\<forall>d w. env_ext_dissatisfy env (env_stfr env) e = Some d \<and> stack d = Stack w \<longrightarrow> dissat_shape (input (corr (ty m))) w)
      | _ \<Rightarrow> True)"

definition shapes_ok :: "min_fn \<Rightarrow> thresh_fn \<Rightarrow> ('pk, 'h, 'e) sat_env \<Rightarrow> ('pk, 'h, 'e) miniscript \<Rightarrow> bool" where
  "shapes_ok mf tf env m \<longleftrightarrow>
     (\<forall>s w. satisfy_helper env mf tf (node m) = Some s \<and> stack s = Stack w \<longrightarrow> sat_shape (input (corr (ty m))) w)
     \<and> (\<forall>s w. dissatisfy_helper env mf tf (node m) = Some s \<and> stack s = Stack w \<longrightarrow> dissat_shape (input (corr (ty m))) w)"

lemma shapes_okD:
  assumes "shapes_ok mf tf env m"
  shows "satisfy_helper env mf tf (node m) = Some s \<Longrightarrow> stack s = Stack w \<Longrightarrow> sat_shape (input (corr (ty m))) w"
    and "dissatisfy_helper env mf tf (node m) = Some s \<Longrightarrow> stack s = Stack w \<Longrightarrow> dissat_shape (input (corr (ty m))) w"
  using assms by (auto simp: shapes_ok_def)

context selection
begin

lemma thresh_shapes:
  assumes t: "type_rule E L (node m) = Inr (ty m)" and m: "node m = Thresh k subs"
    and kids: "\<forall>c\<in>set subs. shapes_ok mf tf env c"
  shows "shapes_ok mf tf env m"
proof -
  from t m have c: "corr_threshold k (map (corr \<circ> ty) subs) = Inr (corr (ty m))"
    by (auto simp: ty_threshold_def ty_both_Inr)
  have kid: "dissat_shape (input (corr (ty (subs ! i)))) w"
    if "i < length subs" "stack s = Stack w"
      "satisfy_helper env mf tf (node (subs ! i)) = Some s \<or> dissatisfy_helper env mf tf (node (subs ! i)) = Some s"
    for i s w
    using kids that nth_mem [OF that(1)] sat_dissat_shape by (metis shapes_okD)
  have sat: "sat_shape (input (corr (ty m))) w"
    if s: "satisfy_helper env mf tf (node m) = Some s" "stack s = Stack w" for s w
  proof -
    from s m obtain sats dissats where
      sats: "list_all2 (\<lambda>x y. satisfy_helper env mf tf (node x) = Some y) subs sats" and
      dissats: "list_all2 (\<lambda>x y. dissatisfy_helper env mf tf (node x) = Some y) subs dissats" and
      tf: "tf k sats dissats = Some s"
      by (auto simp: bind_eq_Some_conv collect_opt_Some)
    then obtain S ws where ws: "length ws = length subs" "w = concat (rev ws)"
      "\<forall>i<length subs. stack ((if i \<in> S then sats else dissats) ! i) = Stack (ws ! i)"
      using thresh_choice [OF tf s(2)] by (auto simp: picks_def dest!: list_all2_lengthD)
    have "dissat_shape (input (corr (ty (subs ! i)))) (ws ! i)" if "i < length subs" for i
      using ws(3) that list_all2_nthD [OF sats that] list_all2_nthD [OF dissats that]
      by (cases "i \<in> S") (auto intro!: kid)
    then show ?thesis using shape_threshold [OF c, of ws] ws by simp
  qed
  have "dissat_shape (input (corr (ty m))) w"
    if s: "dissatisfy_helper env mf tf (node m) = Some s" "stack s = Stack w" for s w
  proof -
    from s m obtain nsats where
      nsats: "list_all2 (\<lambda>x y. dissatisfy_helper env mf tf (node x) = Some y) subs nsats" and
      "flatten_stacks nsats = Stack w"
      by (auto simp: bind_eq_Some_conv collect_opt_Some split: if_splits)
    then obtain ws where ws: "list_all2 (\<lambda>r x. stack r = Stack x) nsats ws" "w = concat (rev ws)"
      by (auto simp: flatten_Stack)
    then have "dissat_shape (input (corr (ty (subs ! i)))) (ws ! i)" if "i < length subs" for i
      using that list_all2_nthD [OF nsats that] list_all2_nthD [OF ws(1), of i] list_all2_lengthD [OF nsats]
      by (auto intro!: kid)
    then show ?thesis
      using shape_threshold [OF c, of ws] ws list_all2_lengthD [OF nsats] list_all2_lengthD [OF ws(1)] by simp
  qed
  with sat show ?thesis by (auto simp: shapes_ok_def)
qed

lemma node_shapes:
  assumes t: "type_rule E L (node m) = Inr (ty m)" and env: "leaf_bytes_ok env m"
    and kids: "\<forall>c\<in>set (children (node m)). shapes_ok mf tf env c"
  shows "shapes_ok mf tf env m"
proof (cases "node m")
  case (Thresh k subs)
  then show ?thesis using thresh_shapes [OF t Thresh] kids by simp
next
  case (AndOr a b c)
  then show ?thesis
    using t kids
    by (auto simp: shapes_ok_def bind_eq_Some_conv ty_and_or_def ty_both_Inr corr_and_or_Inr
        dest!: min_choice simp: shapes_and_or) 
next
  case (OrB l r)
  then show ?thesis
    using t kids
    by (auto simp: shapes_ok_def bind_eq_Some_conv ty_or_b_def ty_both_Inr corr_comb_Inr assert_nosig_def
        dest!: min_choice simp: shapes_or_b split: if_splits) 
next
  case (OrD l r)
  then show ?thesis
    using t kids
    by (auto simp: shapes_ok_def bind_eq_Some_conv ty_or_d_def ty_both_Inr corr_comb_Inr assert_nosig_def
        dest!: min_choice simp: shapes_or_dc split: if_splits) 
next
  case (OrC l r)
  then show ?thesis
    using t kids
    by (auto simp: shapes_ok_def bind_eq_Some_conv ty_or_c_def ty_both_Inr corr_comb_Inr assert_nosig_def
        dest!: min_choice simp: shapes_or_dc split: if_splits) 
next
  case (OrI l r)
  then show ?thesis
    using t kids
    by (auto simp: shapes_ok_def bind_eq_Some_conv ty_or_i_def ty_both_Inr corr_comb_Inr push_0_def push_1_def
        dest!: min_choice minimum_mall_Stack split: if_splits) 
next
  case (AndV l r)
  then show ?thesis
    using t kids
    by (auto simp: shapes_ok_def bind_eq_Some_conv ty_and_v_def ty_both_Inr corr_comb_Inr 
        simp: shapes_and) 
next
  case (AndB l r)
  then show ?thesis
    using t kids
    by (auto simp: shapes_ok_def bind_eq_Some_conv ty_and_b_def ty_both_Inr corr_comb_Inr 
        simp: shapes_and) 
next
  case (Multi k keys)
  have "last (take k (available_sigs env keys)) \<noteq> []" if "0 < k" "k \<le> length (available_sigs env keys)"
  proof -
    have "take k (available_sigs env keys) \<noteq> []" using that by auto
    then have "last (take k (available_sigs env keys)) \<in> set (available_sigs env keys)"
      using last_in_set in_set_takeD by fast
    then show ?thesis
      using env Multi by (auto simp: leaf_bytes_ok_def dest!: available_sigs_in)
  qed
  then show ?thesis
    using t Multi
    by (auto simp: shapes_ok_def ty_leaf_defs corr_leaf_defs ms_type_eq multi_sat_eq split: if_splits)
next
  case (MultiA k keys)
  then show ?thesis
    using t by (auto simp: shapes_ok_def ty_leaf_defs corr_leaf_defs ms_type_eq)
next
  case (ExtT e)
  then show ?thesis using t env by (auto simp: shapes_ok_def leaf_bytes_ok_def)
next
  case (RawPkH h)
  have "w \<noteq> [] \<and> last w \<noteq> []" if "wit_pkh_signature env h = Stack w" for w
    using that env RawPkH by (auto simp: leaf_bytes_ok_def wit_pkh_signature_def split: sig_type.splits option.splits prod.splits)
  then show ?thesis using t RawPkH by (auto simp: shapes_ok_def ty_leaf_defs corr_leaf_defs ms_type_eq)
qed (use t env kids in \<open>auto simp: shapes_ok_def ty_leaf_defs corr_leaf_defs ms_type_eq ty_cast_defs
    ty_both_Inr corr_cast_Inr ready_simps timelock_sat_def wit_preimage_def wit_signature_eq
    bind_eq_Some_conv leaf_bytes_ok_def split: option.splits if_splits\<close>)

lemma helpers_shapes:
  assumes "ms_wf E L st m" and "every_node (leaf_bytes_ok env) m"
  shows "shapes_ok mf tf env m"
  using assms
proof (induction "node m" arbitrary: m rule: terminal_children_induct)
  case step
  have "shapes_ok mf tf env c" if "c \<in> set (children (node m))" for c
    using step.hyps [OF that refl] step.prems that every_node_child [OF step.prems(2) that]
    by (auto simp: ms_wf_iff [of E L st m])
  then show ?case
    using step.prems
    by (intro node_shapes [of E L]) (auto simp: ms_wf_iff [of E L st m] node_wf_iff dest: every_node_root)
qed

end

end
