(* ===== verification/Interpreter.thy ===== *)
theory Interpreter
  imports Ast Witness
begin

text \<open>
  The script interpreter (\<open>interpreter/stack.rs\<close> and the iterator of \<open>interpreter/mod.rs\<close>).

  The stack and the stack of evaluation states are \<open>Vec\<close>s whose last element is the top;
  here both are lists with the top first, so \<open>push\<close> is \<open>#\<close>. Third-party code (parsing of keys
  and signatures, hashing, the \<open>verify_sig\<close> closure) and the extension's \<open>evaluate\<close> are the
  fields of the parameter \<open>interp_lib\<close>. A panic (failed \<open>unwrap\<close>, index out of bounds) is the
  outcome \<open>Panic\<close>.
\<close>

section \<open>Data\<close>

datatype bitcoin_key = Fullkey bytes | XOnlyPublicKey bytes

datatype key_sig_pair = EcdsaPair bytes elements_sig | SchnorrPair bytes bytes

definition as_ecdsa :: "key_sig_pair \<Rightarrow> (bytes \<times> elements_sig) option" where
  "as_ecdsa p = (case p of EcdsaPair pk sig \<Rightarrow> Some (pk, sig) | SchnorrPair _ _ \<Rightarrow> None)"

definition as_schnorr :: "key_sig_pair \<Rightarrow> (bytes \<times> bytes) option" where
  "as_schnorr p = (case p of EcdsaPair _ _ \<Rightarrow> None | SchnorrPair pk sig \<Rightarrow> Some (pk, sig))"

datatype interp_error =
    AbsoluteLocktimeNotMet u32
  | AbsoluteLocktimeComparisonInvalid u32 u32
  | CouldNotEvaluate
  | ExpectedPush
  | HashPreimageLengthMismatch
  | InsufficientSignaturesMultiSig
  | InvalidEcdsaSignature bytes
  | InvalidSchnorrSignature bytes
  | MissingExtraZeroMultiSig
  | MultiSigEvaluationError
  | PkEvaluationError bitcoin_key
  | PkHashVerifyFail bytes
  | PubkeyParseError
  | RelativeLocktimeNotMet u32
  | Secp
  | SchnorrSigErr
  | ScriptSatisfactionError
  | UnexpectedStackBoolean
  | UnexpectedStackEnd
  | UnexpectedStackElementPush
  | VerifyFailed
  | IncorrectCovenantWitness
  | CovWitnessSizeErr nat nat nat
  | ArithError

datatype hash_lock_type =
    HL_Sha256 bytes
  | HL_Hash256 bytes
  | HL_Hash160 bytes
  | HL_Ripemd160 bytes

datatype 'e satisfied_constraint =
    SC_PublicKey key_sig_pair
  | SC_PublicKeyHash bytes key_sig_pair
  | SC_HashLock hash_lock_type bytes
  | SC_RelativeTimelock u32
  | SC_AbsoluteTimelock u32
  | SC_VerEq u32
  | SC_OutputsPref bytes
  | SC_Ext 'e

datatype element = Satisfied | Dissatisfied | Push bytes

definition element_from :: "bytes \<Rightarrow> element" where
  "element_from v = (if v = [1] then Satisfied else if v = [] then Dissatisfied else Push v)"

definition try_push :: "element \<Rightarrow> interp_error + bytes" where
  "try_push el = (case el of Push x \<Rightarrow> Inr x | _ \<Rightarrow> Inl ExpectedPush)"

definition into_slice :: "element \<Rightarrow> bytes" where
  "into_slice el = (case el of Satisfied \<Rightarrow> [1] | Dissatisfied \<Rightarrow> [] | Push v \<Rightarrow> v)"

definition as_push :: "element \<Rightarrow> interp_error + bytes" where
  "as_push el = (case el of Push sl \<Rightarrow> Inr sl | _ \<Rightarrow> Inl UnexpectedStackBoolean)"

type_synonym istack = "element list"

record 'e interp_lib =
  verify_sig :: "key_sig_pair \<Rightarrow> bool"
  sig_from_der :: "bytes \<Rightarrow> bytes option"
  sighash_from_u32 :: "u32 \<Rightarrow> u8"
  schnorr_from_slice :: "bytes \<Rightarrow> bytes option"
  fullkey_from_slice :: "bytes \<Rightarrow> bytes option"
  xonly_from_slice :: "bytes \<Rightarrow> bytes option"
  key_pubkeyhash :: "sig_type \<Rightarrow> bitcoin_key \<Rightarrow> bytes"
  hash_sha256 :: "bytes \<Rightarrow> bytes"
  hash_hash256 :: "bytes \<Rightarrow> bytes"
  hash_ripemd160 :: "bytes \<Rightarrow> bytes"
  hash_hash160 :: "bytes \<Rightarrow> bytes"
  lock_is_blocks :: "u32 \<Rightarrow> bool"
  ext_evaluate :: "'e \<Rightarrow> istack \<Rightarrow> ((interp_error + bool) \<times> istack) option"
  cov_verify :: "bytes \<Rightarrow> bytes \<Rightarrow> bytes \<Rightarrow> bool"

section \<open>Signatures\<close>

text \<open>\<open>None\<close> is the panic of \<open>split_last().unwrap()\<close> on an empty signature.\<close>

definition elementssig_from_rawsig :: "'e interp_lib \<Rightarrow> bytes \<Rightarrow> (interp_error + elements_sig) option" where
  "elementssig_from_rawsig L rawsig =
     (if rawsig = [] then None
      else
        let flag = sighash_from_u32 L (ucast (last rawsig))
        in Some (case sig_from_der L (butlast rawsig) of
                   None \<Rightarrow> Inl Secp | Some sig \<Rightarrow> Inr (sig, flag)))"

definition verify_sersig :: "'e interp_lib \<Rightarrow> bitcoin_key \<Rightarrow> bytes \<Rightarrow> (interp_error + key_sig_pair) option" where
  "verify_sersig L key sigser =
     (case key of
        Fullkey pk \<Rightarrow>
          map_option (\<lambda>r. bind_res r (\<lambda>ecdsa_sig.
            let key_sig_pair = EcdsaPair pk ecdsa_sig
            in if verify_sig L key_sig_pair then Inr key_sig_pair else Inl (InvalidEcdsaSignature pk)))
            (elementssig_from_rawsig L sigser)
      | XOnlyPublicKey pk \<Rightarrow>
          Some (case schnorr_from_slice L sigser of
            None \<Rightarrow> Inl SchnorrSigErr
          | Some schnorr_sig \<Rightarrow>
              let key_sig_pair = SchnorrPair pk schnorr_sig
              in if verify_sig L key_sig_pair then Inr key_sig_pair else Inl (InvalidSchnorrSignature pk)))"

section \<open>Evaluating leaves against the stack\<close>

text \<open>
  The helpers return \<open>Option<Result<SatisfiedConstraint, Error>>\<close> and mutate the stack:
  \<open>EvNone\<close> is \<open>None\<close>, \<open>EvOk\<close> is \<open>Some(Ok(...))\<close>, both with the new stack.
\<close>

datatype 'e ev =
    EvPanic
  | EvNone istack
  | EvOk "'e satisfied_constraint" istack
  | EvErr interp_error

definition evaluate_pk :: "'e interp_lib \<Rightarrow> bitcoin_key \<Rightarrow> istack \<Rightarrow> 'e ev" where
  "evaluate_pk L pk s =
     (case s of
        [] \<Rightarrow> EvErr UnexpectedStackEnd
      | Dissatisfied # s' \<Rightarrow> EvNone (Dissatisfied # s')
      | Push sigser # s' \<Rightarrow>
          (case verify_sersig L pk sigser of
             None \<Rightarrow> EvPanic
           | Some (Inr key_sig) \<Rightarrow> EvOk (SC_PublicKey key_sig) (Satisfied # s')
           | Some (Inl e) \<Rightarrow> EvErr e)
      | Satisfied # _ \<Rightarrow> EvErr (PkEvaluationError pk))"

definition bitcoin_key_from_slice :: "'e interp_lib \<Rightarrow> bytes \<Rightarrow> sig_type \<Rightarrow> bitcoin_key option" where
  "bitcoin_key_from_slice L sl st =
     (case st of
        Schnorr \<Rightarrow> map_option XOnlyPublicKey (xonly_from_slice L sl)
      | Ecdsa \<Rightarrow> map_option Fullkey (fullkey_from_slice L sl))"

definition evaluate_pkh :: "'e interp_lib \<Rightarrow> bytes \<Rightarrow> sig_type \<Rightarrow> istack \<Rightarrow> 'e ev" where
  "evaluate_pkh L pkh st s =
     (case s of
        Push pk # s' \<Rightarrow>
          if hash_hash160 L pk \<noteq> pkh then EvErr (PkHashVerifyFail pkh)
          else
            (case bitcoin_key_from_slice L pk st of
               None \<Rightarrow> EvErr PubkeyParseError
             | Some key \<Rightarrow>
                 (case s' of
                    [] \<Rightarrow> EvErr UnexpectedStackEnd
                  | Dissatisfied # s'' \<Rightarrow> EvNone (Dissatisfied # s'')
                  | Push sigser # s'' \<Rightarrow>
                      (case verify_sersig L key sigser of
                         None \<Rightarrow> EvPanic
                       | Some (Inr key_sig) \<Rightarrow> EvOk (SC_PublicKeyHash pkh key_sig) (Satisfied # s'')
                       | Some (Inl e) \<Rightarrow> EvErr e)
                  | Satisfied # _ \<Rightarrow> EvErr (PkEvaluationError key)))
      | _ \<Rightarrow> EvErr UnexpectedStackEnd)"

definition evaluate_after :: "'e interp_lib \<Rightarrow> u32 \<Rightarrow> u32 \<Rightarrow> istack \<Rightarrow> 'e ev" where
  "evaluate_after L n lock_time s =
     (if lock_is_blocks L n = lock_is_blocks L lock_time then
        (if n \<le> lock_time then EvOk (SC_AbsoluteTimelock n) (Satisfied # s)
         else EvErr (AbsoluteLocktimeNotMet n))
      else EvErr (AbsoluteLocktimeComparisonInvalid n lock_time))"

definition evaluate_older :: "u32 \<Rightarrow> u32 \<Rightarrow> istack \<Rightarrow> 'e ev" where
  "evaluate_older n age s =
     (if age \<ge> n then EvOk (SC_RelativeTimelock n) (Satisfied # s)
      else EvErr (RelativeLocktimeNotMet n))"

definition evaluate_hash :: "(bytes \<Rightarrow> bytes) \<Rightarrow> (bytes \<Rightarrow> hash_lock_type) \<Rightarrow> bytes \<Rightarrow> istack \<Rightarrow> 'e ev" where
  "evaluate_hash hf wrap hash s =
     (case s of
        Push preimage # s' \<Rightarrow>
          if length preimage \<noteq> 32 then EvErr HashPreimageLengthMismatch
          else if hf preimage = hash then EvOk (SC_HashLock (wrap hash) preimage) (Satisfied # s')
          else EvNone (Dissatisfied # s')
      | _ \<Rightarrow> EvErr UnexpectedStackEnd)"

definition evaluate_sha256 :: "'e interp_lib \<Rightarrow> bytes \<Rightarrow> istack \<Rightarrow> 'e ev" where
  "evaluate_sha256 L = evaluate_hash (hash_sha256 L) HL_Sha256"
definition evaluate_hash256 :: "'e interp_lib \<Rightarrow> bytes \<Rightarrow> istack \<Rightarrow> 'e ev" where
  "evaluate_hash256 L = evaluate_hash (hash_hash256 L) HL_Hash256"
definition evaluate_hash160 :: "'e interp_lib \<Rightarrow> bytes \<Rightarrow> istack \<Rightarrow> 'e ev" where
  "evaluate_hash160 L = evaluate_hash (hash_hash160 L) HL_Hash160"
definition evaluate_ripemd160 :: "'e interp_lib \<Rightarrow> bytes \<Rightarrow> istack \<Rightarrow> 'e ev" where
  "evaluate_ripemd160 L = evaluate_hash (hash_ripemd160 L) HL_Ripemd160"

definition evaluate_multi :: "'e interp_lib \<Rightarrow> bitcoin_key \<Rightarrow> istack \<Rightarrow> 'e ev" where
  "evaluate_multi L pk s =
     (case s of
        [] \<Rightarrow> EvErr UnexpectedStackEnd
      | Push sigser # s' \<Rightarrow>
          (case verify_sersig L pk sigser of
             None \<Rightarrow> EvPanic
           | Some (Inr key_sig) \<Rightarrow> EvOk (SC_PublicKey key_sig) s'
           | Some (Inl _) \<Rightarrow> EvNone (Push sigser # s'))
      | _ # _ \<Rightarrow> EvErr UnexpectedStackBoolean)"

section \<open>One turn of the evaluation loop\<close>

type_synonym 'e interp_ms = "(bitcoin_key, bytes, 'e) miniscript"

record 'e node_state =
  ns_node :: "'e interp_ms"
  n_evaluated :: nat
  n_satisfied :: nat

abbreviation NS :: "'e interp_ms \<Rightarrow> nat \<Rightarrow> nat \<Rightarrow> 'e node_state" where
  "NS ms i j \<equiv> \<lparr>ns_node = ms, n_evaluated = i, n_satisfied = j\<rparr>"

record interp_ctx =
  age :: u32
  lock_time :: u32
  isig_type :: sig_type

datatype 'e outcome =
    Panic
  | Continue "'e node_state list" istack
  | Yield "'e satisfied_constraint" "'e node_state list" istack
  | Fail interp_error

fun finish :: "'e node_state list \<Rightarrow> 'e ev \<Rightarrow> 'e outcome" where
  "finish st EvPanic = Panic"
| "finish st (EvNone s) = Continue st s"
| "finish st (EvOk c s) = Yield c st s"
| "finish st (EvErr e) = Fail e"

text \<open>
  A test of the top of the stack: what to do when it is satisfied and when it is
  dissatisfied; other pushes and an empty stack are errors.
\<close>

definition pop_bool :: "(istack \<Rightarrow> 'e outcome) \<Rightarrow> (istack \<Rightarrow> 'e outcome) \<Rightarrow> istack \<Rightarrow> 'e outcome" where
  "pop_bool sat dis s =
     (case s of
        [] \<Rightarrow> Fail UnexpectedStackEnd
      | Satisfied # s' \<Rightarrow> sat s'
      | Dissatisfied # s' \<Rightarrow> dis s'
      | Push _ # _ \<Rightarrow> Fail UnexpectedStackElementPush)"

text \<open>\<open>Thresh\<close>: the last child's result decides together with the count so far.\<close>

definition step_thresh :: "'e interp_ms \<Rightarrow> nat \<Rightarrow> 'e interp_ms list \<Rightarrow> nat \<Rightarrow> nat \<Rightarrow>
    'e node_state list \<Rightarrow> istack \<Rightarrow> 'e outcome" where
  "step_thresh ms k subs ne ns st s =
     (if ne = 0 then
        (if subs = [] then Panic else Continue (NS (subs ! 0) 0 0 # NS ms 1 0 # st) s)
      else if ne = length subs then
        pop_bool
          (\<lambda>s'. if k = 0 then Panic
                else if ns = k - 1 then Continue st (Satisfied # s') else Continue st (Dissatisfied # s'))
          (\<lambda>s'. if ns = k then Continue st (Satisfied # s') else Continue st (Dissatisfied # s'))
          s
      else
        pop_bool
          (\<lambda>s'. if ne < length subs then Continue (NS (subs ! ne) 0 0 # NS ms (ne + 1) (ns + 1) # st) s' else Panic)
          (\<lambda>s'. if ne < length subs then Continue (NS (subs ! ne) 0 0 # NS ms (ne + 1) ns # st) s' else Panic)
          s)"

definition step_multi_a :: "'e interp_lib \<Rightarrow> 'e interp_ms \<Rightarrow> nat \<Rightarrow> bitcoin_key list \<Rightarrow> nat \<Rightarrow> nat \<Rightarrow>
    'e node_state list \<Rightarrow> istack \<Rightarrow> 'e outcome" where
  "step_multi_a L ms k subs ne ns st s =
     (if ne = length subs then
        (if ns = k then Continue st (Satisfied # s) else Continue st (Dissatisfied # s))
      else if ne < length subs then
        (case evaluate_pk L (subs ! ne) s of
           EvOk x s' \<Rightarrow>
             (case s' of _ # s'' \<Rightarrow> Yield x (NS ms (ne + 1) (ns + 1) # st) s'' | [] \<Rightarrow> Fail UnexpectedStackEnd)
         | EvNone s' \<Rightarrow>
             (case s' of _ # s'' \<Rightarrow> Continue (NS ms (ne + 1) ns # st) s'' | [] \<Rightarrow> Fail UnexpectedStackEnd)
         | EvErr e \<Rightarrow> Fail e
         | EvPanic \<Rightarrow> Panic)
      else Panic)"

definition multi_try :: "'e interp_lib \<Rightarrow> 'e interp_ms \<Rightarrow> bitcoin_key \<Rightarrow> nat \<Rightarrow> nat \<Rightarrow>
    'e node_state list \<Rightarrow> istack \<Rightarrow> 'e outcome" where
  "multi_try L ms pk ne ns st s =
     (case evaluate_multi L pk s of
        EvOk x s' \<Rightarrow> Yield x (NS ms (ne + 1) (ns + 1) # st) s'
      | EvNone s' \<Rightarrow> Continue (NS ms (ne + 1) ns # st) s'
      | EvErr e \<Rightarrow> Fail e
      | EvPanic \<Rightarrow> Panic)"

definition step_multi :: "'e interp_lib \<Rightarrow> 'e interp_ms \<Rightarrow> nat \<Rightarrow> bitcoin_key list \<Rightarrow> nat \<Rightarrow> nat \<Rightarrow>
    'e node_state list \<Rightarrow> istack \<Rightarrow> 'e outcome" where
  "step_multi L ms k subs ne ns st s =
     (if ne = 0 then
        (if length s < k + 1 then Fail InsufficientSignaturesMultiSig
         else
           (case s of
              [] \<Rightarrow> Fail UnexpectedStackEnd
            | Dissatisfied # _ \<Rightarrow>
                (if length (filter (\<lambda>x. x = Dissatisfied) (take (k + 1) s)) = k + 1
                 then Continue st (Dissatisfied # drop (k + 1) s)
                 else Fail MissingExtraZeroMultiSig)
            | _ \<Rightarrow> (if subs = [] then Panic else multi_try L ms (subs ! (length subs - 1)) ne ns st s)))
      else if ns = k then
        (case s of Dissatisfied # s' \<Rightarrow> Continue st (Satisfied # s') | _ \<Rightarrow> Fail MissingExtraZeroMultiSig)
      else if ne = length subs then Fail MultiSigEvaluationError
      else if ne < length subs then multi_try L ms (subs ! (length subs - ne - 1)) ne ns st s
      else Panic)"

text \<open>
  The body of the \<open>while let\<close> loop of \<open>iter_next\<close>, for the popped state \<open>NS ms ne ns\<close> whose node
  is \<open>t\<close>, the remaining states \<open>st\<close> and the stack \<open>s\<close>. The guards are tried in source order;
  what none of them covers is \<open>CouldNotEvaluate\<close>.
\<close>

fun step_term :: "'e interp_lib \<Rightarrow> interp_ctx \<Rightarrow> 'e interp_ms \<Rightarrow> nat \<Rightarrow> nat \<Rightarrow> 'e node_state list \<Rightarrow> istack \<Rightarrow>
    (bitcoin_key, bytes, 'e) terminal \<Rightarrow> 'e outcome" where
  "step_term L c ms ne ns st s TrueT = Continue st (Satisfied # s)"
| "step_term L c ms ne ns st s FalseT = Continue st (Dissatisfied # s)"
| "step_term L c ms ne ns st s (PkK pk) = finish st (evaluate_pk L pk s)"
| "step_term L c ms ne ns st s (PkH pk) =
     finish st (evaluate_pkh L (key_pubkeyhash L (isig_type c) pk) (isig_type c) s)"
| "step_term L c ms ne ns st s (RawPkH pkh) = finish st (evaluate_pkh L pkh (isig_type c) s)"
| "step_term L c ms ne ns st s (After n) = finish st (evaluate_after L n (lock_time c) s)"
| "step_term L c ms ne ns st s (Older n) = finish st (evaluate_older n (age c) s)"
| "step_term L c ms ne ns st s (Sha256 h) = finish st (evaluate_sha256 L h s)"
| "step_term L c ms ne ns st s (Hash256 h) = finish st (evaluate_hash256 L h s)"
| "step_term L c ms ne ns st s (Hash160 h) = finish st (evaluate_hash160 L h s)"
| "step_term L c ms ne ns st s (Ripemd160 h) = finish st (evaluate_ripemd160 L h s)"
| "step_term L c ms ne ns st s (ExtT e) =
     (case ext_evaluate L e s of
        None \<Rightarrow> Panic
      | Some (Inr True, s') \<Rightarrow> Yield (SC_Ext e) st s'
      | Some (Inr False, s') \<Rightarrow> Continue st s'
      | Some (Inl err, _) \<Rightarrow> Fail err)"
| "step_term L c ms ne ns st s (Alt sub) = Continue (NS sub 0 0 # st) s"
| "step_term L c ms ne ns st s (Swap sub) = Continue (NS sub 0 0 # st) s"
| "step_term L c ms ne ns st s (Check sub) = Continue (NS sub 0 0 # st) s"
| "step_term L c ms ne ns st s (DupIf sub) =
     (if ne = 0 then
        pop_bool (\<lambda>s'. Continue (NS sub 0 0 # NS ms 1 1 # st) s') (\<lambda>s'. Continue st (Dissatisfied # s')) s
      else if ne = 1 then Continue st (Satisfied # s)
      else Fail CouldNotEvaluate)"
| "step_term L c ms ne ns st s (Verify sub) =
     (if ne = 0 then Continue (NS sub 0 0 # NS ms 1 0 # st) s
      else if ne = 1 then
        (case s of Satisfied # s' \<Rightarrow> Continue st s' | _ # _ \<Rightarrow> Fail VerifyFailed | [] \<Rightarrow> Fail UnexpectedStackEnd)
      else Fail CouldNotEvaluate)"
| "step_term L c ms ne ns st s (ZeroNotEqual sub) =
     (if ne = 0 then Continue (NS sub 0 0 # NS ms 1 0 # st) s
      else if ne = 1 then
        (case s of
           Dissatisfied # s' \<Rightarrow> Continue st (Dissatisfied # s')
         | _ # s' \<Rightarrow> Continue st (Satisfied # s')
         | [] \<Rightarrow> Fail UnexpectedStackEnd)
      else Fail CouldNotEvaluate)"
| "step_term L c ms ne ns st s (NonZero sub) =
     (case s of
        [] \<Rightarrow> Fail UnexpectedStackEnd
      | Dissatisfied # _ \<Rightarrow> Continue st s
      | _ # _ \<Rightarrow> Continue (NS sub 0 0 # st) s)"
| "step_term L c ms ne ns st s (AndV left right) = Continue (NS left 0 0 # NS right 0 0 # st) s"
| "step_term L c ms ne ns st s (AndB left right) =
     (if ne = 0 then Continue (NS left 0 0 # NS ms 1 0 # st) s
      else if ne = 1 then
        pop_bool (\<lambda>s'. Continue (NS right 0 0 # NS ms 2 1 # st) s')
                 (\<lambda>s'. Continue (NS right 0 0 # NS ms 2 0 # st) s') s
      else if ne = 2 then
        (case s of
           [] \<Rightarrow> Fail UnexpectedStackEnd
         | x # s' \<Rightarrow> Continue st ((if x = Satisfied \<and> ns = 1 then Satisfied else Dissatisfied) # s'))
      else Fail CouldNotEvaluate)"
| "step_term L c ms ne ns st s (OrB left right) =
     (if ne = 0 then Continue (NS left 0 0 # NS ms 1 0 # st) s
      else if ne = 1 then
        pop_bool (\<lambda>s'. Continue (NS right 0 0 # NS ms 2 1 # st) s')
                 (\<lambda>s'. Continue (NS right 0 0 # NS ms 2 0 # st) s') s
      else if ne = 2 then
        (case s of
           [] \<Rightarrow> Fail UnexpectedStackEnd
         | x # s' \<Rightarrow> Continue st ((if x = Dissatisfied \<and> ns = 0 then Dissatisfied else Satisfied) # s'))
      else Fail CouldNotEvaluate)"
| "step_term L c ms ne ns st s (OrC left right) =
     (if ne = 0 then Continue (NS left 0 0 # NS ms 1 0 # st) s
      else if ne = 1 then
        pop_bool (\<lambda>s'. Continue st s') (\<lambda>s'. Continue (NS right 0 0 # st) s') s
      else Fail CouldNotEvaluate)"
| "step_term L c ms ne ns st s (OrD left right) =
     (if ne = 0 then Continue (NS left 0 0 # NS ms 1 0 # st) s
      else if ne = 1 then
        pop_bool (\<lambda>s'. Continue st (Satisfied # s')) (\<lambda>s'. Continue (NS right 0 0 # st) s') s
      else Fail CouldNotEvaluate)"
| "step_term L c ms ne ns st s (AndOr a b d) =
     (if ne = 0 then Continue (NS a 0 0 # NS ms 1 0 # st) s
      else pop_bool (\<lambda>s'. Continue (NS b 0 0 # st) s') (\<lambda>s'. Continue (NS d 0 0 # st) s') s)"
| "step_term L c ms ne ns st s (OrI left right) =
     pop_bool (\<lambda>s'. Continue (NS left 0 0 # st) s') (\<lambda>s'. Continue (NS right 0 0 # st) s') s"
| "step_term L c ms ne ns st s (Thresh k subs) = step_thresh ms k subs ne ns st s"
| "step_term L c ms ne ns st s (MultiA k subs) = step_multi_a L ms k subs ne ns st s"
| "step_term L c ms ne ns st s (Multi k subs) = step_multi L ms k subs ne ns st s"

definition step :: "'e interp_lib \<Rightarrow> interp_ctx \<Rightarrow> 'e node_state \<Rightarrow> 'e node_state list \<Rightarrow> istack \<Rightarrow> 'e outcome" where
  "step L c x st s =
     step_term L c (ns_node x) (n_evaluated x) (n_satisfied x) st s (node (ns_node x))"

lemma verify_sersig_total: "x \<noteq> [] \<Longrightarrow> verify_sersig L pk x \<noteq> None"
  by (auto simp: verify_sersig_def elementssig_from_rawsig_def Let_def split: bitcoin_key.splits)

section \<open>Termination of the loop\<close>

text \<open>
  Every turn shortens the work ahead: \<open>rank\<close> counts the turns a fragment can still take,
  \<open>work\<close> those of a fragment that has evaluated some of its children.
\<close>

fun slots :: "('pk, 'h, 'e) terminal \<Rightarrow> nat" where
  "slots (Multi _ ks) = length ks + 1"
| "slots (MultiA _ ks) = length ks + 1"
| "slots t = length (children t) + 1"

fun rank :: "('pk, 'h, 'e) terminal \<Rightarrow> nat" where
  "rank t = 1 + slots t + sum_list (map (\<lambda>c. rank (node c)) (children t))"

declare rank.simps [simp del]

fun pending :: "('pk, 'h, 'e) terminal \<Rightarrow> nat \<Rightarrow> ('pk, 'h, 'e) miniscript list" where
  "pending (Thresh _ subs) i = drop i subs"
| "pending (AndB l r) i = drop i [l, r]"
| "pending (OrB l r) i = drop i [l, r]"
| "pending (DupIf a) i = (if i = 0 then [a] else [])"
| "pending (Verify a) i = (if i = 0 then [a] else [])"
| "pending (ZeroNotEqual a) i = (if i = 0 then [a] else [])"
| "pending (OrC l r) i = (if i = 0 then [l, r] else [r])"
| "pending (OrD l r) i = (if i = 0 then [l, r] else [r])"
| "pending (AndOr a b c) i = (if i = 0 then [a, b, c] else [b, c])"
| "pending t i = children t"

definition work :: "'e node_state \<Rightarrow> nat" where
  "work x = 1 + (slots (node (ns_node x)) - n_evaluated x)
     + sum_list (map (\<lambda>c. rank (node c)) (pending (node (ns_node x)) (n_evaluated x)))"

abbreviation total_work :: "'e node_state list \<Rightarrow> nat" where
  "total_work st \<equiv> sum_list (map work st)"

lemma pending_0 [simp]: "pending t 0 = children t"
  by (cases t) simp_all

lemma work_fresh: "work (NS ms 0 j) = rank (node ms)"
  by (subst rank.simps) (simp add: work_def)

lemma work_later:
  "0 < i \<Longrightarrow> work (NS ms i j) =
     1 + (slots (node ms) - i) + sum_list (map (\<lambda>c. rank (node c)) (pending (node ms) i))"
  by (simp add: work_def)

fun outcome_work :: "'e outcome \<Rightarrow> nat option" where
  "outcome_work (Continue st s) = Some (total_work st)"
| "outcome_work (Yield _ st s) = Some (total_work st)"
| "outcome_work _ = None"

lemma pop_bool_work:
  "outcome_work (pop_bool f g s) = Some n \<Longrightarrow>
     (\<exists>s'. outcome_work (f s') = Some n) \<or> (\<exists>s'. outcome_work (g s') = Some n)"
  by (auto simp: pop_bool_def split: list.splits element.splits)

lemma finish_work: "outcome_work (finish st ev) = Some n \<Longrightarrow> n = total_work st"
  by (cases ev) auto

lemma drop_pending: "i < length xs \<Longrightarrow> drop i xs = xs ! i # drop (Suc i) xs"
  by (rule Cons_nth_drop_Suc [symmetric])

lemma step_thresh_work:
  assumes "node ms = Thresh k subs" "outcome_work (step_thresh ms k subs ne ns st s) = Some n"
  shows "n < 1 + (Suc (length subs) - ne) + sum_list (map (\<lambda>c. rank (node c)) (drop ne subs)) + total_work st"
  using assms
  by (auto simp: step_thresh_def work_fresh work_later drop_pending neq_Nil_conv
      split: if_splits dest!: pop_bool_work)

lemma step_multi_a_work:
  assumes "node ms = MultiA k subs" "outcome_work (step_multi_a L ms k subs ne ns st s) = Some n"
  shows "n < 1 + (Suc (length subs) - ne) + total_work st"
  using assms
  by (auto simp: step_multi_a_def work_later split: if_splits ev.splits list.splits)

lemma step_multi_work:
  assumes "node ms = Multi k subs" "outcome_work (step_multi L ms k subs ne ns st s) = Some n"
  shows "n < 1 + (Suc (length subs) - ne) + total_work st"
  using assms
  by (auto simp: step_multi_def multi_try_def work_later
      split: if_splits ev.splits list.splits element.splits)

lemma step_term_work:
  assumes "node ms = t" "outcome_work (step_term L c ms ne ns st s t) = Some n"
  shows "n < 1 + (slots t - ne) + sum_list (map (\<lambda>c. rank (node c)) (pending t ne)) + total_work st"
proof (cases t)
  case (Thresh k subs)
  then show ?thesis using assms step_thresh_work [of ms k subs ne ns st s n] by simp
next
  case (Multi k subs)
  then show ?thesis using assms step_multi_work [of ms k subs L ne ns st s n] by simp
next
  case (MultiA k subs)
  then show ?thesis using assms step_multi_a_work [of ms k subs L ne ns st s n] by simp
next
  case (ExtT e)
  then show ?thesis using assms
    by (auto split: option.splits prod.splits sum.splits bool.splits)
qed (use assms in \<open>auto simp: work_fresh work_later drop_Cons'
     split: if_splits list.splits element.splits dest!: finish_work pop_bool_work\<close>)

lemma step_work:
  assumes "outcome_work (step L c x st s) = Some n"
  shows "n < total_work (x # st)"
  using step_term_work [OF refl assms [unfolded step_def]] by (simp add: work_def)

section \<open>The iterator\<close>

text \<open>What the \<open>while let\<close> loop of \<open>iter_next\<close> ends with.\<close>

datatype 'e loop_end =
    LoopPanic
  | LoopYield "'e satisfied_constraint" "'e node_state list" istack
  | LoopFail interp_error
  | LoopEmpty istack

function eval_loop :: "'e interp_lib \<Rightarrow> interp_ctx \<Rightarrow> 'e node_state list \<Rightarrow> istack \<Rightarrow> 'e loop_end" where
  "eval_loop L c [] s = LoopEmpty s"
| "eval_loop L c (x # st) s =
     (case step L c x st s of
        Panic \<Rightarrow> LoopPanic
      | Continue st' s' \<Rightarrow> eval_loop L c st' s'
      | Yield k st' s' \<Rightarrow> LoopYield k st' s'
      | Fail e \<Rightarrow> LoopFail e)"
  by pat_completeness auto
termination
proof (relation "measure (\<lambda>(L, c, st, s). total_work st)")
  show "wf (measure (\<lambda>(L :: 'e interp_lib, c :: interp_ctx, st :: 'e node_state list, s :: istack). total_work st))"
    by simp
next
  fix L c x st s st' s'
  assume "step L c x st s = Continue st' s'"
  then show "((L, c, st', s'), (L, c, x # st, s)) \<in> measure (\<lambda>(L, c, st, s). total_work st)"
    using step_work [of L c x st s "total_work st'"] by simp
qed

record 'e iter =
  public_key :: "bitcoin_key option"
  cov :: "bitcoin_key option"
  state :: "'e node_state list"
  istack :: istack
  has_errored :: bool

type_synonym 'e item = "interp_error + 'e satisfied_constraint"

text \<open>
  The end of a covenant script: the satisfied top is followed by exactly twelve pushes,
  bottom first: the signature, the sighash type and the items of the sighash message.
\<close>

definition cov_finish :: "'e interp_lib \<Rightarrow> bitcoin_key \<Rightarrow> 'e iter \<Rightarrow> ('e item option \<times> 'e iter) option" where
  "cov_finish L pk it =
     (let popped = it\<lparr>istack := tl (istack it)\<rparr>; fail = (\<lambda>e. Some (Some (Inl e), popped)) in
      case istack it of
        Satisfied # s \<Rightarrow>
          if length s \<noteq> 12 then fail UnexpectedStackEnd
          else if list_ex (\<lambda>el. case el of Push _ \<Rightarrow> False | _ \<Rightarrow> True) s then fail ExpectedPush
          else
            let items = map into_slice (rev s)
            in Option.bind (slice_to_u32_le (items ! 1)) (\<lambda>sighash_u32.
                 let ser_sig = items ! 0 @ [sighash_from_u32 L sighash_u32]
                 in Option.bind (verify_sersig L pk ser_sig) (\<lambda>r.
                      case r of
                        Inl _ \<Rightarrow> fail (PkEvaluationError pk)
                      | Inr sig \<Rightarrow>
                          let sighash_msg = concat (rev (drop 1 items))
                          in (case sig of
                                SchnorrPair _ _ \<Rightarrow> None
                              | EcdsaPair ec_pk ecdsa_sig \<Rightarrow>
                                  if \<not> cov_verify L sighash_msg (fst ecdsa_sig) ec_pk
                                  then Some (Some (Inl (PkEvaluationError pk)), popped\<lparr>cov := None\<rparr>)
                                  else Some (Some (Inr (SC_PublicKey sig)),
                                         it\<lparr>cov := None, istack := [Satisfied]\<rparr>))))
      | _ \<Rightarrow> fail IncorrectCovenantWitness)"

text \<open>The end of the evaluation, once no node is left to evaluate.\<close>

definition iter_finish :: "'e interp_lib \<Rightarrow> 'e iter \<Rightarrow> ('e item option \<times> 'e iter) option" where
  "iter_finish L it =
     (case cov it of
        Some pk \<Rightarrow> cov_finish L pk it
      | None \<Rightarrow>
          (case public_key it of
             Some pk \<Rightarrow>
               (case istack it of
                  Push sig # s \<Rightarrow>
                    (case verify_sersig L pk sig of
                       None \<Rightarrow> None
                     | Some (Inr key_sig) \<Rightarrow>
                         Some (Some (Inr (SC_PublicKey key_sig)),
                           it\<lparr>public_key := None, istack := Satisfied # s\<rparr>)
                     | Some (Inl _) \<Rightarrow> Some (Some (Inl (PkEvaluationError pk)), it\<lparr>istack := s\<rparr>))
                | _ \<Rightarrow> Some (Some (Inl UnexpectedStackEnd), it\<lparr>istack := tl (istack it)\<rparr>))
           | None \<Rightarrow>
               (if istack it = [Satisfied] then Some (None, it\<lparr>istack := []\<rparr>)
                else Some (Some (Inl ScriptSatisfactionError), it\<lparr>istack := tl (istack it)\<rparr>))))"

text \<open>
  Where the loop fails in the middle of a fragment, the iterator is left as it was: \<open>next\<close> sets
  \<open>has_errored\<close> and never reads the evaluation state again.
\<close>

definition iter_next :: "'e interp_lib \<Rightarrow> interp_ctx \<Rightarrow> 'e iter \<Rightarrow> ('e item option \<times> 'e iter) option" where
  "iter_next L c it =
     (case eval_loop L c (state it) (istack it) of
        LoopPanic \<Rightarrow> None
      | LoopYield k st s \<Rightarrow> Some (Some (Inr k), it\<lparr>state := st, istack := s\<rparr>)
      | LoopFail e \<Rightarrow> Some (Some (Inl e), it)
      | LoopEmpty s \<Rightarrow> iter_finish L (it\<lparr>state := [], istack := s\<rparr>))"

definition iter_step :: "'e interp_lib \<Rightarrow> interp_ctx \<Rightarrow> 'e iter \<Rightarrow> ('e item option \<times> 'e iter) option" where
  "iter_step L c it =
     (if has_errored it then Some (None, it)
      else
        map_option (\<lambda>(res, it').
          case res of
            Some (Inl e) \<Rightarrow> (res, it'\<lparr>has_errored := True\<rparr>)
          | _ \<Rightarrow> (res, it'))
        (iter_next L c it))"

text \<open>\<open>Interpreter::iter_custom\<close> for a script: the initial iterator over its witness.\<close>

definition script_iter :: "'e interp_ms \<Rightarrow> bytes list \<Rightarrow> 'e iter" where
  "script_iter ms wit = \<lparr>public_key = None, cov = None, state = [NS ms 0 0],
     istack = rev (map element_from wit), has_errored = False\<rparr>"

definition pubkey_iter :: "bitcoin_key \<Rightarrow> bytes list \<Rightarrow> 'e iter" where
  "pubkey_iter pk wit = \<lparr>public_key = Some pk, cov = None, state = [],
     istack = rev (map element_from wit), has_errored = False\<rparr>"

definition cov_iter :: "bitcoin_key \<Rightarrow> 'e interp_ms \<Rightarrow> bytes list \<Rightarrow> 'e iter" where
  "cov_iter pk ms wit = \<lparr>public_key = None, cov = Some pk, state = [NS ms 0 0],
     istack = rev (map element_from wit), has_errored = False\<rparr>"

section \<open>Running the iterator to its end\<close>

text \<open>
  The measure of the whole iteration: the work of the pending states, and one for the key or
  covenant check and for the first error.
\<close>

definition iter_work :: "'e iter \<Rightarrow> nat" where
  "iter_work it = total_work (state it) + (if public_key it = None then 0 else 1)
     + (if cov it = None then 0 else 1) + (if has_errored it then 0 else 1)"

lemma eval_loop_work: "eval_loop L c st s = LoopYield k st' s' \<Longrightarrow> total_work st' < total_work st"
proof (induction L c st s rule: eval_loop.induct)
  case (2 L c x st s)
  show ?case
  proof (cases "step L c x st s")
    case (Continue st1 s1)
    then have "total_work st' < total_work st1" using 2 by simp
    also have "total_work st1 < total_work (x # st)"
      by (rule step_work [of L c x st s]) (simp add: Continue)
    finally show ?thesis .
  next
    case (Yield k1 st1 s1)
    then have "total_work st' < total_work (x # st)"
      using 2 by (intro step_work [of L c x st s]) simp
    then show ?thesis .
  qed (use 2 in simp_all)
qed simp

lemma iter_finish_shape:
  assumes "iter_finish L it = Some (res, it')"
  shows "state it' = state it \<and> has_errored it' = has_errored it \<and> iter_work it' \<le> iter_work it
    \<and> (\<forall>k. res = Some (Inr k) \<longrightarrow> iter_work it' < iter_work it)"
  using assms
  by (auto simp: iter_finish_def cov_finish_def iter_work_def Let_def
      split: option.splits list.splits element.splits sum.splits if_splits key_sig_pair.splits bind_splits)

lemma iter_next_shape:
  assumes "iter_next L c it = Some (Some i, it')"
  shows "has_errored it' = has_errored it \<and> iter_work it' \<le> iter_work it
    \<and> (\<forall>k. i = Inr k \<longrightarrow> iter_work it' < iter_work it)"
proof (cases "eval_loop L c (state it) (istack it)")
  case (LoopEmpty s)
  then show ?thesis
    using assms iter_finish_shape [of L "it\<lparr>state := [], istack := s\<rparr>" "Some i" it']
    by (auto simp: iter_next_def iter_work_def)
qed (use assms in \<open>auto simp: iter_next_def iter_work_def dest: eval_loop_work\<close>)

lemma iter_step_work:
  assumes "iter_step L c it = Some (Some i, it')"
  shows "iter_work it' < iter_work it"
proof -
  from assms have he: "\<not> has_errored it" by (auto simp: iter_step_def)
  with assms obtain res it1 where n0: "iter_next L c it = Some (res, it1)"
    and r0: "(case res of Some (Inl e) \<Rightarrow> (res, it1\<lparr>has_errored := True\<rparr>) | _ \<Rightarrow> (res, it1)) = (Some i, it')"
    by (auto simp: iter_step_def)
  then have n: "iter_next L c it = Some (Some i, it1)"
    and r: "it' = (case i of Inl _ \<Rightarrow> it1\<lparr>has_errored := True\<rparr> | Inr _ \<Rightarrow> it1)"
    by (auto split: option.splits sum.splits)
  from iter_next_shape [OF n] he r show ?thesis
    by (cases i) (auto simp: iter_work_def)
qed

lemma iter_step_error:
  assumes "iter_step L c it = Some (Some (Inl e), it')"
  shows "has_errored it'"
proof -
  from assms have "\<not> has_errored it" by (auto simp: iter_step_def)
  with assms obtain res it1 where "iter_next L c it = Some (res, it1)"
    and r: "(case res of Some (Inl e) \<Rightarrow> (res, it1\<lparr>has_errored := True\<rparr>) | _ \<Rightarrow> (res, it1)) = (Some (Inl e), it')"
    by (auto simp: iter_step_def)
  then have "it' = it1\<lparr>has_errored := True\<rparr>" by (cases res; cases "the res") auto
  then show ?thesis by simp
qed

text \<open>All items the iterator yields until its first \<open>None\<close>; \<open>None\<close> here is a panic.\<close>

function items :: "'e interp_lib \<Rightarrow> interp_ctx \<Rightarrow> 'e iter \<Rightarrow> 'e item list option" where
  "items L c it =
     (case iter_step L c it of
        None \<Rightarrow> None
      | Some (None, _) \<Rightarrow> Some []
      | Some (Some i, it') \<Rightarrow> map_option (\<lambda>is. i # is) (items L c it'))"
  by pat_completeness auto
termination
  by (relation "measure (\<lambda>(L, c, it). iter_work it)") (auto simp: iter_step_work)

declare items.simps [simp del]

text \<open>A script is accepted when the iteration ends without an error.\<close>

definition accepted :: "'e interp_lib \<Rightarrow> interp_ctx \<Rightarrow> 'e iter \<Rightarrow> bool" where
  "accepted L c it = (case items L c it of None \<Rightarrow> False | Some is \<Rightarrow> list_all (\<lambda>i. case i of Inl _ \<Rightarrow> False | Inr _ \<Rightarrow> True) is)"

end
