(* ===== verification/Runs.thy ===== *)
theory Runs
  imports Interpreter
begin

text \<open>
  Executions of the interpreter as sequences of loop turns. \<open>runs\<close> collects the constraints
  yielded on the way; the lemmas about \<open>Thresh\<close>, \<open>Multi\<close> and \<open>MultiA\<close> unfold their turns once
  and for all, for any stack below.
\<close>

inductive runs :: "'e interp_lib \<Rightarrow> interp_ctx \<Rightarrow> 'e node_state list \<Rightarrow> istack \<Rightarrow>
    'e satisfied_constraint list \<Rightarrow> 'e node_state list \<Rightarrow> istack \<Rightarrow> bool"
  for L c where
  run_done: "runs L c st s [] st s"
| run_continue: "step L c x st s = Continue st' s' \<Longrightarrow> runs L c st' s' ks st'' s'' \<Longrightarrow>
    runs L c (x # st) s ks st'' s''"
| run_yield: "step L c x st s = Yield k st' s' \<Longrightarrow> runs L c st' s' ks st'' s'' \<Longrightarrow>
    runs L c (x # st) s (k # ks) st'' s''"

inductive_cases runs_NilE: "runs L c [] s ks st s'"

lemma runs_trans: "runs L c st s ks st' s' \<Longrightarrow> runs L c st' s' ks' st'' s'' \<Longrightarrow> runs L c st s (ks @ ks') st'' s''"
  by (induction rule: runs.induct) (auto intro: runs.intros)

text \<open>Some execution, whatever it yields.\<close>

definition reaches :: "'e interp_lib \<Rightarrow> interp_ctx \<Rightarrow> 'e node_state list \<Rightarrow> istack \<Rightarrow> 'e node_state list \<Rightarrow> istack \<Rightarrow> bool" where
  "reaches L c st s st' s' \<longleftrightarrow> (\<exists>ks. runs L c st s ks st' s')"

lemma reaches_refl [simp]: "reaches L c st s st s"
  by (auto simp: reaches_def intro: runs.intros)

lemma reaches_trans [trans]: "reaches L c st s st' s' \<Longrightarrow> reaches L c st' s' st'' s'' \<Longrightarrow> reaches L c st s st'' s''"
  by (auto simp: reaches_def intro: runs_trans)

lemma reaches_continue: "step L c x st s = Continue st' s' \<Longrightarrow> reaches L c st' s' st'' s'' \<Longrightarrow> reaches L c (x # st) s st'' s''"
  by (auto simp: reaches_def intro: runs.intros)

lemma reaches_step: "step L c x st s = Continue st' s' \<Longrightarrow> reaches L c (x # st) s st' s'"
  by (erule reaches_continue) simp

lemma reaches_yield: "step L c x st s = Yield k st' s' \<Longrightarrow> reaches L c st' s' st'' s'' \<Longrightarrow> reaches L c (x # st) s st'' s''"
  by (auto simp: reaches_def intro: runs.intros)

section \<open>From executions to the items of the iterator\<close>

lemma runs_eval_loop:
  "runs L c st s ks st' s' \<Longrightarrow> st' = [] \<Longrightarrow>
     (case ks of
        [] \<Rightarrow> eval_loop L c st s = LoopEmpty s'
      | k # ks' \<Rightarrow> \<exists>st1 s1. eval_loop L c st s = LoopYield k st1 s1 \<and> runs L c st1 s1 ks' [] s')"
  by (induction rule: runs.induct) (auto split: list.splits)

lemma runs_items:
  assumes "runs L c st s ks [] [Satisfied]"
  shows "items L c \<lparr>public_key = None, cov = None, state = st, istack = s, has_errored = False\<rparr> = Some (map Inr ks)"
  using assms
proof (induction ks arbitrary: st s)
  case Nil
  from runs_eval_loop [OF Nil refl] show ?case
    by (subst items.simps) (simp add: iter_step_def iter_next_def iter_finish_def)
next
  case (Cons k ks)
  from runs_eval_loop [OF Cons.prems refl] obtain st1 s1
    where "eval_loop L c st s = LoopYield k st1 s1" "runs L c st1 s1 ks [] [Satisfied]" by auto
  then show ?case
    using Cons.IH [of st1 s1] by (subst items.simps) (simp add: iter_step_def iter_next_def)
qed

lemma reaches_accepted:
  "reaches L c [NS ms 0 0] (rev (map element_from w)) [] [Satisfied] \<Longrightarrow> accepted L c (script_iter ms w)"
  by (auto simp: reaches_def accepted_def script_iter_def list_all_iff dest!: runs_items)

section \<open>Thresholds\<close>

definition truth :: "bool \<Rightarrow> element" where
  "truth b = (if b then Satisfied else Dissatisfied)"

lemma pop_bool_truth [simp]: "pop_bool f g (truth b # s) = (if b then f s else g s)"
  by (simp add: pop_bool_def truth_def)

lemma card_below_Suc:
  "card (A \<inter> {..<Suc i}) = card (A \<inter> {..<i}) + (if i \<in> A then 1 else 0)"
proof -
  have "A \<inter> {..<Suc i} = (if i \<in> A then insert i (A \<inter> {..<i}) else A \<inter> {..<i})"
    by (auto simp: less_Suc_eq)
  then show ?thesis by simp
qed

text \<open>
  When every child \<open>j\<close> consumes its part \<open>ps ! j\<close> of the stack and leaves the truth of \<open>j \<in> A\<close>,
  the threshold leaves the truth of \<open>card A = k\<close>.
\<close>

lemma reaches_thresh:
  assumes m: "node m = Thresh k subs" and k: "0 < k" and ne: "subs \<noteq> []" and len: "length ps = length subs"
    and A: "A \<subseteq> {..<length subs}"
    and kids: "\<And>j st r. j < length subs \<Longrightarrow>
      reaches L c (NS (subs ! j) 0 0 # st) (ps ! j @ r) st (truth (j \<in> A) # r)"
  shows "reaches L c (NS m 0 0 # st) (concat ps @ r) st (truth (card A = k) # r)"
proof -
  have part: "reaches L c (NS m 0 0 # st) (concat ps @ r)
      (NS m (Suc i) (card (A \<inter> {..<i})) # st) (truth (i \<in> A) # concat (drop (Suc i) ps) @ r)"
    if "i < length subs" for i
    using that
  proof (induction i)
    case 0
    then have "reaches L c (NS (subs ! 0) 0 0 # NS m 1 0 # st) (ps ! 0 @ concat (drop 1 ps) @ r)
        (NS m 1 0 # st) (truth (0 \<in> A) # concat (drop 1 ps) @ r)"
      by (intro kids) simp
    moreover have "concat ps = ps ! 0 @ concat (drop 1 ps)"
      using ne len by (cases ps) auto
    ultimately show ?case
      using ne by (auto intro!: reaches_continue simp: step_def m step_thresh_def)
  next
    case (Suc i)
    let ?n = "card (A \<inter> {..<Suc i})"
    have "reaches L c (NS m (Suc i) (card (A \<inter> {..<i})) # st) (truth (i \<in> A) # concat (drop (Suc i) ps) @ r)
        (NS (subs ! Suc i) 0 0 # NS m (Suc (Suc i)) ?n # st) (concat (drop (Suc i) ps) @ r)"
      using Suc.prems by (intro reaches_step) (simp add: step_def m step_thresh_def card_below_Suc)
    also have d: "concat (drop (Suc i) ps) = ps ! Suc i @ concat (drop (Suc (Suc i)) ps)"
      using Suc.prems len by (simp add: Cons_nth_drop_Suc [symmetric])
    also have "reaches L c (NS (subs ! Suc i) 0 0 # NS m (Suc (Suc i)) ?n # st)
        ((ps ! Suc i @ concat (drop (Suc (Suc i)) ps)) @ r)
        (NS m (Suc (Suc i)) ?n # st) (truth (Suc i \<in> A) # concat (drop (Suc (Suc i)) ps) @ r)"
      using kids [OF Suc.prems] by simp
    finally show ?case
      using Suc reaches_trans by (fastforce simp: d)
  qed
  obtain n where n: "length subs = Suc n" using ne by (cases subs) auto
  have "A \<inter> {..<Suc n} = A" using A n by auto
  then have "card A = card (A \<inter> {..<n}) + (if n \<in> A then 1 else 0)"
    using card_below_Suc [of A n] by simp
  then have "step L c (NS m (Suc n) (card (A \<inter> {..<n}))) st (truth (n \<in> A) # r)
      = Continue st (truth (card A = k) # r)"
    using k n by (auto simp: step_def m step_thresh_def truth_def pop_bool_def)
  then have "reaches L c (NS m (Suc n) (card (A \<inter> {..<n})) # st) (truth (n \<in> A) # r) st (truth (card A = k) # r)"
    by (rule reaches_step)
  then show ?thesis
    using part [of n] n len reaches_trans by fastforce
qed

section \<open>Multisignatures\<close>

definition verifies :: "'e interp_lib \<Rightarrow> bytes \<Rightarrow> bitcoin_key \<Rightarrow> bool" where
  "verifies L x pk \<longleftrightarrow> (\<exists>ksp. verify_sersig L pk x = Some (Inr ksp))"

text \<open>Signatures matched to keys in order, each to some key after the previous one's.\<close>

fun matched :: "('a \<Rightarrow> 'b \<Rightarrow> bool) \<Rightarrow> 'a list \<Rightarrow> 'b list \<Rightarrow> bool" where
  "matched V [] ps \<longleftrightarrow> True"
| "matched V (x # xs) [] \<longleftrightarrow> False"
| "matched V (x # xs) (p # ps) \<longleftrightarrow> matched V (x # xs) ps \<or> (V x p \<and> matched V xs ps)"

lemma matched_weaken: "matched V xs ps \<Longrightarrow> matched V xs (p # ps)"
  by (cases xs) auto

lemma matched_tail: "matched V (x # xs) ps \<Longrightarrow> matched V xs ps"
  by (induction ps) (auto intro: matched_weaken)

text \<open>Taking a key that fits is never wrong.\<close>

lemma matched_greedy: "V x p \<Longrightarrow> matched V (x # xs) (p # ps) \<longleftrightarrow> matched V xs ps"
  by (auto dest: matched_tail)

lemma reaches_multi_try:
  assumes x: "x \<noteq> []" and len: "0 < length P" and emb: "matched (verifies L) (x # xs) (rev P)"
    and st: "step L c (NS m ne ns) st (Push x # s) = multi_try L m (last P) ne ns st (Push x # s)"
    and next_ok: "verifies L x (last P) \<Longrightarrow> matched (verifies L) xs (rev (butlast P)) \<Longrightarrow>
      reaches L c (NS m (Suc ne) (Suc ns) # st) s st' s'"
    and next_no: "matched (verifies L) (x # xs) (rev (butlast P)) \<Longrightarrow>
      reaches L c (NS m (Suc ne) ns # st) (Push x # s) st' s'"
  shows "reaches L c (NS m ne ns # st) (Push x # s) st' s'"
proof -
  have P: "rev P = last P # rev (butlast P)"
    using len by (metis append_butlast_last_id length_greater_0_conv rev.simps(2) rev_append rev_singleton_conv append_Cons append_Nil)
  show ?thesis
  proof (cases "verifies L x (last P)")
    case True
    then obtain ksp where "verify_sersig L (last P) x = Some (Inr ksp)" by (auto simp: verifies_def)
    moreover have "matched (verifies L) xs (rev (butlast P))" using emb P True by (metis matched_greedy)
    ultimately show ?thesis
      using st next_ok [OF True] by (auto intro!: reaches_yield simp: multi_try_def evaluate_multi_def)
  next
    case False
    then obtain e where "verify_sersig L (last P) x = Some (Inl e)"
      using verify_sersig_total [OF x, of L "last P"] by (auto simp: verifies_def split: sum.splits) (metis sum.exhaust)
    moreover have "matched (verifies L) (x # xs) (rev (butlast P))" using emb P False by simp
    ultimately show ?thesis
      using st next_no by (auto intro!: reaches_continue simp: multi_try_def evaluate_multi_def)
  qed
qed

lemma reaches_multi_loop:
  assumes m: "node m = Multi k keys" and "0 < ne" "ne \<le> length keys" "ns + length xs = k"
    and "matched (verifies L) xs (rev (take (length keys - ne) keys))" "[] \<notin> set xs"
  shows "reaches L c (NS m ne ns # st) (map Push xs @ Dissatisfied # r) st (Satisfied # r)"
  using assms(2-)
proof (induction "length keys - ne" arbitrary: ne ns xs)
  case 0
  then have "xs = []" by (cases xs) auto
  with 0 show ?case by (intro reaches_step) (auto simp: step_def m step_multi_def)
next
  case (Suc p)
  let ?P = "take (length keys - ne) keys"
  show ?case
  proof (cases xs)
    case Nil
    then show ?thesis using Suc.prems
      by (auto intro!: reaches_continue simp: step_def m step_multi_def)
  next
    case (Cons x xs')
    have ne: "ne < length keys" using Suc.hyps(2) by linarith
    then have "?P \<noteq> []" by auto
    then have last: "last ?P = keys ! (length keys - ne - 1)"
      using ne by (simp add: last_conv_nth del: take_eq_Nil)
    have bl: "butlast ?P = take (length keys - Suc ne) keys"
      by (simp add: butlast_take)
    have IH: "reaches L c (NS m (Suc ne) ns' # st) (map Push ys @ Dissatisfied # r) st (Satisfied # r)"
      if "ns' + length ys = k" "matched (verifies L) ys (rev (butlast ?P))" "[] \<notin> set ys" for ns' ys
      using that Suc.hyps(2) ne by (intro Suc.hyps(1)) (auto simp: bl)
    show ?thesis
      unfolding Cons list.map append.simps
      by (rule reaches_multi_try [of x ?P L xs' c m ne ns])
        (use Suc.prems Cons ne last IH [of "Suc ns" xs'] IH [of ns xs] in
          \<open>auto simp: step_def m step_multi_def\<close>)
  qed
qed

lemma reaches_multi:
  assumes m: "node m = Multi k keys" and k: "0 < k" "length xs = k" "keys \<noteq> []"
    and emb: "matched (verifies L) xs (rev keys)" and ne: "[] \<notin> set xs"
  shows "reaches L c (NS m 0 0 # st) (map Push xs @ Dissatisfied # r) st (Satisfied # r)"
proof -
  obtain x xs' where xs: "xs = x # xs'" using k by (cases xs) auto
  have bl: "butlast keys = take (length keys - Suc 0) keys" by (simp add: butlast_conv_take)
  have next_: "reaches L c (NS m (Suc 0) ns' # st) (map Push ys @ Dissatisfied # r) st (Satisfied # r)"
    if "ns' + length ys = k" "matched (verifies L) ys (rev (butlast keys))" "[] \<notin> set ys" for ns' ys
    using that k by (intro reaches_multi_loop [OF m]) (auto simp: bl Suc_le_eq)
  show ?thesis
    unfolding xs list.map append.simps
    by (rule reaches_multi_try [of x keys L xs' c m 0 0])
      (use k emb ne xs next_ [of "Suc 0" xs'] next_ [of 0 xs] in
        \<open>auto simp: step_def m step_multi_def last_conv_nth\<close>)
qed

lemma reaches_multi_dissat:
  "node m = Multi k keys \<Longrightarrow>
     reaches L c (NS m 0 0 # st) (replicate (Suc k) Dissatisfied @ r) st (Dissatisfied # r)"
  by (auto intro!: reaches_continue simp: step_def step_multi_def)

text \<open>\<open>MultiA\<close>: one element per key, empty or a signature of that key.\<close>

lemma reaches_multi_a_from:
  assumes m: "node m = MultiA k keys" and len: "length xs = length keys"
    and xs: "\<forall>i<length keys. xs ! i \<noteq> [] \<longrightarrow> element_from (xs ! i) = Push (xs ! i) \<and> verifies L (xs ! i) (keys ! i)"
    and ne: "ne \<le> length keys"
  shows "reaches L c (NS m ne ns # st) (map element_from (drop ne xs) @ r) st
    (truth (ns + length (filter (\<lambda>x. x \<noteq> []) (drop ne xs)) = k) # r)"
  using ne
proof (induction "length keys - ne" arbitrary: ne ns)
  case 0
  then show ?case
    using len by (auto intro!: reaches_continue simp: step_def m step_multi_a_def truth_def)
next
  case (Suc p)
  then have ne: "ne < length keys" by linarith
  have d: "drop ne xs = xs ! ne # drop (Suc ne) xs" using ne len by (simp add: Cons_nth_drop_Suc)
  have IH: "reaches L c (NS m (Suc ne) ns' # st) (map element_from (drop (Suc ne) xs) @ r) st
      (truth (ns' + length (filter (\<lambda>x. x \<noteq> []) (drop (Suc ne) xs)) = k) # r)" for ns'
    using Suc.hyps(2) ne by (intro Suc.hyps(1)) auto
  show ?case
  proof (cases "xs ! ne = []")
    case True
    then show ?thesis
      using ne IH [of ns] unfolding d
      by (auto intro!: reaches_continue simp: step_def m step_multi_a_def evaluate_pk_def element_from_def)
  next
    case False
    then obtain ksp where "verify_sersig L (keys ! ne) (xs ! ne) = Some (Inr ksp)"
      "element_from (xs ! ne) = Push (xs ! ne)"
      using xs ne by (auto simp: verifies_def)
    then show ?thesis
      using ne False IH [of "Suc ns"] unfolding d
      by (auto intro!: reaches_yield simp: step_def m step_multi_a_def evaluate_pk_def)
  qed
qed

section \<open>Big-step rules\<close>

text \<open>
  \<open>resumes L c x p q\<close>: on any stack that starts with \<open>p\<close>, the evaluation state \<open>x\<close> runs to its end,
  replaces \<open>p\<close> by \<open>q\<close> and leaves the rest alone. \<open>evals\<close> is the case of a fresh node.
\<close>

definition resumes :: "'e interp_lib \<Rightarrow> interp_ctx \<Rightarrow> 'e node_state \<Rightarrow> istack \<Rightarrow> istack \<Rightarrow> bool" where
  "resumes L c x p q \<longleftrightarrow> (\<forall>st r. reaches L c (x # st) (p @ r) st (q @ r))"

abbreviation evals :: "'e interp_lib \<Rightarrow> interp_ctx \<Rightarrow> 'e interp_ms \<Rightarrow> istack \<Rightarrow> istack \<Rightarrow> bool" where
  "evals L c m \<equiv> resumes L c (NS m 0 0)"

text \<open>A turn that ends the state, one that hands over to a child, one that calls a child.\<close>

lemma resumes_return:
  "(\<And>st r. step L c x st (p @ r) = Continue st (q @ r)) \<Longrightarrow> resumes L c x p q"
  by (simp add: resumes_def reaches_step)

lemma resumes_yield:
  "(\<And>st r. step L c x st (p @ r) = Yield k st (q @ r)) \<Longrightarrow> resumes L c x p q"
  unfolding resumes_def by (blast intro: reaches_yield reaches_refl)

lemma resumes_tail:
  "(\<And>st r. step L c x st (p @ r) = Continue (NS a 0 0 # st) (p' @ r)) \<Longrightarrow> evals L c a p' q \<Longrightarrow> resumes L c x p q"
  unfolding resumes_def by (blast intro: reaches_continue)

lemma resumes_call:
  assumes "\<And>st r. step L c x st ((p @ p2) @ r) = Continue (NS a 0 0 # y # st) ((p1 @ p2) @ r)"
    and "evals L c a p1 u" and "resumes L c y (u @ p2) q"
  shows "resumes L c x (p @ p2) q"
  unfolding resumes_def
proof (intro allI)
  fix st r
  have "reaches L c (NS a 0 0 # y # st) (p1 @ p2 @ r) (y # st) (u @ p2 @ r)"
    using assms(2) by (simp add: resumes_def)
  also have "reaches L c (y # st) (u @ p2 @ r) st (q @ r)"
    using assms(3) by (simp add: resumes_def)
  finally show "reaches L c (x # st) ((p @ p2) @ r) st (q @ r)"
    using assms(1) by (auto intro: reaches_continue)
qed

lemma resumes_only_call:
  "(\<And>st r. step L c x st (p @ r) = Continue (NS a 0 0 # y # st) (p1 @ r)) \<Longrightarrow> evals L c a p1 u \<Longrightarrow>
     resumes L c y u q \<Longrightarrow> resumes L c x p q"
  using resumes_call [of L c x p "[]" a y p1 u q] by simp

lemma evals_const:
  "node m = TrueT \<Longrightarrow> evals L c m [] [Satisfied]"
  "node m = FalseT \<Longrightarrow> evals L c m [] [Dissatisfied]"
  by (auto intro!: resumes_return simp: step_def)

lemma evals_wrap: "node m \<in> {Alt a, Swap a, Check a} \<Longrightarrow> evals L c a p q \<Longrightarrow> evals L c m p q"
  by (rule resumes_tail [of L c _ p a p]) (auto simp: step_def)

lemma evals_verify: "node m = Verify a \<Longrightarrow> evals L c a p [Satisfied] \<Longrightarrow> evals L c m p []"
  by (erule resumes_only_call [where y = "NS m 1 0", rotated], rule resumes_return) (auto simp: step_def)

lemma evals_zero_not_equal:
  "node m = ZeroNotEqual a \<Longrightarrow> evals L c a p [truth b] \<Longrightarrow> evals L c m p [truth b]"
  by (erule resumes_only_call [where y = "NS m 1 0", rotated], rule resumes_return)
    (auto simp: step_def truth_def)

lemma evals_dup_if:
  "node m = DupIf a \<Longrightarrow> evals L c a p [] \<Longrightarrow> evals L c m (Satisfied # p) [Satisfied]"
  by (erule resumes_only_call [where y = "NS m 1 1", rotated], rule resumes_return)
    (auto simp: step_def pop_bool_def)

lemma evals_dup_if_dissat: "node m = DupIf a \<Longrightarrow> evals L c m [Dissatisfied] [Dissatisfied]"
  by (rule resumes_return) (simp add: step_def pop_bool_def)

lemma evals_non_zero:
  "node m = NonZero a \<Longrightarrow> x \<noteq> Dissatisfied \<Longrightarrow> evals L c a (x # p) q \<Longrightarrow> evals L c m (x # p) q"
  by (rule resumes_tail [of L c _ _ a "x # p"]) (auto simp: step_def split: element.splits)

lemma evals_non_zero_dissat: "node m = NonZero a \<Longrightarrow> evals L c m [Dissatisfied] [Dissatisfied]"
  by (rule resumes_return) (simp add: step_def)

lemma evals_and_v: "node m = AndV l r \<Longrightarrow> evals L c l p [] \<Longrightarrow> evals L c r q res \<Longrightarrow> evals L c m (p @ q) res"
  by (rule resumes_call [of L c _ p q l "NS r 0 0" p "[]"]) (auto simp: step_def)

lemma evals_and_b:
  assumes m: "node m = AndB l r" and l: "evals L c l p [truth x]" and r: "evals L c r q [truth y]"
  shows "evals L c m (p @ q) [truth (x \<and> y)]"
proof (rule resumes_call [OF _ l])
  have "resumes L c (NS m 2 (if x then 1 else 0)) [truth y] [truth (x \<and> y)]"
    by (rule resumes_return) (simp add: step_def m truth_def)
  with r show "resumes L c (NS m 1 0) ([truth x] @ q) [truth (x \<and> y)]"
    by (rule resumes_only_call [rotated]) (simp add: step_def m)
qed (simp add: step_def m)

lemma evals_or_b:
  assumes m: "node m = OrB l r" and l: "evals L c l p [truth x]" and r: "evals L c r q [truth y]"
  shows "evals L c m (p @ q) [truth (x \<or> y)]"
proof (rule resumes_call [OF _ l])
  have "resumes L c (NS m 2 (if x then 1 else 0)) [truth y] [truth (x \<or> y)]"
    by (rule resumes_return) (simp add: step_def m truth_def)
  with r show "resumes L c (NS m 1 0) ([truth x] @ q) [truth (x \<or> y)]"
    by (rule resumes_only_call [rotated]) (simp add: step_def m)
qed (simp add: step_def m)

lemma evals_or_c:
  assumes m: "node m = OrC l r" and l: "evals L c l p [truth x]" and r: "if x then q = [] else evals L c r q []"
  shows "evals L c m (p @ q) []"
proof (rule resumes_call [OF _ l])
  show "resumes L c (NS m 1 0) ([truth x] @ q) []"
    using r by (cases x) (auto simp: step_def m intro: resumes_return resumes_tail)
qed (simp add: step_def m)

lemma evals_or_d:
  assumes m: "node m = OrD l r" and l: "evals L c l p [truth x]"
    and r: "if x then q = [] \<and> res = [Satisfied] else evals L c r q res"
  shows "evals L c m (p @ q) res"
proof (rule resumes_call [OF _ l])
  show "resumes L c (NS m 1 0) ([truth x] @ q) res"
    using r by (cases x) (auto simp: step_def m intro: resumes_return resumes_tail)
qed (simp add: step_def m)

lemma evals_and_or:
  assumes m: "node m = AndOr a b d" and a: "evals L c a p [truth x]" and "evals L c (if x then b else d) q res"
  shows "evals L c m (p @ q) res"
proof (rule resumes_call [OF _ a])
  show "resumes L c (NS m 1 0) ([truth x] @ q) res"
    using assms(3) by (cases x) (auto simp: step_def m intro: resumes_tail)
qed (simp add: step_def m)

lemma evals_or_i:
  "node m = OrI l r \<Longrightarrow> evals L c (if x then l else r) p q \<Longrightarrow> evals L c m (truth x # p) q"
  by (rule resumes_tail [of L c _ _ "if x then l else r" p]) (auto simp: step_def)

lemma evals_thresh:
  assumes "node m = Thresh k subs" "0 < k" "subs \<noteq> []" "length ps = length subs" "A \<subseteq> {..<length subs}"
    and "\<And>j. j < length subs \<Longrightarrow> evals L c (subs ! j) (ps ! j) [truth (j \<in> A)]"
  shows "evals L c m (concat ps) [truth (card A = k)]"
  using reaches_thresh [OF assms(1-5)] assms(6) by (auto simp: resumes_def)

lemma evals_multi:
  "node m = Multi k keys \<Longrightarrow> 0 < k \<Longrightarrow> length xs = k \<Longrightarrow> keys \<noteq> [] \<Longrightarrow> matched (verifies L) xs (rev keys) \<Longrightarrow>
     [] \<notin> set xs \<Longrightarrow> evals L c m (map Push xs @ [Dissatisfied]) [Satisfied]"
  "node m = Multi k keys \<Longrightarrow> evals L c m (replicate (Suc k) Dissatisfied) [Dissatisfied]"
  using reaches_multi [of m k keys xs L c] reaches_multi_dissat [of m k keys L c]
  by (auto simp: resumes_def)

lemma evals_multi_a:
  assumes "node m = MultiA k keys" "length xs = length keys"
    and "\<forall>i<length keys. xs ! i \<noteq> [] \<longrightarrow> element_from (xs ! i) = Push (xs ! i) \<and> verifies L (xs ! i) (keys ! i)"
  shows "evals L c m (map element_from xs) [truth (length (filter (\<lambda>x. x \<noteq> []) xs) = k)]"
  using reaches_multi_a_from [OF assms(1,2,3), of 0 c 0] by (auto simp: resumes_def)

end
