(* ===== verification/Soundness.thy ===== *)
theory Soundness
  imports Satisfy_Typed Runs
begin

text \<open>
  The satisfier and the interpreter agree: a witness produced by \<open>satisfy.rs\<close> for a
  well-formed miniscript of type \<open>B\<close> makes the iterator of \<open>interpreter/mod.rs\<close> end without
  an error. The proof goes through the big-step rules, for both selection functions at once.
\<close>

section \<open>What is assumed of the environment\<close>

text \<open>
  The two sides meet in third-party code: signatures handed out by the satisfier verify,
  serialised keys parse and hash to the hash in the script, preimages have 32 bytes and the
  right hash (and 32 zero bytes, the dissatisfaction, do not), the transaction's lock times
  are those the satisfier was asked about.
\<close>

definition usable_sig :: "'e interp_lib \<Rightarrow> bytes \<Rightarrow> bitcoin_key \<Rightarrow> bool" where
  "usable_sig L x pk \<longleftrightarrow> element_from x = Push x \<and> verifies L x pk"

definition usable_key :: "'e interp_lib \<Rightarrow> interp_ctx \<Rightarrow> bytes \<Rightarrow> bytes \<Rightarrow> bitcoin_key \<Rightarrow> bool" where
  "usable_key L c kb pkh key \<longleftrightarrow> element_from kb = Push kb \<and> hash_hash160 L kb = pkh
     \<and> bitcoin_key_from_slice L kb (isig_type c) = Some key"

definition hash_leaf_ok :: "(bytes \<Rightarrow> bytes) \<Rightarrow> bytes option \<Rightarrow> bytes \<Rightarrow> bool" where
  "hash_leaf_ok hf lookup h \<longleftrightarrow>
     (case lookup of Some p \<Rightarrow> length p = 32 \<and> hf p = h | None \<Rightarrow> True) \<and> hf (replicate 32 0) \<noteq> h"

definition elems :: "bytes list \<Rightarrow> istack" where
  "elems w = rev (map element_from w)"

definition result :: "'e interp_ms \<Rightarrow> istack" where
  "result m = (if base (corr (ty m)) = Base_V then [] else [Satisfied])"

definition leaf_sound ::
  "(bitcoin_key, bytes, 'e) sat_env \<Rightarrow> 'e interp_lib \<Rightarrow> interp_ctx \<Rightarrow> 'e interp_ms \<Rightarrow> bool" where
  "leaf_sound env L c m =
     (case node m of
        PkK pk \<Rightarrow> (\<forall>x. sig_of env pk = Some x \<longrightarrow> usable_sig L x pk)
      | PkH pk \<Rightarrow> (\<exists>key. usable_key L c (key_bytes env pk) (key_pubkeyhash L (isig_type c) pk) key
          \<and> (\<forall>x. sig_of env pk = Some x \<longrightarrow> usable_sig L x key))
      | RawPkH h \<Rightarrow>
          (\<forall>x kb. wit_pkh_signature env h = Stack [x, kb] \<longrightarrow> (\<exists>key. usable_key L c kb h key \<and> usable_sig L x key))
          \<and> (\<forall>kb. wit_pkh_public_key env h = Stack [kb] \<longrightarrow> (\<exists>key. usable_key L c kb h key))
      | After n \<Rightarrow> check_after (env_stfr env) n \<longrightarrow>
          lock_is_blocks L n = lock_is_blocks L (lock_time c) \<and> n \<le> lock_time c
      | Older n \<Rightarrow> check_older (env_stfr env) n \<longrightarrow> n \<le> age c
      | Sha256 h \<Rightarrow> hash_leaf_ok (hash_sha256 L) (lookup_sha256 (env_stfr env) h) h
      | Hash256 h \<Rightarrow> hash_leaf_ok (hash_hash256 L) (lookup_hash256 (env_stfr env) h) h
      | Ripemd160 h \<Rightarrow> hash_leaf_ok (hash_ripemd160 L) (lookup_ripemd160 (env_stfr env) h) h
      | Hash160 h \<Rightarrow> hash_leaf_ok (hash_hash160 L) (lookup_hash160 (env_stfr env) h) h
      | Multi k keys \<Rightarrow> (\<forall>pk\<in>set keys. \<forall>x. sig_of env pk = Some x \<longrightarrow> usable_sig L x pk)
      | MultiA k keys \<Rightarrow> (\<forall>pk\<in>set keys. \<forall>x. sig_of env pk = Some x \<longrightarrow> usable_sig L x pk)
      | ExtT e \<Rightarrow>
          (\<forall>s w. env_ext_satisfy env (env_stfr env) e = Some s \<and> stack s = Stack w \<longrightarrow>
             sat_shape (input (corr (ty m))) w
             \<and> (\<forall>r. ext_evaluate L e (elems w @ r) = Some (Inr True, result m @ r)))
          \<and> (\<forall>d w. env_ext_dissatisfy env (env_stfr env) e = Some d \<and> stack d = Stack w \<longrightarrow>
             dissat_shape (input (corr (ty m))) w \<and> base (corr (ty m)) \<noteq> Base_V
             \<and> (\<forall>r. ext_evaluate L e (elems w @ r) = Some (Inr False, Dissatisfied # r)))
      | _ \<Rightarrow> True)"

lemma element_from_Push: "element_from x = Push x \<longleftrightarrow> x \<noteq> [] \<and> x \<noteq> [1]"
  by (auto simp: element_from_def)

lemma usable_nonempty: "usable_sig L x pk \<Longrightarrow> x \<noteq> []"
  by (auto simp: usable_sig_def element_from_def)

lemma leaf_sound_bytes: "leaf_sound env L c m \<Longrightarrow> leaf_bytes_ok env m"
  by (cases "node m")
    (auto simp: leaf_sound_def leaf_bytes_ok_def hash_leaf_ok_def usable_key_def element_from_Push
      wit_pkh_signature_def split: sig_type.splits option.splits dest: usable_nonempty)

lemma elems_simps [simp]:
  "elems [] = []" "elems (w @ w') = elems w' @ elems w" "elems [x] = [element_from x]"
  "element_from [] = Dissatisfied" "element_from [1] = Satisfied"
  by (simp_all add: elems_def element_from_def)

lemma elems_concat: "elems (concat (rev ws)) = concat (map elems ws)"
  by (induction ws) simp_all

section \<open>Leaves\<close>

lemma evals_pk_k:
  assumes "node m = PkK pk" "usable_sig L x pk"
  shows "evals L c m [element_from x] [Satisfied]"
proof -
  obtain ksp where "verify_sersig L pk x = Some (Inr ksp)" "element_from x = Push x"
    using assms(2) by (auto simp: usable_sig_def verifies_def)
  then show ?thesis
    using assms(1) by (intro resumes_yield [where k = "SC_PublicKey ksp"]) (simp add: step_def evaluate_pk_def)
qed

lemma evals_pk_k_dissat: "node m = PkK pk \<Longrightarrow> evals L c m [Dissatisfied] [Dissatisfied]"
  by (rule resumes_return) (simp add: step_def evaluate_pk_def)

lemma evals_pkh:
  assumes m: "node m = PkH pk \<and> pkh = key_pubkeyhash L (isig_type c) pk \<or> node m = RawPkH pkh"
    and key: "usable_key L c kb pkh key"
  shows "evals L c m [element_from kb, Dissatisfied] [Dissatisfied]"
    and "usable_sig L x key \<Longrightarrow> evals L c m [element_from kb, element_from x] [Satisfied]"
proof -
  show "evals L c m [element_from kb, Dissatisfied] [Dissatisfied]"
    using m key by (intro resumes_return) (auto simp: step_def evaluate_pkh_def usable_key_def)
  assume "usable_sig L x key"
  then obtain ksp where "verify_sersig L key x = Some (Inr ksp)" "element_from x = Push x"
    by (auto simp: usable_sig_def verifies_def)
  then show "evals L c m [element_from kb, element_from x] [Satisfied]"
    using m key
    by (intro resumes_yield [where k = "SC_PublicKeyHash pkh ksp"]) (auto simp: step_def evaluate_pkh_def usable_key_def)
qed

lemma element_from_32: "length p = 32 \<Longrightarrow> element_from p = Push p"
  by (auto simp: element_from_Push)

lemma evals_hash:
  assumes step: "\<And>st s. step L c (NS m 0 0) st s = finish st (evaluate_hash hf wrap h s)" and p: "length p = 32"
  shows "hf p = h \<Longrightarrow> evals L c m [element_from p] [Satisfied]"
    and "hf p \<noteq> h \<Longrightarrow> evals L c m [element_from p] [Dissatisfied]"
proof -
  show "hf p = h \<Longrightarrow> evals L c m [element_from p] [Satisfied]"
    by (rule resumes_yield [where k = "SC_HashLock (wrap h) p"])
      (simp add: step evaluate_hash_def element_from_32 p)
  show "hf p \<noteq> h \<Longrightarrow> evals L c m [element_from p] [Dissatisfied]"
    by (rule resumes_return) (simp add: step evaluate_hash_def element_from_32 p)
qed

lemma evals_after:
  "node m = After n \<Longrightarrow> lock_is_blocks L n = lock_is_blocks L (lock_time c) \<Longrightarrow> n \<le> lock_time c \<Longrightarrow>
     evals L c m [] [Satisfied]"
  by (rule resumes_yield) (simp add: step_def evaluate_after_def)

lemma evals_older: "node m = Older n \<Longrightarrow> n \<le> age c \<Longrightarrow> evals L c m [] [Satisfied]"
  by (rule resumes_yield) (simp add: step_def evaluate_older_def)

section \<open>Multisignatures\<close>

lemma matched_take_available:
  assumes "\<forall>pk\<in>set keys. \<forall>x. sig_of env pk = Some x \<longrightarrow> V x pk"
  shows "matched V (rev (take k (available_sigs env keys))) (rev keys)"
proof -
  have snoc: "matched V (xs @ ys) (ps @ qs)" if "matched V xs ps" "matched V ys qs" for xs ys ps qs
    using that
  proof (induction V xs ps rule: matched.induct)
    case (1 V ps)
    then show ?case by (induction ps) (auto intro: matched_weaken)
  qed auto
  show ?thesis
    using assms
  proof (induction keys arbitrary: k)
    case (Cons pk keys)
    then show ?case
      using snoc [OF _ matched_weaken] snoc [where ys = "[]"] snoc [where qs = "[pk]"]
      by (cases k; cases "sig_of env pk") (auto simp: available_sigs_Cons)
  qed (simp add: available_sigs_def List.map_filter_def)
qed

lemma evals_multi_sat:
  assumes m: "node m = Multi k keys" and k: "0 < k" "k \<le> length (available_sigs env keys)"
    and sigs: "\<forall>pk\<in>set keys. \<forall>x. sig_of env pk = Some x \<longrightarrow> usable_sig L x pk"
  shows "evals L c m (elems ([] # take k (available_sigs env keys))) [Satisfied]"
proof -
  let ?xs = "rev (take k (available_sigs env keys))"
  have push: "element_from x = Push x" if "x \<in> set ?xs" for x
    using that sigs available_sigs_in [of x env keys] by (auto simp: usable_sig_def dest: in_set_takeD)
  then have el: "elems ([] # take k (available_sigs env keys)) = map Push ?xs @ [Dissatisfied]"
    by (simp add: elems_def rev_map)
  have "[] \<notin> set ?xs" using push by (auto simp: element_from_Push)
  moreover have "matched (verifies L) ?xs (rev keys)"
    using sigs by (intro matched_take_available) (auto simp: usable_sig_def)
  moreover have "keys \<noteq> []" using k by (auto simp: available_sigs_def List.map_filter_def)
  ultimately show ?thesis
    unfolding el using m k by (intro evals_multi(1)) auto
qed

lemma greedy_nth:
  "i < length xs \<Longrightarrow> greedy n xs ! i = [] \<or> xs ! i = Some (greedy n xs ! i)"
  by (induction n xs arbitrary: i rule: greedy.induct) (auto simp: nth_Cons split: nat.splits)

lemma greedy_length [simp]: "length (greedy n xs) = length xs"
  by (induction n xs rule: greedy.induct) auto

lemma greedy_count:
  "Some [] \<notin> set xs \<Longrightarrow> length (filter (\<lambda>x. x \<noteq> []) (greedy n xs)) = min n (length (filter (\<lambda>x. x \<noteq> None) xs))"
  by (induction n xs rule: greedy.induct) auto

lemma evals_multi_a_sat:
  assumes m: "node m = MultiA k keys" and k: "k \<le> length (available_sigs env keys)"
    and sigs: "\<forall>pk\<in>set keys. \<forall>x. sig_of env pk = Some x \<longrightarrow> usable_sig L x pk"
  shows "evals L c m (elems (greedy k (map (sig_of env) (rev keys)))) [Satisfied]"
proof -
  let ?g = "greedy k (map (sig_of env) (rev keys))"
  have g: "?g ! i \<noteq> [] \<Longrightarrow> sig_of env (rev keys ! i) = Some (?g ! i)" if "i < length keys" for i
    using greedy_nth [of i "map (sig_of env) (rev keys)" k] that by auto
  have nth: "sig_of env (keys ! i) = Some (rev ?g ! i)" if "i < length keys" "rev ?g ! i \<noteq> []" for i
    using g [of "length keys - Suc i"] that by (simp add: rev_nth)
  have "Some [] \<notin> set (map (sig_of env) (rev keys))"
    using sigs by (auto simp: usable_sig_def element_from_Push dest: sym)
  then have "length (filter (\<lambda>x. x \<noteq> []) (rev ?g)) = k"
    using k by (simp add: greedy_count rev_filter [symmetric] available_sigs_def List.map_filter_def filter_map o_def min_def)
  moreover have "rev ?g ! i \<noteq> [] \<longrightarrow> element_from (rev ?g ! i) = Push (rev ?g ! i) \<and> verifies L (rev ?g ! i) (keys ! i)"
    if "i < length keys" for i
    using nth [OF that] sigs nth_mem [OF that] by (auto simp: usable_sig_def)
  ultimately show ?thesis
    using evals_multi_a [OF m, of "rev ?g" L c] by (simp add: elems_def rev_map truth_def)
qed

section \<open>The induction\<close>

text \<open>What the induction carries for a node: both kinds of witness evaluate to their truth.\<close>

definition sound_node :: "min_fn \<Rightarrow> thresh_fn \<Rightarrow> (bitcoin_key, bytes, 'e) sat_env \<Rightarrow> 'e interp_lib \<Rightarrow> interp_ctx \<Rightarrow>
    'e interp_ms \<Rightarrow> bool" where
  "sound_node mf tf env L c m \<longleftrightarrow>
     (\<forall>s w. satisfy_helper env mf tf (node m) = Some s \<longrightarrow> stack s = Stack w \<longrightarrow>
        evals L c m (elems w) (result m))
     \<and> (\<forall>s w. dissatisfy_helper env mf tf (node m) = Some s \<longrightarrow> stack s = Stack w \<longrightarrow>
        base (corr (ty m)) \<noteq> Base_V \<and> evals L c m (elems w) [Dissatisfied])"

lemma sound_nodeI:
  assumes "\<And>s w. satisfy_helper env mf tf (node m) = Some s \<Longrightarrow> stack s = Stack w \<Longrightarrow> evals L c m (elems w) (result m)"
    and "\<And>s w. dissatisfy_helper env mf tf (node m) = Some s \<Longrightarrow> stack s = Stack w \<Longrightarrow>
      base (corr (ty m)) \<noteq> Base_V \<and> evals L c m (elems w) [Dissatisfied]"
  shows "sound_node mf tf env L c m"
  using assms by (auto simp: sound_node_def)

lemma sound_nodeD:
  assumes "sound_node mf tf env L c m"
  shows "satisfy_helper env mf tf (node m) = Some s \<Longrightarrow> stack s = Stack w \<Longrightarrow> evals L c m (elems w) (result m)"
    and "dissatisfy_helper env mf tf (node m) = Some s \<Longrightarrow> stack s = Stack w \<Longrightarrow> base (corr (ty m)) \<noteq> Base_V"
    and "dissatisfy_helper env mf tf (node m) = Some s \<Longrightarrow> stack s = Stack w \<Longrightarrow> evals L c m (elems w) [Dissatisfied]"
  using assms by (auto simp: sound_node_def)

lemma truth_simps [simp]: "truth True = Satisfied" "truth False = Dissatisfied"
  by (simp_all add: truth_def)

lemmas helper_unfolds = bind_eq_Some_conv assert_nosig_def push_0_def push_1_def wit_empty_def
  hash_dissatisfaction_def timelock_sat_def wit_preimage_def

lemmas type_unfolds = ty_leaf_defs ty_cast_defs ty_comb_defs corr_leaf_defs ms_type_eq ty_both_Inr
  corr_cast_Inr corr_comb_Inr corr_and_or_Inr

lemma sound_keys:
  assumes t: "type_rule E LL (node m) = Inr (ty m)" and leaf: "leaf_sound env L c m"
    and m: "node m = PkK pk \<or> node m = PkH pk \<or> node m = RawPkH h"
  shows "sound_node mf tf env L c m"
proof -
  have res: "result m = [Satisfied]" "base (corr (ty m)) \<noteq> Base_V"
    using t m by (auto simp: result_def type_unfolds)
  show ?thesis
    using m
  proof (elim disjE)
    assume "node m = PkK pk"
    then show ?thesis using leaf res
      by (auto simp: sound_node_def leaf_sound_def wit_signature_eq push_0_def intro: evals_pk_k evals_pk_k_dissat
          split: option.splits)
  next
    assume m: "node m = PkH pk"
    then obtain key where key: "usable_key L c (key_bytes env pk) (key_pubkeyhash L (isig_type c) pk) key"
      "\<forall>x. sig_of env pk = Some x \<longrightarrow> usable_sig L x key"
      using leaf by (auto simp: leaf_sound_def)
    then show ?thesis using m res evals_pkh [of m pk _ L c, OF _ key(1)]
      by (auto simp: sound_node_def wit_signature_eq push_0_def elems_def split: option.splits)
  next
    assume m: "node m = RawPkH h"
    then have "\<exists>key. usable_key L c kb h key \<and> usable_sig L x key" if "wit_pkh_signature env h = Stack [x, kb]" for x kb
      using that leaf by (auto simp: leaf_sound_def)
    moreover have "\<exists>key. usable_key L c kb h key" if "wit_pkh_public_key env h = Stack [kb]" for kb
      using that leaf m by (auto simp: leaf_sound_def)
    moreover have "\<exists>x kb. w = [x, kb]" if "wit_pkh_signature env h = Stack w" for w
      using that by (auto simp: wit_pkh_signature_def split: sig_type.splits option.splits)
    moreover have "\<exists>kb. w = [kb]" if "wit_pkh_public_key env h = Stack w" for w
      using that by (auto simp: wit_pkh_public_key_def split: sig_type.splits option.splits)
    ultimately show ?thesis
      using m res evals_pkh [of m _ h L c] 
      by (fastforce simp: sound_node_def push_0_def elems_def)
  qed
qed

lemma sound_hashes:
  assumes t: "type_rule E LL (node m) = Inr (ty m)" and leaf: "leaf_sound env L c m"
    and m: "node m = Sha256 h \<or> node m = Hash256 h \<or> node m = Ripemd160 h \<or> node m = Hash160 h"
  shows "sound_node mf tf env L c m"
proof -
  have res: "result m = [Satisfied]" "base (corr (ty m)) \<noteq> Base_V"
    using t m by (auto simp: result_def type_unfolds)
  have "\<exists>hf wrap lk. (\<forall>st s. step L c (NS m 0 0) st s = finish st (evaluate_hash hf wrap h s))
      \<and> satisfy_helper env mf tf (node m) = Some (Sat (wit_preimage lk) False)
      \<and> dissatisfy_helper env mf tf (node m) = Some (Sat hash_dissatisfaction False) \<and> hash_leaf_ok hf lk h"
    using m leaf
    by (elim disjE) (auto simp: step_def leaf_sound_def evaluate_sha256_def evaluate_hash256_def
        evaluate_ripemd160_def evaluate_hash160_def)
  then obtain hf wrap lk where h: "\<And>st s. step L c (NS m 0 0) st s = finish st (evaluate_hash hf wrap h s)"
    "satisfy_helper env mf tf (node m) = Some (Sat (wit_preimage lk) False)"
    "dissatisfy_helper env mf tf (node m) = Some (Sat hash_dissatisfaction False)" "hash_leaf_ok hf lk h"
    by auto
  show ?thesis
    using evals_hash [OF h(1)] h(2-4) res
    by (auto simp: sound_node_def wit_preimage_def hash_dissatisfaction_def hash_leaf_ok_def split: option.splits)
qed

lemma sound_rest:
  assumes t: "type_rule E LL (node m) = Inr (ty m)" and leaf: "leaf_sound env L c m"
    and m: "node m \<in> {TrueT, FalseT, After n, Older n, Multi k keys, MultiA k keys, ExtT e}"
  shows "sound_node mf tf env L c m"
  using m
proof (elim insertE emptyE)
  assume m: "node m = Multi k keys"
  then have res: "result m = [Satisfied]" "base (corr (ty m)) \<noteq> Base_V" "0 < k"
    using t by (auto simp: result_def type_unfolds)
  show ?thesis
    using m res leaf evals_multi_sat [OF m, of env L c] evals_multi(2) [OF m, of L c]
    by (auto simp: sound_node_def leaf_sound_def multi_sat_eq elems_def replicate_append_same split: if_splits)
next
  assume m: "node m = MultiA k keys"
  then have res: "result m = [Satisfied]" "base (corr (ty m)) \<noteq> Base_V" "0 < k"
    using t by (auto simp: result_def type_unfolds)
  show ?thesis
    using m res leaf evals_multi_a_sat [OF m, of env L c] evals_multi_a [OF m, of "replicate (length keys) []" L c]
    by (auto simp: sound_node_def leaf_sound_def multi_a_sat_eq elems_def split: if_splits)
next
  assume m: "node m = ExtT e"
  have "evals L c m (elems w) (result m)" if "\<forall>r. ext_evaluate L e (elems w @ r) = Some (Inr True, result m @ r)" for w
    using that m by (intro resumes_yield [where k = "SC_Ext e"]) (simp add: step_def)
  moreover have "evals L c m (elems w) [Dissatisfied]"
    if "\<forall>r. ext_evaluate L e (elems w @ r) = Some (Inr False, Dissatisfied # r)" for w
    using that m by (intro resumes_return) (simp add: step_def)
  ultimately show ?thesis
    using leaf m by (simp add: sound_node_def leaf_sound_def)
qed (use t leaf in \<open>auto simp: sound_node_def leaf_sound_def result_def type_unfolds helper_unfolds
    evals_const evals_after evals_older split: if_splits\<close>)

text \<open>The big-step rules at the truth values the two helpers aim for.\<close>

lemmas and_b_sat = evals_and_b [where x = True and y = True, simplified]
lemmas and_b_dis = evals_and_b [where x = False and y = False, simplified]
lemmas or_b_left = evals_or_b [where x = True and y = False, simplified]
lemmas or_b_right = evals_or_b [where x = False and y = True, simplified]
lemmas or_b_dis = evals_or_b [where x = False and y = False, simplified]
lemmas or_c_left = evals_or_c [where x = True and q = "[]", simplified]
lemmas or_c_right = evals_or_c [where x = False, simplified]
lemmas or_d_left = evals_or_d [where x = True and q = "[]" and res = "[Satisfied]", simplified]
lemmas or_d_right = evals_or_d [where x = False, simplified]
lemmas and_or_left = evals_and_or [where x = True, simplified]
lemmas and_or_right = evals_and_or [where x = False, simplified]
lemmas or_i_left = evals_or_i [where x = True, simplified]
lemmas or_i_right = evals_or_i [where x = False, simplified]
lemmas zne_sat = evals_zero_not_equal [where b = True, simplified]
lemmas zne_dis = evals_zero_not_equal [where b = False, simplified]

lemma sound_wrappers:
  assumes t: "type_rule E LL (node m) = Inr (ty m)" and a: "sound_node mf tf env L c a" "shapes_ok mf tf env a"
    and m: "node m \<in> {Alt a, Swap a, Check a, DupIf a, Verify a, NonZero a, ZeroNotEqual a}"
  shows "sound_node mf tf env L c m"
  using m
proof (elim insertE emptyE)
  assume m: "node m = NonZero a"
  have "evals L c m (elems w) (result m)"
    if w: "satisfy_helper env mf tf (node a) = Some s" "stack s = Stack w" for s w
  proof -
    have "sat_shape (input (corr (ty a))) w" using shapes_okD(1) [OF a(2) w] .
    then have "w \<noteq> [] \<and> last w \<noteq> []" using t m by (auto simp: type_unfolds)
    then obtain v x where "w = v @ [x]" "x \<noteq> []" by (metis append_butlast_last_id)
    moreover have "element_from x \<noteq> Dissatisfied" using calculation(2) by (auto simp: element_from_def)
    moreover have "result m = result a" using t m by (auto simp: result_def type_unfolds)
    ultimately show ?thesis
      using sound_nodeD(1) [OF a(1) w] evals_non_zero [OF m, of "element_from x" L c "elems v" "result m"] by simp
  qed
  then show ?thesis
    using m t evals_non_zero_dissat [OF m, of L c] by (auto simp: sound_node_def push_0_def type_unfolds)
qed (use t a in \<open>auto simp: sound_node_def result_def type_unfolds helper_unfolds
      simp: evals_dup_if evals_dup_if_dissat intro: evals_wrap evals_verify zne_sat zne_dis\<close>)

lemma sound_and:
  assumes t: "type_rule E LL (node m) = Inr (ty m)"
    and l: "sound_node mf tf env L c l" and r: "sound_node mf tf env L c r"
    and m: "node m = AndV l r \<or> node m = AndB l r"
  shows "sound_node mf tf env L c m"
  using m
proof (elim disjE)
  assume m: "node m = AndV l r"
  show ?thesis
    using m t l r
    by (auto simp: sound_node_def result_def type_unfolds helper_unfolds intro!: evals_and_v [OF m])
next
  assume m: "node m = AndB l r"
  show ?thesis
    using m t l r
    by (auto simp: sound_node_def result_def type_unfolds helper_unfolds intro!: and_b_sat [OF m] and_b_dis [OF m])
qed

context selection
begin

lemma sound_or:
  assumes t: "type_rule E LL (node m) = Inr (ty m)"
    and l: "sound_node mf tf env L c l" and r: "sound_node mf tf env L c r"
    and m: "node m \<in> {OrB l r, OrC l r, OrD l r, OrI l r}"
  shows "sound_node mf tf env L c m"
  using m
proof (elim insertE emptyE)
  assume m: "node m = OrB l r"
  show ?thesis
    using m t l r
    by (auto simp: sound_node_def result_def type_unfolds helper_unfolds split: if_splits
        simp: or_b_left [OF m] or_b_right [OF m] or_b_dis [OF m] dest!: min_choice)
next
  assume m: "node m = OrC l r"
  show ?thesis
    using m t l r
    by (auto simp: sound_node_def result_def type_unfolds helper_unfolds split: if_splits
        simp: or_c_left [OF m] or_c_right [OF m] dest!: min_choice)
next
  assume m: "node m = OrD l r"
  show ?thesis
    using m t l r
    by (auto simp: sound_node_def result_def type_unfolds helper_unfolds split: if_splits
        simp: or_d_left [OF m] or_d_right [OF m] dest!: min_choice)
next
  assume m: "node m = OrI l r"
  show ?thesis
    using m t l r
    by (auto simp: sound_node_def result_def type_unfolds helper_unfolds split: if_splits
        simp: or_i_left [OF m] or_i_right [OF m] dest!: min_choice minimum_mall_Stack)
qed

lemma sound_and_or:
  assumes t: "type_rule E LL (node m) = Inr (ty m)" and m: "node m = AndOr a b d"
    and "sound_node mf tf env L c a" "sound_node mf tf env L c b" "sound_node mf tf env L c d"
  shows "sound_node mf tf env L c m"
  using assms
  by (auto simp: sound_node_def result_def type_unfolds helper_unfolds split: if_splits
      simp: and_or_left [OF m] and_or_right [OF m] dest!: min_choice)

lemma sound_thresh:
  assumes t: "type_rule E LL (node m) = Inr (ty m)" and m: "node m = Thresh k subs"
    and kids: "\<forall>a\<in>set subs. sound_node mf tf env L c a"
  shows "sound_node mf tf env L c m"
proof -
  from t m have k: "0 < k" "k \<le> length subs" and res: "result m = [Satisfied]" "base (corr (ty m)) \<noteq> Base_V"
    by (auto simp: result_def ty_threshold_def ty_both_Inr corr_threshold_Inr thresh_child_ok_def Let_def split: if_splits)
  have base: "result (subs ! j) = [Satisfied]" if "j < length subs" for j
    using t m that
    by (auto simp: result_def ty_threshold_def ty_both_Inr corr_threshold_Inr thresh_child_ok_def Let_def split: if_splits)
  have kid: "sound_node mf tf env L c (subs ! j)" if "j < length subs" for j
    using kids that by simp
  have ne: "subs \<noteq> []" using k by auto
  show ?thesis
  proof (rule sound_nodeI)
    fix s w
    assume s: "satisfy_helper env mf tf (node m) = Some s" "stack s = Stack w"
    from s m obtain sats dissats where
      sats: "list_all2 (\<lambda>x y. satisfy_helper env mf tf (node x) = Some y) subs sats" and
      dissats: "list_all2 (\<lambda>x y. dissatisfy_helper env mf tf (node x) = Some y) subs dissats" and
      tf: "tf k sats dissats = Some s"
      by (auto simp: bind_eq_Some_conv collect_opt_Some)
    then obtain S ws where ws: "S \<subseteq> {..<length subs}" "card S = k" "length ws = length subs" "w = concat (rev ws)"
      "\<forall>i<length subs. stack ((if i \<in> S then sats else dissats) ! i) = Stack (ws ! i)"
      using thresh_choice [OF tf s(2)] by (auto simp: picks_def dest!: list_all2_lengthD)
    have "evals L c (subs ! j) (map elems ws ! j) [truth (j \<in> S)]" if j: "j < length subs" for j
      using ws(3,5) j sound_nodeD [OF kid [OF j]] base [OF j]
        list_all2_nthD [OF sats j] list_all2_nthD [OF dissats j] by (cases "j \<in> S") auto
    then have "evals L c m (concat (map elems ws)) [truth (card S = k)]"
      using ws by (intro evals_thresh [OF m k(1) ne]) auto
    then show "evals L c m (elems w) (result m)"
      using ws res by (simp add: elems_concat)
  next
    fix s w
    assume s: "dissatisfy_helper env mf tf (node m) = Some s" "stack s = Stack w"
    from s m obtain nsats where
      nsats: "list_all2 (\<lambda>x y. dissatisfy_helper env mf tf (node x) = Some y) subs nsats" and
      "flatten_stacks nsats = Stack w"
      by (auto simp: bind_eq_Some_conv collect_opt_Some split: if_splits)
    then obtain ws where ws: "list_all2 (\<lambda>r x. stack r = Stack x) nsats ws" "w = concat (rev ws)"
      by (auto simp: flatten_Stack)
    have len: "length ws = length subs" using list_all2_lengthD [OF nsats] list_all2_lengthD [OF ws(1)] by simp
    have "evals L c (subs ! j) (map elems ws ! j) [truth (j \<in> {})]" if j: "j < length subs" for j
      using j len sound_nodeD(3) [OF kid [OF j]] list_all2_nthD [OF nsats j] list_all2_nthD2 [OF ws(1), of j] by simp
    then have "evals L c m (concat (map elems ws)) [truth (card ({} :: nat set) = k)]"
      using len by (intro evals_thresh [OF m k(1) ne]) auto
    then show "base (corr (ty m)) \<noteq> Base_V \<and> evals L c m (elems w) [Dissatisfied]"
      using ws res k by (simp add: elems_concat)
  qed
qed

lemma node_sound:
  assumes t: "type_rule E LL (node m) = Inr (ty m)" and leaf: "leaf_sound env L c m"
    and kids: "\<forall>a\<in>set (children (node m)). sound_node mf tf env L c a \<and> shapes_ok mf tf env a"
  shows "sound_node mf tf env L c m"
proof (cases "node m")
  case (AndOr a b d)
  then show ?thesis using kids by (intro sound_and_or [OF t AndOr]) simp_all
next
  case (Thresh k subs)
  then show ?thesis using kids by (intro sound_thresh [OF t Thresh]) simp
next
  case (AndV l r)
  then show ?thesis using kids by (intro sound_and [OF t, of _ _ _ _ _ l r]) simp_all
next
  case (AndB l r)
  then show ?thesis using kids by (intro sound_and [OF t, of _ _ _ _ _ l r]) simp_all
next
  case (OrB l r)
  then show ?thesis using kids by (intro sound_or [OF t, of _ _ _ l r]) simp_all
next
  case (OrC l r)
  then show ?thesis using kids by (intro sound_or [OF t, of _ _ _ l r]) simp_all
next
  case (OrD l r)
  then show ?thesis using kids by (intro sound_or [OF t, of _ _ _ l r]) simp_all
next
  case (OrI l r)
  then show ?thesis using kids by (intro sound_or [OF t, of _ _ _ l r]) simp_all
qed (use kids sound_wrappers [where mf = mf and tf = tf and env = env and L = L and c = c, OF t]
    sound_keys [OF t leaf] sound_hashes [OF t leaf] sound_rest [OF t leaf] in \<open>simp_all, blast+\<close>)

lemma helpers_sound:
  assumes "ms_wf E LL st m" and "every_node (leaf_sound env L c) m"
  shows "sound_node mf tf env L c m"
  using assms
proof (induction "node m" arbitrary: m rule: terminal_children_induct)
  case step
  have "sound_node mf tf env L c a \<and> shapes_ok mf tf env a" if "a \<in> set (children (node m))" for a
  proof -
    have a: "ms_wf E LL st a" "every_node (leaf_sound env L c) a"
      using step.prems that every_node_child [OF step.prems(2) that] by (auto simp: ms_wf_iff [of E LL st m])
    have "every_node (leaf_bytes_ok env) a"
      by (rule every_node_mono [OF _ a(2)]) (rule leaf_sound_bytes)
    then show ?thesis using step.hyps [OF that refl a] helpers_shapes [OF a(1)] by blast
  qed
  then show ?case
    using step.prems by (intro node_sound [of E LL]) (auto simp: ms_wf_iff [of E LL st m] node_wf_iff dest: every_node_root)
qed

theorem witness_accepted:
  assumes "ms_wf E LL st m" and "every_node (leaf_sound env L c) m" and "base (corr (ty m)) = Base_B"
    and "satisfy_helper env mf tf (node m) = Some s" "stack s = Stack w"
  shows "accepted L c (script_iter m w)"
proof -
  have "evals L c m (elems w) [Satisfied]"
    using sound_nodeD(1) [OF helpers_sound [OF assms(1,2)] assms(4,5)] assms(3) by (simp add: result_def)
  then have "reaches L c [NS m 0 0] (elems w @ []) [] ([Satisfied] @ [])"
    unfolding resumes_def by blast
  then show ?thesis by (intro reaches_accepted) (simp add: elems_def)
qed

end

end
