(* ===== verification/Signatures.thy ===== *)
theory Signatures
  imports Satisfy_Typed
begin

text \<open>
  The meaning of the malleability type's \<open>safe\<close> flag: a fragment marked \<open>safe\<close> cannot be
  satisfied, and one without dissatisfaction (\<open>Dissat_None\<close>) cannot be dissatisfied, as long
  as the satisfier has no signature for any of its keys. Both selection functions are covered.
\<close>

fun is_stack :: "witness \<Rightarrow> bool" where
  "is_stack (Stack _) = True"
| "is_stack _ = False"

definition unsatisfied :: "satisfaction option \<Rightarrow> bool" where
  "unsatisfied r = (case r of None \<Rightarrow> True | Some s \<Rightarrow> \<not> is_stack (stack s))"

lemma is_stack_iff: "is_stack x \<longleftrightarrow> (\<exists>w. x = Stack w)"
  by (cases x) simp_all

lemma is_stack_combine [simp]: "is_stack (wit_combine x y) \<longleftrightarrow> is_stack x \<and> is_stack y"
  by (cases x; cases y) simp_all

lemma is_stack_minimum_mall [simp]:
  "\<not> is_stack (stack s1) \<Longrightarrow> \<not> is_stack (stack s2) \<Longrightarrow> \<not> is_stack (stack (minimum_mall vl s1 s2))"
  by (auto simp: is_stack_iff dest: minimum_mall_Stack)

lemma unsatisfied_simps [simp]:
  "unsatisfied None" "unsatisfied (Some s) \<longleftrightarrow> \<not> is_stack (stack s)"
  "unsatisfied (Option.bind a f) \<longleftrightarrow> (\<forall>x. a = Some x \<longrightarrow> unsatisfied (f x))"
  "unsatisfied (assert_nosig x r) \<longleftrightarrow> has_sig x \<or> unsatisfied r"
  by (cases a; simp add: unsatisfied_def assert_nosig_def)+

text \<open>
  The satisfier has no signature for the keys of this node; an extension keeps the promise of
  its malleability type.
\<close>

definition leaf_no_sig :: "('pk, 'h, 'e) sat_env \<Rightarrow> ('pk, 'h, 'e) miniscript \<Rightarrow> bool" where
  "leaf_no_sig env m =
     (case node m of
        PkK pk \<Rightarrow> sig_of env pk = None
      | PkH pk \<Rightarrow> sig_of env pk = None
      | RawPkH h \<Rightarrow> wit_pkh_signature env h = Impossible
      | Multi k keys \<Rightarrow> list_all (\<lambda>pk. sig_of env pk = None) keys
      | MultiA k keys \<Rightarrow> list_all (\<lambda>pk. sig_of env pk = None) keys
      | ExtT e \<Rightarrow>
          (safe (mall (ty m)) \<longrightarrow> unsatisfied (env_ext_satisfy env (env_stfr env) e))
          \<and> (dissat (mall (ty m)) = Dissat_None \<longrightarrow> unsatisfied (env_ext_dissatisfy env (env_stfr env) e))
      | _ \<Rightarrow> True)"

definition needs_sig :: "min_fn \<Rightarrow> thresh_fn \<Rightarrow> ('pk, 'h, 'e) sat_env \<Rightarrow> ('pk, 'h, 'e) miniscript \<Rightarrow> bool" where
  "needs_sig mf tf env m \<longleftrightarrow>
     (safe (mall (ty m)) \<longrightarrow> unsatisfied (satisfy_helper env mf tf (node m)))
     \<and> (dissat (mall (ty m)) = Dissat_None \<longrightarrow> unsatisfied (dissatisfy_helper env mf tf (node m)))"

lemma mall_record_eq:
  "\<lparr>dissat = d, safe = s, non_malleable = n\<rparr> = x \<longleftrightarrow> dissat x = d \<and> safe x = s \<and> non_malleable x = n"
  by (cases x) auto

lemma no_available_sigs: "list_all (\<lambda>pk. sig_of env pk = None) keys \<Longrightarrow> available_sigs env keys = []"
  by (induction keys) (simp_all add: available_sigs_def List.map_filter_def)

text \<open>The part of the malleability rules that matters here: where signatures are forced.\<close>

lemma mall_comb_forced:
  "mall_and_b l r = Inr m \<Longrightarrow> safe m = (safe l \<or> safe r) \<and> (dissat m = Dissat_None \<longrightarrow> dissat l = Dissat_None \<or> dissat r = Dissat_None)"
  "mall_and_v l r = Inr m \<Longrightarrow> safe m = (safe l \<or> safe r) \<and> (dissat m = Dissat_None \<longrightarrow> safe l \<or> dissat r = Dissat_None)"
  "mall_or_b l r = Inr m \<Longrightarrow> safe m = (safe l \<and> safe r) \<and> dissat m \<noteq> Dissat_None"
  "mall_or_d l r = Inr m \<Longrightarrow> safe m = (safe l \<and> safe r) \<and> dissat m = dissat r"
  "mall_or_c l r = Inr m \<Longrightarrow> safe m = (safe l \<and> safe r)"
  "mall_or_i l r = Inr m \<Longrightarrow> safe m = (safe l \<and> safe r) \<and> (dissat m = Dissat_None \<longrightarrow> dissat l = Dissat_None \<and> dissat r = Dissat_None)"
  "mall_and_or a b c = Inr m \<Longrightarrow> safe m = ((safe a \<or> safe b) \<and> safe c) \<and> (dissat m = Dissat_None \<longrightarrow> dissat c = Dissat_None)"
  by (auto simp: mall_and_b_def mall_and_v_eq mall_or_b_def mall_or_d_def mall_or_c_def mall_or_i_eq mall_and_or_eq
      split: if_splits)

lemmas mall_leaf_unfolds = ty_leaf_defs ty_cast_defs ms_type_eq ty_both_Inr mall_record_eq mall_leaf_defs mall_cast_Inr

lemma map_safe_count: "length (filter safe (map mall (map ty subs))) = card {i. i < length subs \<and> safe (mall (ty (subs ! i)))}"
  by (simp add: length_filter_conv_card) (rule arg_cong [where f = card], auto)

text \<open>Of \<open>k\<close> chosen children at least one is safe, when more than \<open>n - k\<close> are.\<close>

lemma chosen_safe:
  assumes "S \<subseteq> {..<n}" "card S = k" "card {i. i < n \<and> P i} > n - k"
  shows "\<exists>i\<in>S. P i"
proof (rule ccontr)
  assume "\<not> ?thesis"
  then have "{i. i < n \<and> P i} \<subseteq> {..<n} - S" by auto
  then have "card {i. i < n \<and> P i} \<le> card ({..<n} - S)" by (intro card_mono) auto
  also have "\<dots> = n - k" using assms(1,2) by (simp add: card_Diff_subset finite_subset [OF assms(1)])
  finally show False using assms(3) by simp
qed

context selection
begin

lemma is_stack_min [simp]:
  "\<not> is_stack (stack s1) \<Longrightarrow> \<not> is_stack (stack s2) \<Longrightarrow> \<not> is_stack (stack (mf s1 s2))"
  by (auto simp: is_stack_iff dest: min_choice)

lemma thresh_needs_sig:
  assumes t: "type_rule E LL (node m) = Inr (ty m)" and m: "node m = Thresh k subs"
    and kids: "\<forall>a\<in>set subs. needs_sig mf tf env a"
  shows "needs_sig mf tf env m"
proof -
  from t m have mall: "mall_threshold k (map mall (map ty subs)) = Inr (mall (ty m))"
    by (auto simp: ty_threshold_def ty_both_Inr)
  have "stack s \<noteq> Stack w" if safe: "safe (mall (ty m))" and s: "satisfy_helper env mf tf (node m) = Some s" for s w
  proof
    assume w: "stack s = Stack w"
    from s m obtain sats dissats where
      sats: "list_all2 (\<lambda>x y. satisfy_helper env mf tf (node x) = Some y) subs sats" and
      dissats: "list_all2 (\<lambda>x y. dissatisfy_helper env mf tf (node x) = Some y) subs dissats" and
      tf: "tf k sats dissats = Some s"
      by (auto simp: bind_eq_Some_conv collect_opt_Some)
    have len: "length sats = length subs" "length dissats = length sats"
      using list_all2_lengthD [OF sats] list_all2_lengthD [OF dissats] by simp_all
    obtain S ws where S: "S \<subseteq> {..<length subs}" "card S = k"
      and ws: "\<forall>i<length subs. stack ((if i \<in> S then sats else dissats) ! i) = Stack (ws ! i)"
      using thresh_choice [OF tf w len(2)] unfolding picks_def len(1) by blast
    have "card {i. i < length subs \<and> safe (mall (ty (subs ! i)))} > length subs - k"
      using mall safe by (auto simp: mall_threshold_eq mall_record_eq map_safe_count [symmetric])
    then obtain i where i: "i \<in> S" "safe (mall (ty (subs ! i)))"
      using chosen_safe [OF S, of "\<lambda>i. safe (mall (ty (subs ! i)))"] by auto
    then have "i < length subs" using S(1) by auto
    then have "unsatisfied (satisfy_helper env mf tf (node (subs ! i)))" "stack (sats ! i) = Stack (ws ! i)"
      "satisfy_helper env mf tf (node (subs ! i)) = Some (sats ! i)"
      using kids i ws list_all2_nthD [OF sats] by (auto simp: needs_sig_def)
    then show False by simp
  qed
  moreover have "dissat (mall (ty m)) \<noteq> Dissat_None"
    using mall by (auto simp: mall_threshold_eq mall_record_eq split: if_splits)
  ultimately show ?thesis by (auto simp: needs_sig_def unsatisfied_def is_stack_iff split: option.splits)
qed

lemma node_needs_sig:
  assumes t: "type_rule E LL (node m) = Inr (ty m)" and leaf: "leaf_no_sig env m"
    and kids: "\<forall>a\<in>set (children (node m)). needs_sig mf tf env a"
  shows "needs_sig mf tf env m"
proof (cases "node m")
  case (Thresh k subs)
  then show ?thesis using kids by (intro thresh_needs_sig [OF t Thresh]) simp
next
  case (Multi k keys)
  then show ?thesis using t leaf
    by (auto simp: needs_sig_def leaf_no_sig_def multi_sat_eq no_available_sigs mall_leaf_unfolds)
next
  case (MultiA k keys)
  then show ?thesis using t leaf
    by (auto simp: needs_sig_def leaf_no_sig_def multi_a_sat_eq no_available_sigs mall_leaf_unfolds)
next
  case (ExtT e)
  then show ?thesis using leaf by (auto simp: needs_sig_def leaf_no_sig_def)
qed (use t kids leaf in \<open>auto simp: needs_sig_def leaf_no_sig_def mall_leaf_unfolds ty_comb_defs wit_signature_eq
      dest!: mall_comb_forced split: if_splits\<close>)

lemma safe_needs_sig:
  assumes "ms_wf E LL st m" and "every_node (leaf_no_sig env) m"
  shows "needs_sig mf tf env m"
  using assms
proof (induction "node m" arbitrary: m rule: terminal_children_induct)
  case step
  have "needs_sig mf tf env a" if "a \<in> set (children (node m))" for a
    using step.hyps [OF that refl] step.prems that every_node_child [OF step.prems(2) that]
    by (auto simp: ms_wf_iff [of E LL st m])
  then show ?case
    using step.prems by (intro node_needs_sig [of E LL]) (auto simp: ms_wf_iff [of E LL st m] node_wf_iff dest: every_node_root)
qed

end

end
