(* ===== verification/Interp_Safety.thy ===== *)
theory Interp_Safety
  imports Runs Type_Invariants
begin

text \<open>
  The iterator of \<open>interpreter/mod.rs\<close> never panics on a well-formed script whose extensions do not,
  whatever the witness: no \<open>unwrap\<close>, slice index or subtraction of \<open>iter_next\<close> and \<open>stack.rs\<close> goes
  wrong. Proved by an invariant of the evaluation state and the stack. For a covenant the last section
  gives the one case in which it does panic.
\<close>

section \<open>The invariant\<close>

text \<open>The stack never holds an empty push: an empty vector becomes \<open>Dissatisfied\<close>.\<close>

fun push_ok :: "element \<Rightarrow> bool" where
  "push_ok (Push x) \<longleftrightarrow> x \<noteq> []"
| "push_ok _ \<longleftrightarrow> True"

abbreviation stack_ok :: "istack \<Rightarrow> bool" where
  "stack_ok \<equiv> list_all push_ok"

text \<open>What is asked of an extension's \<open>evaluate\<close> at a node: it returns, and pushes no empty vector.\<close>

definition ext_eval_ok :: "'e interp_lib \<Rightarrow> ('pk, 'h, 'e) miniscript \<Rightarrow> bool" where
  "ext_eval_ok L m =
     (case node m of
        ExtT e \<Rightarrow> (\<forall>s. stack_ok s \<longrightarrow> (\<exists>r s'. ext_evaluate L e s = Some (r, s') \<and> stack_ok s'))
      | _ \<Rightarrow> True)"

definition well_typed :: "('e, 'z) extension_scheme \<Rightarrow> lock_lib \<Rightarrow> 'e interp_lib \<Rightarrow> ('pk, 'h, 'e) miniscript \<Rightarrow> bool" where
  "well_typed E LL L m \<longleftrightarrow> type_rule E LL (node m) = Inr (ty m) \<and> ext_eval_ok L m"

fun slot_ok :: "('pk, 'h, 'e) terminal \<Rightarrow> nat \<Rightarrow> bool" where
  "slot_ok (Thresh k subs) i \<longleftrightarrow> i \<le> length subs"
| "slot_ok (Multi k ks) i \<longleftrightarrow> i \<le> length ks"
| "slot_ok (MultiA k ks) i \<longleftrightarrow> i \<le> length ks"
| "slot_ok _ i \<longleftrightarrow> True"

definition ns_ok :: "('e, 'z) extension_scheme \<Rightarrow> lock_lib \<Rightarrow> 'e interp_lib \<Rightarrow> 'e node_state \<Rightarrow> bool" where
  "ns_ok E LL L x \<longleftrightarrow> every_node (well_typed E LL L) (ns_node x) \<and> slot_ok (node (ns_node x)) (n_evaluated x)"

definition outcome_ok :: "('e, 'z) extension_scheme \<Rightarrow> lock_lib \<Rightarrow> 'e interp_lib \<Rightarrow> 'e outcome \<Rightarrow> bool" where
  "outcome_ok E LL L r =
     (case r of
        Panic \<Rightarrow> False
      | Continue st s \<Rightarrow> list_all (ns_ok E LL L) st \<and> stack_ok s
      | Yield _ st s \<Rightarrow> list_all (ns_ok E LL L) st \<and> stack_ok s
      | Fail _ \<Rightarrow> True)"

lemma outcome_ok_simps [simp]:
  "\<not> outcome_ok E LL L Panic" "outcome_ok E LL L (Fail e)"
  "outcome_ok E LL L (Continue st s) \<longleftrightarrow> list_all (ns_ok E LL L) st \<and> stack_ok s"
  "outcome_ok E LL L (Yield k st s) \<longleftrightarrow> list_all (ns_ok E LL L) st \<and> stack_ok s"
  by (simp_all add: outcome_ok_def)

section \<open>Leaves\<close>

definition ev_ok :: "'e ev \<Rightarrow> bool" where
  "ev_ok r = (case r of EvPanic \<Rightarrow> False | EvNone s \<Rightarrow> stack_ok s | EvOk _ s \<Rightarrow> stack_ok s | EvErr _ \<Rightarrow> True)"

lemma ev_ok_simps [simp]:
  "\<not> ev_ok EvPanic" "ev_ok (EvErr e)" "ev_ok (EvNone s) = stack_ok s" "ev_ok (EvOk k s) = stack_ok s"
  by (simp_all add: ev_ok_def)

lemma evaluate_ok:
  assumes "stack_ok s"
  shows "ev_ok (evaluate_pk L pk s)" "ev_ok (evaluate_pkh L pkh st s)" "ev_ok (evaluate_multi L pk s)"
    "ev_ok (evaluate_hash hf wrap h s)" "ev_ok (evaluate_after L n lt s)" "ev_ok (evaluate_older n ag s)"
  using assms
  by (auto simp: evaluate_pk_def evaluate_pkh_def evaluate_multi_def evaluate_hash_def evaluate_after_def
      evaluate_older_def verify_sersig_total split: list.splits element.splits option.splits sum.splits
      dest: verify_sersig_total)

lemma stack_ok_tl: "stack_ok s \<Longrightarrow> stack_ok (tl s)"
  by (cases s) simp_all

lemma finish_ok: "list_all (ns_ok E LL L) st \<Longrightarrow> ev_ok r \<Longrightarrow> outcome_ok E LL L (finish st r)"
  by (cases r) auto

lemma pop_bool_ok:
  "stack_ok s \<Longrightarrow> (\<And>s'. stack_ok s' \<Longrightarrow> outcome_ok E LL L (f s') \<and> outcome_ok E LL L (g s')) \<Longrightarrow>
     outcome_ok E LL L (pop_bool f g s)"
  by (auto simp: pop_bool_def split: list.splits element.splits)

section \<open>One turn of the loop\<close>

lemma ns_okI: "every_node (well_typed E LL L) m \<Longrightarrow> slot_ok (node m) i \<Longrightarrow> ns_ok E LL L (NS m i j)"
  by (simp add: ns_ok_def)

lemma slot_0 [simp]: "slot_ok t 0"
  by (cases t) simp_all

lemma step_thresh_ok:
  assumes m: "every_node (well_typed E LL L) ms" "node ms = Thresh k subs" "ne \<le> length subs"
    and "list_all (ns_ok E LL L) st" "stack_ok s"
  shows "outcome_ok E LL L (step_thresh ms k subs ne ns st s)"
proof -
  have k: "0 < k" "k \<le> length subs"
    using every_node_root [OF m(1)] m(2) by (auto simp: well_typed_def)
  have "every_node (well_typed E LL L) (subs ! i)" if "i < length subs" for i
    using every_node_child [OF m(1)] m(2) that by simp
  then show ?thesis
    using assms k by (auto simp: step_thresh_def intro!: pop_bool_ok ns_okI)
qed

lemma multi_try_ok:
  assumes "every_node (well_typed E LL L) ms" "slot_ok (node ms) (ne + 1)" "list_all (ns_ok E LL L) st" "stack_ok s"
  shows "outcome_ok E LL L (multi_try L ms pk ne ns st s)"
  using assms evaluate_ok(3) [OF assms(4), of L pk]
  by (auto simp: multi_try_def ns_ok_def split: ev.splits)

lemma step_multi_ok:
  assumes m: "every_node (well_typed E LL L) ms" "node ms = Multi k subs" "ne \<le> length subs"
    and "list_all (ns_ok E LL L) st" "stack_ok s"
  shows "outcome_ok E LL L (step_multi L ms k subs ne ns st s)"
proof -
  have "0 < k" "k \<le> length subs"
    using every_node_root [OF m(1)] m(2) by (auto simp: well_typed_def)
  moreover have "list_all push_ok (drop (k + 1) s)"
    using assms(5) by (auto simp: list_all_iff dest: in_set_dropD)
  ultimately show ?thesis
    using assms by (auto simp: step_multi_def intro!: multi_try_ok split: list.splits element.splits)
qed

lemma step_multi_a_ok:
  assumes m: "every_node (well_typed E LL L) ms" "node ms = MultiA k subs" "ne \<le> length subs"
    and "list_all (ns_ok E LL L) st" "stack_ok s"
  shows "outcome_ok E LL L (step_multi_a L ms k subs ne ns st s)"
  using assms evaluate_ok(1) [OF assms(5), of L "subs ! ne"]
  by (auto simp: step_multi_a_def ns_ok_def split: ev.splits list.splits)

lemma step_ok:
  assumes "ns_ok E LL L x" "list_all (ns_ok E LL L) st" "stack_ok s"
  shows "outcome_ok E LL L (step L c x st s)"
proof -
  obtain ms ne ns where x: "x = NS ms ne ns" by (cases x) simp
  have ms: "every_node (well_typed E LL L) ms" and slot: "slot_ok (node ms) ne"
    using assms(1) by (simp_all add: x ns_ok_def)
  have kids: "list_all (every_node (well_typed E LL L)) (children (node ms))"
    using every_node_child [OF ms] by (simp add: list_all_iff)
  show ?thesis
  proof (cases "node ms")
    case (Thresh k subs)
    then show ?thesis using step_thresh_ok [OF ms Thresh] assms slot by (simp add: x step_def)
  next
    case (Multi k subs)
    then show ?thesis using step_multi_ok [OF ms Multi] assms slot by (simp add: x step_def)
  next
    case (MultiA k subs)
    then show ?thesis using step_multi_a_ok [OF ms MultiA] assms slot by (simp add: x step_def)
  next
    case (ExtT e)
    obtain r s' where "ext_evaluate L e s = Some (r, s')" "stack_ok s'"
      using every_node_root [OF ms] ExtT assms(3) by (auto simp: well_typed_def ext_eval_ok_def)
    then show ?thesis using ExtT assms by (auto simp: x step_def split: sum.splits bool.splits)
  qed (use assms(2,3) ms kids in \<open>auto simp: x step_def evaluate_sha256_def evaluate_hash256_def evaluate_hash160_def
      evaluate_ripemd160_def evaluate_ok ns_ok_def intro!: finish_ok pop_bool_ok split: list.splits element.splits\<close>)
qed

section \<open>The whole iteration\<close>

definition iter_ok :: "('e, 'z) extension_scheme \<Rightarrow> lock_lib \<Rightarrow> 'e interp_lib \<Rightarrow> 'e iter \<Rightarrow> bool" where
  "iter_ok E LL L it \<longleftrightarrow> list_all (ns_ok E LL L) (state it) \<and> stack_ok (istack it) \<and> cov it = None"

lemma eval_loop_ok:
  assumes "list_all (ns_ok E LL L) st" "stack_ok s"
  shows "case eval_loop L c st s of
      LoopPanic \<Rightarrow> False
    | LoopYield _ st' s' \<Rightarrow> list_all (ns_ok E LL L) st' \<and> stack_ok s'
    | LoopFail _ \<Rightarrow> True
    | LoopEmpty s' \<Rightarrow> stack_ok s'"
  using assms
proof (induction L c st s rule: eval_loop.induct)
  case (2 L c x st s)
  then have "outcome_ok E LL L (step L c x st s)" by (intro step_ok) simp_all
  then show ?case using 2 by (cases "step L c x st s") simp_all
qed simp

lemma iter_finish_ok:
  assumes "iter_ok E LL L it"
  shows "\<exists>res it'. iter_finish L it = Some (res, it') \<and> iter_ok E LL L it'"
  using assms
  by (auto simp: iter_finish_def iter_ok_def stack_ok_tl verify_sersig_total
      split: option.splits list.splits element.splits sum.splits)

lemma iter_step_ok:
  assumes "iter_ok E LL L it"
  shows "\<exists>res it'. iter_step L c it = Some (res, it') \<and> iter_ok E LL L it'"
proof (cases "has_errored it")
  case False
  have "\<exists>res it'. iter_next L c it = Some (res, it') \<and> iter_ok E LL L it'"
    using assms eval_loop_ok [of E LL L "state it" "istack it" c]
      iter_finish_ok [of E LL L "it\<lparr>state := [], istack := s\<rparr>" for s]
    by (auto simp: iter_next_def iter_ok_def split: loop_end.splits)
  then obtain res it' where n: "iter_next L c it = Some (res, it')" "iter_ok E LL L it'" by blast
  then show ?thesis
    using False by (cases res; cases "the res") (auto simp: iter_step_def iter_ok_def)
qed (use assms in \<open>simp add: iter_step_def\<close>)

lemma items_total:
  assumes "iter_ok E LL L it"
  shows "\<exists>is. items L c it = Some is"
  using assms
proof (induction "iter_work it" arbitrary: it rule: less_induct)
  case less
  obtain res it' where s: "iter_step L c it = Some (res, it')" "iter_ok E LL L it'"
    using iter_step_ok [OF less.prems] by blast
  show ?case
  proof (cases res)
    case (Some i)
    then have "iter_work it' < iter_work it" using s iter_step_work by blast
    then obtain "is" where "items L c it' = Some is" using less.hyps s(2) by blast
    then show ?thesis using s Some by (subst items.simps) simp
  qed (use s in \<open>subst items.simps, simp\<close>)
qed

lemma element_from_ok: "push_ok (element_from x)"
  by (auto simp: element_from_def)

lemma wf_well_typed: "ms_wf E LL st m \<Longrightarrow> every_node (ext_eval_ok L) m \<Longrightarrow> every_node (well_typed E LL L) m"
proof -
  assume "ms_wf E LL st m" "every_node (ext_eval_ok L) m"
  then have "every_node (\<lambda>m. node_wf E LL st m \<and> ext_eval_ok L m) m" by (simp add: ms_wf_def every_node_conj)
  then show ?thesis by (rule every_node_mono [rotated]) (simp add: well_typed_def node_wf_iff)
qed

lemma script_iter_ok: "ms_wf E LL st m \<Longrightarrow> every_node (ext_eval_ok L) m \<Longrightarrow> iter_ok E LL L (script_iter m w)"
  using wf_well_typed by (auto simp: iter_ok_def script_iter_def list_all_iff element_from_ok ns_ok_def)

lemma pubkey_iter_ok: "iter_ok E LL L (pubkey_iter pk w)"
  by (auto simp: iter_ok_def pubkey_iter_def list_all_iff element_from_ok)

text \<open>The iteration is short: at most one item per unit of work.\<close>

lemma items_bound: "items L c it = Some is \<Longrightarrow> length is \<le> iter_work it"
proof (induction "iter_work it" arbitrary: it "is" rule: less_induct)
  case less
  show ?case
  proof (cases "iter_step L c it")
    case (Some r)
    obtain res it' where r: "r = (res, it')" by fastforce
    show ?thesis
    proof (cases res)
      case (Some i)
      then have w: "iter_work it' < iter_work it" using \<open>iter_step L c it = Some r\<close> r iter_step_work by blast
      obtain is' where "items L c it' = Some is'" "is = i # is'"
        using less.prems \<open>iter_step L c it = Some r\<close> r Some by (subst (asm) items.simps) auto
      then show ?thesis using less.hyps [OF w] w by auto
    qed (use less.prems \<open>iter_step L c it = Some r\<close> r in \<open>subst (asm) items.simps, simp\<close>)
  qed (use less.prems in \<open>subst (asm) items.simps, simp\<close>)
qed

section \<open>Covenants\<close>

text \<open>
  The iterator of a covenant panics in one case: the script leaves true on twelve pushes, and the
  second of these, the sighash type, is not four bytes long.
\<close>

definition malformed_sighash :: "istack \<Rightarrow> bool" where
  "malformed_sighash s \<longleftrightarrow>
     length s = 12 \<and> list_all (\<lambda>el. case el of Push _ \<Rightarrow> True | _ \<Rightarrow> False) s \<and> length (into_slice (rev s ! 1)) \<noteq> 4"

lemma items_errored: "has_errored it \<Longrightarrow> items L c it = Some []"
  by (simp add: items.simps [of L c it] iter_step_def)

lemma cov_verify_total: "\<exists>r. verify_sersig L (Fullkey pk) (x @ [y]) = Some r \<and> (\<forall>k sg. r \<noteq> Inr (SchnorrPair k sg))"
  using verify_sersig_total [of "x @ [y]" L "Fullkey pk"]
  by (auto simp: verify_sersig_def bind_res_Inr Let_def split: if_splits)

lemma cov_finish_None:
  "cov_finish L (Fullkey pk) it = None \<longleftrightarrow> (\<exists>s. istack it = Satisfied # s \<and> malformed_sighash s)"
proof (cases "\<exists>s. istack it = Satisfied # s \<and> length s = 12 \<and> list_all (\<lambda>el. case el of Push _ \<Rightarrow> True | _ \<Rightarrow> False) s")
  case True
  then obtain s where s: "istack it = Satisfied # s" "length s = 12" "list_all (\<lambda>el. case el of Push _ \<Rightarrow> True | _ \<Rightarrow> False) s"
    by blast
  then have e: "\<not> list_ex (\<lambda>el. case el of Push _ \<Rightarrow> False | _ \<Rightarrow> True) s"
    by (auto simp: list_ex_iff list_all_iff split: element.splits)
  have one: "map into_slice (rev s) ! 1 = into_slice (rev s ! 1)" using s(2) by (intro nth_map) simp
  show ?thesis
  proof (cases "length (into_slice (rev s ! 1)) = 4")
    case True
    obtain r where r: "verify_sersig L (Fullkey pk) (map into_slice (rev s) ! 0 @ [sighash_from_u32 L (the (slice_to_u32_le (into_slice (rev s ! 1))))]) = Some r"
        "\<forall>k sg. r \<noteq> Inr (SchnorrPair k sg)"
      using cov_verify_total by blast
    obtain n where "slice_to_u32_le (into_slice (rev s ! 1)) = Some n" using True by (simp add: slice_to_u32_le_def)
    then show ?thesis using s e one True r
      by (auto simp: cov_finish_def malformed_sighash_def Let_def split: sum.splits key_sig_pair.splits)
  next
    case False
    then show ?thesis using s e one by (simp add: cov_finish_def malformed_sighash_def slice_to_u32_le_def Let_def)
  qed
next
  case False
  have "list_ex (\<lambda>el. case el of Push _ \<Rightarrow> False | _ \<Rightarrow> True) s" if "istack it = Satisfied # s" "length s = 12" for s
    using False that by (auto simp: list_ex_iff list_all_iff split: element.splits)
  then show ?thesis using False
    by (auto simp: cov_finish_def malformed_sighash_def Let_def split: list.splits element.splits)
qed

lemma cov_finish_Some:
  assumes "cov_finish L pk it = Some (res, it')" "state it = []" "public_key it = None" "\<not> has_errored it"
  shows "(\<exists>e. res = Some (Inl e)) \<or> (\<exists>k. res = Some (Inr k) \<and> items L c it' = Some [])"
  using assms
  by (auto simp: cov_finish_def Let_def items.simps [of L c it'] iter_step_def iter_next_def iter_finish_def
      split: list.splits element.splits if_splits sum.splits key_sig_pair.splits bind_splits)

lemma eval_loop_reaches:
  "eval_loop L c st s = LoopEmpty s' \<Longrightarrow> reaches L c st s [] s'"
  "eval_loop L c st s = LoopYield k st' s' \<Longrightarrow> reaches L c st s st' s'"
  by (induction L c st s rule: eval_loop.induct)
    (auto intro: reaches_step reaches_continue reaches_yield split: outcome.splits)

lemma loop_reaches_iff:
  "reaches L c st s [] x \<longleftrightarrow>
     (case eval_loop L c st s of LoopEmpty s' \<Rightarrow> x = s' | LoopYield k st' s' \<Rightarrow> reaches L c st' s' [] x | _ \<Rightarrow> False)"
proof
  assume "reaches L c st s [] x"
  then obtain ks where "runs L c st s ks [] x" by (auto simp: reaches_def)
  from runs_eval_loop [OF this refl]
  show "case eval_loop L c st s of LoopEmpty s' \<Rightarrow> x = s' | LoopYield k st' s' \<Rightarrow> reaches L c st' s' [] x | _ \<Rightarrow> False"
    by (auto simp: reaches_def split: list.splits)
next
  assume "case eval_loop L c st s of LoopEmpty s' \<Rightarrow> x = s' | LoopYield k st' s' \<Rightarrow> reaches L c st' s' [] x | _ \<Rightarrow> False"
  then show "reaches L c st s [] x"
    by (auto split: loop_end.splits intro: eval_loop_reaches reaches_trans)
qed

lemma cov_items_None:
  assumes "list_all (ns_ok E LL L) st" "stack_ok s"
  shows "items L c \<lparr>public_key = None, cov = Some (Fullkey pk), state = st, istack = s, has_errored = False\<rparr> = None \<longleftrightarrow>
    (\<exists>x. reaches L c st s [] (Satisfied # x) \<and> malformed_sighash x)"
  using assms
proof (induction "total_work st" arbitrary: st s rule: less_induct)
  case less
  let ?it = "\<lambda>st s. \<lparr>public_key = None, cov = Some (Fullkey pk), state = st, istack = s, has_errored = False\<rparr>"
  note unfold = items.simps [of L c "?it st s"]
  note ok = eval_loop_ok [OF less.prems, of c]
  show ?case
  proof (cases "eval_loop L c st s")
    case (LoopYield k st' s')
    then have "items L c (?it st s) = map_option (\<lambda>is. Inr k # is) (items L c (?it st' s'))"
      by (simp add: unfold iter_step_def iter_next_def)
    moreover have "total_work st' < total_work st" using LoopYield by (rule eval_loop_work)
    ultimately show ?thesis using less.hyps [of st' s'] ok LoopYield by (simp add: loop_reaches_iff [of L c st s])
  next
    case (LoopFail e)
    then have "iter_step L c (?it st s) = Some (Some (Inl e), (?it st s)\<lparr>has_errored := True\<rparr>)"
      by (simp add: iter_step_def iter_next_def)
    then show ?thesis using LoopFail unfold by (simp add: loop_reaches_iff [of L c st s] items_errored)
  next
    case (LoopEmpty s')
    let ?e = "(?it st s)\<lparr>state := [], istack := s'\<rparr>"
    have step: "iter_next L c (?it st s) = cov_finish L (Fullkey pk) ?e" using LoopEmpty by (simp add: iter_next_def iter_finish_def)
    have "items L c (?it st s) = None \<longleftrightarrow> cov_finish L (Fullkey pk) ?e = None"
    proof (cases "cov_finish L (Fullkey pk) ?e")
      case (Some r)
      obtain res it' where r: "r = (res, it')" by (cases r)
      from cov_finish_Some [OF Some [unfolded r], of c]
      consider e where "res = Some (Inl e)" | k where "res = Some (Inr k)" "items L c it' = Some []" by auto
      then show ?thesis
        using Some r step by cases (simp_all add: unfold iter_step_def items_errored)
    qed (simp add: unfold iter_step_def step)
    then show ?thesis using LoopEmpty by (auto simp: loop_reaches_iff [of L c st s] cov_finish_None)
  qed (use ok in simp)
qed

lemma cov_iter_None:
  assumes "ms_wf E LL st m" "every_node (ext_eval_ok L) m"
  shows "items L c (cov_iter (Fullkey pk) m w) = None \<longleftrightarrow>
    (\<exists>s. reaches L c [NS m 0 0] (rev (map element_from w)) [] (Satisfied # s) \<and> malformed_sighash s)"
  unfolding cov_iter_def
  by (rule cov_items_None) (use wf_well_typed [OF assms] in \<open>auto simp: ns_ok_def list_all_iff element_from_ok\<close>)

end
