(* ===== verification/Timelocks.thy ===== *)
theory Timelocks
  imports Interpreter Types_ExtData "HOL-Library.Multiset"
begin

text \<open>
  Time locks across the components: the mixing analysis of \<open>TimelockInfo\<close> characterised
  without its fold, and the lock time tests of the satisfier (\<open>satisfy.rs\<close>) against those of
  the interpreter (\<open>interpreter/stack.rs\<close>).
\<close>

section \<open>Mixed time locks\<close>

lemma height_and_time_sym: "height_and_time a b = height_and_time b a"
  by (auto simp: height_and_time_def)

lemma combine_fold:
  "foldl (combine_step k) acc ts =
     \<lparr>csv_with_height = csv_with_height acc \<or> (\<exists>t\<in>set ts. csv_with_height t),
      csv_with_time = csv_with_time acc \<or> (\<exists>t\<in>set ts. csv_with_time t),
      cltv_with_height = cltv_with_height acc \<or> (\<exists>t\<in>set ts. cltv_with_height t),
      cltv_with_time = cltv_with_time acc \<or> (\<exists>t\<in>set ts. cltv_with_time t),
      contains_combination = contains_combination acc \<or> (\<exists>t\<in>set ts. contains_combination t)
        \<or> (k > 1 \<and> ((\<exists>t\<in>set ts. height_and_time acc t)
             \<or> (\<exists>i j. i < j \<and> j < length ts \<and> height_and_time (ts ! i) (ts ! j))))\<rparr>"
proof (induction ts arbitrary: acc)
  case (Cons t ts)
  have split: "(\<exists>i j. i < j \<and> j < length (t # ts) \<and> height_and_time ((t # ts) ! i) ((t # ts) ! j)) \<longleftrightarrow>
      (\<exists>u\<in>set ts. height_and_time t u) \<or> (\<exists>i j. i < j \<and> j < length ts \<and> height_and_time (ts ! i) (ts ! j))"
    (is "?L \<longleftrightarrow> ?A \<or> ?B")
  proof
    assume ?L
    then obtain i j where ij: "i < j" "j < length (t # ts)" "height_and_time ((t # ts) ! i) ((t # ts) ! j)" by blast
    then obtain j' where j: "j = Suc j'" "j' < length ts" by (cases j) auto
    show "?A \<or> ?B"
      using ij j by (cases i) (auto intro: bexI [of _ "ts ! j'"])
  next
    assume "?A \<or> ?B"
    then show ?L
    proof
      assume ?A
      then obtain j where "j < length ts" "height_and_time t (ts ! j)" by (auto simp: in_set_conv_nth)
      then show ?L by (intro exI [of _ 0] exI [of _ "Suc j"]) simp
    next
      assume ?B
      then obtain i j where "i < j" "j < length ts" "height_and_time (ts ! i) (ts ! j)" by blast
      then show ?L by (intro exI [of _ "Suc i"] exI [of _ "Suc j"]) simp
    qed
  qed
  have step: "height_and_time (combine_step k acc t) u \<longleftrightarrow> height_and_time acc u \<or> height_and_time t u" for u
    by (auto simp: combine_step_def height_and_time_def)
  show ?case
    unfolding foldl_Cons Cons.IH step split by (auto simp: combine_step_def)
qed (simp add: combine_step_def)

text \<open>The fold in closed form: a node mixes time locks iff a child does, or two of its children conflict.\<close>

lemma combine_threshold_eq:
  "combine_threshold k ts =
     \<lparr>csv_with_height = (\<exists>t\<in>set ts. csv_with_height t), csv_with_time = (\<exists>t\<in>set ts. csv_with_time t),
      cltv_with_height = (\<exists>t\<in>set ts. cltv_with_height t), cltv_with_time = (\<exists>t\<in>set ts. cltv_with_time t),
      contains_combination = (\<exists>t\<in>set ts. contains_combination t)
        \<or> (k > 1 \<and> (\<exists>i j. i < j \<and> j < length ts \<and> height_and_time (ts ! i) (ts ! j)))\<rparr>"
  unfolding combine_threshold_def combine_fold
  by (simp add: timelock_default_def height_and_time_def)

lemma combine_step_comm: "combine_step k (combine_step k acc s) t = combine_step k (combine_step k acc t) s"
  by (auto simp: combine_step_def height_and_time_def)

lemma combine_threshold_perm:
  assumes "mset ts = mset us"
  shows "combine_threshold k ts = combine_threshold k us"
proof -
  have "fold (\<lambda>t acc. combine_step k acc t) ts timelock_default = fold (\<lambda>t acc. combine_step k acc t) us timelock_default"
    using assms by (intro fold_multiset_equiv [THEN fun_cong]) (auto simp: combine_step_comm fun_eq_iff)
  then show ?thesis by (simp add: combine_threshold_def foldl_conv_fold)
qed

section \<open>The satisfier's lock time tests and the interpreter's\<close>

lemma after_agrees:
  "lock_time_check_after (lock_is_blocks L) lt n \<longleftrightarrow>
     evaluate_after L n lt s = EvOk (SC_AbsoluteTimelock n) (Satisfied # s)"
  by (auto simp: lock_time_check_after_def evaluate_after_def split: bool.splits)

unbundle bit_operations_syntax

abbreviation older_mask :: u32 where
  "older_mask \<equiv> SEQUENCE_LOCKTIME_MASK OR SEQUENCE_LOCKTIME_TYPE_FLAG"

lemma older_agrees:
  assumes "sequence_check_older rel seq n" "n AND older_mask = n"
  shows "evaluate_older n seq s = EvOk (SC_RelativeTimelock n) (Satisfied # s)"
proof -
  have "n \<le> seq AND older_mask"
    using assms by (auto simp: sequence_check_older_def Let_def split: if_splits)
  also have "\<dots> \<le> seq" by (rule word_and_le2)
  finally show ?thesis by (simp add: evaluate_older_def)
qed

end
