(* ===== verification/Demo.thy ===== *)
theory Demo
  imports Soundness Signatures Interp_Safety Timelocks
begin

text \<open>
  Concrete instances of the parameters: a small script, a satisfier and an interpreter
  library for it. They show that the hypotheses of the general theorems can be met.
\<close>

definition demo_lock :: lock_lib where
  "demo_lock = \<lparr>is_block_height = (\<lambda>t. t < 500000000), is_block_time = (\<lambda>t. t \<ge> 500000000),
     is_relative_lock_time = (\<lambda>t. t < 0x80000000), is_height_locked = (\<lambda>t. t < 0x400000),
     is_time_locked = (\<lambda>t. t \<ge> 0x400000)\<rparr>"

definition no_ext :: "unit extension" where
  "no_ext = \<lparr>corr_prop = (\<lambda>_. corr_from_true), mall_prop = (\<lambda>_. mall_from_true), extra_prop = (\<lambda>_. ext_from_true)\<rparr>"

text \<open>The node for a fragment, with the type and the data the checkers compute for it.\<close>

definition mk :: "('pk, 'h, unit) terminal \<Rightarrow> ('pk, 'h, unit) miniscript" where
  "mk t = Miniscript t
     (case type_rule no_ext demo_lock t of Inr p \<Rightarrow> p | Inl _ \<Rightarrow> ty_from_false)
     (case ext_rule no_ext demo_lock Ecdsa t of Some (Inr x) \<Rightarrow> x | _ \<Rightarrow> ext_from_false)"

lemma node_mk [simp]: "node (mk t) = t"
  by (simp add: mk_def)

lemma every_node_mk: "every_node Q (mk t) \<longleftrightarrow> Q (mk t) \<and> list_all (every_node Q) (children t)"
  by (simp add: every_node_def [of Q "mk t"] every_child_iff list_all_iff)

section \<open>A script with a threshold, a hash and a time lock\<close>

definition key_A :: bitcoin_key where "key_A = Fullkey [2, 10]"
definition key_B :: bitcoin_key where "key_B = Fullkey [3, 11]"
definition demo_hash :: bytes where "demo_hash = replicate 32 7"

text \<open>\<open>and_v(v:thresh(2,pk(A),s:pk(B),a:sha256(H)),older(10))\<close>.\<close>

definition demo_pk :: "bitcoin_key \<Rightarrow> unit interp_ms" where
  "demo_pk k = mk (Check (mk (PkK k)))"

definition demo_thresh :: "unit interp_ms" where
  "demo_thresh = mk (Thresh 2 [demo_pk key_A, mk (Swap (demo_pk key_B)), mk (Alt (mk (Sha256 demo_hash)))])"

definition demo_ms :: "unit interp_ms" where
  "demo_ms = mk (AndV (mk (Verify demo_thresh)) (mk (Older 10)))"

lemma demo_wf: "ms_wf no_ext demo_lock Ecdsa demo_ms"
  by code_simp

lemma demo_B: "base (corr (ty demo_ms)) = Base_B"
  by code_simp

text \<open>
  A library in which a key's signature is the key after a tag byte and hashing is the identity
  (no byte string of 32 zeros is a hash used below), and a satisfier that knows the signature
  of \<open>A\<close>, the preimage and the age.
\<close>

definition demo_lib :: "unit interp_lib" where
  "demo_lib = \<lparr>verify_sig = (\<lambda>p. case p of EcdsaPair pk sig \<Rightarrow> fst sig = 48 # pk | SchnorrPair pk sig \<Rightarrow> sig = 48 # pk),
     sig_from_der = Some, sighash_from_u32 = ucast, schnorr_from_slice = Some,
     fullkey_from_slice = Some, xonly_from_slice = Some,
     key_pubkeyhash = (\<lambda>_ k. case k of Fullkey b \<Rightarrow> b | XOnlyPublicKey b \<Rightarrow> b),
     hash_sha256 = id, hash_hash256 = id, hash_ripemd160 = id, hash_hash160 = id,
     lock_is_blocks = (\<lambda>n. n < 500000000), ext_evaluate = (\<lambda>_ s. Some (Inr False, s)), cov_verify = (\<lambda>_ _ _. True)\<rparr>"

definition demo_ctx :: interp_ctx where
  "demo_ctx = \<lparr>age = 20, lock_time = 0, isig_type = Ecdsa\<rparr>"

definition demo_stfr :: "(bitcoin_key, bytes) satisfier" where
  "demo_stfr = empty_satisfier\<lparr>
     lookup_ecdsa_sig := (\<lambda>k. if k = key_A then Some ([48, 2, 10], 1) else None),
     lookup_sha256 := (\<lambda>h. if h = demo_hash then Some demo_hash else None),
     check_older := (\<lambda>n. n \<le> 20)\<rparr>"

definition demo_env :: "(bitcoin_key, bytes, unit) sat_env" where
  "demo_env = \<lparr>env_sig_type = Ecdsa, env_pk_bytes = (\<lambda>k. case k of Fullkey b \<Rightarrow> b | XOnlyPublicKey b \<Rightarrow> b),
     env_x_only_bytes = (\<lambda>k. case k of Fullkey b \<Rightarrow> b | XOnlyPublicKey b \<Rightarrow> b),
     env_varint = (\<lambda>n. if n < 253 then 1 else 3), env_stfr = demo_stfr, env_root_has_sig = False,
     env_leaf_hash = [], env_ext_satisfy = (\<lambda>_ _. Some satisfaction_impossible),
     env_ext_dissatisfy = (\<lambda>_ _. Some satisfaction_impossible)\<rparr>"

definition demo_run_env :: "(bitcoin_key, bytes, unit) sat_env" where
  "demo_run_env = demo_env\<lparr>env_root_has_sig := safe (mall (ty demo_ms)), env_leaf_hash := []\<rparr>"

definition demo_witness :: "bytes list" where
  "demo_witness = [demo_hash, [], [48, 2, 10, 1]]"

lemma demo_satisfy:
  "ms_satisfy demo_env [] (\<lambda>_. Inr ()) demo_ms = Some (Inr demo_witness :: unit satisfy_error + bytes list)"
  by code_simp

lemma demo_satisfy_malleable:
  "ms_satisfy_malleable demo_env [] (\<lambda>_. Inr ()) demo_ms = Some (Inr demo_witness :: unit satisfy_error + bytes list)"
  by code_simp

lemma demo_sound: "every_node (leaf_sound demo_run_env demo_lib demo_ctx) demo_ms"
  by (simp add: every_node_mk demo_ms_def demo_thresh_def demo_pk_def leaf_sound_def sig_of_def
      wit_signature_def demo_run_env_def demo_env_def demo_stfr_def demo_lib_def demo_ctx_def empty_satisfier_def
      hash_leaf_ok_def demo_hash_def elementssig_to_rawsig_def usable_sig_def verifies_def verify_sersig_def
      elementssig_from_rawsig_def element_from_def key_A_def key_B_def)

lemma demo_dissat: "every_node (env_dissat_ok demo_run_env) demo_ms"
  by (simp add: every_node_mk demo_ms_def demo_thresh_def demo_pk_def env_dissat_ok_def)

end
