(* ===== verification/Traversal.thy ===== *)
theory Traversal
  imports Ast
begin

text \<open>
  Traversal of the syntax tree: the node iterator \<open>Iter\<close>, the key iterator \<open>PkIter\<close>
  (\<open>miniscript/iter.rs\<close>) and \<open>for_each_key\<close> (\<open>miniscript/astelem.rs\<close>). Both iterators refine the list
  of what they still have to yield; \<open>for_each_key\<close> visits the same keys in the same order.
\<close>

section \<open>Children and keys of a node\<close>

definition branches :: "('pk, 'h, 'e) miniscript \<Rightarrow> ('pk, 'h, 'e) miniscript list" where
  "branches ms =
     (case node ms of
        PkK _ \<Rightarrow> [] | PkH _ \<Rightarrow> [] | RawPkH _ \<Rightarrow> [] | Multi _ _ \<Rightarrow> []
      | Alt a \<Rightarrow> [a] | Swap a \<Rightarrow> [a] | Check a \<Rightarrow> [a] | DupIf a \<Rightarrow> [a] | Verify a \<Rightarrow> [a] | NonZero a \<Rightarrow> [a]
      | ZeroNotEqual a \<Rightarrow> [a]
      | AndV a b \<Rightarrow> [a, b] | AndB a b \<Rightarrow> [a, b] | OrB a b \<Rightarrow> [a, b] | OrD a b \<Rightarrow> [a, b] | OrC a b \<Rightarrow> [a, b]
      | OrI a b \<Rightarrow> [a, b]
      | AndOr a b c \<Rightarrow> [a, b, c]
      | Thresh _ subs \<Rightarrow> subs
      | _ \<Rightarrow> [])"

definition vec_get :: "'a list \<Rightarrow> nat \<Rightarrow> 'a option" where
  "vec_get xs n = (if n < length xs then Some (xs ! n) else None)"

definition get_nth_child :: "('pk, 'h, 'e) miniscript \<Rightarrow> nat \<Rightarrow> ('pk, 'h, 'e) miniscript option" where
  "get_nth_child ms n =
     (case node ms of
        Alt a \<Rightarrow> if n = 0 then Some a else None
      | Swap a \<Rightarrow> if n = 0 then Some a else None
      | Check a \<Rightarrow> if n = 0 then Some a else None
      | DupIf a \<Rightarrow> if n = 0 then Some a else None
      | Verify a \<Rightarrow> if n = 0 then Some a else None
      | NonZero a \<Rightarrow> if n = 0 then Some a else None
      | ZeroNotEqual a \<Rightarrow> if n = 0 then Some a else None
      | AndV a b \<Rightarrow> if n = 0 then Some a else if n = 1 then Some b else None
      | AndB a b \<Rightarrow> if n = 0 then Some a else if n = 1 then Some b else None
      | OrB a b \<Rightarrow> if n = 0 then Some a else if n = 1 then Some b else None
      | OrD a b \<Rightarrow> if n = 0 then Some a else if n = 1 then Some b else None
      | OrC a b \<Rightarrow> if n = 0 then Some a else if n = 1 then Some b else None
      | OrI a b \<Rightarrow> if n = 0 then Some a else if n = 1 then Some b else None
      | AndOr a b c \<Rightarrow> if n = 0 then Some a else if n = 1 then Some b else if n = 2 then Some c else None
      | Thresh _ subs \<Rightarrow> vec_get subs n
      | _ \<Rightarrow> None)"

definition get_nth_pk :: "('pk, 'h, 'e) miniscript \<Rightarrow> nat \<Rightarrow> 'pk option" where
  "get_nth_pk ms n =
     (case node ms of
        PkK key \<Rightarrow> if n = 0 then Some key else None
      | PkH key \<Rightarrow> if n = 0 then Some key else None
      | Multi _ keys \<Rightarrow> vec_get keys n
      | MultiA _ keys \<Rightarrow> vec_get keys n
      | _ \<Rightarrow> None)"

fun terminal_keys :: "('pk, 'h, 'e) terminal \<Rightarrow> 'pk list" where
  "terminal_keys (PkK key) = [key]"
| "terminal_keys (PkH key) = [key]"
| "terminal_keys (Multi k keys) = keys"
| "terminal_keys (MultiA k keys) = keys"
| "terminal_keys _ = []"

lemma branches_children: "branches ms = children (node ms)"
  by (simp add: branches_def split: terminal.split)

lemma get_nth_child_eq: "get_nth_child ms n = vec_get (children (node ms)) n"
  by (cases "node ms") (auto simp: get_nth_child_def vec_get_def less_Suc_eq)

lemma get_nth_pk_eq: "get_nth_pk ms n = vec_get (terminal_keys (node ms)) n"
  by (cases "node ms") (auto simp: get_nth_pk_def vec_get_def)

lemma vec_get_drop:
  "vec_get xs n = Some x \<Longrightarrow> drop n xs = x # drop (Suc n) xs"
  "vec_get xs n = None \<Longrightarrow> drop n xs = []"
  by (auto simp: vec_get_def Cons_nth_drop_Suc split: if_splits)

section \<open>The node iterator\<close>

text \<open>The vector \<open>path\<close> is a stack with its top first.\<close>

record ('pk, 'h, 'e) node_iter =
  next_node :: "('pk, 'h, 'e) miniscript option"
  path :: "(('pk, 'h, 'e) miniscript \<times> nat) list"

definition iter_new :: "('pk, 'h, 'e) miniscript \<Rightarrow> ('pk, 'h, 'e) node_iter" where
  "iter_new ms = \<lparr>next_node = Some ms, path = []\<rparr>"

text \<open>The \<open>while let\<close> loop of \<open>Iter::next\<close>: climb until a node has a branch left.\<close>

fun climb :: "(('pk, 'h, 'e) miniscript \<times> nat) list \<Rightarrow>
    ('pk, 'h, 'e) miniscript option \<times> (('pk, 'h, 'e) miniscript \<times> nat) list" where
  "climb [] = (None, [])"
| "climb ((n, child) # p) =
     (case get_nth_child n child of
        None \<Rightarrow> climb p
      | Some c \<Rightarrow> (Some c, (n, child + 1) # p))"

definition node_next :: "('pk, 'h, 'e) node_iter \<Rightarrow> ('pk, 'h, 'e) miniscript option \<times> ('pk, 'h, 'e) node_iter" where
  "node_next it =
     (let (cur, p) = (if next_node it = None then climb (path it) else (next_node it, path it))
      in case cur of
           None \<Rightarrow> (None, it\<lparr>path := p\<rparr>)
         | Some n \<Rightarrow> (Some n, \<lparr>next_node = get_nth_child n 0, path = (n, 1) # p\<rparr>))"

text \<open>The abstract traversal: a node before its children, the children from left to right.\<close>

fun preorder_below :: "('pk, 'h, 'e) terminal \<Rightarrow> ('pk, 'h, 'e) miniscript list" where
  "preorder_below t = concat (map (\<lambda>c. c # preorder_below (node c)) (children t))"

declare preorder_below.simps [simp del]

definition preorder :: "('pk, 'h, 'e) miniscript \<Rightarrow> ('pk, 'h, 'e) miniscript list" where
  "preorder ms = ms # preorder_below (node ms)"

lemma preorder_eq: "preorder ms = ms # concat (map preorder (children (node ms)))"
  by (simp add: preorder_def preorder_below.simps [of "node ms"] o_def cong: map_cong)

text \<open>What an iterator still has to yield.\<close>

definition pending :: "('pk, 'h, 'e) node_iter \<Rightarrow> ('pk, 'h, 'e) miniscript list" where
  "pending it =
     (case next_node it of None \<Rightarrow> [] | Some m \<Rightarrow> preorder m)
     @ concat (map (\<lambda>(n, i). concat (map preorder (drop i (children (node n))))) (path it))"

lemma pending_new: "pending (iter_new ms) = preorder ms"
  by (simp add: pending_def iter_new_def)

text \<open>The same for a stack of nodes whose current branch has been visited.\<close>

abbreviation pending_path :: "(('pk, 'h, 'e) miniscript \<times> nat) list \<Rightarrow> ('pk, 'h, 'e) miniscript list" where
  "pending_path p \<equiv> concat (map (\<lambda>(n, i). concat (map preorder (drop i (children (node n))))) p)"

lemma pending_descend:
  "pending \<lparr>next_node = get_nth_child n 0, path = (n, 1) # p\<rparr> = tl (preorder n) @ pending_path p"
  by (simp add: pending_def preorder_eq [of n] get_nth_child_eq)
    (cases "children (node n)"; simp add: vec_get_def)

lemma climb_pending:
  "climb p = (cur, p') \<Longrightarrow>
     pending_path p = (case cur of None \<Rightarrow> [] | Some m \<Rightarrow> preorder m) @ pending_path p' \<and> (cur = None \<longrightarrow> p' = [])"
proof (induction p arbitrary: cur p' rule: climb.induct)
  case (2 n child p)
  show ?case
  proof (cases "get_nth_child n child")
    case None
    then show ?thesis using 2 vec_get_drop(2) [of "children (node n)" child] by (simp add: get_nth_child_eq)
  next
    case (Some c)
    then have "drop child (children (node n)) = c # drop (Suc child) (children (node n))"
      by (intro vec_get_drop) (simp add: get_nth_child_eq)
    then show ?thesis using "2.prems" by (auto simp: Some)
  qed
qed simp

lemma node_next_refines:
  "node_next it = (r, it') \<Longrightarrow> (case pending it of [] \<Rightarrow> r = None \<and> pending it' = [] | m # ms \<Rightarrow> r = Some m \<and> pending it' = ms)"
proof -
  assume nxt: "node_next it = (r, it')"
  obtain cur p where cp: "(if next_node it = None then climb (path it) else (next_node it, path it)) = (cur, p)"
    by fastforce
  have "pending it = (case cur of None \<Rightarrow> [] | Some m \<Rightarrow> preorder m) @ pending_path p \<and> (cur = None \<longrightarrow> p = [])"
    using cp climb_pending [of "path it" cur p] by (auto simp: pending_def split: if_splits)
  then show ?thesis
    using nxt cp unfolding node_next_def
    by (cases cur) (auto simp: pending_descend [simplified] preorder_eq pending_def [of "it\<lparr>path := []\<rparr>"] split: if_splits)
qed

text \<open>Collecting an iterator (\<open>iter().collect()\<close>).\<close>

lemma node_next_pending:
  "fst (node_next it) = (case pending it of [] \<Rightarrow> None | m # _ \<Rightarrow> Some m)"
  "pending (snd (node_next it)) = tl (pending it)"
  using node_next_refines [of it "fst (node_next it)" "snd (node_next it)"] by (auto split: list.splits)

function iter_collect :: "('pk, 'h, 'e) node_iter \<Rightarrow> ('pk, 'h, 'e) miniscript list" where
  "iter_collect it = (case node_next it of (None, _) \<Rightarrow> [] | (Some m, it') \<Rightarrow> m # iter_collect it')"
  by pat_completeness auto
termination
proof (relation "measure (\<lambda>it. length (pending it))")
  fix it r it' m
  assume "(r, it') = node_next it" "r = Some m"
  then show "(it', it) \<in> measure (\<lambda>it. length (pending it))"
    using node_next_refines [of it r it'] by (auto split: list.splits)
qed simp

declare iter_collect.simps [simp del]

lemma iter_collect_pending: "iter_collect it = pending it"
proof (induction it rule: iter_collect.induct)
  case (1 it)
  obtain r it' where nxt: "node_next it = (r, it')" by fastforce
  then show ?case
    using 1 [of r it'] node_next_refines [OF nxt]
    by (subst iter_collect.simps) (auto split: option.splits list.splits)
qed

section \<open>The key iterator\<close>

record ('pk, 'h, 'e) pk_iter =
  pk_nodes :: "('pk, 'h, 'e) node_iter"
  curr_node :: "('pk, 'h, 'e) miniscript option"
  key_index :: nat

definition pk_iter_new :: "('pk, 'h, 'e) miniscript \<Rightarrow> ('pk, 'h, 'e) pk_iter" where
  "pk_iter_new ms =
     (let (first, it) = node_next (iter_new ms) in \<lparr>pk_nodes = it, curr_node = first, key_index = 0\<rparr>)"

function pk_next :: "('pk, 'h, 'e) pk_iter \<Rightarrow> 'pk option \<times> ('pk, 'h, 'e) pk_iter" where
  "pk_next st =
     (case curr_node st of
        None \<Rightarrow> (None, st)
      | Some n \<Rightarrow>
          (case get_nth_pk n (key_index st) of
             None \<Rightarrow>
               (let (c, it) = node_next (pk_nodes st)
                in pk_next (st\<lparr>pk_nodes := it, curr_node := c, key_index := 0\<rparr>))
           | Some pk \<Rightarrow> (Some pk, st\<lparr>key_index := key_index st + 1\<rparr>)))"
  by pat_completeness auto
termination
proof (relation "measure (\<lambda>st. case curr_node st of None \<Rightarrow> 0 | Some _ \<Rightarrow> Suc (length (pending (pk_nodes st))))")
  fix st n r c it
  assume "curr_node st = Some n" "r = node_next (pk_nodes st)" "(c, it) = r"
  then show "(st\<lparr>pk_nodes := it, curr_node := c, key_index := 0\<rparr>, st)
    \<in> measure (\<lambda>st. case curr_node st of None \<Rightarrow> 0 | Some _ \<Rightarrow> Suc (length (pending (pk_nodes st))))"
    using node_next_refines [of "pk_nodes st" c it] by (auto split: list.splits option.splits)
qed simp

declare pk_next.simps [simp del]

abbreviation node_keys :: "('pk, 'h, 'e) miniscript \<Rightarrow> 'pk list" where
  "node_keys m \<equiv> terminal_keys (node m)"

definition pk_pending :: "('pk, 'h, 'e) pk_iter \<Rightarrow> 'pk list" where
  "pk_pending st =
     (case curr_node st of
        None \<Rightarrow> []
      | Some n \<Rightarrow> drop (key_index st) (node_keys n) @ concat (map node_keys (pending (pk_nodes st))))"

lemma pk_next_refines:
  "pk_next st = (r, st') \<Longrightarrow> (case pk_pending st of [] \<Rightarrow> r = None \<and> pk_pending st' = [] | pk # pks \<Rightarrow> r = Some pk \<and> pk_pending st' = pks)"
proof (induction st arbitrary: r st' rule: pk_next.induct)
  case (1 st)
  show ?case
  proof (cases "curr_node st")
    case None
    then show ?thesis using "1.prems" by (simp add: pk_next.simps pk_pending_def)
  next
    case (Some n)
    note keys = vec_get_drop [of "node_keys n" "key_index st", folded get_nth_pk_eq]
    show ?thesis
    proof (cases "get_nth_pk n (key_index st)")
      case None
      obtain c it where nxt: "node_next (pk_nodes st) = (c, it)" by fastforce
      define st1 where "st1 = st\<lparr>pk_nodes := it, curr_node := c, key_index := 0\<rparr>"
      have "pk_next st1 = (r, st')"
        using "1.prems" Some None nxt by (simp add: pk_next.simps [of st] st1_def)
      moreover have "pk_pending st1 = pk_pending st"
        using node_next_refines [OF nxt] Some keys(2) [OF None]
        by (auto simp: st1_def pk_pending_def split: list.splits option.splits)
      ultimately show ?thesis
        using "1.IH" [OF Some None refl nxt [symmetric]] by (simp add: st1_def)
    next
      case (Some pk)
      then show ?thesis
        using "1.prems" \<open>curr_node st = Some n\<close> keys(1) [OF Some]
        by (auto simp: pk_next.simps [of st] pk_pending_def)
    qed
  qed
qed

function pk_collect :: "('pk, 'h, 'e) pk_iter \<Rightarrow> 'pk list" where
  "pk_collect st = (case pk_next st of (None, _) \<Rightarrow> [] | (Some pk, st') \<Rightarrow> pk # pk_collect st')"
  by pat_completeness auto
termination
proof (relation "measure (\<lambda>st. length (pk_pending st))")
  fix st r st' pk
  assume "(r, st') = pk_next st" "r = Some pk"
  then show "(st', st) \<in> measure (\<lambda>st. length (pk_pending st))"
    using pk_next_refines [of st r st'] by (auto split: list.splits)
qed simp

declare pk_collect.simps [simp del]

lemma pk_collect_pending: "pk_collect st = pk_pending st"
proof (induction st rule: pk_collect.induct)
  case (1 st)
  obtain r st' where nxt: "pk_next st = (r, st')" by fastforce
  then show ?case
    using 1 [of r st'] pk_next_refines [OF nxt]
    by (subst pk_collect.simps) (auto split: option.splits list.splits)
qed

definition iter_nodes :: "('pk, 'h, 'e) miniscript \<Rightarrow> ('pk, 'h, 'e) miniscript list" where
  "iter_nodes ms = iter_collect (iter_new ms)"

definition iter_pk :: "('pk, 'h, 'e) miniscript \<Rightarrow> 'pk list" where
  "iter_pk ms = pk_collect (pk_iter_new ms)"

lemma iter_nodes_eq: "iter_nodes ms = preorder ms"
  by (simp add: iter_nodes_def iter_collect_pending pending_new)

lemma iter_pk_eq: "iter_pk ms = concat (map node_keys (preorder ms))"
  using node_next_pending [of "iter_new ms"]
  by (simp add: iter_pk_def pk_collect_pending pk_iter_new_def split_beta pk_pending_def pending_new preorder_eq)

section \<open>\<open>for_each_key\<close>\<close>

text \<open>
  The predicate is a \<open>FnMut\<close>: it threads a state. Evaluation stops at the first key it rejects
  (\<open>&&\<close> and \<open>Iterator::all\<close>).
\<close>

fun all_st :: "('a \<Rightarrow> 's \<Rightarrow> bool \<times> 's) \<Rightarrow> 'a list \<Rightarrow> 's \<Rightarrow> bool \<times> 's" where
  "all_st f [] s = (True, s)"
| "all_st f (x # xs) s = (case f x s of (False, s') \<Rightarrow> (False, s') | (True, s') \<Rightarrow> all_st f xs s')"

lemma all_st_cong [fundef_cong]:
  assumes "xs = ys" "\<And>x. x \<in> set ys \<Longrightarrow> f x = g x"
  shows "all_st f xs = all_st g ys"
proof
  show "all_st f xs s = all_st g ys s" for s
    using assms(2) unfolding assms(1) by (induction ys arbitrary: s) (auto split: prod.splits bool.splits)
qed

definition and_st :: "('s \<Rightarrow> bool \<times> 's) \<Rightarrow> ('s \<Rightarrow> bool \<times> 's) \<Rightarrow> 's \<Rightarrow> bool \<times> 's" where
  "and_st f g s = (case f s of (False, s') \<Rightarrow> (False, s') | (True, s') \<Rightarrow> g s')"

fun real_for_each_key :: "('pk \<Rightarrow> 's \<Rightarrow> bool \<times> 's) \<Rightarrow> ('pk, 'h, 'e) terminal \<Rightarrow> 's \<Rightarrow> bool \<times> 's" where
  "real_for_each_key p (PkK key) = p key"
| "real_for_each_key p (PkH key) = p key"
| "real_for_each_key p (Alt a) = real_for_each_key p (node a)"
| "real_for_each_key p (Swap a) = real_for_each_key p (node a)"
| "real_for_each_key p (Check a) = real_for_each_key p (node a)"
| "real_for_each_key p (DupIf a) = real_for_each_key p (node a)"
| "real_for_each_key p (Verify a) = real_for_each_key p (node a)"
| "real_for_each_key p (NonZero a) = real_for_each_key p (node a)"
| "real_for_each_key p (ZeroNotEqual a) = real_for_each_key p (node a)"
| "real_for_each_key p (AndV l r) = and_st (real_for_each_key p (node l)) (real_for_each_key p (node r))"
| "real_for_each_key p (AndB l r) = and_st (real_for_each_key p (node l)) (real_for_each_key p (node r))"
| "real_for_each_key p (OrB l r) = and_st (real_for_each_key p (node l)) (real_for_each_key p (node r))"
| "real_for_each_key p (OrD l r) = and_st (real_for_each_key p (node l)) (real_for_each_key p (node r))"
| "real_for_each_key p (OrC l r) = and_st (real_for_each_key p (node l)) (real_for_each_key p (node r))"
| "real_for_each_key p (OrI l r) = and_st (real_for_each_key p (node l)) (real_for_each_key p (node r))"
| "real_for_each_key p (AndOr a b c) =
     and_st (and_st (real_for_each_key p (node a)) (real_for_each_key p (node b))) (real_for_each_key p (node c))"
| "real_for_each_key p (Thresh k subs) = all_st (\<lambda>sub. real_for_each_key p (node sub)) subs"
| "real_for_each_key p (Multi k keys) = all_st p keys"
| "real_for_each_key p (MultiA k keys) = all_st p keys"
| "real_for_each_key p _ = (\<lambda>s. (True, s))"

lemma all_st_append: "all_st f (xs @ ys) = and_st (all_st f xs) (all_st f ys)"
proof
  show "all_st f (xs @ ys) s = and_st (all_st f xs) (all_st f ys) s" for s
    by (induction xs arbitrary: s) (auto simp: and_st_def split: prod.splits bool.splits)
qed

lemma and_st_simps [simp]:
  "and_st f (\<lambda>s. (True, s)) = f" "and_st (\<lambda>s. (True, s)) f = f"
  by (auto simp: and_st_def fun_eq_iff split: prod.splits bool.splits)

lemma and_st_assoc: "and_st (and_st f g) h = and_st f (and_st g h)"
  by (auto simp: and_st_def fun_eq_iff split: prod.splits bool.splits)

lemma all_st_Nil [simp]: "all_st f [] = (\<lambda>s. (True, s))"
  by auto

lemma all_st_concat:
  "(\<And>x. x \<in> set xs \<Longrightarrow> g x = all_st f (h x)) \<Longrightarrow> all_st g xs = all_st f (concat (map h xs))"
proof (induction xs)
  case (Cons x xs)
  have "all_st g (x # xs) s = and_st (g x) (all_st g xs) s" for s by (simp add: and_st_def)
  then show ?case using Cons by (simp add: all_st_append fun_eq_iff)
qed simp

lemma all_st_single [simp]: "all_st f [x] = f x"
  by (auto simp: fun_eq_iff split: prod.splits bool.splits)

definition keys_of :: "('pk, 'h, 'e) terminal \<Rightarrow> 'pk list" where
  "keys_of t = terminal_keys t @ concat (map node_keys (preorder_below t))"

lemma concat_map_concat: "concat (map f (concat xss)) = concat (map (\<lambda>xs. concat (map f xs)) xss)"
  by (induction xss) auto

lemma keys_of_eq: "keys_of t = terminal_keys t @ concat (map (\<lambda>c. keys_of (node c)) (children t))"
  by (simp add: keys_of_def preorder_below.simps [of t] concat_map_concat o_def)

lemma iter_pk_keys: "iter_pk ms = keys_of (node ms)"
  by (simp add: iter_pk_eq keys_of_def preorder_def)

lemma for_each_key_keys: "real_for_each_key p t = all_st p (keys_of t)"
proof (induction t rule: terminal_children_induct)
  case (step t)
  then show ?case
    by (subst keys_of_eq)
      (cases t; auto simp: all_st_append and_st_assoc intro!: all_st_concat)
qed

end
