(* ===== verification/Translate.thy ===== *)
theory Translate
  imports Traversal
begin

text \<open>
  Translation of keys, hashes and extensions (\<open>Translator\<close> and \<open>ExtTranslator\<close> of \<open>lib.rs\<close>,
  \<open>real_translate_pk\<close> and \<open>real_translate_ext\<close> of \<open>miniscript/astelem.rs\<close> and \<open>miniscript/mod.rs\<close>). A translator
  is a record of functions whose answers may fail; translators with internal state are not covered.
  The cached type data of a node is copied, and the lemmas show that this keeps nodes well-formed.
\<close>

section \<open>Operations\<close>

text \<open>The cached data is copied to the translated node.\<close>

definition retag :: "('pk, 'h, 'e) miniscript \<Rightarrow> 'err + ('pk', 'h', 'e') terminal \<Rightarrow> 'err + ('pk', 'h', 'e') miniscript" where
  "retag ms r = map_res (\<lambda>inner. Miniscript inner (ty ms) (ext ms)) r"

fun terminal_translate_pk :: "('pk, 'h, 'pk', 'h', 'err) translator \<Rightarrow> ('pk, 'h, 'e) terminal \<Rightarrow> 'err + ('pk', 'h', 'e) terminal" where
  "terminal_translate_pk t TrueT = Inr TrueT"
| "terminal_translate_pk t FalseT = Inr FalseT"
| "terminal_translate_pk t (PkK p) = map_res PkK (tr_pk t p)"
| "terminal_translate_pk t (PkH p) = map_res PkH (tr_pk t p)"
| "terminal_translate_pk t (RawPkH h) = Inr (RawPkH h)"
| "terminal_translate_pk t (After n) = Inr (After n)"
| "terminal_translate_pk t (Older n) = Inr (Older n)"
| "terminal_translate_pk t (Sha256 h) = map_res Sha256 (tr_sha256 t h)"
| "terminal_translate_pk t (Hash256 h) = map_res Hash256 (tr_hash256 t h)"
| "terminal_translate_pk t (Ripemd160 h) = map_res Ripemd160 (tr_ripemd160 t h)"
| "terminal_translate_pk t (Hash160 h) = map_res Hash160 (tr_hash160 t h)"
| "terminal_translate_pk t (Alt a) = map_res Alt (retag a (terminal_translate_pk t (node a)))"
| "terminal_translate_pk t (Swap a) = map_res Swap (retag a (terminal_translate_pk t (node a)))"
| "terminal_translate_pk t (Check a) = map_res Check (retag a (terminal_translate_pk t (node a)))"
| "terminal_translate_pk t (DupIf a) = map_res DupIf (retag a (terminal_translate_pk t (node a)))"
| "terminal_translate_pk t (Verify a) = map_res Verify (retag a (terminal_translate_pk t (node a)))"
| "terminal_translate_pk t (NonZero a) = map_res NonZero (retag a (terminal_translate_pk t (node a)))"
| "terminal_translate_pk t (ZeroNotEqual a) = map_res ZeroNotEqual (retag a (terminal_translate_pk t (node a)))"
| "terminal_translate_pk t (AndV l r) =
     map_res2 AndV (retag l (terminal_translate_pk t (node l))) (retag r (terminal_translate_pk t (node r)))"
| "terminal_translate_pk t (AndB l r) =
     map_res2 AndB (retag l (terminal_translate_pk t (node l))) (retag r (terminal_translate_pk t (node r)))"
| "terminal_translate_pk t (AndOr a b c) =
     bind_res (retag a (terminal_translate_pk t (node a))) (\<lambda>a'.
       map_res2 (AndOr a') (retag b (terminal_translate_pk t (node b))) (retag c (terminal_translate_pk t (node c))))"
| "terminal_translate_pk t (OrB l r) =
     map_res2 OrB (retag l (terminal_translate_pk t (node l))) (retag r (terminal_translate_pk t (node r)))"
| "terminal_translate_pk t (OrD l r) =
     map_res2 OrD (retag l (terminal_translate_pk t (node l))) (retag r (terminal_translate_pk t (node r)))"
| "terminal_translate_pk t (OrC l r) =
     map_res2 OrC (retag l (terminal_translate_pk t (node l))) (retag r (terminal_translate_pk t (node r)))"
| "terminal_translate_pk t (OrI l r) =
     map_res2 OrI (retag l (terminal_translate_pk t (node l))) (retag r (terminal_translate_pk t (node r)))"
| "terminal_translate_pk t (Thresh k subs) =
     map_res (Thresh k) (collect_res (\<lambda>s. retag s (terminal_translate_pk t (node s))) subs)"
| "terminal_translate_pk t (Multi k keys) = map_res (Multi k) (collect_res (tr_pk t) keys)"
| "terminal_translate_pk t (MultiA k keys) = map_res (MultiA k) (collect_res (tr_pk t) keys)"
| "terminal_translate_pk t (ExtT e) = Inr (ExtT e)"

definition ms_translate_pk :: "('pk, 'h, 'pk', 'h', 'err) translator \<Rightarrow> ('pk, 'h, 'e) miniscript \<Rightarrow> 'err + ('pk', 'h', 'e) miniscript" where
  "ms_translate_pk t ms = retag ms (terminal_translate_pk t (node ms))"

fun terminal_translate_ext :: "('e \<Rightarrow> 'err + 'e') \<Rightarrow> ('pk, 'h, 'e) terminal \<Rightarrow> 'err + ('pk, 'h, 'e') terminal" where
  "terminal_translate_ext t TrueT = Inr TrueT"
| "terminal_translate_ext t FalseT = Inr FalseT"
| "terminal_translate_ext t (PkK p) = Inr (PkK p)"
| "terminal_translate_ext t (PkH p) = Inr (PkH p)"
| "terminal_translate_ext t (RawPkH h) = Inr (RawPkH h)"
| "terminal_translate_ext t (After n) = Inr (After n)"
| "terminal_translate_ext t (Older n) = Inr (Older n)"
| "terminal_translate_ext t (Sha256 h) = Inr (Sha256 h)"
| "terminal_translate_ext t (Hash256 h) = Inr (Hash256 h)"
| "terminal_translate_ext t (Ripemd160 h) = Inr (Ripemd160 h)"
| "terminal_translate_ext t (Hash160 h) = Inr (Hash160 h)"
| "terminal_translate_ext t (Alt a) = map_res Alt (retag a (terminal_translate_ext t (node a)))"
| "terminal_translate_ext t (Swap a) = map_res Swap (retag a (terminal_translate_ext t (node a)))"
| "terminal_translate_ext t (Check a) = map_res Check (retag a (terminal_translate_ext t (node a)))"
| "terminal_translate_ext t (DupIf a) = map_res DupIf (retag a (terminal_translate_ext t (node a)))"
| "terminal_translate_ext t (Verify a) = map_res Verify (retag a (terminal_translate_ext t (node a)))"
| "terminal_translate_ext t (NonZero a) = map_res NonZero (retag a (terminal_translate_ext t (node a)))"
| "terminal_translate_ext t (ZeroNotEqual a) = map_res ZeroNotEqual (retag a (terminal_translate_ext t (node a)))"
| "terminal_translate_ext t (AndV l r) =
     map_res2 AndV (retag l (terminal_translate_ext t (node l))) (retag r (terminal_translate_ext t (node r)))"
| "terminal_translate_ext t (AndB l r) =
     map_res2 AndB (retag l (terminal_translate_ext t (node l))) (retag r (terminal_translate_ext t (node r)))"
| "terminal_translate_ext t (AndOr a b c) =
     bind_res (retag a (terminal_translate_ext t (node a))) (\<lambda>a'.
       map_res2 (AndOr a') (retag b (terminal_translate_ext t (node b))) (retag c (terminal_translate_ext t (node c))))"
| "terminal_translate_ext t (OrB l r) =
     map_res2 OrB (retag l (terminal_translate_ext t (node l))) (retag r (terminal_translate_ext t (node r)))"
| "terminal_translate_ext t (OrD l r) =
     map_res2 OrD (retag l (terminal_translate_ext t (node l))) (retag r (terminal_translate_ext t (node r)))"
| "terminal_translate_ext t (OrC l r) =
     map_res2 OrC (retag l (terminal_translate_ext t (node l))) (retag r (terminal_translate_ext t (node r)))"
| "terminal_translate_ext t (OrI l r) =
     map_res2 OrI (retag l (terminal_translate_ext t (node l))) (retag r (terminal_translate_ext t (node r)))"
| "terminal_translate_ext t (Thresh k subs) =
     map_res (Thresh k) (collect_res (\<lambda>s. retag s (terminal_translate_ext t (node s))) subs)"
| "terminal_translate_ext t (Multi k keys) = Inr (Multi k keys)"
| "terminal_translate_ext t (MultiA k keys) = Inr (MultiA k keys)"
| "terminal_translate_ext t (ExtT e) = map_res ExtT (t e)"

definition ms_translate_ext :: "('e \<Rightarrow> 'err + 'e') \<Rightarrow> ('pk, 'h, 'e) miniscript \<Rightarrow> 'err + ('pk, 'h, 'e') miniscript" where
  "ms_translate_ext t ms = retag ms (terminal_translate_ext t (node ms))"

section \<open>Translation keeps well-formed miniscripts well-formed\<close>

lemma retag_Inr [simp]:
  "retag ms r = Inr ms' \<longleftrightarrow> (\<exists>n. r = Inr n \<and> ms' = Miniscript n (ty ms) (ext ms))"
  by (auto simp: retag_def)

lemma translate_children:
  "terminal_translate_pk tr t = Inr t' \<Longrightarrow> list_all2 (\<lambda>c c'. ms_translate_pk tr c = Inr c') (children t) (children t')"
  "terminal_translate_ext f t = Inr t'' \<Longrightarrow> list_all2 (\<lambda>c c'. ms_translate_ext f c = Inr c') (children t) (children t'')"
  by (cases t; auto simp: ms_translate_pk_def ms_translate_ext_def collect_res_Inr elim!: list_all2_mono)+

text \<open>The type rules look at the fragment and at the data of the children only.\<close>

lemma retag_lists:
  assumes "list_all2 (\<lambda>x y. retag x (f x) = Inr y) xs ys"
  shows "map ty ys = map ty xs" "map ext ys = map ext xs" "length ys = length xs"
  using assms by (induction rule: list_all2_induct) auto

lemma translate_pk_rules:
  assumes "terminal_translate_pk tr t = Inr t'"
  shows "type_rule E L t' = type_rule E L t \<and> ext_rule E L st t' = ext_rule E L st t"
proof (cases t)
  case (Thresh k subs)
  then obtain subs' where "t' = Thresh k subs'"
      "list_all2 (\<lambda>x y. retag x (terminal_translate_pk tr (node x)) = Inr y) subs subs'"
    using assms by (auto simp: collect_res_Inr)
  then show ?thesis using Thresh by (simp add: retag_lists)
qed (use assms in \<open>auto simp: collect_res_Inr list_all2_lengthD\<close>)

lemma translate_ext_rules:
  assumes "terminal_translate_ext f t = Inr t'"
    and "\<And>e e'. f e = Inr e' \<Longrightarrow> ty_from_ext E' e' = ty_from_ext E e \<and> extra_prop E' e' = extra_prop E e"
  shows "type_rule E' L t' = type_rule E L t \<and> ext_rule E' L st t' = ext_rule E L st t"
proof (cases t)
  case (Thresh k subs)
  then obtain subs' where "t' = Thresh k subs'"
      "list_all2 (\<lambda>x y. retag x (terminal_translate_ext f (node x)) = Inr y) subs subs'"
    using assms(1) by (auto simp: collect_res_Inr)
  then show ?thesis using Thresh by (simp add: retag_lists)
qed (use assms in \<open>auto simp: list_all2_lengthD\<close>)

lemma list_all2_right_ex: "list_all2 P xs ys \<Longrightarrow> y \<in> set ys \<Longrightarrow> \<exists>x\<in>set xs. P x y"
  by (induction rule: list_all2_induct) auto

lemma translate_pk_wf:
  "ms_wf E L st ms \<Longrightarrow> ms_translate_pk tr ms = Inr ms' \<Longrightarrow>
     ms_wf E L st ms' \<and> ty ms' = ty ms \<and> ext ms' = ext ms"
proof (induction "node ms" arbitrary: ms ms' rule: terminal_children_induct)
  case step
  from step.prems(2) obtain n where n: "terminal_translate_pk tr (node ms) = Inr n" "ms' = Miniscript n (ty ms) (ext ms)"
    by (auto simp: ms_translate_pk_def)
  have "ms_wf E L st c'" if c': "c' \<in> set (children n)" for c'
  proof -
    obtain c where "c \<in> set (children (node ms))" "ms_translate_pk tr c = Inr c'"
      using list_all2_right_ex [OF translate_children(1) [OF n(1)] c'] by blast
    then show ?thesis using step.hyps step.prems(1) ms_wf_iff by blast
  qed
  then show ?case
    using step.prems(1) translate_pk_rules [OF n(1), of E L st]
    by (auto simp: ms_wf_iff [of _ _ _ "Miniscript _ _ _"] ms_wf_iff [of _ _ _ ms] node_wf_iff n(2))
qed

lemma translate_ext_wf:
  assumes ext: "\<And>e e'. f e = Inr e' \<Longrightarrow> ty_from_ext E' e' = ty_from_ext E e \<and> extra_prop E' e' = extra_prop E e"
  shows "ms_wf E L st ms \<Longrightarrow> ms_translate_ext f ms = Inr ms' \<Longrightarrow>
     ms_wf E' L st ms' \<and> ty ms' = ty ms \<and> ext ms' = ext ms"
proof (induction "node ms" arbitrary: ms ms' rule: terminal_children_induct)
  case step
  from step.prems(2) obtain n where n: "terminal_translate_ext f (node ms) = Inr n" "ms' = Miniscript n (ty ms) (ext ms)"
    by (auto simp: ms_translate_ext_def)
  have "ms_wf E' L st c'" if c': "c' \<in> set (children n)" for c'
  proof -
    obtain c where "c \<in> set (children (node ms))" "ms_translate_ext f c = Inr c'"
      using list_all2_right_ex [OF translate_children(2) [OF n(1)] c'] by blast
    then show ?thesis using step.hyps step.prems(1) ms_wf_iff by blast
  qed
  then show ?case
    using step.prems(1) translate_ext_rules [OF n(1) ext, of L st]
    by (auto simp: ms_wf_iff [of _ _ _ "Miniscript _ _ _"] ms_wf_iff [of _ _ _ ms] node_wf_iff n(2))
qed

text \<open>The keys of the result are the translations of the keys, in the same order.\<close>

lemma list_all2_concat_map:
  "list_all2 (\<lambda>x y. list_all2 P (f x) (g y)) xs ys \<Longrightarrow> list_all2 P (concat (map f xs)) (concat (map g ys))"
  by (induction rule: list_all2_induct) (auto intro: list_all2_appendI)

lemma translate_pk_keys:
  "terminal_translate_pk tr t = Inr t' \<Longrightarrow> list_all2 (\<lambda>k k'. tr_pk tr k = Inr k') (keys_of t) (keys_of t')"
proof (induction t arbitrary: t' rule: terminal_children_induct)
  case (step t)
  have "list_all2 (\<lambda>k k'. tr_pk tr k = Inr k') (terminal_keys t) (terminal_keys t')"
    using step.prems by (cases t) (auto simp: collect_res_Inr)
  moreover have "list_all2 (\<lambda>c c'. list_all2 (\<lambda>k k'. tr_pk tr k = Inr k') (keys_of (node c)) (keys_of (node c')))
      (children t) (children t')"
    using translate_children(1) [OF step.prems] step.IH
    by (auto simp: list_all2_conv_all_nth ms_translate_pk_def nth_mem)
  ultimately show ?case
    unfolding keys_of_eq [of t] keys_of_eq [of t'] by (intro list_all2_appendI list_all2_concat_map)
qed

end
