(* ===== verification/Policy_Semantic.thy ===== *)
theory Policy_Semantic
  imports Prelude
begin

text \<open>
  Semantic policies (\<open>policy/semantic.rs\<close>): the policy tree, translation, normalisation and
  entailment. \<open>policy_eval\<close> gives a policy its meaning, \<open>normal\<close> describes the normal form; \<open>normalized\<close>
  keeps the first and reaches the second, and \<open>entails\<close> decides implication between meanings.
\<close>

datatype (policy_pk: 'pk, policy_h: 'h) policy =
    Unsatisfiable
  | Trivial
  | Key 'pk
  | After u32
  | Older u32
  | Sha256 'h
  | Hash256 'h
  | Ripemd160 'h
  | Hash160 'h
  | Threshold nat "('pk, 'h) policy list"

section \<open>Operations\<close>

fun policy_translate_pk :: "('pk, 'h, 'pk', 'h', 'err) translator \<Rightarrow> ('pk, 'h) policy \<Rightarrow> 'err + ('pk', 'h') policy" where
  "policy_translate_pk t Unsatisfiable = Inr Unsatisfiable"
| "policy_translate_pk t Trivial = Inr Trivial"
| "policy_translate_pk t (Key pk) = map_res Key (tr_pk t pk)"
| "policy_translate_pk t (Sha256 h) = map_res Sha256 (tr_sha256 t h)"
| "policy_translate_pk t (Hash256 h) = map_res Hash256 (tr_hash256 t h)"
| "policy_translate_pk t (Ripemd160 h) = map_res Ripemd160 (tr_ripemd160 t h)"
| "policy_translate_pk t (Hash160 h) = map_res Hash160 (tr_hash160 t h)"
| "policy_translate_pk t (After n) = Inr (After n)"
| "policy_translate_pk t (Older n) = Inr (Older n)"
| "policy_translate_pk t (Threshold k subs) = map_res (Threshold k) (collect_res (policy_translate_pk t) subs)"

fun n_terminals :: "('pk, 'h) policy \<Rightarrow> nat" where
  "n_terminals (Threshold k subs) = sum_list (map n_terminals subs)"
| "n_terminals Trivial = 0"
| "n_terminals Unsatisfiable = 0"
| "n_terminals _ = 1"

text \<open>
  \<open>normalized\<close>: the loop that copies the children, dropping the constants and splicing the
  children of nested conjunctions or disjunctions.
\<close>

definition norm_splice :: "bool \<Rightarrow> bool \<Rightarrow> ('pk, 'h) policy \<Rightarrow> ('pk, 'h) policy list" where
  "norm_splice is_and is_or sub =
     (case sub of
        Trivial \<Rightarrow> []
      | Unsatisfiable \<Rightarrow> []
      | Threshold k subs \<Rightarrow>
          (case (is_and, is_or) of
             (True, True) \<Rightarrow> [Threshold k subs]
           | (True, False) \<Rightarrow> if k = length subs then subs else [Threshold k subs]
           | (False, True) \<Rightarrow> if k = 1 then subs else [Threshold k subs]
           | (False, False) \<Rightarrow> [Threshold k subs])
      | x \<Rightarrow> [x])"

definition norm_threshold :: "nat \<Rightarrow> ('pk, 'h) policy list \<Rightarrow> ('pk, 'h) policy" where
  "norm_threshold k subs =
     (let trivial_count = length (filter (\<lambda>p. p = Trivial) subs);
          unsatisfied_count = length (filter (\<lambda>p. p = Unsatisfiable) subs);
          n = length subs - unsatisfied_count - trivial_count;
          m = k - trivial_count;
          is_and = (m = n);
          is_or = (m = 1);
          ret_subs = concat (map (norm_splice is_and is_or) subs)
      in if m = 0 then Trivial
         else if m > length ret_subs then Unsatisfiable
         else if length ret_subs = 1 then last ret_subs
         else if is_and then Threshold (length ret_subs) ret_subs
         else if is_or then Threshold 1 ret_subs
         else Threshold m ret_subs)"

fun normalized :: "('pk, 'h) policy \<Rightarrow> ('pk, 'h) policy" where
  "normalized (Threshold k subs) = norm_threshold k (map normalized subs)"
| "normalized x = x"

definition is_trivial :: "('pk, 'h) policy \<Rightarrow> bool" where
  "is_trivial p = (p = Trivial)"

definition is_unsatisfiable :: "('pk, 'h) policy \<Rightarrow> bool" where
  "is_unsatisfiable p = (p = Unsatisfiable)"

text \<open>
  The two helpers of \<open>entails\<close>, with their debug assertions: \<open>None\<close> is a failed assertion, the
  \<open>unreachable!\<close> on a threshold as witness, or the index out of bounds on an empty threshold.
\<close>

fun first_constraint :: "('pk, 'h) policy \<Rightarrow> ('pk, 'h) policy option" where
  "first_constraint p =
     (if normalized p \<noteq> p then None
      else case p of Threshold k (sub # subs) \<Rightarrow> first_constraint sub | Threshold k [] \<Rightarrow> None | _ \<Rightarrow> Some p)"

declare first_constraint.simps [simp del]

fun satisfy_constraint :: "('pk, 'h) policy \<Rightarrow> ('pk, 'h) policy \<Rightarrow> bool \<Rightarrow> ('pk, 'h) policy option" where
  "satisfy_constraint p witness available =
     (if normalized p \<noteq> p then None
      else case witness of
        Threshold _ _ \<Rightarrow> None
      | _ \<Rightarrow>
        map_option normalized
          (case p of
             Threshold k subs \<Rightarrow>
               map_option (Threshold k) (collect_opt (\<lambda>sub. satisfy_constraint sub witness available) subs)
           | leaf \<Rightarrow> Some (if leaf = witness then (if available then Trivial else Unsatisfiable) else leaf)))"

declare satisfy_constraint.simps [simp del]

section \<open>What a policy means\<close>

text \<open>
  The constraints of a policy are its leaves; \<open>policy_eval\<close> says whether a set of available constraints
  satisfies the policy. Different constraints are independent of each other.
\<close>

fun policy_eval :: "(('pk, 'h) policy \<Rightarrow> bool) \<Rightarrow> ('pk, 'h) policy \<Rightarrow> bool" where
  "policy_eval av Unsatisfiable = False"
| "policy_eval av Trivial = True"
| "policy_eval av (Threshold k subs) = (k \<le> length (filter (policy_eval av) subs))"
| "policy_eval av leaf = av leaf"

text \<open>
  The normal form: no constants below the root, at least two children, the threshold between
  one and their number, no conjunction directly in a conjunction, no disjunction in a disjunction.
\<close>

fun is_const :: "('pk, 'h) policy \<Rightarrow> bool" where
  "is_const Trivial = True"
| "is_const Unsatisfiable = True"
| "is_const _ = False"

fun conj_like :: "('pk, 'h) policy \<Rightarrow> bool" where
  "conj_like (Threshold k subs) = (k = length subs)"
| "conj_like _ = False"

fun disj_like :: "('pk, 'h) policy \<Rightarrow> bool" where
  "disj_like (Threshold k subs) = (k = 1)"
| "disj_like _ = False"

fun normal :: "('pk, 'h) policy \<Rightarrow> bool" where
  "normal (Threshold k subs) \<longleftrightarrow>
     2 \<le> length subs \<and> 1 \<le> k \<and> k \<le> length subs \<and> list_all (\<lambda>p. normal p \<and> \<not> is_const p) subs
     \<and> (k = length subs \<longrightarrow> \<not> list_ex conj_like subs) \<and> (k = 1 \<longrightarrow> \<not> list_ex disj_like subs)"
| "normal _ \<longleftrightarrow> True"

lemma policy_leaf_cases:
  "(\<exists>k subs. p = Threshold k subs) \<or> normalized p = p"
  by (cases p) auto


section \<open>Normalisation preserves the meaning and reaches the normal form\<close>

abbreviation holding :: "(('pk, 'h) policy \<Rightarrow> bool) \<Rightarrow> ('pk, 'h) policy list \<Rightarrow> nat" where
  "holding av ps \<equiv> length (filter (policy_eval av) ps)"

abbreviation proper :: "('pk, 'h) policy list \<Rightarrow> ('pk, 'h) policy list" where
  "proper ps \<equiv> filter (\<lambda>p. \<not> is_const p) ps"

abbreviation spliced :: "bool \<Rightarrow> bool \<Rightarrow> ('pk, 'h) policy list \<Rightarrow> ('pk, 'h) policy list" where
  "spliced is_and is_or ps \<equiv> concat (map (norm_splice is_and is_or) ps)"

lemma holding_consts:
  "holding av ps = length (filter (\<lambda>p. p = Trivial) ps) + holding av (proper ps)"
  by (induction ps) (auto elim: is_const.elims)

lemma length_consts:
  "length ps = length (filter (\<lambda>p. p = Trivial) ps) + length (filter (\<lambda>p. p = Unsatisfiable) ps) + length (proper ps)"
  by (induction ps) (auto elim: is_const.elims)

lemma splice_id:
  "norm_splice b b p = proper [p]"
  "\<not> conj_like p \<Longrightarrow> norm_splice True False p = proper [p]"
  "\<not> disj_like p \<Longrightarrow> norm_splice False True p = proper [p]"
  by (cases p; cases b; simp add: norm_splice_def)+

lemma spliced_id:
  "spliced b b ps = proper ps"
  "\<not> list_ex conj_like ps \<Longrightarrow> spliced True False ps = proper ps"
  "\<not> list_ex disj_like ps \<Longrightarrow> spliced False True ps = proper ps"
  by (induction ps) (simp_all add: splice_id)

text \<open>A conjunction holds when nothing fails, a disjunction when something holds.\<close>

lemma holding_all: "length xs \<le> length (filter P xs) \<longleftrightarrow> list_all P xs"
  by (induction xs) (auto simp: Suc_le_eq leD [OF length_filter_le])

lemma holding_some: "1 \<le> length (filter P xs) \<longleftrightarrow> list_ex P xs"
  by (induction xs) auto

lemma normal_child:
  "normal (Threshold k subs) \<Longrightarrow> list_all (\<lambda>p. normal p \<and> \<not> is_const p) subs"
  by simp

lemma splice_and:
  assumes "normal p"
  shows "list_all (policy_eval av) (norm_splice True False p) \<longleftrightarrow> is_const p \<or> policy_eval av p"
    and "\<not> is_const p \<Longrightarrow> 1 \<le> length (norm_splice True False p)"
    and "list_all (\<lambda>p. normal p \<and> \<not> is_const p \<and> \<not> conj_like p) (norm_splice True False p)"
proof (atomize (full), cases p)
  case (Threshold k subs)
  then show "(list_all (policy_eval av) (norm_splice True False p) \<longleftrightarrow> is_const p \<or> policy_eval av p) \<and>
    (\<not> is_const p \<longrightarrow> 1 \<le> length (norm_splice True False p)) \<and>
    list_all (\<lambda>p. normal p \<and> \<not> is_const p \<and> \<not> conj_like p) (norm_splice True False p)"
    using assms holding_all [of subs "policy_eval av"]
    by (cases "k = length subs") (auto simp: norm_splice_def list_all_iff list_ex_iff)
qed (simp_all add: norm_splice_def)

lemma splice_or:
  assumes "normal p"
  shows "list_ex (policy_eval av) (norm_splice False True p) \<longleftrightarrow> \<not> is_const p \<and> policy_eval av p"
    and "\<not> is_const p \<Longrightarrow> 1 \<le> length (norm_splice False True p)"
    and "list_all (\<lambda>p. normal p \<and> \<not> is_const p \<and> \<not> disj_like p) (norm_splice False True p)"
proof (atomize (full), cases p)
  case (Threshold k subs)
  then show "(list_ex (policy_eval av) (norm_splice False True p) \<longleftrightarrow> \<not> is_const p \<and> policy_eval av p) \<and>
    (\<not> is_const p \<longrightarrow> 1 \<le> length (norm_splice False True p)) \<and>
    list_all (\<lambda>p. normal p \<and> \<not> is_const p \<and> \<not> disj_like p) (norm_splice False True p)"
    using assms holding_some [of "policy_eval av" subs]
    by (cases "k = 1") (auto simp: norm_splice_def list_all_iff list_ex_iff)
qed (simp_all add: norm_splice_def)

lemma spliced_and:
  assumes "list_all normal ps"
  shows "list_all (policy_eval av) (spliced True False ps) = list_all (policy_eval av) (proper ps)"
    and "length (proper ps) \<le> length (spliced True False ps)"
    and "list_all (\<lambda>p. normal p \<and> \<not> is_const p \<and> \<not> conj_like p) (spliced True False ps)"
  using assms
proof (atomize (full), induction ps)
  case (Cons p ps)
  then show ?case using splice_and [of p] by (auto simp: Suc_le_eq intro: le_less_trans [OF _ less_add_same_cancel2 [THEN iffD2]])
qed simp

lemma spliced_or:
  assumes "list_all normal ps"
  shows "list_ex (policy_eval av) (spliced False True ps) = list_ex (policy_eval av) (proper ps)"
    and "length (proper ps) \<le> length (spliced False True ps)"
    and "list_all (\<lambda>p. normal p \<and> \<not> is_const p \<and> \<not> disj_like p) (spliced False True ps)"
  using assms
proof (atomize (full), induction ps)
  case (Cons p ps)
  then show ?case using splice_or [of p] by (auto simp: Suc_le_eq intro: le_less_trans [OF _ less_add_same_cancel2 [THEN iffD2]])
qed simp

text \<open>The cases of \<open>norm_threshold\<close> in terms of the children that are not constants.\<close>

lemma norm_threshold_cases:
  fixes k :: nat
  assumes "list_all normal ps"
  defines "m \<equiv> k - length (filter (\<lambda>p. p = Trivial) ps)"
  obtains
    (trivial) "m = 0" "norm_threshold k ps = Trivial"
  | (unsat) "length (proper ps) < m" "norm_threshold k ps = Unsatisfiable"
  | (single) p where "m = 1" "proper ps = [p]" "norm_threshold k ps = p"
  | (conj) "m = length (proper ps)" "2 \<le> m" "norm_threshold k ps = Threshold (length (spliced True False ps)) (spliced True False ps)"
  | (disj) "m = 1" "2 \<le> length (proper ps)" "norm_threshold k ps = Threshold 1 (spliced False True ps)"
  | (thresh) "2 \<le> m" "m < length (proper ps)" "norm_threshold k ps = Threshold m (proper ps)"
proof -
  have n: "length ps - length (filter (\<lambda>p. p = Unsatisfiable) ps) - length (filter (\<lambda>p. p = Trivial) ps) = length (proper ps)"
    using length_consts [of ps] by simp
  note eq = norm_threshold_def [of k ps, unfolded Let_def n, folded m_def]
  consider "m = 0" | "length (proper ps) < m" | "m = 1" "length (proper ps) = 1"
    | "m = length (proper ps)" "2 \<le> m" | "m = 1" "2 \<le> length (proper ps)" | "2 \<le> m" "m < length (proper ps)"
    by linarith
  then show thesis
  proof cases
    case 2
    have "norm_threshold k ps = Unsatisfiable"
    proof (cases "m = 1")
      case True
      with 2 have "\<forall>p\<in>set ps. is_const p" by (simp add: filter_empty_conv)
      then have "\<not> list_ex disj_like ps" by (auto simp: list_ex_iff elim!: is_const.elims disj_like.elims)
      then show ?thesis using True 2 eq by (simp add: spliced_id)
    qed (use 2 eq in \<open>simp add: spliced_id\<close>)
    with 2 show thesis by (rule that(2))
  next
    case 3
    then obtain p where "proper ps = [p]" by (auto simp: length_Suc_conv)
    then show thesis using 3 eq that(3) [of p] by (simp add: spliced_id)
  next
    case 4
    then have "(m = length (proper ps)) = True" "(m = 1) = False" by simp_all
    note eq' = eq [unfolded this]
    from 4 show thesis by (rule that(4)) (use 4 eq' spliced_and(2) [OF assms(1)] in auto)
  next
    case 5
    then have "(m = length (proper ps)) = False" "(m = 1) = True" by simp_all
    note eq' = eq [unfolded this]
    have "2 \<le> length (spliced False True ps)" using 5 spliced_or(2) [OF assms(1)] by simp
    then have "\<not> 1 > length (spliced False True ps)" "length (spliced False True ps) \<noteq> 1" by linarith+
    with eq' 5 have "norm_threshold k ps = Threshold 1 (spliced False True ps)" by (simp only: if_True if_False) simp
    with 5 show thesis by (rule that(5))
  next
    case 6
    then have "(m = length (proper ps)) = False" "(m = 1) = False" by simp_all
    note eq' = eq [unfolded this spliced_id]
    from 6 show thesis by (rule that(6)) (use 6 eq' in auto)
  qed (use eq that in auto)
qed

lemma norm_threshold_eval:
  assumes "list_all normal ps"
  shows "policy_eval av (norm_threshold k ps) = policy_eval av (Threshold k ps)"
proof -
  have m: "policy_eval av (Threshold k ps) \<longleftrightarrow> k - length (filter (\<lambda>p. p = Trivial) ps) \<le> holding av (proper ps)"
    by (auto simp: holding_consts [of av ps])
  show ?thesis unfolding m using assms
  proof (cases rule: norm_threshold_cases [where k = k and ps = ps, consumes 1])
    case unsat
    then show "policy_eval av (norm_threshold k ps) \<longleftrightarrow> k - length (filter (\<lambda>p. p = Trivial) ps) \<le> holding av (proper ps)"
      using le_less_trans [OF length_filter_le [of "policy_eval av" "proper ps"] unsat(1)] by (simp del: filter_filter)
  next
    case conj
    then show "policy_eval av (norm_threshold k ps) \<longleftrightarrow> k - length (filter (\<lambda>p. p = Trivial) ps) \<le> holding av (proper ps)"
      by (simp only: policy_eval.simps holding_all spliced_and [OF assms])
  next
    case disj
    then show "policy_eval av (norm_threshold k ps) \<longleftrightarrow> k - length (filter (\<lambda>p. p = Trivial) ps) \<le> holding av (proper ps)"
      by (simp only: policy_eval.simps holding_some spliced_or [OF assms])
  qed auto
qed

lemma norm_threshold_normal:
  assumes "list_all normal ps"
  shows "normal (norm_threshold k ps)"
  using assms
proof (cases rule: norm_threshold_cases [where k = k and ps = ps, consumes 1])
  case (single p)
  then have "p \<in> set (proper ps)" by simp
  with assms have "normal p" by (simp add: list_all_iff del: single(2))
  then show "normal (norm_threshold k ps)" using single by simp
next
  case conj
  then show "normal (norm_threshold k ps)"
    using spliced_and [OF assms] by (auto simp: list_all_iff list_ex_iff)
next
  case disj
  then show "normal (norm_threshold k ps)"
    using spliced_or [OF assms] by (auto simp: list_all_iff list_ex_iff)
next
  case thresh
  then show "normal (norm_threshold k ps)" using assms by (auto simp: list_all_iff)
qed simp_all

lemma normalized_normal: "normal (normalized p)"
  by (induction p) (auto simp: list_all_iff intro: norm_threshold_normal)

lemma normalized_eval: "policy_eval av (normalized p) = policy_eval av p"
proof (induction p)
  case (Threshold k subs)
  have "policy_eval av (norm_threshold k (map normalized subs)) = policy_eval av (Threshold k (map normalized subs))"
    by (rule norm_threshold_eval) (simp add: list_all_iff normalized_normal)
  also have "\<dots> = policy_eval av (Threshold k subs)"
    using Threshold by (simp add: filter_map o_def cong: filter_cong)
  finally show ?case by simp
qed simp_all

lemma norm_threshold_id:
  assumes "normal (Threshold k subs)"
  shows "norm_threshold k subs = Threshold k subs"
proof -
  have proper: "proper subs = subs" and none: "filter (\<lambda>p. p = Trivial) subs = []"
    using assms by (auto simp: list_all_iff filter_id_conv filter_empty_conv)
  have "list_all normal subs" using assms by (simp add: list_all_iff)
  note cases = norm_threshold_cases [OF this, of k, unfolded proper none, simplified]
  show ?thesis
    by (rule cases) (use assms in \<open>auto simp: spliced_id proper\<close>)
qed

lemma normal_normalized: "normal p \<Longrightarrow> normalized p = p"
proof (induction p)
  case (Threshold k subs)
  then have "map normalized subs = subs" by (auto simp: list_all_iff intro: map_idI)
  then show ?case using norm_threshold_id [OF Threshold.prems] by simp
qed simp_all

lemma normal_iff: "normal p \<longleftrightarrow> normalized p = p"
  using normalized_normal [of p] normal_normalized [of p] by auto

lemma normalized_idem [simp]: "normalized (normalized p) = normalized p"
  by (simp add: normal_normalized normalized_normal)

section \<open>Entailment\<close>

lemma normal_subs: "normal (Threshold k subs) \<Longrightarrow> sub \<in> set subs \<Longrightarrow> normal sub \<and> \<not> is_const sub"
  by (simp add: list_all_iff)

text \<open>Normalisation never adds constraints.\<close>

lemma n_terminals_splice: "sum_list (map n_terminals (norm_splice is_and is_or p)) = n_terminals p"
  by (cases p) (auto simp: norm_splice_def split: bool.splits)

lemma n_terminals_spliced: "sum_list (map n_terminals (spliced is_and is_or ps)) = sum_list (map n_terminals ps)"
  by (induction ps) (auto simp: n_terminals_splice)

lemma n_terminals_last:
  "length (spliced is_and is_or ps) = 1 \<Longrightarrow> n_terminals (last (spliced is_and is_or ps)) = sum_list (map n_terminals ps)"
  using n_terminals_spliced [of is_and is_or ps] by (auto simp: length_Suc_conv simp del: length_concat)

lemma n_terminals_norm_threshold: "n_terminals (norm_threshold k ps) \<le> sum_list (map n_terminals ps)"
  by (simp add: norm_threshold_def Let_def n_terminals_spliced n_terminals_last del: length_concat)

lemma n_terminals_normalized: "n_terminals (normalized p) \<le> n_terminals p"
proof (induction p)
  case (Threshold k subs)
  have "n_terminals (normalized (Threshold k subs)) \<le> sum_list (map n_terminals (map normalized subs))"
    by (simp only: normalized.simps n_terminals_norm_threshold)
  also have "\<dots> \<le> sum_list (map n_terminals subs)"
    using Threshold by (auto intro: sum_list_mono)
  finally show ?case by simp
qed simp_all

fun is_leaf :: "('pk, 'h) policy \<Rightarrow> bool" where
  "is_leaf (Threshold _ _) = False"
| "is_leaf p = (\<not> is_const p)"

lemma is_leaf_cases: "p = Trivial \<or> p = Unsatisfiable \<or> is_leaf p \<or> (\<exists>k subs. p = Threshold k subs)"
  by (cases p) auto

lemma leaf_simps [simp]:
  "is_leaf p \<Longrightarrow> normalized p = p" "is_leaf p \<Longrightarrow> normal p" "is_leaf p \<Longrightarrow> n_terminals p = 1"
  "is_leaf p \<Longrightarrow> policy_eval av p = av p" "is_leaf p \<Longrightarrow> \<not> is_const p"
  by (cases p; simp)+

lemma first_constraint_const [simp]:
  "first_constraint Trivial = Some Trivial" "first_constraint Unsatisfiable = Some Unsatisfiable"
  by (simp_all add: first_constraint.simps)

text \<open>In a normal policy that is not a constant the first constraint is a leaf that occurs in it.\<close>

lemma first_constraint_leaf:
  "normal p \<Longrightarrow> \<not> is_const p \<Longrightarrow> \<exists>c. first_constraint p = Some c \<and> is_leaf c"
proof (induction p)
  case (Threshold k subs)
  then obtain sub rest where subs: "subs = sub # rest" by (cases subs) auto
  then show ?case using Threshold.IH [of sub] normal_subs [OF Threshold.prems(1), of sub] normal_normalized [OF Threshold.prems(1)]
    by (simp add: first_constraint.simps [of "Threshold _ _"])
qed (simp_all add: first_constraint.simps)

text \<open>Without its assertions, \<open>satisfy_constraint\<close> replaces a leaf by a constant and normalises.\<close>

fun subst_leaf :: "('pk, 'h) policy \<Rightarrow> bool \<Rightarrow> ('pk, 'h) policy \<Rightarrow> ('pk, 'h) policy" where
  "subst_leaf c b (Threshold k subs) = normalized (Threshold k (map (subst_leaf c b) subs))"
| "subst_leaf c b p = (if p = c then (if b then Trivial else Unsatisfiable) else p)"

lemma satisfy_constraint_eq:
  assumes "\<forall>k subs. c \<noteq> Threshold k subs"
  shows "normal p \<Longrightarrow> satisfy_constraint p c b = Some (subst_leaf c b p)"
proof (induction p)
  case (Threshold k subs)
  have "collect_opt (\<lambda>sub. satisfy_constraint sub c b) subs = Some (map (subst_leaf c b) subs)"
    using Threshold normal_subs [OF Threshold.prems]
    by (simp add: collect_opt_Some list_all2_conv_all_nth)
  then show ?case using assms normal_normalized [OF Threshold.prems]
    by (subst satisfy_constraint.simps) (auto split: policy.splits)
qed (use assms in \<open>auto simp: satisfy_constraint.simps split: policy.splits\<close>)

lemma subst_leaf_normal: "normal p \<Longrightarrow> normal (subst_leaf c b p)"
  by (cases p) (auto simp: normalized_normal simp del: normalized.simps)

lemma subst_leaf_eval: "is_leaf c \<Longrightarrow> policy_eval av (subst_leaf c b p) = policy_eval (av(c := b)) p"
proof (induction p)
  case (Threshold k subs)
  define av' where "av' = av(c := b)"
  have "policy_eval av (Threshold k (map (subst_leaf c b) subs)) = policy_eval av' (Threshold k subs)"
    using Threshold by (simp add: filter_map o_def av'_def [symmetric] cong: filter_cong)
  then show ?case
    unfolding av'_def [symmetric] by (simp add: normalized_eval del: normalized.simps policy_eval.simps)
qed auto

lemma subst_leaf_terminals: "n_terminals (subst_leaf c b p) \<le> n_terminals p"
proof (induction p)
  case (Threshold k subs)
  have "n_terminals (subst_leaf c b (Threshold k subs)) \<le> n_terminals (Threshold k (map (subst_leaf c b) subs))"
    unfolding subst_leaf.simps by (rule n_terminals_normalized)
  also have "\<dots> \<le> n_terminals (Threshold k subs)"
    using Threshold by (auto simp: o_def intro: sum_list_mono)
  finally show ?case .
qed auto

lemma subst_first_terminals:
  "first_constraint p = Some c \<Longrightarrow> is_leaf c \<Longrightarrow> n_terminals (subst_leaf c b p) < n_terminals p"
proof (induction p)
  case (Threshold k subs)
  then obtain sub rest where subs: "subs = sub # rest" and first: "first_constraint sub = Some c"
    by (auto simp: first_constraint.simps [of "Threshold _ _"] split: if_splits list.splits)
  have "n_terminals (subst_leaf c b (Threshold k subs)) \<le> n_terminals (Threshold k (map (subst_leaf c b) subs))"
    unfolding subst_leaf.simps by (rule n_terminals_normalized)
  also have "\<dots> < n_terminals (Threshold k subs)"
    using Threshold.IH [of sub] first Threshold.prems subst_leaf_terminals [of c b]
    by (auto simp: subs o_def intro!: add_less_le_mono sum_list_mono)
  finally show ?case .
qed (auto simp: first_constraint.simps)

lemma subst_const: "normal p \<Longrightarrow> \<not> is_const p \<Longrightarrow> is_const c \<Longrightarrow> subst_leaf c b p = p"
proof (induction p)
  case (Threshold k subs)
  then have "map (subst_leaf c b) subs = subs" by (auto simp: list_all_iff intro: map_idI)
  then show ?case using normal_normalized [OF Threshold.prems(1)] by simp
qed auto

lemma is_const_iff: "is_const p \<longleftrightarrow> p = Trivial \<or> p = Unsatisfiable"
  by (cases p) auto

definition entail_work :: "('pk, 'h) policy \<Rightarrow> nat" where
  "entail_work p = (if is_const p then 0 else Suc (n_terminals p))"

text \<open>The recursion of \<open>entails\<close> ends: each call removes the first constraint of the left policy.\<close>

lemma entail_work_decreases:
  assumes "\<not> is_const a" "first_constraint (normalized a) = Some c"
    and "satisfy_constraint (normalized a) c b = Some a'"
  shows "entail_work a' < entail_work a"
proof (cases "is_const (normalized a)")
  case True
  then have "is_const a'" using assms(2,3)
    by (auto simp: satisfy_constraint.simps elim!: is_const.elims split: if_splits)
  then show ?thesis using assms(1) by (simp add: entail_work_def)
next
  case False
  then have leaf: "is_leaf c"
    using first_constraint_leaf [OF normalized_normal False] assms(2) by simp
  then have "\<forall>k subs. c \<noteq> Threshold k subs" by auto
  then have "a' = subst_leaf c b (normalized a)"
    using satisfy_constraint_eq [of c "normalized a" b] normalized_normal [of a] assms(3) by simp
  then have "n_terminals a' < n_terminals a"
    using subst_first_terminals [OF assms(2) leaf, of b] n_terminals_normalized [of a] by simp
  then show ?thesis using assms(1) by (simp add: entail_work_def)
qed

text \<open>\<open>ENTAILMENT_MAX_TERMINALS\<close> and the error type of policies.\<close>

definition entailment_max_terminals :: nat where
  "entailment_max_terminals = 20"

datatype policy_error =
    NonBinaryArgAnd
  | NonBinaryArgOr
  | IncorrectThresh
  | ZeroTime
  | TimeTooFar
  | InsufficientArgsforAnd
  | InsufficientArgsforOr
  | EntailmentMaxTerminals
  | PolicyHeightTimelockCombination
  | DuplicatePubKeys

text \<open>\<open>entails\<close>; the second recursive call is made only when the first one returned \<open>true\<close>.\<close>

function entails :: "('pk, 'h) policy \<Rightarrow> ('pk, 'h) policy \<Rightarrow> (policy_error + bool) option" where
  "entails self other =
     (if n_terminals self > entailment_max_terminals then Some (Inl EntailmentMaxTerminals)
      else if self = Unsatisfiable then Some (Inr True)
      else if self = Trivial \<and> other = Trivial then Some (Inr True)
      else if self = Trivial then Some (Inr False)
      else if other = Unsatisfiable then Some (Inr False)
      else
        (case first_constraint (normalized self) of
           None \<Rightarrow> None
         | Some c \<Rightarrow>
             (case (satisfy_constraint (normalized self) c True, satisfy_constraint (normalized other) c True,
                    satisfy_constraint (normalized self) c False, satisfy_constraint (normalized other) c False) of
                (Some a1, Some b1, Some a2, Some b2) \<Rightarrow>
                  (case entails a1 b1 of
                     Some (Inr True) \<Rightarrow> entails a2 b2
                   | r \<Rightarrow> r)
              | _ \<Rightarrow> None)))"
  by pat_completeness auto
termination
  by (relation "measure (\<lambda>(a, b). entail_work a)") (auto simp: is_const_iff intro: entail_work_decreases)

declare entails.simps [simp del]

lemma entails_const:
  "entails Unsatisfiable b = Some (Inr True)"
  "entails Trivial b = Some (Inr (b = Trivial))"
  "\<not> is_const a \<Longrightarrow> n_terminals a \<le> entailment_max_terminals \<Longrightarrow> entails a Unsatisfiable = Some (Inr False)"
  by (simp add: entails.simps) (simp add: entails.simps, simp add: entails.simps [of a] is_const_iff)

text \<open>One unfolding of the recursion, once the assertions of the helpers are discharged.\<close>

lemma entails_step:
  assumes "\<not> is_const a" "b \<noteq> Unsatisfiable" "n_terminals a \<le> entailment_max_terminals"
    and first: "first_constraint (normalized a) = Some c" and c: "\<forall>k subs. c \<noteq> Threshold k subs"
  shows "entails a b =
    (case entails (subst_leaf c True (normalized a)) (subst_leaf c True (normalized b)) of
       Some (Inr True) \<Rightarrow> entails (subst_leaf c False (normalized a)) (subst_leaf c False (normalized b))
     | r \<Rightarrow> r)"
proof -
  show ?thesis using assms(1-3)
    by (subst entails.simps) (simp add: is_const_iff first satisfy_constraint_eq [OF c normalized_normal])
qed

text \<open>A normal policy that is not a constant is neither valid nor contradictory.\<close>

lemma normal_satisfiable:
  "normal p \<Longrightarrow> \<not> is_const p \<Longrightarrow> policy_eval (\<lambda>_. True) p \<and> \<not> policy_eval (\<lambda>_. False) p"
proof (induction p)
  case (Threshold k subs)
  then have "filter (policy_eval (\<lambda>_. True)) subs = subs" "filter (policy_eval (\<lambda>_. False)) subs = []"
    using normal_subs [OF Threshold.prems(1)] by (auto simp: filter_id_conv filter_empty_conv)
  then show ?case using Threshold.prems by simp
qed auto

abbreviation implies :: "('pk, 'h) policy \<Rightarrow> ('pk, 'h) policy \<Rightarrow> bool" where
  "implies a b \<equiv> \<forall>av. policy_eval av a \<longrightarrow> policy_eval av b"

lemma implies_split:
  assumes "is_leaf c"
  shows "implies a b \<longleftrightarrow> implies (subst_leaf c True a) (subst_leaf c True b) \<and> implies (subst_leaf c False a) (subst_leaf c False b)"
    (is "_ \<longleftrightarrow> ?R")
proof
  assume ?R
  then have *: "policy_eval (av(c := x)) a \<longrightarrow> policy_eval (av(c := x)) b" for av x
    by (cases x) (simp_all add: subst_leaf_eval [OF assms])
  show "implies a b"
  proof
    fix av show "policy_eval av a \<longrightarrow> policy_eval av b" using * [of av "av c"] by simp
  qed
qed (simp add: subst_leaf_eval [OF assms])

lemma entails_normal:
  "normal a \<Longrightarrow> normal b \<Longrightarrow> n_terminals a \<le> entailment_max_terminals \<Longrightarrow> entails a b = Some (Inr (implies a b))"
proof (induction "entail_work a" arbitrary: a b rule: less_induct)
  case less
  consider "a = Unsatisfiable" | "a = Trivial" | "\<not> is_const a" "b = Unsatisfiable" | "\<not> is_const a" "b \<noteq> Unsatisfiable"
    by (cases a) auto
  then show ?case
  proof cases
    case 2
    then show ?thesis using normal_satisfiable [OF less.prems(2)] by (cases b) (auto simp: entails_const)
  next
    case 3
    then show ?thesis using normal_satisfiable [OF less.prems(1)] less.prems by (auto simp: entails_const)
  next
    case 4
    obtain c where first: "first_constraint a = Some c" and c: "is_leaf c"
      using first_constraint_leaf [OF less.prems(1) 4(1)] by auto
    have c': "\<forall>k subs. c \<noteq> Threshold k subs" using c by auto
    note norm = normal_normalized [OF less.prems(1)] normal_normalized [OF less.prems(2)]
    have IH: "entails (subst_leaf c x a) (subst_leaf c x b) = Some (Inr (implies (subst_leaf c x a) (subst_leaf c x b)))" for x
    proof (rule less.hyps)
      show "entail_work (subst_leaf c x a) < entail_work a"
        using entail_work_decreases [of a c x "subst_leaf c x a"] 4(1) first
          satisfy_constraint_eq [OF c' less.prems(1), of x] by (simp add: norm)
      show "n_terminals (subst_leaf c x a) \<le> entailment_max_terminals"
        using subst_leaf_terminals [of c x a] less.prems(3) by simp
    qed (simp_all add: subst_leaf_normal less.prems)
    show ?thesis
      using entails_step [OF 4 less.prems(3), of c] first c' IH implies_split [OF c, of a b]
      by (auto simp: norm split: bool.splits)
  qed (simp add: entails_const)
qed

text \<open>
  On policies that are not normal the match on the constructors may miss a contradiction on the
  left or a tautology on the right; elsewhere the answer is the entailment of the policies.
\<close>

lemma implies_normalized: "implies (normalized a) (normalized b) \<longleftrightarrow> implies a b"
  by (simp add: normalized_eval)

lemma subst_root_const:
  "normal p \<Longrightarrow> subst_leaf Unsatisfiable b p = (if p = Unsatisfiable then (if b then Trivial else Unsatisfiable) else p)"
  "normal p \<Longrightarrow> subst_leaf Trivial b p = (if p = Trivial then (if b then Trivial else Unsatisfiable) else p)"
  using subst_const [of p Unsatisfiable b] subst_const [of p Trivial b] by (cases p; simp)+

lemma entails_proper:
  assumes "\<not> is_const a" "b \<noteq> Unsatisfiable" "n_terminals a \<le> entailment_max_terminals" "\<not> is_const (normalized a)"
  shows "entails a b = Some (Inr (implies a b))"
proof -
  obtain c where first: "first_constraint (normalized a) = Some c" and c: "is_leaf c"
    using first_constraint_leaf [OF normalized_normal assms(4)] by auto
  have c': "\<forall>k subs. c \<noteq> Threshold k subs" using c by auto
  have "n_terminals (subst_leaf c x (normalized a)) \<le> entailment_max_terminals" for x
    using n_terminals_normalized [of a] subst_leaf_terminals [of c x "normalized a"] assms(3) by simp
  then show ?thesis
    using entails_step [OF assms(1-3) first c'] implies_split [OF c, of "normalized a" "normalized b"]
    by (auto simp: entails_normal subst_leaf_normal normalized_normal implies_normalized split: bool.splits)
qed

lemma entails_eq:
  assumes "n_terminals a \<le> entailment_max_terminals"
  shows "entails a b = Some (Inr
    (if a \<noteq> Unsatisfiable \<and> normalized a = Unsatisfiable then b \<noteq> Unsatisfiable \<and> is_const (normalized b)
     else if a = Trivial \<and> b \<noteq> Trivial then False
     else implies a b))"
proof -
  have unsat: "normalized a \<noteq> Unsatisfiable \<Longrightarrow> \<not> implies a Unsatisfiable"
    using normal_satisfiable [OF normalized_normal, of a] normalized_eval [of _ a]
    by (cases "normalized a = Trivial") (auto simp: is_const_iff)
  have valid: "implies Trivial b \<longleftrightarrow> normalized b = Trivial"
    using normal_satisfiable [OF normalized_normal, of b] normalized_eval [of _ b]
    by (cases "is_const (normalized b)") (auto simp: is_const_iff)
  consider "is_const a" | "\<not> is_const a" "b = Unsatisfiable" | "\<not> is_const a" "b \<noteq> Unsatisfiable" "is_const (normalized a)"
    | "\<not> is_const a" "b \<noteq> Unsatisfiable" "\<not> is_const (normalized a)" by blast
  then show ?thesis
  proof cases
    case 1
    then show ?thesis by (auto simp: is_const_iff entails_const)
  next
    case 2
    then show ?thesis using unsat assms by (auto simp: is_const_iff entails_const)
  next
    case 3
    then show ?thesis
      using entails_step [OF 3(1,2) assms, of "normalized a"] valid normalized_eval [of _ a]
      by (auto simp: is_const_iff subst_root_const normalized_normal entails_const)
  next
    case 4
    then show ?thesis using entails_proper [OF 4(1,2) assms 4(3)] by (auto simp: is_const_iff)
  qed
qed

section \<open>Translation preserves the meaning\<close>

lemma policy_translate_eval:
  assumes "policy_translate_pk t p = Inr q"
    and "\<And>c c'. is_leaf c \<Longrightarrow> policy_translate_pk t c = Inr c' \<Longrightarrow> av' c' = av c"
  shows "policy_eval av' q = policy_eval av p"
proof -
  have leaf: "policy_eval av' q = policy_eval av p" if "policy_translate_pk t p = Inr q" "is_leaf p" for p q
    using assms(2) [OF that(2,1)] that by (cases p) auto
  show ?thesis using assms(1)
  proof (induction p arbitrary: q)
    case (Threshold k subs)
    then obtain qs where qs: "q = Threshold k qs" "list_all2 (\<lambda>p q. policy_translate_pk t p = Inr q) subs qs"
      by (auto simp: collect_res_Inr)
    have "list_all2 (\<lambda>p q. policy_eval av' q = policy_eval av p) subs qs"
      using qs(2) Threshold.IH by (auto simp: list_all2_conv_all_nth)
    then have "length (filter (policy_eval av') qs) = length (filter (policy_eval av) subs)"
      by (induction rule: list_all2_induct) auto
    then show ?case by (simp add: qs(1))
  qed (simp; fail | (rule leaf; simp; fail))+
qed

end
