(* ===== verification/Policy_Analysis.thy ===== *)
theory Policy_Analysis
  imports Policy_Semantic "HOL-Library.Multiset" "HOL-Library.Sublist"
begin

text \<open>
  Analyses of semantic policies (\<open>policy/semantic.rs\<close>): the time locks that occur, the filters
  \<open>at_age\<close> and \<open>at_lock_time\<close>, key counts, and sorting into a canonical order. The methods of \<open>Sequence\<close>
  and \<open>LockTime\<close> that the filters call are arguments.
\<close>

section \<open>Operations\<close>

fun real_relative_timelocks :: "('pk, 'h) policy \<Rightarrow> u32 list" where
  "real_relative_timelocks (Older t) = [t]"
| "real_relative_timelocks (Threshold k subs) = concat (map real_relative_timelocks subs)"
| "real_relative_timelocks _ = []"

fun real_absolute_timelocks :: "('pk, 'h) policy \<Rightarrow> u32 list" where
  "real_absolute_timelocks (After t) = [t]"
| "real_absolute_timelocks (Threshold k subs) = concat (map real_absolute_timelocks subs)"
| "real_absolute_timelocks _ = []"

text \<open>\<open>Vec::dedup\<close> removes consecutive repetitions: \<open>remdups_adj\<close>.\<close>

definition relative_timelocks :: "('pk, 'h) policy \<Rightarrow> u32 list" where
  "relative_timelocks p = remdups_adj (sort (real_relative_timelocks p))"

definition absolute_timelocks :: "('pk, 'h) policy \<Rightarrow> u32 list" where
  "absolute_timelocks p = remdups_adj (sort (real_absolute_timelocks p))"

definition older_unmet :: "(u32 \<Rightarrow> bool) \<Rightarrow> (u32 \<Rightarrow> bool) \<Rightarrow> u32 \<Rightarrow> u32 \<Rightarrow> bool" where
  "older_unmet height_locked time_locked age t \<longleftrightarrow>
     height_locked t \<and> time_locked age \<or> time_locked t \<and> height_locked age \<or> t > age"

fun at_age :: "(u32 \<Rightarrow> bool) \<Rightarrow> (u32 \<Rightarrow> bool) \<Rightarrow> u32 \<Rightarrow> ('pk, 'h) policy \<Rightarrow> ('pk, 'h) policy" where
  "at_age hloc tloc age (Older t) = normalized (if older_unmet hloc tloc age t then Unsatisfiable else Older t)"
| "at_age hloc tloc age (Threshold k subs) = normalized (Threshold k (map (at_age hloc tloc age) subs))"
| "at_age hloc tloc age x = normalized x"

definition after_met :: "(u32 \<Rightarrow> bool) \<Rightarrow> u32 \<Rightarrow> u32 \<Rightarrow> bool" where
  "after_met blocks n t =
     (case (blocks t, blocks n) of
        (True, True) \<Rightarrow> t \<le> n
      | (False, False) \<Rightarrow> t \<le> n
      | _ \<Rightarrow> False)"

fun at_lock_time :: "(u32 \<Rightarrow> bool) \<Rightarrow> u32 \<Rightarrow> ('pk, 'h) policy \<Rightarrow> ('pk, 'h) policy" where
  "at_lock_time blocks n (After t) = normalized (if \<not> after_met blocks n t then Unsatisfiable else After t)"
| "at_lock_time blocks n (Threshold k subs) = normalized (Threshold k (map (at_lock_time blocks n) subs))"
| "at_lock_time blocks n x = normalized x"

fun n_keys :: "('pk, 'h) policy \<Rightarrow> nat" where
  "n_keys (Key _) = 1"
| "n_keys (Threshold k subs) = sum_list (map n_keys subs)"
| "n_keys _ = 0"

lemma map_filter_cong [fundef_cong]:
  "xs = ys \<Longrightarrow> (\<And>x. x \<in> set ys \<Longrightarrow> f x = g x) \<Longrightarrow> List.map_filter f xs = List.map_filter g ys"
  by (induction ys arbitrary: xs) (auto split: option.splits)

fun minimum_n_keys :: "('pk, 'h) policy \<Rightarrow> nat option" where
  "minimum_n_keys Unsatisfiable = None"
| "minimum_n_keys (Key _) = Some 1"
| "minimum_n_keys (Threshold k subs) =
     (let sublens = List.map_filter minimum_n_keys subs
      in if length sublens < k then None else Some (sum_list (take k (sort sublens))))"
| "minimum_n_keys _ = Some 0"


section \<open>Time locks\<close>

lemma subset_add_mset_notin: "M \<subseteq># add_mset x N \<Longrightarrow> x \<notin># M \<Longrightarrow> M \<subseteq># N"
  by (metis Diff_eq_empty_iff_mset add_mset_remove_trivial diff_single_trivial subset_eq_diff_conv add_mset_add_single)

fun leaves :: "('pk, 'h) policy \<Rightarrow> ('pk, 'h) policy list" where
  "leaves (Threshold k subs) = concat (map leaves subs)"
| "leaves p = [p]"

lemma set_real_timelocks:
  "set (real_relative_timelocks p) = {t. Older t \<in> set (leaves p)}"
  "set (real_absolute_timelocks p) = {t. After t \<in> set (leaves p)}"
  by (induction p) auto

lemma sorted_remdups_adj_strict: "sorted_wrt (<) (remdups_adj xs)" if "sorted xs" for xs :: "'a::linorder list"
  using that by (induction xs rule: remdups_adj.induct) auto

lemma timelocks_sorted:
  "sorted_wrt (<) (relative_timelocks p)" "sorted_wrt (<) (absolute_timelocks p)"
  "set (relative_timelocks p) = {t. Older t \<in> set (leaves p)}"
  "set (absolute_timelocks p) = {t. After t \<in> set (leaves p)}"
  by (simp_all add: relative_timelocks_def absolute_timelocks_def sorted_remdups_adj_strict set_real_timelocks)

text \<open>Filtering is the same as making the unmet locks unavailable.\<close>

definition aged :: "(u32 \<Rightarrow> bool) \<Rightarrow> (('pk, 'h) policy \<Rightarrow> bool) \<Rightarrow> ('pk, 'h) policy \<Rightarrow> bool" where
  "aged met av c = (case c of Older t \<Rightarrow> met t \<and> av c | _ \<Rightarrow> av c)"

definition locked_until :: "(u32 \<Rightarrow> bool) \<Rightarrow> (('pk, 'h) policy \<Rightarrow> bool) \<Rightarrow> ('pk, 'h) policy \<Rightarrow> bool" where
  "locked_until met av c = (case c of After t \<Rightarrow> met t \<and> av c | _ \<Rightarrow> av c)"

lemma eval_normalized_map:
  assumes "\<And>p. p \<in> set subs \<Longrightarrow> policy_eval av (f p) = policy_eval av' p"
  shows "policy_eval av (normalized (Threshold k (map f subs))) = policy_eval av' (Threshold k subs)"
  using assms by (simp add: normalized_eval filter_map o_def del: normalized.simps cong: filter_cong)

lemma at_age_eval:
  "policy_eval av (at_age hloc tloc age p) = policy_eval (aged (\<lambda>t. \<not> older_unmet hloc tloc age t) av) p"
proof (induction p)
  case (Threshold k subs)
  then show ?case unfolding at_age.simps by (rule eval_normalized_map)
qed (auto simp: aged_def)

lemma at_lock_time_eval:
  "policy_eval av (at_lock_time blocks n p) = policy_eval (locked_until (after_met blocks n) av) p"
proof (induction p)
  case (Threshold k subs)
  then show ?case unfolding at_lock_time.simps by (rule eval_normalized_map)
qed (auto simp: locked_until_def)

lemma filters_normal: "normal (at_age hloc tloc age p)" "normal (at_lock_time blocks n p)"
  by (cases p; auto simp: normalized_normal simp del: normalized.simps)+

section \<open>Key counts\<close>

text \<open>
  \<open>sat_with p n\<close>: the policy has a satisfaction that uses \<open>n\<close> of its keys, counted with
  repetition; a threshold chooses exactly \<open>k\<close> of its children.
\<close>

inductive sat_with :: "('pk, 'h) policy \<Rightarrow> nat \<Rightarrow> bool" where
  trivial: "sat_with Trivial 0"
| key: "sat_with (Key pk) 1"
| leaf: "is_leaf p \<Longrightarrow> (\<And>pk. p \<noteq> Key pk) \<Longrightarrow> sat_with p 0"
| thresh: "subseq chosen subs \<Longrightarrow> length chosen = k \<Longrightarrow> list_all2 sat_with chosen ns \<Longrightarrow>
    sat_with (Threshold k subs) (sum_list ns)"

inductive_cases sat_with_thresholdE: "sat_with (Threshold k subs) n"
inductive_simps sat_with_leaf_simps:
  "sat_with Unsatisfiable n" "sat_with Trivial n" "sat_with (Key pk) n" "sat_with (After t) n" "sat_with (Older t) n"
  "sat_with (Sha256 h) n" "sat_with (Hash256 h) n" "sat_with (Ripemd160 h) n" "sat_with (Hash160 h) n"

lemma sum_smallest_sorted:
  fixes xs :: "nat list"
  shows "sorted xs \<Longrightarrow> M \<subseteq># mset xs \<Longrightarrow> sum_list (take (size M) xs) \<le> sum_mset M"
proof (induction xs arbitrary: M)
  case (Cons x xs)
  show ?case
  proof (cases "M = {#}")
    case False
    obtain y where y: "y \<in># M" "x \<in># M \<longrightarrow> y = x" using False by (metis multiset_nonemptyE)
    then obtain N where M: "M = add_mset y N" by (metis insert_DiffM)
    have "y \<in># mset (x # xs)" using Cons.prems(2) y(1) by (rule mset_subset_eqD)
    then have "x \<le> y" using Cons.prems(1) by auto
    have "N \<subseteq># mset xs"
    proof (cases "y = x")
      case False
      then have "M \<subseteq># mset xs" using Cons.prems(2) y(2) by (auto dest: subset_add_mset_notin)
      then show ?thesis unfolding M by (rule subset_mset.order_trans [rotated]) simp
    qed (use Cons.prems(2) in \<open>simp add: M\<close>)
    then have "sum_list (take (size N) xs) \<le> sum_mset N" using Cons.IH Cons.prems(1) by simp
    then show ?thesis using \<open>x \<le> y\<close> by (simp add: M)
  qed simp
qed simp

lemma sum_smallest:
  fixes xs ys :: "nat list"
  assumes "mset ys \<subseteq># mset xs"
  shows "sum_list (take (length ys) (sort xs)) \<le> sum_list ys"
  using sum_smallest_sorted [of "sort xs" "mset ys"] assms by (simp add: sum_mset_sum_list)

text \<open>Every sub-multiset of what a filter keeps comes from a selection of the inputs.\<close>

lemma map_filter_choose:
  "M \<subseteq># mset (List.map_filter f xs) \<Longrightarrow> \<exists>ys zs. subseq ys xs \<and> map f ys = map Some zs \<and> mset zs = M"
proof (induction xs arbitrary: M)
  case (Cons x xs)
  show ?case
  proof (cases "\<exists>z. f x = Some z \<and> z \<in># M")
    case True
    then obtain z N where z: "f x = Some z" "M = add_mset z N" by (metis insert_DiffM)
    then obtain ys zs where "subseq ys xs" "map f ys = map Some zs" "mset zs = N"
      using Cons.IH [of N] Cons.prems by auto
    then show ?thesis using z by (intro exI [of _ "x # ys"] exI [of _ "z # zs"]) auto
  next
    case False
    then have "M \<subseteq># mset (List.map_filter f xs)"
      using Cons.prems by (auto dest: subset_add_mset_notin split: option.splits)
    then obtain ys zs where "subseq ys xs" "map f ys = map Some zs" "mset zs = M"
      using Cons.IH by blast
    then show ?thesis by (intro exI [of _ ys] exI [of _ zs]) auto
  qed
qed simp

lemma subseq_map_filter: "subseq ys xs \<Longrightarrow> mset (List.map_filter f ys) \<subseteq># mset (List.map_filter f xs)"
  by (induction rule: list_emb.induct) (auto split: option.splits intro: subset_mset.order_trans)

lemma minimum_n_keys_lower: "sat_with p n \<Longrightarrow> \<exists>m. minimum_n_keys p = Some m \<and> m \<le> n"
proof (induction rule: sat_with.induct)
  case (leaf p)
  then show ?case by (cases p) auto
next
  case (thresh chosen subs k ns)
  let ?ms = "List.map_filter minimum_n_keys chosen"
  have "length ?ms = length chosen \<and> sum_list ?ms \<le> sum_list ns"
    using thresh.IH by (induction rule: list_all2_induct) auto
  moreover have "mset ?ms \<subseteq># mset (List.map_filter minimum_n_keys subs)"
    by (rule subseq_map_filter) (rule thresh.hyps)
  moreover from this have "length ?ms \<le> length (List.map_filter minimum_n_keys subs)"
    by (metis size_mset size_mset_mono)
  ultimately show ?case
    using sum_smallest [of ?ms "List.map_filter minimum_n_keys subs"] thresh.hyps(2) by (auto simp: Let_def)
qed auto

lemma minimum_n_keys_attained: "minimum_n_keys p = Some m \<Longrightarrow> sat_with p m"
proof (induction p arbitrary: m)
  case (Threshold k subs)
  let ?ms = "List.map_filter minimum_n_keys subs"
  have k: "k \<le> length ?ms" and m: "m = sum_list (take k (sort ?ms))"
    using Threshold.prems by (auto simp: Let_def split: if_splits)
  have "mset (take k (sort ?ms)) \<subseteq># mset ?ms"
    by (metis append_take_drop_id mset_append mset_sort mset_subset_eq_add_left)
  then obtain chosen zs where c: "subseq chosen subs" "map minimum_n_keys chosen = map Some zs"
      "mset zs = mset (take k (sort ?ms))"
    using map_filter_choose by blast
  have "list_all2 sat_with chosen zs"
  proof (rule list_all2_all_nthI)
    show "length chosen = length zs" using c(2) by (rule map_eq_imp_length_eq)
    fix i assume i: "i < length chosen"
    then have "chosen ! i \<in> set subs" using list_emb_set [OF c(1)] nth_mem by metis
    moreover have "minimum_n_keys (chosen ! i) = Some (zs ! i)" using c(2) i by (metis length_map nth_map)
    ultimately show "sat_with (chosen ! i) (zs ! i)" by (rule Threshold.IH)
  qed
  moreover have "length chosen = k"
    using c(2,3) k by (metis length_map length_sort length_take min.absorb2 size_mset)
  moreover have "sum_list zs = m" using c(3) m by (metis sum_mset_sum_list)
  ultimately show ?case using sat_with.thresh [OF c(1)] by blast
qed (auto simp: sat_with_leaf_simps)

lemma minimum_n_keys_spec:
  "minimum_n_keys p = (if \<exists>n. sat_with p n then Some (LEAST n. sat_with p n) else None)"
proof (cases "minimum_n_keys p")
  case None
  then show ?thesis using minimum_n_keys_lower by fastforce
next
  case (Some m)
  have "(LEAST n. sat_with p n) = m"
    using minimum_n_keys_attained [OF Some] minimum_n_keys_lower [of p] Some by (intro Least_equality) auto
  then show ?thesis using Some minimum_n_keys_attained [OF Some] by auto
qed

end
