(* ===== verification/Policy_Sort.thy ===== *)
theory Policy_Sort
  imports Policy_Semantic "HOL-Library.Multiset"
begin

text \<open>
  The derived order on semantic policies and \<open>Policy::sorted\<close> (\<open>policy/semantic.rs\<close>): a derived
  \<open>Ord\<close> compares the position of the variant first and then the fields from left to right;
  vectors are compared lexicographically.
\<close>

section \<open>The derived order\<close>

fun variant :: "('pk, 'h) policy \<Rightarrow> nat" where
  "variant Unsatisfiable = 0"
| "variant Trivial = 1"
| "variant (Key _) = 2"
| "variant (After _) = 3"
| "variant (Older _) = 4"
| "variant (Sha256 _) = 5"
| "variant (Hash256 _) = 6"
| "variant (Ripemd160 _) = 7"
| "variant (Hash160 _) = 8"
| "variant (Threshold _ _) = 9"

text \<open>
  The fields of a variant other than the vector of children; fields a variant lacks are constant,
  so that comparing the tuples compares the variant and then its fields.
\<close>

definition fields :: "('pk, 'h) policy \<Rightarrow> nat \<times> 'pk option \<times> u32 \<times> 'h option \<times> nat" where
  "fields p = (variant p,
     (case p of Key pk \<Rightarrow> Some pk | _ \<Rightarrow> None),
     (case p of After t \<Rightarrow> t | Older t \<Rightarrow> t | _ \<Rightarrow> 0),
     (case p of Sha256 h \<Rightarrow> Some h | Hash256 h \<Rightarrow> Some h | Ripemd160 h \<Rightarrow> Some h | Hash160 h \<Rightarrow> Some h | _ \<Rightarrow> None),
     (case p of Threshold k subs \<Rightarrow> k | _ \<Rightarrow> 0))"

fun subpolicies :: "('pk, 'h) policy \<Rightarrow> ('pk, 'h) policy list" where
  "subpolicies (Threshold k subs) = subs"
| "subpolicies p = []"

lemma fields_inj: "fields p = fields q \<Longrightarrow> subpolicies p = subpolicies q \<Longrightarrow> p = q"
  by (cases p; cases q; simp add: fields_def)

lemma size_subpolicies: "p \<in> set (subpolicies q) \<Longrightarrow> size p < size q"
  by (cases q) (auto simp: less_Suc_eq_le size_list_estimation')

function policy_less :: "('pk::linorder, 'h::linorder) policy \<Rightarrow> ('pk, 'h) policy \<Rightarrow> bool"
  and policies_less :: "('pk, 'h) policy list \<Rightarrow> ('pk, 'h) policy list \<Rightarrow> bool" where
  "policy_less p q \<longleftrightarrow> fields p < fields q \<or> fields p = fields q \<and> policies_less (subpolicies p) (subpolicies q)"
| "policies_less xs [] = False"
| "policies_less [] (y # ys) = True"
| "policies_less (x # xs) (y # ys) = (policy_less x y \<or> x = y \<and> policies_less xs ys)"
  by pat_completeness auto
termination
proof (relation "measure (case_sum (\<lambda>(p, q). 2 * size p + 1) (\<lambda>(xs, ys). 2 * size_list size xs))")
  fix p q :: "('pk, 'h) policy"
  show "(Inr (subpolicies p, subpolicies q), Inl (p, q))
    \<in> measure (case_sum (\<lambda>(p, q). 2 * size p + 1) (\<lambda>(xs, ys). 2 * size_list size xs))"
    by (cases p) auto
qed auto

declare policy_less.simps [simp del]

lemma policies_less_irrefl: "(\<And>x. x \<in> set xs \<Longrightarrow> \<not> policy_less x x) \<Longrightarrow> \<not> policies_less xs xs"
  by (induction xs) auto

lemma policy_less_irrefl: "\<not> policy_less p p"
proof (induction p rule: measure_induct_rule [where f = size])
  case (less p)
  then show ?case using policies_less_irrefl [of "subpolicies p"]
    by (auto simp: policy_less.simps [of p] size_subpolicies)
qed

lemma policies_less_trans:
  assumes "\<And>x y z. x \<in> set xs \<Longrightarrow> policy_less x y \<Longrightarrow> policy_less y z \<Longrightarrow> policy_less x z"
  shows "policies_less xs ys \<Longrightarrow> policies_less ys zs \<Longrightarrow> policies_less xs zs"
  using assms
proof (induction xs arbitrary: ys zs)
  case Nil
  then have "zs \<noteq> []" by auto
  then show ?case by (cases zs) simp_all
next
  case (Cons x xs)
  from Cons.prems(1,2) obtain y ys' z zs' where "ys = y # ys'" "zs = z # zs'" by (cases ys; cases zs) simp_all
  then show ?case using Cons.prems Cons.IH [of ys' zs'] by auto
qed

lemma policy_less_trans: "policy_less p q \<Longrightarrow> policy_less q r \<Longrightarrow> policy_less p r"
proof (induction p arbitrary: q r rule: measure_induct_rule [where f = size])
  case (less p)
  have "policies_less (subpolicies p) (subpolicies q) \<Longrightarrow> policies_less (subpolicies q) (subpolicies r) \<Longrightarrow>
    policies_less (subpolicies p) (subpolicies r)"
    by (rule policies_less_trans) (use less.IH size_subpolicies in blast)
  then show ?case using less.prems
    by (auto simp: policy_less.simps [of p] policy_less.simps [of q] dest: less_trans)
qed

lemma policies_less_total:
  assumes "\<And>x y. x \<in> set xs \<Longrightarrow> x \<noteq> y \<Longrightarrow> policy_less x y \<or> policy_less y x"
  shows "xs \<noteq> ys \<Longrightarrow> policies_less xs ys \<or> policies_less ys xs"
  using assms
proof (induction xs arbitrary: ys)
  case Nil
  then show ?case by (cases ys) auto
next
  case (Cons x xs)
  show ?case
  proof (cases ys)
    case (Cons y ys')
    then show ?thesis using Cons.prems Cons.IH [of ys'] by (cases "x = y") auto
  qed simp
qed

lemma policy_less_total: "p \<noteq> q \<Longrightarrow> policy_less p q \<or> policy_less q p"
proof (induction p arbitrary: q rule: measure_induct_rule [where f = size])
  case (less p)
  have "subpolicies p \<noteq> subpolicies q \<Longrightarrow>
    policies_less (subpolicies p) (subpolicies q) \<or> policies_less (subpolicies q) (subpolicies p)"
    by (rule policies_less_total) (use less.IH size_subpolicies in blast)
  then show ?case using less.prems fields_inj [of p q] neqE [of "fields p" "fields q"]
    by (auto simp: policy_less.simps [of p] policy_less.simps [of q])
qed

instantiation policy :: (linorder, linorder) linorder
begin

definition less_policy :: "('a, 'b) policy \<Rightarrow> ('a, 'b) policy \<Rightarrow> bool" where
  "less_policy p q = policy_less p q"

definition less_eq_policy :: "('a, 'b) policy \<Rightarrow> ('a, 'b) policy \<Rightarrow> bool" where
  "less_eq_policy p q \<longleftrightarrow> policy_less p q \<or> p = q"

instance
proof
  fix p q r :: "('a, 'b) policy"
  show "(p < q) = (p \<le> q \<and> \<not> q \<le> p)" "p \<le> q \<Longrightarrow> q \<le> p \<Longrightarrow> p = q"
    using policy_less_trans [of p q p] policy_less_irrefl [of p]
    by (auto simp: less_policy_def less_eq_policy_def)
  show "p \<le> q \<Longrightarrow> q \<le> r \<Longrightarrow> p \<le> r" "p \<le> p" "p \<le> q \<or> q \<le> p"
    using policy_less_trans [of p q r] policy_less_total [of p q] by (auto simp: less_eq_policy_def)
qed

end

section \<open>Sorting\<close>

fun policy_sorted :: "('pk::linorder, 'h::linorder) policy \<Rightarrow> ('pk, 'h) policy" where
  "policy_sorted (Threshold k subs) = Threshold k (sort (map policy_sorted subs))"
| "policy_sorted p = p"

text \<open>Two policies that differ only in the order of children have the same sorted form.\<close>

inductive reordered :: "('pk, 'h) policy \<Rightarrow> ('pk, 'h) policy \<Rightarrow> bool" where
  same: "reordered p p"
| children: "list_all2 reordered xs ys \<Longrightarrow> mset ys = mset zs \<Longrightarrow> reordered (Threshold k xs) (Threshold k zs)"

lemma length_filter_mset_eq: "mset xs = mset ys \<Longrightarrow> length (filter P xs) = length (filter P ys)"
  by (metis mset_filter size_mset)

lemma reordered_eval: "reordered p q \<Longrightarrow> policy_eval av p = policy_eval av q"
proof (induction rule: reordered.induct)
  case (children xs ys zs k)
  have "length (filter (policy_eval av) xs) = length (filter (policy_eval av) ys)"
    using children.IH by (induction rule: list_all2_induct) auto
  then show ?case using length_filter_mset_eq [OF children.hyps, of "policy_eval av"] by simp
qed simp

lemma reordered_policy_sorted: "reordered p (policy_sorted p)"
proof (induction p)
  case (Threshold k subs)
  then have "list_all2 reordered subs (map policy_sorted subs)" by (simp add: list_all2_conv_all_nth)
  then show ?case by (auto intro: reordered.children)
qed (auto intro: reordered.same)

lemma policy_sorted_reordered: "reordered p q \<Longrightarrow> policy_sorted p = policy_sorted q"
proof (induction rule: reordered.induct)
  case (children xs ys zs k)
  have "map policy_sorted xs = map policy_sorted ys"
    using children.IH by (induction rule: list_all2_induct) auto
  then show ?case using children.hyps
    by (auto intro!: properties_for_sort simp: mset_map)
qed simp

end
