(* ===== verification/Script.thy ===== *)
theory Script
  imports Types_ExtData
begin

text \<open>
  Scripts as the crate sees them, and the helpers of \<open>util.rs\<close>. Opcodes carry the names of
  \<open>elements::opcodes\<close>; a script is what \<open>Script::instructions\<close> iterates over. \<open>script::Builder\<close> is third-party
  code: the parameter \<open>builder\<close> is a record of the methods the crate calls, and \<open>builder_ok\<close> states what
  their documentation says they append.
\<close>

section \<open>Opcodes and instructions\<close>

text \<open>The opcodes without operand come in three enumerations, which keeps the datatypes small; the abbreviations are their names.\<close>

datatype (plugins only: code) crypto_op =
    o_BOOLAND | o_BOOLOR | o_ADD | o_SUB | o_EQUAL | o_EQUALVERIFY | o_NUMEQUAL | o_NUMEQUALVERIFY
    | o_CHECKSIG | o_CHECKSIGVERIFY | o_CHECKSIGFROMSTACK | o_CHECKSIGFROMSTACKVERIFY | o_CHECKSIGADD
    | o_CHECKMULTISIG | o_CHECKMULTISIGVERIFY | o_CSV | o_CLTV | o_RIPEMD160 | o_HASH160 | o_SHA256
    | o_HASH256

datatype (plugins only: code) stack_op =
    o_FROMALTSTACK | o_TOALTSTACK | o_LEFT | o_CAT | o_CODESEPARATOR | o_OVER | o_PICK | o_DEPTH | o_DROP
    | o_DUP | o_2DUP | o_NIP | o_IF | o_IFDUP | o_NOTIF | o_ELSE | o_ENDIF | o_0NOTEQUAL | o_SIZE | o_SWAP
    | o_VERIFY

datatype (plugins only: code) elements_op =
    o_INSPECTINPUTVALUE | o_INSPECTOUTPUTVALUE | o_INSPECTINPUTASSET | o_INSPECTOUTPUTASSET
    | o_INSPECTINPUTSCRIPTPUBKEY | o_INSPECTOUTPUTSCRIPTPUBKEY | o_INSPECTINPUTISSUANCE
    | o_PUSHCURRENTINPUTINDEX | o_ADD64 | o_SUB64 | o_MUL64 | o_DIV64 | o_NEG64 | o_GREATERTHAN64
    | o_GREATERTHANOREQUAL64 | o_LESSTHAN64 | o_LESSTHANOREQUAL64 | o_AND | o_OR | o_XOR | o_INVERT
    | o_SCRIPTNUMTOLE64 | o_LE64TOSCRIPTNUM

datatype (plugins only: code) opcode =
    OP_PUSHBYTES_0
  | OP_PUSHNUM nat
  | OP_PUSHNUM_NEG1
  | OP_OTHER u8
  | CryptoOp crypto_op
  | StackOp stack_op
  | ElementsOp elements_op

abbreviation OP_BOOLAND :: opcode where "OP_BOOLAND \<equiv> CryptoOp o_BOOLAND"
abbreviation OP_BOOLOR :: opcode where "OP_BOOLOR \<equiv> CryptoOp o_BOOLOR"
abbreviation OP_ADD :: opcode where "OP_ADD \<equiv> CryptoOp o_ADD"
abbreviation OP_SUB :: opcode where "OP_SUB \<equiv> CryptoOp o_SUB"
abbreviation OP_EQUAL :: opcode where "OP_EQUAL \<equiv> CryptoOp o_EQUAL"
abbreviation OP_EQUALVERIFY :: opcode where "OP_EQUALVERIFY \<equiv> CryptoOp o_EQUALVERIFY"
abbreviation OP_NUMEQUAL :: opcode where "OP_NUMEQUAL \<equiv> CryptoOp o_NUMEQUAL"
abbreviation OP_NUMEQUALVERIFY :: opcode where "OP_NUMEQUALVERIFY \<equiv> CryptoOp o_NUMEQUALVERIFY"
abbreviation OP_CHECKSIG :: opcode where "OP_CHECKSIG \<equiv> CryptoOp o_CHECKSIG"
abbreviation OP_CHECKSIGVERIFY :: opcode where "OP_CHECKSIGVERIFY \<equiv> CryptoOp o_CHECKSIGVERIFY"
abbreviation OP_CHECKSIGFROMSTACK :: opcode where "OP_CHECKSIGFROMSTACK \<equiv> CryptoOp o_CHECKSIGFROMSTACK"
abbreviation OP_CHECKSIGFROMSTACKVERIFY :: opcode where "OP_CHECKSIGFROMSTACKVERIFY \<equiv> CryptoOp o_CHECKSIGFROMSTACKVERIFY"
abbreviation OP_CHECKSIGADD :: opcode where "OP_CHECKSIGADD \<equiv> CryptoOp o_CHECKSIGADD"
abbreviation OP_CHECKMULTISIG :: opcode where "OP_CHECKMULTISIG \<equiv> CryptoOp o_CHECKMULTISIG"
abbreviation OP_CHECKMULTISIGVERIFY :: opcode where "OP_CHECKMULTISIGVERIFY \<equiv> CryptoOp o_CHECKMULTISIGVERIFY"
abbreviation OP_CSV :: opcode where "OP_CSV \<equiv> CryptoOp o_CSV"
abbreviation OP_CLTV :: opcode where "OP_CLTV \<equiv> CryptoOp o_CLTV"
abbreviation OP_RIPEMD160 :: opcode where "OP_RIPEMD160 \<equiv> CryptoOp o_RIPEMD160"
abbreviation OP_HASH160 :: opcode where "OP_HASH160 \<equiv> CryptoOp o_HASH160"
abbreviation OP_SHA256 :: opcode where "OP_SHA256 \<equiv> CryptoOp o_SHA256"
abbreviation OP_HASH256 :: opcode where "OP_HASH256 \<equiv> CryptoOp o_HASH256"
abbreviation OP_FROMALTSTACK :: opcode where "OP_FROMALTSTACK \<equiv> StackOp o_FROMALTSTACK"
abbreviation OP_TOALTSTACK :: opcode where "OP_TOALTSTACK \<equiv> StackOp o_TOALTSTACK"
abbreviation OP_LEFT :: opcode where "OP_LEFT \<equiv> StackOp o_LEFT"
abbreviation OP_CAT :: opcode where "OP_CAT \<equiv> StackOp o_CAT"
abbreviation OP_CODESEPARATOR :: opcode where "OP_CODESEPARATOR \<equiv> StackOp o_CODESEPARATOR"
abbreviation OP_OVER :: opcode where "OP_OVER \<equiv> StackOp o_OVER"
abbreviation OP_PICK :: opcode where "OP_PICK \<equiv> StackOp o_PICK"
abbreviation OP_DEPTH :: opcode where "OP_DEPTH \<equiv> StackOp o_DEPTH"
abbreviation OP_DROP :: opcode where "OP_DROP \<equiv> StackOp o_DROP"
abbreviation OP_DUP :: opcode where "OP_DUP \<equiv> StackOp o_DUP"
abbreviation OP_2DUP :: opcode where "OP_2DUP \<equiv> StackOp o_2DUP"
abbreviation OP_NIP :: opcode where "OP_NIP \<equiv> StackOp o_NIP"
abbreviation OP_IF :: opcode where "OP_IF \<equiv> StackOp o_IF"
abbreviation OP_IFDUP :: opcode where "OP_IFDUP \<equiv> StackOp o_IFDUP"
abbreviation OP_NOTIF :: opcode where "OP_NOTIF \<equiv> StackOp o_NOTIF"
abbreviation OP_ELSE :: opcode where "OP_ELSE \<equiv> StackOp o_ELSE"
abbreviation OP_ENDIF :: opcode where "OP_ENDIF \<equiv> StackOp o_ENDIF"
abbreviation OP_0NOTEQUAL :: opcode where "OP_0NOTEQUAL \<equiv> StackOp o_0NOTEQUAL"
abbreviation OP_SIZE :: opcode where "OP_SIZE \<equiv> StackOp o_SIZE"
abbreviation OP_SWAP :: opcode where "OP_SWAP \<equiv> StackOp o_SWAP"
abbreviation OP_VERIFY :: opcode where "OP_VERIFY \<equiv> StackOp o_VERIFY"
abbreviation OP_INSPECTINPUTVALUE :: opcode where "OP_INSPECTINPUTVALUE \<equiv> ElementsOp o_INSPECTINPUTVALUE"
abbreviation OP_INSPECTOUTPUTVALUE :: opcode where "OP_INSPECTOUTPUTVALUE \<equiv> ElementsOp o_INSPECTOUTPUTVALUE"
abbreviation OP_INSPECTINPUTASSET :: opcode where "OP_INSPECTINPUTASSET \<equiv> ElementsOp o_INSPECTINPUTASSET"
abbreviation OP_INSPECTOUTPUTASSET :: opcode where "OP_INSPECTOUTPUTASSET \<equiv> ElementsOp o_INSPECTOUTPUTASSET"
abbreviation OP_INSPECTINPUTSCRIPTPUBKEY :: opcode where "OP_INSPECTINPUTSCRIPTPUBKEY \<equiv> ElementsOp o_INSPECTINPUTSCRIPTPUBKEY"
abbreviation OP_INSPECTOUTPUTSCRIPTPUBKEY :: opcode where "OP_INSPECTOUTPUTSCRIPTPUBKEY \<equiv> ElementsOp o_INSPECTOUTPUTSCRIPTPUBKEY"
abbreviation OP_INSPECTINPUTISSUANCE :: opcode where "OP_INSPECTINPUTISSUANCE \<equiv> ElementsOp o_INSPECTINPUTISSUANCE"
abbreviation OP_PUSHCURRENTINPUTINDEX :: opcode where "OP_PUSHCURRENTINPUTINDEX \<equiv> ElementsOp o_PUSHCURRENTINPUTINDEX"
abbreviation OP_ADD64 :: opcode where "OP_ADD64 \<equiv> ElementsOp o_ADD64"
abbreviation OP_SUB64 :: opcode where "OP_SUB64 \<equiv> ElementsOp o_SUB64"
abbreviation OP_MUL64 :: opcode where "OP_MUL64 \<equiv> ElementsOp o_MUL64"
abbreviation OP_DIV64 :: opcode where "OP_DIV64 \<equiv> ElementsOp o_DIV64"
abbreviation OP_NEG64 :: opcode where "OP_NEG64 \<equiv> ElementsOp o_NEG64"
abbreviation OP_GREATERTHAN64 :: opcode where "OP_GREATERTHAN64 \<equiv> ElementsOp o_GREATERTHAN64"
abbreviation OP_GREATERTHANOREQUAL64 :: opcode where "OP_GREATERTHANOREQUAL64 \<equiv> ElementsOp o_GREATERTHANOREQUAL64"
abbreviation OP_LESSTHAN64 :: opcode where "OP_LESSTHAN64 \<equiv> ElementsOp o_LESSTHAN64"
abbreviation OP_LESSTHANOREQUAL64 :: opcode where "OP_LESSTHANOREQUAL64 \<equiv> ElementsOp o_LESSTHANOREQUAL64"
abbreviation OP_AND :: opcode where "OP_AND \<equiv> ElementsOp o_AND"
abbreviation OP_OR :: opcode where "OP_OR \<equiv> ElementsOp o_OR"
abbreviation OP_XOR :: opcode where "OP_XOR \<equiv> ElementsOp o_XOR"
abbreviation OP_INVERT :: opcode where "OP_INVERT \<equiv> ElementsOp o_INVERT"
abbreviation OP_SCRIPTNUMTOLE64 :: opcode where "OP_SCRIPTNUMTOLE64 \<equiv> ElementsOp o_SCRIPTNUMTOLE64"
abbreviation OP_LE64TOSCRIPTNUM :: opcode where "OP_LE64TOSCRIPTNUM \<equiv> ElementsOp o_LE64TOSCRIPTNUM"
abbreviation OP_TRUE :: opcode where "OP_TRUE \<equiv> OP_PUSHNUM 1"
abbreviation OP_FALSE :: opcode where "OP_FALSE \<equiv> OP_PUSHBYTES_0"

datatype instruction = PushBytes bytes | Op opcode

section \<open>Script numbers\<close>

text \<open>
  \<open>build_scriptint\<close> of \<open>util.rs\<close>: little-endian magnitude with the sign in the top bit of the last
  byte. The argument is an \<open>i64\<close> other than the smallest one, whose negation overflows.
\<close>

function scriptint_loop :: "bool \<Rightarrow> nat \<Rightarrow> bytes" where
  "scriptint_loop neg a =
     (if a > 0xFF then word_of_nat (take_bit 8 a) # scriptint_loop neg (drop_bit 8 a)
      else if bit a 7 then [word_of_nat a, if neg then 0x80 else 0]
      else [word_of_nat (if neg then set_bit 7 a else a)])"
  by pat_completeness auto
termination by (relation "measure snd") (simp_all add: drop_bit_eq_div)

declare scriptint_loop.simps [simp del]

definition build_scriptint :: "int \<Rightarrow> bytes" where
  "build_scriptint n = (if n = 0 then [] else scriptint_loop (n < 0) (nat \<bar>n\<bar>))"

text \<open>The number a byte string stands for, in the same format.\<close>

fun magnitude :: "bytes \<Rightarrow> nat" where
  "magnitude [] = 0"
| "magnitude [b] = unat b mod 128"
| "magnitude (b # bs) = unat b + 256 * magnitude bs"

definition scriptint_val :: "bytes \<Rightarrow> int" where
  "scriptint_val bs = (if bs \<noteq> [] \<and> 128 \<le> unat (last bs) then - int (magnitude bs) else int (magnitude bs))"

lemma scriptint_loop_not_Nil [simp]: "scriptint_loop neg a \<noteq> []"
  by (subst scriptint_loop.simps) simp

lemma magnitude_Cons: "bs \<noteq> [] \<Longrightarrow> magnitude (b # bs) = unat b + 256 * magnitude bs"
  by (cases bs) auto

lemma bit_7_nat: "bit a 7 \<longleftrightarrow> 128 \<le> (a::nat)" if "a < 256"
proof -
  have "a div 128 = (if a < 128 then 0 else 1)" using that by (auto intro: div_nat_eqI)
  then show ?thesis by (simp add: bit_iff_odd)
qed

lemma set_bit_7_nat: "a < 128 \<Longrightarrow> set_bit 7 a = 128 + (a::nat)"
  by (simp add: set_bit_eq bit_7_nat)

lemma unat_of_nat_u8: "a < 256 \<Longrightarrow> unat (word_of_nat a :: u8) = a"
  by (simp add: unat_of_nat take_bit_nat_eq_self)

lemma scriptint_loop_val:
  "magnitude (scriptint_loop neg a) = a \<and> (128 \<le> unat (last (scriptint_loop neg a)) \<longleftrightarrow> neg)"
proof (induction neg a rule: scriptint_loop.induct)
  case (1 neg a)
  show ?case
  proof (cases "a > 0xFF")
    case True
    have "take_bit 8 a + 256 * drop_bit 8 a = a"
      by (simp add: take_bit_eq_mod drop_bit_eq_div)
    then show ?thesis using True 1
      by (subst (1 2) scriptint_loop.simps)
        (simp add: magnitude_Cons unat_of_nat_u8 take_bit_eq_mod)
  next
    case False
    then show ?thesis
      by (subst (1 2) scriptint_loop.simps)
        (auto simp: bit_7_nat set_bit_7_nat unat_of_nat_u8 not_le)
  qed
qed

lemma scriptint_roundtrip: "scriptint_val (build_scriptint n) = n"
  using scriptint_loop_val [of "n < 0" "nat \<bar>n\<bar>"] by (auto simp: scriptint_val_def build_scriptint_def)

lemma scriptint_loop_length:
  "length (scriptint_loop neg a) = (if a < 128 then 1 else Suc (length (scriptint_loop neg (a div 256))))"
proof (cases "a > 0xFF")
  case True
  then show ?thesis by (subst scriptint_loop.simps) (simp add: drop_bit_eq_div)
next
  case False
  then have "a div 256 = 0" by simp
  with False show ?thesis by (subst (1 2) scriptint_loop.simps) (auto simp: bit_7_nat)
qed

text \<open>A number that has no opcode of its own takes a push opcode and its bytes.\<close>

lemma script_num_size_scriptint:
  assumes "16 < n" "n < 2 ^ 39"
  shows "script_num_size n = 1 + length (build_scriptint (int n))"
proof -
  have len: "length (scriptint_loop False a) =
      (if a < 0x80 then 1 else if a < 0x8000 then 2 else if a < 0x800000 then 3 else if a < 0x80000000 then 4 else 5)"
    if "a < 2 ^ 39" for a
    using that
    by (simp add: scriptint_loop_length [of _ a] scriptint_loop_length [of _ "a div 256"]
        scriptint_loop_length [of _ "a div 65536"] scriptint_loop_length [of _ "a div 16777216"]
        scriptint_loop_length [of _ "a div 4294967296"] div_mult2_eq [symmetric] div_less_iff_less_mult)
  show ?thesis using assms len [of n] by (simp add: build_scriptint_def script_num_size_def)
qed

section \<open>The script builder\<close>

text \<open>
  Keys are pushed through \<open>to_public_key\<close> or as serialised x-only keys; the fields with \<open>_bytes\<close>
  are the serialisations and hashes that third-party code computes.
\<close>

record ('b, 'pk, 'h, 'e) builder =
  builder_new :: 'b
  push_opcode :: "'b \<Rightarrow> opcode \<Rightarrow> 'b"
  push_int :: "'b \<Rightarrow> int \<Rightarrow> 'b"
  push_slice :: "'b \<Rightarrow> bytes \<Rightarrow> 'b"
  push_key :: "'b \<Rightarrow> 'pk \<Rightarrow> 'b"
  push_verify :: "'b \<Rightarrow> 'b"
  push_to_builder :: "'e \<Rightarrow> 'b \<Rightarrow> 'b"
  instructions :: "'b \<Rightarrow> instruction list"
  script_len :: "'b \<Rightarrow> nat"
  full_key_bytes :: "'pk \<Rightarrow> bytes"
  xonly_key_bytes :: "'pk \<Rightarrow> bytes"
  full_key_hash :: "'pk \<Rightarrow> bytes"
  xonly_key_hash :: "'pk \<Rightarrow> bytes"
  sha256_bytes :: "'h \<Rightarrow> bytes"
  hash256_bytes :: "'h \<Rightarrow> bytes"
  ripemd160_bytes :: "'h \<Rightarrow> bytes"
  hash160_bytes :: "'h \<Rightarrow> bytes"
  ext_instructions :: "'e \<Rightarrow> instruction list"

definition push_ms_key :: "('b, 'pk, 'h, 'e) builder \<Rightarrow> sig_type \<Rightarrow> 'b \<Rightarrow> 'pk \<Rightarrow> 'b" where
  "push_ms_key B st b key =
     (case st of Ecdsa \<Rightarrow> push_key B b key | Schnorr \<Rightarrow> push_slice B b (xonly_key_bytes B key))"

definition push_ms_key_hash :: "('b, 'pk, 'h, 'e) builder \<Rightarrow> sig_type \<Rightarrow> 'b \<Rightarrow> 'pk \<Rightarrow> 'b" where
  "push_ms_key_hash B st b key =
     (case st of Ecdsa \<Rightarrow> push_slice B b (full_key_hash B key) | Schnorr \<Rightarrow> push_slice B b (xonly_key_hash B key))"

text \<open>\<open>witness_to_scriptsig\<close>; \<open>read_scriptint\<close> is third-party code, \<open>None\<close> its error.\<close>

definition witness_to_scriptsig :: "('b, 'pk, 'h, 'e) builder \<Rightarrow> (bytes \<Rightarrow> int option) \<Rightarrow> bytes list \<Rightarrow> 'b" where
  "witness_to_scriptsig B read_scriptint witness =
     fold (\<lambda>wit b. case read_scriptint wit of Some n \<Rightarrow> push_int B b n | None \<Rightarrow> push_slice B b wit)
       witness (builder_new B)"

text \<open>The instruction that pushes a number, and the opcode that joins another with \<open>OP_VERIFY\<close>.\<close>

definition int_instruction :: "int \<Rightarrow> instruction" where
  "int_instruction n =
     (if n = 0 then PushBytes []
      else if n = -1 then Op OP_PUSHNUM_NEG1
      else if 1 \<le> n \<and> n \<le> 16 then Op (OP_PUSHNUM (nat n))
      else PushBytes (build_scriptint n))"

fun verify_form :: "opcode \<Rightarrow> opcode option" where
  "verify_form OP_EQUAL = Some OP_EQUALVERIFY"
| "verify_form OP_NUMEQUAL = Some OP_NUMEQUALVERIFY"
| "verify_form OP_CHECKSIG = Some OP_CHECKSIGVERIFY"
| "verify_form OP_CHECKSIGFROMSTACK = Some OP_CHECKSIGFROMSTACKVERIFY"
| "verify_form OP_CHECKMULTISIG = Some OP_CHECKMULTISIGVERIFY"
| "verify_form _ = None"

definition add_verify :: "instruction list \<Rightarrow> instruction list" where
  "add_verify is =
     (case rev is of
        Op op # rest \<Rightarrow> (case verify_form op of Some v \<Rightarrow> rev rest @ [Op v] | None \<Rightarrow> is @ [Op OP_VERIFY])
      | _ \<Rightarrow> is @ [Op OP_VERIFY])"

definition op_instruction :: "opcode \<Rightarrow> instruction" where
  "op_instruction op = (if op = OP_PUSHBYTES_0 then PushBytes [] else Op op)"

fun instruction_size :: "instruction \<Rightarrow> nat" where
  "instruction_size (Op _) = 1"
| "instruction_size (PushBytes bs) =
     length bs + (if length bs < 76 then 1 else if length bs < 256 then 2 else if length bs < 65536 then 3 else 5)"

text \<open>What the documentation of \<open>script::Builder\<close> and \<open>Script::instructions\<close> promises; an extension pushes something.\<close>

definition builder_ok :: "('b, 'pk, 'h, 'e) builder \<Rightarrow> bool" where
  "builder_ok B \<longleftrightarrow>
     instructions B (builder_new B) = []
     \<and> (\<forall>b op. instructions B (push_opcode B b op) = instructions B b @ [op_instruction op])
     \<and> (\<forall>b n. instructions B (push_int B b n) = instructions B b @ [int_instruction n])
     \<and> (\<forall>b bs. instructions B (push_slice B b bs) = instructions B b @ [PushBytes bs])
     \<and> (\<forall>b pk. instructions B (push_key B b pk) = instructions B b @ [PushBytes (full_key_bytes B pk)])
     \<and> (\<forall>b. instructions B (push_verify B b) = add_verify (instructions B b))
     \<and> (\<forall>e b. instructions B (push_to_builder B e b) = instructions B b @ ext_instructions B e)
     \<and> (\<forall>e. ext_instructions B e \<noteq> [])
     \<and> (\<forall>b. script_len B b = sum_list (map instruction_size (instructions B b)))"

lemma builder_simps:
  assumes "builder_ok B"
  shows "instructions B (builder_new B) = []"
    "instructions B (push_opcode B b op) = instructions B b @ [op_instruction op]"
    "instructions B (push_int B b n) = instructions B b @ [int_instruction n]"
    "instructions B (push_slice B b bs) = instructions B b @ [PushBytes bs]"
    "instructions B (push_key B b pk) = instructions B b @ [PushBytes (full_key_bytes B pk)]"
    "instructions B (push_verify B b) = add_verify (instructions B b)"
    "instructions B (push_to_builder B e b) = instructions B b @ ext_instructions B e"
    "ext_instructions B e \<noteq> []"
    "script_len B b = sum_list (map instruction_size (instructions B b))"
  using assms by (simp_all add: builder_ok_def)

end
