(* ===== verification/Errors.thy ===== *)
theory Errors
  imports Script Policy_Semantic
begin

text \<open>
  Tokens of the script lexer (\<open>miniscript/lex.rs\<close>) and the error types of the crate: \<open>ScriptContextError\<close>
  (\<open>miniscript/context.rs\<close>), \<open>AnalysisError\<close> (\<open>miniscript/analyzable.rs\<close>), \<open>LiftError\<close> (\<open>policy/mod.rs\<close>) and the
  variants of \<open>Error\<close> (\<open>lib.rs\<close>) that the modelled code returns. Where the code formats a value
  into a message, the error carries the value itself.
\<close>

text \<open>The tokens without data come in three enumerations, like the opcodes.\<close>

datatype (plugins only: code) crypto_token =
    t_BoolAnd | t_BoolOr | t_Add | t_Sub | t_Equal | t_NumEqual | t_CheckSig | t_CheckSigFromStack
    | t_CheckSigAdd | t_CheckSigFromStackVerify | t_CheckMultiSig | t_CheckSequenceVerify
    | t_CheckLockTimeVerify | t_Ripemd160Tk | t_Hash160Tk | t_Sha256Tk | t_Hash256Tk

datatype (plugins only: code) stack_token =
    t_FromAltStack | t_ToAltStack | t_Left | t_Cat | t_CodeSep | t_Over | t_Pick | t_Depth | t_Drop | t_Dup
    | t_If | t_IfDup | t_NotIf | t_Else | t_EndIf | t_ZeroNotEqualTk | t_Size | t_SwapTk | t_VerifyTk | t_Nip
    | t_Dup2

datatype (plugins only: code) elements_token =
    t_InpValue | t_OutValue | t_InpIssue | t_Leq64 | t_Le64 | t_Geq64 | t_Ge64 | t_Neg64 | t_Div64 | t_Mul64
    | t_Sub64 | t_Add64 | t_And | t_Or | t_Xor | t_Invert | t_CurrInp | t_InpAsset | t_OutAsset | t_OutSpk
    | t_InpSpk | t_NumNeg1 | t_ScriptNumToLe64 | t_Le64ToScriptNum

datatype (plugins only: code) token =
    Num u32
  | Hash20 bytes
  | Bytes8 bytes
  | Bytes32 bytes
  | Bytes33 bytes
  | Bytes65 bytes
  | Push bytes
  | PickPush4 u32
  | PickPush32 bytes
  | PickPush bytes
  | CryptoTk crypto_token
  | StackTk stack_token
  | ElementsTk elements_token

abbreviation BoolAnd :: token where "BoolAnd \<equiv> CryptoTk t_BoolAnd"
abbreviation BoolOr :: token where "BoolOr \<equiv> CryptoTk t_BoolOr"
abbreviation Add :: token where "Add \<equiv> CryptoTk t_Add"
abbreviation Sub :: token where "Sub \<equiv> CryptoTk t_Sub"
abbreviation Equal :: token where "Equal \<equiv> CryptoTk t_Equal"
abbreviation NumEqual :: token where "NumEqual \<equiv> CryptoTk t_NumEqual"
abbreviation CheckSig :: token where "CheckSig \<equiv> CryptoTk t_CheckSig"
abbreviation CheckSigFromStack :: token where "CheckSigFromStack \<equiv> CryptoTk t_CheckSigFromStack"
abbreviation CheckSigAdd :: token where "CheckSigAdd \<equiv> CryptoTk t_CheckSigAdd"
abbreviation CheckSigFromStackVerify :: token where "CheckSigFromStackVerify \<equiv> CryptoTk t_CheckSigFromStackVerify"
abbreviation CheckMultiSig :: token where "CheckMultiSig \<equiv> CryptoTk t_CheckMultiSig"
abbreviation CheckSequenceVerify :: token where "CheckSequenceVerify \<equiv> CryptoTk t_CheckSequenceVerify"
abbreviation CheckLockTimeVerify :: token where "CheckLockTimeVerify \<equiv> CryptoTk t_CheckLockTimeVerify"
abbreviation Ripemd160Tk :: token where "Ripemd160Tk \<equiv> CryptoTk t_Ripemd160Tk"
abbreviation Hash160Tk :: token where "Hash160Tk \<equiv> CryptoTk t_Hash160Tk"
abbreviation Sha256Tk :: token where "Sha256Tk \<equiv> CryptoTk t_Sha256Tk"
abbreviation Hash256Tk :: token where "Hash256Tk \<equiv> CryptoTk t_Hash256Tk"
abbreviation FromAltStack :: token where "FromAltStack \<equiv> StackTk t_FromAltStack"
abbreviation ToAltStack :: token where "ToAltStack \<equiv> StackTk t_ToAltStack"
abbreviation Left :: token where "Left \<equiv> StackTk t_Left"
abbreviation Cat :: token where "Cat \<equiv> StackTk t_Cat"
abbreviation CodeSep :: token where "CodeSep \<equiv> StackTk t_CodeSep"
abbreviation Over :: token where "Over \<equiv> StackTk t_Over"
abbreviation Pick :: token where "Pick \<equiv> StackTk t_Pick"
abbreviation Depth :: token where "Depth \<equiv> StackTk t_Depth"
abbreviation Drop :: token where "Drop \<equiv> StackTk t_Drop"
abbreviation Dup :: token where "Dup \<equiv> StackTk t_Dup"
abbreviation If :: token where "If \<equiv> StackTk t_If"
abbreviation IfDup :: token where "IfDup \<equiv> StackTk t_IfDup"
abbreviation NotIf :: token where "NotIf \<equiv> StackTk t_NotIf"
abbreviation Else :: token where "Else \<equiv> StackTk t_Else"
abbreviation EndIf :: token where "EndIf \<equiv> StackTk t_EndIf"
abbreviation ZeroNotEqualTk :: token where "ZeroNotEqualTk \<equiv> StackTk t_ZeroNotEqualTk"
abbreviation Size :: token where "Size \<equiv> StackTk t_Size"
abbreviation SwapTk :: token where "SwapTk \<equiv> StackTk t_SwapTk"
abbreviation VerifyTk :: token where "VerifyTk \<equiv> StackTk t_VerifyTk"
abbreviation Nip :: token where "Nip \<equiv> StackTk t_Nip"
abbreviation Dup2 :: token where "Dup2 \<equiv> StackTk t_Dup2"
abbreviation InpValue :: token where "InpValue \<equiv> ElementsTk t_InpValue"
abbreviation OutValue :: token where "OutValue \<equiv> ElementsTk t_OutValue"
abbreviation InpIssue :: token where "InpIssue \<equiv> ElementsTk t_InpIssue"
abbreviation Leq64 :: token where "Leq64 \<equiv> ElementsTk t_Leq64"
abbreviation Le64 :: token where "Le64 \<equiv> ElementsTk t_Le64"
abbreviation Geq64 :: token where "Geq64 \<equiv> ElementsTk t_Geq64"
abbreviation Ge64 :: token where "Ge64 \<equiv> ElementsTk t_Ge64"
abbreviation Neg64 :: token where "Neg64 \<equiv> ElementsTk t_Neg64"
abbreviation Div64 :: token where "Div64 \<equiv> ElementsTk t_Div64"
abbreviation Mul64 :: token where "Mul64 \<equiv> ElementsTk t_Mul64"
abbreviation Sub64 :: token where "Sub64 \<equiv> ElementsTk t_Sub64"
abbreviation Add64 :: token where "Add64 \<equiv> ElementsTk t_Add64"
abbreviation And :: token where "And \<equiv> ElementsTk t_And"
abbreviation Or :: token where "Or \<equiv> ElementsTk t_Or"
abbreviation Xor :: token where "Xor \<equiv> ElementsTk t_Xor"
abbreviation Invert :: token where "Invert \<equiv> ElementsTk t_Invert"
abbreviation CurrInp :: token where "CurrInp \<equiv> ElementsTk t_CurrInp"
abbreviation InpAsset :: token where "InpAsset \<equiv> ElementsTk t_InpAsset"
abbreviation OutAsset :: token where "OutAsset \<equiv> ElementsTk t_OutAsset"
abbreviation OutSpk :: token where "OutSpk \<equiv> ElementsTk t_OutSpk"
abbreviation InpSpk :: token where "InpSpk \<equiv> ElementsTk t_InpSpk"
abbreviation NumNeg1 :: token where "NumNeg1 \<equiv> ElementsTk t_NumNeg1"
abbreviation ScriptNumToLe64 :: token where "ScriptNumToLe64 \<equiv> ElementsTk t_ScriptNumToLe64"
abbreviation Le64ToScriptNum :: token where "Le64ToScriptNum \<equiv> ElementsTk t_Le64ToScriptNum"

datatype script_context_error =
    MalleablePkH
  | MalleableOrI
  | MalleableDupIf
  | CompressedOnly string
  | XOnlyKeysNotAllowed string string
  | UncompressedKeysNotAllowed
  | MaxWitnessItemssExceeded nat nat
  | MaxOpCountExceeded
  | MaxWitnessScriptSizeExceeded
  | MaxRedeemScriptSizeExceeded
  | MaxScriptSigSizeExceeded
  | ContextImpossibleSatisfaction
  | CovElementSizeExceeded
  | TaprootMultiDisabled
  | StackSizeLimitExceeded nat nat
  | CheckMultiSigLimitExceeded
  | MultiANotAllowed
  | ExtensionError string

datatype analysis_error =
    SiglessBranch
  | RepeatedPubkeys
  | BranchExceedResouceLimits
  | AnalysisHeightTimelockCombination
  | Malleable
  | ContainsRawPkh

datatype lift_error =
    HeightTimelockCombination
  | BranchExceedResourceLimits
  | RawDescriptorLift

datatype crate_error =
    InvalidOpcode opcode
  | NonMinimalVerify token
  | InvalidPush bytes
  | ScriptError
  | CmsTooManyKeys u32
  | MultiATooManyKeys u32
  | ExpectedChar char
  | UnexpectedStart
  | Unexpected string
  | UnexpectedToken token
  | MultiColon string
  | MultiAt string
  | AtOutsideOr string
  | LikelyFalse
  | UnknownWrapper char
  | NonTopLevel
  | Trailing token
  | TypeCheck error_kind
  | BadDescriptor string
  | BtcError
  | PolicyError policy_error
  | LiftError lift_error
  | ContextError script_context_error
  | MaxRecursiveDepthExceeded
  | NonStandardBareScript
  | AnalysisError analysis_error
  | ImpossibleSatisfaction
  | CovenantLift
  | PubKeyCtxError string

definition map_err :: "('a \<Rightarrow> 'b) \<Rightarrow> 'a + 'c \<Rightarrow> 'b + 'c" where
  "map_err f r = (case r of Inl e \<Rightarrow> Inl (f e) | Inr x \<Rightarrow> Inr x)"

lemma map_err_Inr [simp]: "map_err f r = Inr x \<longleftrightarrow> r = Inr x"
  by (auto simp: map_err_def split: sum.splits)

end
