(* ===== verification/Lexer.thy ===== *)
theory Lexer
  imports Errors
begin

text \<open>
  The lexer (\<open>miniscript/lex.rs\<close>): instructions to tokens, with the look-behind for
  \<open>OP_VERIFY\<close>, \<open>OP_CAT\<close> and pushes after \<open>OP_PICK\<close>. The vector \<open>ret\<close> is kept with its last element first.
  The iterator of instructions, \<open>read_scriptint\<close> and the encoding of \<open>push_int\<close> are third-party code;
  the latter two are fields of \<open>lex_lib\<close>.
\<close>

section \<open>Tokenizing a script\<close>

text \<open>\<open>push_int_tail v\<close> is \<open>Builder::new().push_int(v).into_script()[1..]\<close>.\<close>

record lex_lib =
  read_scriptint :: "bytes \<Rightarrow> int option"
  push_int_tail :: "int \<Rightarrow> bytes"

text \<open>\<open>process_candidate_push\<close>: a push before \<open>OP_SWAP OP_CAT\<close> is data, not a number or a hash.\<close>

fun push_data :: "token \<Rightarrow> bytes option" where
  "push_data (Hash20 x) = Some x"
| "push_data (Bytes32 x) = Some x"
| "push_data (Bytes33 x) = Some x"
| "push_data (Bytes65 x) = Some x"
| "push_data (Num k) = Some (build_scriptint (uint k))"
| "push_data _ = None"

definition process_candidate_push :: "token list \<Rightarrow> token list" where
  "process_candidate_push ret =
     (case ret of
        t # u # rest \<Rightarrow>
          if t \<noteq> SwapTk then ret
          else (case push_data u of None \<Rightarrow> ret | Some x \<Rightarrow> t # Push x # rest)
      | _ \<Rightarrow> ret)"

text \<open>The opcodes that always yield the same tokens; \<open>None\<close> is the last arm of the match.\<close>

fun op_tokens :: "opcode \<Rightarrow> token list option" where
  "op_tokens OP_BOOLAND = Some [BoolAnd]"
| "op_tokens OP_BOOLOR = Some [BoolOr]"
| "op_tokens OP_EQUAL = Some [Equal]"
| "op_tokens OP_EQUALVERIFY = Some [Equal, VerifyTk]"
| "op_tokens OP_NUMEQUAL = Some [NumEqual]"
| "op_tokens OP_NUMEQUALVERIFY = Some [NumEqual, VerifyTk]"
| "op_tokens OP_CHECKSIG = Some [CheckSig]"
| "op_tokens OP_CHECKSIGFROMSTACK = Some [CheckSigFromStack]"
| "op_tokens OP_CHECKSIGFROMSTACKVERIFY = Some [CheckSigFromStackVerify]"
| "op_tokens OP_CHECKSIGVERIFY = Some [CheckSig, VerifyTk]"
| "op_tokens OP_CHECKSIGADD = Some [CheckSigAdd]"
| "op_tokens OP_INSPECTINPUTVALUE = Some [InpValue]"
| "op_tokens OP_INSPECTOUTPUTVALUE = Some [OutValue]"
| "op_tokens OP_INSPECTINPUTASSET = Some [InpAsset]"
| "op_tokens OP_INSPECTOUTPUTASSET = Some [OutAsset]"
| "op_tokens OP_INSPECTINPUTSCRIPTPUBKEY = Some [InpSpk]"
| "op_tokens OP_INSPECTOUTPUTSCRIPTPUBKEY = Some [OutSpk]"
| "op_tokens OP_INSPECTINPUTISSUANCE = Some [InpIssue]"
| "op_tokens OP_PUSHCURRENTINPUTINDEX = Some [CurrInp]"
| "op_tokens OP_ADD64 = Some [Add64]"
| "op_tokens OP_SUB64 = Some [Sub64]"
| "op_tokens OP_MUL64 = Some [Mul64]"
| "op_tokens OP_DIV64 = Some [Div64]"
| "op_tokens OP_NEG64 = Some [Neg64]"
| "op_tokens OP_GREATERTHAN64 = Some [Ge64]"
| "op_tokens OP_GREATERTHANOREQUAL64 = Some [Geq64]"
| "op_tokens OP_LESSTHAN64 = Some [Le64]"
| "op_tokens OP_LESSTHANOREQUAL64 = Some [Leq64]"
| "op_tokens OP_AND = Some [And]"
| "op_tokens OP_OR = Some [Or]"
| "op_tokens OP_XOR = Some [Xor]"
| "op_tokens OP_INVERT = Some [Invert]"
| "op_tokens OP_SCRIPTNUMTOLE64 = Some [ScriptNumToLe64]"
| "op_tokens OP_LE64TOSCRIPTNUM = Some [Le64ToScriptNum]"
| "op_tokens OP_CHECKMULTISIG = Some [CheckMultiSig]"
| "op_tokens OP_CHECKMULTISIGVERIFY = Some [CheckMultiSig, VerifyTk]"
| "op_tokens OP_CSV = Some [CheckSequenceVerify]"
| "op_tokens OP_CLTV = Some [CheckLockTimeVerify]"
| "op_tokens OP_FROMALTSTACK = Some [FromAltStack]"
| "op_tokens OP_TOALTSTACK = Some [ToAltStack]"
| "op_tokens OP_LEFT = Some [Left]"
| "op_tokens OP_2DUP = Some [Dup2]"
| "op_tokens OP_CODESEPARATOR = Some [CodeSep]"
| "op_tokens OP_OVER = Some [Over]"
| "op_tokens OP_NIP = Some [Nip]"
| "op_tokens OP_PICK = Some [Pick]"
| "op_tokens OP_DROP = Some [Drop]"
| "op_tokens OP_DEPTH = Some [Depth]"
| "op_tokens OP_DUP = Some [Dup]"
| "op_tokens OP_ADD = Some [Add]"
| "op_tokens OP_SUB = Some [Sub]"
| "op_tokens OP_IF = Some [If]"
| "op_tokens OP_IFDUP = Some [IfDup]"
| "op_tokens OP_NOTIF = Some [NotIf]"
| "op_tokens OP_ELSE = Some [Else]"
| "op_tokens OP_ENDIF = Some [EndIf]"
| "op_tokens OP_0NOTEQUAL = Some [ZeroNotEqualTk]"
| "op_tokens OP_SIZE = Some [Size]"
| "op_tokens OP_SWAP = Some [SwapTk]"
| "op_tokens OP_RIPEMD160 = Some [Ripemd160Tk]"
| "op_tokens OP_HASH160 = Some [Hash160Tk]"
| "op_tokens OP_SHA256 = Some [Sha256Tk]"
| "op_tokens OP_HASH256 = Some [Hash256Tk]"
| "op_tokens OP_PUSHNUM_NEG1 = Some [NumNeg1]"
| "op_tokens OP_PUSHBYTES_0 = Some [Num 0]"
| "op_tokens (OP_PUSHNUM n) = (if 1 \<le> n \<and> n \<le> 16 then Some [Num (of_nat n)] else None)"
| "op_tokens _ = None"

text \<open>A push that does not follow \<open>OP_PICK\<close>: the most specific token its length allows.\<close>

definition lex_number :: "lex_lib \<Rightarrow> bytes \<Rightarrow> crate_error + token" where
  "lex_number L bs =
     (case read_scriptint L bs of
        Some v \<Rightarrow>
          if v \<ge> 0 then (if push_int_tail L v \<noteq> bs then Inl (InvalidPush bs) else Inr (Num (word_of_int v)))
          else Inr (Push bs)
      | None \<Rightarrow> Inr (Push bs))"

definition lex_push :: "lex_lib \<Rightarrow> token list \<Rightarrow> bytes \<Rightarrow> crate_error + token list" where
  "lex_push L ret bs =
     (if ret \<noteq> [] \<and> hd ret = Pick then
        (if length bs = 4 then Inr (PickPush4 (the (slice_to_u32_le bs)) # tl ret)
         else if length bs = 32 then Inr (PickPush32 bs # tl ret)
         else Inl (InvalidPush bs))
      else if length bs = 8 then Inr (Bytes8 bs # ret)
      else if length bs = 20 then Inr (Hash20 bs # ret)
      else if length bs = 32 then Inr (Bytes32 bs # ret)
      else if length bs = 33 then Inr (Bytes33 bs # ret)
      else if length bs = 65 then Inr (Bytes65 bs # ret)
      else bind_res (lex_number L bs) (\<lambda>tok. Inr (tok # ret)))"

definition lex_instruction :: "lex_lib \<Rightarrow> token list \<Rightarrow> instruction \<Rightarrow> crate_error + token list" where
  "lex_instruction L ret ins =
     (case ins of
        PushBytes bs \<Rightarrow> lex_push L ret bs
      | Op op \<Rightarrow>
          if op = OP_CAT then Inr (Cat # process_candidate_push ret)
          else if op = OP_VERIFY then
            (if ret \<noteq> [] \<and> hd ret \<in> {Equal, CheckSig, CheckMultiSig} then Inl (NonMinimalVerify (hd ret))
             else Inr (VerifyTk # ret))
          else (case op_tokens op of
                  Some ts \<Rightarrow> Inr (rev ts @ ret)
                | None \<Rightarrow> Inl (InvalidOpcode op)))"

text \<open>An \<open>Inl\<close> among the instructions is an error of the instruction iterator.\<close>

fun lex_loop :: "lex_lib \<Rightarrow> token list \<Rightarrow> (unit + instruction) list \<Rightarrow> crate_error + token list" where
  "lex_loop L ret [] = Inr (rev ret)"
| "lex_loop L ret (Inl e # rest) = Inl ScriptError"
| "lex_loop L ret (Inr ins # rest) = bind_res (lex_instruction L ret ins) (\<lambda>ret'. lex_loop L ret' rest)"

definition lex :: "lex_lib \<Rightarrow> (unit + instruction) list \<Rightarrow> crate_error + token list" where
  "lex L script = lex_loop L [] script"

section \<open>The token iterator\<close>

text \<open>
  \<open>TokenIter\<close> reads the vector of tokens from its end; here the list has the next token first, so
  \<open>TokenIter::new\<close> reverses and \<open>un_next\<close> conses.
\<close>

type_synonym token_iter = "token list"

definition token_iter_new :: "token list \<Rightarrow> token_iter" where
  "token_iter_new v = rev v"

definition token_peek :: "token_iter \<Rightarrow> token option" where
  "token_peek it = (case it of [] \<Rightarrow> None | t # _ \<Rightarrow> Some t)"

definition token_peek_slice :: "token_iter \<Rightarrow> nat \<Rightarrow> token list option" where
  "token_peek_slice it n = (if n \<le> length it then Some (rev (take n it)) else None)"

definition token_advance :: "token_iter \<Rightarrow> nat \<Rightarrow> (unit option \<times> token_iter)" where
  "token_advance it n = (if n \<le> length it then (Some (), drop n it) else (None, it))"

lemma peek_advance:
  assumes "token_peek_slice it n = Some ts"
  shows "rev it = rev (snd (token_advance it n)) @ ts"
proof -
  have "n \<le> length it" and ts: "ts = rev (take n it)"
    using assms by (auto simp: token_peek_slice_def split: if_splits)
  moreover have "rev it = rev (drop n it) @ rev (take n it)"
    by (metis append_take_drop_id rev_append)
  ultimately show ?thesis by (simp add: token_advance_def)
qed

section \<open>What tokens stand for\<close>

text \<open>What the documentation of the script library promises.\<close>

definition lex_lib_ok :: "lex_lib \<Rightarrow> bool" where
  "lex_lib_ok L \<longleftrightarrow>
     (\<forall>n. \<bar>n\<bar> < 2 ^ 31 \<longrightarrow> read_scriptint L (build_scriptint n) = Some n)
     \<and> (\<forall>v. push_int_tail L v = (if -1 \<le> v \<and> v \<le> 16 then [] else build_scriptint v))"

end
