(* ===== verification/Context.thy ===== *)
theory Context
  imports Errors Translate
begin

text \<open>
  Script contexts (\<open>miniscript/context.rs\<close>), the limits they enforce (\<open>miniscript/limits.rs\<close>) and the
  analysis built on them (\<open>miniscript/analyzable.rs\<close>). A context is a value of \<open>script_ctx\<close>; each trait
  method is one definition with a case per implementation. Keys answer through the record \<open>key_info\<close>,
  extensions through \<open>ext_checks\<close>; a panic is \<open>None\<close>.
\<close>

section \<open>Limits\<close>

definition MAX_OPS_PER_SCRIPT :: nat where "MAX_OPS_PER_SCRIPT = 201"
definition MAX_STANDARD_P2WSH_STACK_ITEMS :: nat where "MAX_STANDARD_P2WSH_STACK_ITEMS = 100"
definition MAX_SCRIPT_SIZE :: nat where "MAX_SCRIPT_SIZE = 10000"
definition MAX_STANDARD_P2WSH_SCRIPT_SIZE :: nat where "MAX_STANDARD_P2WSH_SCRIPT_SIZE = 3600"
definition MAX_SCRIPT_ELEMENT_SIZE :: nat where "MAX_SCRIPT_ELEMENT_SIZE = 520"
definition MAX_SCRIPTSIG_SIZE :: nat where "MAX_SCRIPTSIG_SIZE = 1650"
definition MAX_STACK_SIZE :: nat where "MAX_STACK_SIZE = 1000"
definition MAX_BLOCK_WEIGHT :: nat where "MAX_BLOCK_WEIGHT = 4000000"
definition MAX_PUBKEYS_PER_MULTISIG :: nat where "MAX_PUBKEYS_PER_MULTISIG = 20"

lemmas limit_defs = MAX_OPS_PER_SCRIPT_def MAX_STANDARD_P2WSH_STACK_ITEMS_def MAX_SCRIPT_SIZE_def
  MAX_STANDARD_P2WSH_SCRIPT_SIZE_def MAX_SCRIPT_ELEMENT_SIZE_def MAX_SCRIPTSIG_SIZE_def MAX_STACK_SIZE_def
  MAX_BLOCK_WEIGHT_def MAX_PUBKEYS_PER_MULTISIG_def

section \<open>The contexts\<close>

datatype script_ctx = Legacy | Segwitv0 | Tap | BareCtx | NoChecks

record 'pk key_info =
  is_uncompressed :: "'pk \<Rightarrow> bool"
  is_x_only_key :: "'pk \<Rightarrow> bool"
  key_to_string :: "'pk \<Rightarrow> string"

record 'e ext_checks =
  segwit_ctx_checks :: "'e \<Rightarrow> script_context_error + unit"
  tap_ctx_checks :: "'e \<Rightarrow> script_context_error + unit"

fun ctx_sig_type :: "script_ctx \<Rightarrow> sig_type" where
  "ctx_sig_type Tap = Schnorr"
| "ctx_sig_type _ = Ecdsa"

fun name_str :: "script_ctx \<Rightarrow> string" where
  "name_str Legacy = ''Legacy/p2sh''"
| "name_str Segwitv0 = ''Segwitv0''"
| "name_str Tap = ''TapscriptCtx''"
| "name_str BareCtx = ''BareCtx''"
| "name_str NoChecks = ''NochecksEcdsa''"

fun pk_len :: "'pk key_info \<Rightarrow> script_ctx \<Rightarrow> 'pk \<Rightarrow> nat option" where
  "pk_len K Legacy pk = Some (if is_uncompressed K pk then 66 else 34)"
| "pk_len K Segwitv0 pk = Some 34"
| "pk_len K Tap pk = Some 33"
| "pk_len K BareCtx pk = Some (if is_uncompressed K pk then 66 else 34)"
| "pk_len K NoChecks pk = None"

fun ctx_max_satisfaction_size :: "script_ctx \<Rightarrow> ('pk, 'h, 'e) miniscript \<Rightarrow> nat option option" where
  "ctx_max_satisfaction_size Legacy ms = Some (map_option snd (max_sat_size (ext ms)))"
| "ctx_max_satisfaction_size Segwitv0 ms = Some (map_option fst (max_sat_size (ext ms)))"
| "ctx_max_satisfaction_size Tap ms = Some (map_option fst (max_sat_size (ext ms)))"
| "ctx_max_satisfaction_size BareCtx ms = Some (map_option snd (max_sat_size (ext ms)))"
| "ctx_max_satisfaction_size NoChecks ms = None"

definition max_satisfaction_witness_elements :: "('pk, 'h, 'e) miniscript \<Rightarrow> crate_error + nat" where
  "max_satisfaction_witness_elements ms =
     (case stack_elem_count_sat (ext ms) of None \<Rightarrow> Inl ImpossibleSatisfaction | Some x \<Rightarrow> Inr (x + 1))"

definition ms_max_satisfaction_size :: "script_ctx \<Rightarrow> ('pk, 'h, 'e) miniscript \<Rightarrow> (crate_error + nat) option" where
  "ms_max_satisfaction_size ctx ms =
     map_option (\<lambda>r. case r of None \<Rightarrow> Inl ImpossibleSatisfaction | Some x \<Rightarrow> Inr x) (ctx_max_satisfaction_size ctx ms)"

section \<open>Checks of a node\<close>

fun check_terminal_non_malleable :: "script_ctx \<Rightarrow> ('pk, 'h, 'e) terminal \<Rightarrow> script_context_error + unit" where
  "check_terminal_non_malleable Legacy (PkH _) = Inl MalleablePkH"
| "check_terminal_non_malleable Legacy (RawPkH _) = Inl MalleablePkH"
| "check_terminal_non_malleable Legacy (OrI _ _) = Inl MalleableOrI"
| "check_terminal_non_malleable Legacy (DupIf _) = Inl MalleableDupIf"
| "check_terminal_non_malleable _ _ = Inr ()"

text \<open>\<open>ctx_check_witness\<close>; the length of the scriptSig is that of \<open>witness_to_scriptsig\<close>.\<close>

fun ctx_check_witness :: "('b, 'pk, 'h, 'e) builder \<Rightarrow> (bytes \<Rightarrow> int option) \<Rightarrow> script_ctx \<Rightarrow> bytes list \<Rightarrow>
    script_context_error + unit" where
  "ctx_check_witness B rd Legacy w =
     (if script_len B (witness_to_scriptsig B rd w) > MAX_SCRIPTSIG_SIZE then Inl MaxScriptSigSizeExceeded else Inr ())"
| "ctx_check_witness B rd Segwitv0 w =
     (if length w > MAX_STANDARD_P2WSH_STACK_ITEMS
      then Inl (MaxWitnessItemssExceeded (length w) MAX_STANDARD_P2WSH_STACK_ITEMS) else Inr ())"
| "ctx_check_witness B rd Tap w =
     (if length w > MAX_STACK_SIZE then Inl (MaxWitnessItemssExceeded (length w) MAX_STACK_SIZE) else Inr ())"
| "ctx_check_witness B rd _ w = Inr ()"

text \<open>The loop over the keys of a \<open>multi\<close> in the contexts that only reject x-only keys.\<close>

fun no_x_only :: "'pk key_info \<Rightarrow> script_ctx \<Rightarrow> 'pk list \<Rightarrow> script_context_error + unit" where
  "no_x_only K ctx [] = Inr ()"
| "no_x_only K ctx (pk # pks) =
     (if is_x_only_key K pk then Inl (XOnlyKeysNotAllowed (key_to_string K pk) (name_str ctx)) else no_x_only K ctx pks)"

fun compressed_only :: "'pk key_info \<Rightarrow> 'pk list \<Rightarrow> script_context_error + unit" where
  "compressed_only K [] = Inr ()"
| "compressed_only K (pk # pks) =
     (if is_uncompressed K pk then Inl (CompressedOnly (key_to_string K pk))
      else if is_x_only_key K pk then Inl (XOnlyKeysNotAllowed (key_to_string K pk) (name_str Segwitv0))
      else compressed_only K pks)"

definition check_legacy_keys :: "'pk key_info \<Rightarrow> script_ctx \<Rightarrow> ('pk, 'h, 'e) terminal \<Rightarrow> script_context_error + unit" where
  "check_legacy_keys K ctx t =
     (case t of
        PkK key \<Rightarrow>
          if is_x_only_key K key then Inl (XOnlyKeysNotAllowed (key_to_string K key) (name_str ctx)) else Inr ()
      | Multi _ pks \<Rightarrow>
          if length pks > MAX_PUBKEYS_PER_MULTISIG then Inl CheckMultiSigLimitExceeded else no_x_only K ctx pks
      | MultiA _ _ \<Rightarrow> Inl MultiANotAllowed
      | _ \<Rightarrow> Inr ())"

definition check_segwit_keys :: "'pk key_info \<Rightarrow> 'e ext_checks \<Rightarrow> ('pk, 'h, 'e) terminal \<Rightarrow> script_context_error + unit" where
  "check_segwit_keys K X t =
     (case t of
        PkK pk \<Rightarrow> compressed_only K [pk]
      | Multi _ pks \<Rightarrow>
          if length pks > MAX_PUBKEYS_PER_MULTISIG then Inl CheckMultiSigLimitExceeded else compressed_only K pks
      | ExtT e \<Rightarrow> segwit_ctx_checks X e
      | MultiA _ _ \<Rightarrow> Inl MultiANotAllowed
      | _ \<Rightarrow> Inr ())"

definition check_tap_keys :: "'pk key_info \<Rightarrow> 'e ext_checks \<Rightarrow> ('pk, 'h, 'e) terminal \<Rightarrow> script_context_error + unit" where
  "check_tap_keys K X t =
     (case t of
        PkK pk \<Rightarrow> if is_uncompressed K pk then Inl UncompressedKeysNotAllowed else Inr ()
      | Multi _ _ \<Rightarrow> Inl TaprootMultiDisabled
      | ExtT e \<Rightarrow> tap_ctx_checks X e
      | _ \<Rightarrow> Inr ())"

abbreviation is_ext :: "('pk, 'h, 'e) terminal \<Rightarrow> bool" where
  "is_ext t \<equiv> (case t of ExtT _ \<Rightarrow> True | _ \<Rightarrow> False)"

fun check_global_consensus_validity ::
    "'pk key_info \<Rightarrow> 'e ext_checks \<Rightarrow> script_ctx \<Rightarrow> ('pk, 'h, 'e) miniscript \<Rightarrow> script_context_error + unit" where
  "check_global_consensus_validity K X Legacy ms =
     (if pk_cost (ext ms) > MAX_SCRIPT_ELEMENT_SIZE then Inl MaxRedeemScriptSizeExceeded
      else bind_res (check_legacy_keys K Legacy (node ms)) (\<lambda>_.
        if is_ext (node ms) then Inl (ExtensionError ''No Extensions in Legacy context'') else Inr ()))"
| "check_global_consensus_validity K X Segwitv0 ms =
     (if pk_cost (ext ms) > MAX_SCRIPT_SIZE then Inl MaxWitnessScriptSizeExceeded
      else check_segwit_keys K X (node ms))"
| "check_global_consensus_validity K X Tap ms =
     (if pk_cost (ext ms) > MAX_BLOCK_WEIGHT then Inl MaxWitnessScriptSizeExceeded
      else check_tap_keys K X (node ms))"
| "check_global_consensus_validity K X BareCtx ms =
     (if pk_cost (ext ms) > MAX_SCRIPT_SIZE then Inl MaxWitnessScriptSizeExceeded
      else if is_ext (node ms) then Inl (ExtensionError ''No Extensions in Bare context'')
      else check_legacy_keys K BareCtx (node ms))"
| "check_global_consensus_validity K X NoChecks ms = Inr ()"

fun check_global_policy_validity :: "script_ctx \<Rightarrow> ('pk, 'h, 'e) miniscript \<Rightarrow> script_context_error + unit" where
  "check_global_policy_validity Segwitv0 ms =
     (if pk_cost (ext ms) > MAX_STANDARD_P2WSH_SCRIPT_SIZE then Inl MaxWitnessScriptSizeExceeded else Inr ())"
| "check_global_policy_validity _ ms = Inr ()"

definition check_op_count :: "('pk, 'h, 'e) miniscript \<Rightarrow> script_context_error + unit" where
  "check_op_count ms =
     (case op_count (ops (ext ms)) of
        None \<Rightarrow> Inl MaxOpCountExceeded
      | Some n \<Rightarrow> if n > MAX_OPS_PER_SCRIPT then Inl MaxOpCountExceeded else Inr ())"

fun check_local_consensus_validity :: "script_ctx \<Rightarrow> ('pk, 'h, 'e) miniscript \<Rightarrow> script_context_error + unit" where
  "check_local_consensus_validity Tap ms =
     (case (exec_stack_elem_count_sat (ext ms), stack_elem_count_sat (ext ms)) of
        (Some s, Some h) \<Rightarrow>
          if s + h > MAX_STACK_SIZE then Inl (StackSizeLimitExceeded (s + h) MAX_STACK_SIZE) else Inr ()
      | _ \<Rightarrow> Inr ())"
| "check_local_consensus_validity NoChecks ms = Inr ()"
| "check_local_consensus_validity _ ms = check_op_count ms"

fun check_local_policy_validity :: "script_ctx \<Rightarrow> ('pk, 'h, 'e) miniscript \<Rightarrow> script_context_error + unit" where
  "check_local_policy_validity Legacy ms =
     (case ms_max_satisfaction_size Legacy ms of
        Some (Inr n) \<Rightarrow> if n > MAX_SCRIPTSIG_SIZE then Inl MaxScriptSigSizeExceeded else Inr ()
      | _ \<Rightarrow> Inl ContextImpossibleSatisfaction)"
| "check_local_policy_validity Segwitv0 ms =
     (case max_satisfaction_witness_elements ms of
        Inl _ \<Rightarrow> Inl ContextImpossibleSatisfaction
      | Inr n \<Rightarrow>
          if n > MAX_STANDARD_P2WSH_STACK_ITEMS
          then Inl (MaxWitnessItemssExceeded n MAX_STANDARD_P2WSH_STACK_ITEMS) else Inr ())"
| "check_local_policy_validity _ ms = Inr ()"

definition check_global_validity ::
    "'pk key_info \<Rightarrow> 'e ext_checks \<Rightarrow> script_ctx \<Rightarrow> ('pk, 'h, 'e) miniscript \<Rightarrow> script_context_error + unit" where
  "check_global_validity K X ctx ms =
     bind_res (check_global_consensus_validity K X ctx ms) (\<lambda>_. check_global_policy_validity ctx ms)"

definition check_local_validity ::
    "'pk key_info \<Rightarrow> 'e ext_checks \<Rightarrow> script_ctx \<Rightarrow> ('pk, 'h, 'e) miniscript \<Rightarrow> script_context_error + unit" where
  "check_local_validity K X ctx ms =
     bind_res (check_global_consensus_validity K X ctx ms) (\<lambda>_.
     bind_res (check_global_policy_validity ctx ms) (\<lambda>_.
     bind_res (check_local_consensus_validity ctx ms) (\<lambda>_. check_local_policy_validity ctx ms)))"

definition top_level_type_check :: "('pk, 'h, 'e) miniscript \<Rightarrow> crate_error + unit" where
  "top_level_type_check ms = (if base (corr (ty ms)) \<noteq> Base_B then Inl NonTopLevel else Inr ())"

fun other_top_level_checks :: "script_ctx \<Rightarrow> ('pk, 'h, 'e) miniscript \<Rightarrow> crate_error + unit" where
  "other_top_level_checks BareCtx ms =
     (case node ms of
        Check a \<Rightarrow> (case node a of RawPkH _ \<Rightarrow> Inr () | PkK _ \<Rightarrow> Inr () | PkH _ \<Rightarrow> Inr () | _ \<Rightarrow> Inl NonStandardBareScript)
      | Multi _ subs \<Rightarrow> if length subs \<le> 3 then Inr () else Inl NonStandardBareScript
      | _ \<Rightarrow> Inl NonStandardBareScript)"
| "other_top_level_checks _ ms = Inr ()"

definition top_level_checks :: "script_ctx \<Rightarrow> ('pk, 'h, 'e) miniscript \<Rightarrow> crate_error + unit" where
  "top_level_checks ctx ms = bind_res (top_level_type_check ms) (\<lambda>_. other_top_level_checks ctx ms)"

section \<open>Analysis\<close>

record ext_params =
  allow_top_unsafe :: bool
  allow_resource_limitations :: bool
  allow_timelock_mixing :: bool
  allow_malleability :: bool
  allow_repeated_pk :: bool
  allow_raw_pkh :: bool

definition ext_params_new :: ext_params where
  "ext_params_new = \<lparr>allow_top_unsafe = False, allow_resource_limitations = False, allow_timelock_mixing = False,
     allow_malleability = False, allow_repeated_pk = False, allow_raw_pkh = False\<rparr>"

definition ext_params_sane :: ext_params where
  "ext_params_sane = ext_params_new"

definition ext_params_insane :: ext_params where
  "ext_params_insane = \<lparr>allow_top_unsafe = True, allow_resource_limitations = True, allow_timelock_mixing = True,
     allow_malleability = True, allow_repeated_pk = True, allow_raw_pkh = False\<rparr>"

definition ext_params_allow_all :: ext_params where
  "ext_params_allow_all = \<lparr>allow_top_unsafe = True, allow_resource_limitations = True, allow_timelock_mixing = True,
     allow_malleability = True, allow_repeated_pk = True, allow_raw_pkh = True\<rparr>"

definition requires_sig :: "('pk, 'h, 'e) miniscript \<Rightarrow> bool" where
  "requires_sig ms = safe (mall (ty ms))"

definition is_non_malleable :: "('pk, 'h, 'e) miniscript \<Rightarrow> bool" where
  "is_non_malleable ms = non_malleable (mall (ty ms))"

definition within_resource_limits :: "'pk key_info \<Rightarrow> 'e ext_checks \<Rightarrow> script_ctx \<Rightarrow> ('pk, 'h, 'e) miniscript \<Rightarrow> bool" where
  "within_resource_limits K X ctx ms \<longleftrightarrow> check_local_validity K X ctx ms = Inr ()"

definition has_mixed_timelocks :: "('pk, 'h, 'e) miniscript \<Rightarrow> bool" where
  "has_mixed_timelocks ms = contains_unspendable_path (timelock_info (ext ms))"

definition has_repeated_keys :: "('pk, 'h, 'e) miniscript \<Rightarrow> bool" where
  "has_repeated_keys ms \<longleftrightarrow> card (set (iter_pk ms)) \<noteq> length (iter_pk ms)"

definition contains_raw_pkh :: "('pk, 'h, 'e) miniscript \<Rightarrow> bool" where
  "contains_raw_pkh ms = list_ex (\<lambda>m. case node m of RawPkH _ \<Rightarrow> True | _ \<Rightarrow> False) (iter_nodes ms)"

definition sanity_check :: "'pk key_info \<Rightarrow> 'e ext_checks \<Rightarrow> script_ctx \<Rightarrow> ('pk, 'h, 'e) miniscript \<Rightarrow> analysis_error + unit" where
  "sanity_check K X ctx ms =
     (if \<not> requires_sig ms then Inl SiglessBranch
      else if \<not> is_non_malleable ms then Inl Malleable
      else if \<not> within_resource_limits K X ctx ms then Inl BranchExceedResouceLimits
      else if has_repeated_keys ms then Inl RepeatedPubkeys
      else if has_mixed_timelocks ms then Inl AnalysisHeightTimelockCombination
      else Inr ())"

definition ext_check :: "'pk key_info \<Rightarrow> 'e ext_checks \<Rightarrow> script_ctx \<Rightarrow> ext_params \<Rightarrow> ('pk, 'h, 'e) miniscript \<Rightarrow>
    analysis_error + unit" where
  "ext_check K X ctx p ms =
     (if \<not> allow_top_unsafe p \<and> \<not> requires_sig ms then Inl SiglessBranch
      else if \<not> allow_malleability p \<and> \<not> is_non_malleable ms then Inl Malleable
      else if \<not> allow_resource_limitations p \<and> \<not> within_resource_limits K X ctx ms then Inl BranchExceedResouceLimits
      else if \<not> allow_repeated_pk p \<and> has_repeated_keys ms then Inl RepeatedPubkeys
      else if \<not> allow_timelock_mixing p \<and> has_mixed_timelocks ms then Inl AnalysisHeightTimelockCombination
      else if \<not> allow_raw_pkh p \<and> contains_raw_pkh ms then Inl ContainsRawPkh
      else Inr ())"

section \<open>What the checks guarantee\<close>

lemma has_repeated_keys_iff: "has_repeated_keys ms \<longleftrightarrow> \<not> distinct (iter_pk ms)"
  by (auto simp: has_repeated_keys_def card_distinct distinct_card)

lemma contains_raw_pkh_iff:
  fixes ms :: "('pk, 'h, 'e) miniscript"
  shows "contains_raw_pkh ms \<longleftrightarrow> (\<exists>m\<in>set (preorder ms). \<exists>h. node m = RawPkH h)"
proof -
  have "(case t of RawPkH _ \<Rightarrow> True | _ \<Rightarrow> False) \<longleftrightarrow> (\<exists>h. t = RawPkH h)" for t :: "('pk, 'h, 'e) terminal"
    by (cases t) auto
  then show ?thesis by (simp add: contains_raw_pkh_def iter_nodes_eq list_ex_iff)
qed

lemma bind_unit_Inr [simp]: "bind_res r (\<lambda>_. s) = Inr () \<longleftrightarrow> r = Inr () \<and> s = Inr ()"
  by (cases r) auto

lemma no_x_only_Inr: "no_x_only K ctx pks = Inr () \<longleftrightarrow> (\<forall>pk\<in>set pks. \<not> is_x_only_key K pk)"
  by (induction pks) auto

lemma compressed_only_Inr:
  "compressed_only K pks = Inr () \<longleftrightarrow> (\<forall>pk\<in>set pks. \<not> is_uncompressed K pk \<and> \<not> is_x_only_key K pk)"
  by (induction pks) auto

text \<open>The sane parameters demand the sanity checks and the absence of raw key hashes.\<close>

lemma ext_check_sane:
  "ext_check K X ctx ext_params_sane ms = Inr () \<longleftrightarrow> sanity_check K X ctx ms = Inr () \<and> \<not> contains_raw_pkh ms"
  by (auto simp: ext_check_def sanity_check_def ext_params_sane_def ext_params_new_def)

lemma sanity_check_Inr:
  "sanity_check K X ctx ms = Inr () \<longleftrightarrow>
     requires_sig ms \<and> is_non_malleable ms \<and> within_resource_limits K X ctx ms \<and> distinct (iter_pk ms)
     \<and> \<not> has_mixed_timelocks ms"
  by (auto simp: sanity_check_def has_repeated_keys_iff)

lemma ext_check_mono:
  assumes "ext_check K X ctx p ms = Inr ()"
    and "allow_top_unsafe p \<longrightarrow> allow_top_unsafe q" "allow_resource_limitations p \<longrightarrow> allow_resource_limitations q"
    and "allow_timelock_mixing p \<longrightarrow> allow_timelock_mixing q" "allow_malleability p \<longrightarrow> allow_malleability q"
    and "allow_repeated_pk p \<longrightarrow> allow_repeated_pk q" "allow_raw_pkh p \<longrightarrow> allow_raw_pkh q"
  shows "ext_check K X ctx q ms = Inr ()"
  using assms by (auto simp: ext_check_def split: if_splits)

text \<open>The resource limits a context enforces, written out.\<close>

lemma within_resource_limits_segwit:
  assumes "within_resource_limits K X Segwitv0 ms"
  shows "pk_cost (ext ms) \<le> 3600" "\<exists>n. op_count (ops (ext ms)) = Some n \<and> n \<le> 201"
    and "\<exists>n. stack_elem_count_sat (ext ms) = Some n \<and> n < 100"
  using assms
  by (auto simp: within_resource_limits_def check_local_validity_def check_op_count_def limit_defs
      max_satisfaction_witness_elements_def split: if_splits option.splits sum.splits)

lemma within_resource_limits_legacy:
  assumes "within_resource_limits K X Legacy ms"
  shows "pk_cost (ext ms) \<le> 520" "\<exists>n. op_count (ops (ext ms)) = Some n \<and> n \<le> 201"
    and "\<exists>w s. max_sat_size (ext ms) = Some (w, s) \<and> s \<le> 1650"
  using assms
  by (auto simp: within_resource_limits_def check_local_validity_def check_op_count_def limit_defs
      ms_max_satisfaction_size_def split: if_splits option.splits sum.splits)

end
