(* ===== verification/Lift.thy ===== *)
theory Lift
  imports Context Satisfy_Typed
begin

text \<open>
  Lifting miniscripts to semantic policies (\<open>policy/mod.rs\<close>) and what it means: a lifted policy
  holds of the data a satisfier has exactly when the malleable satisfier finds a witness, and it holds
  whenever the non-malleable one does.
\<close>

section \<open>Lifting\<close>

definition lift_check :: "'pk key_info \<Rightarrow> 'e ext_checks \<Rightarrow> script_ctx \<Rightarrow> ('pk, 'h, 'e) miniscript \<Rightarrow> lift_error + unit" where
  "lift_check K X ctx ms =
     (if \<not> within_resource_limits K X ctx ms then Inl BranchExceedResourceLimits
      else if has_mixed_timelocks ms then Inl HeightTimelockCombination
      else Inr ())"

fun lift_terminal :: "('pk, 'h, 'e) terminal \<Rightarrow> crate_error + ('pk, 'h) policy" where
  "lift_terminal (PkK pk) = Inr (normalized (Key pk))"
| "lift_terminal (PkH pk) = Inr (normalized (Key pk))"
| "lift_terminal (RawPkH _) = Inl (crate_error.LiftError RawDescriptorLift)"
| "lift_terminal (terminal.After t) = Inr (normalized (policy.After t))"
| "lift_terminal (terminal.Older t) = Inr (normalized (policy.Older t))"
| "lift_terminal (terminal.Sha256 h) = Inr (normalized (policy.Sha256 h))"
| "lift_terminal (terminal.Hash256 h) = Inr (normalized (policy.Hash256 h))"
| "lift_terminal (terminal.Ripemd160 h) = Inr (normalized (policy.Ripemd160 h))"
| "lift_terminal (terminal.Hash160 h) = Inr (normalized (policy.Hash160 h))"
| "lift_terminal FalseT = Inr (normalized Unsatisfiable)"
| "lift_terminal TrueT = Inr (normalized Trivial)"
| "lift_terminal (Alt sub) = map_res normalized (lift_terminal (node sub))"
| "lift_terminal (Swap sub) = map_res normalized (lift_terminal (node sub))"
| "lift_terminal (Check sub) = map_res normalized (lift_terminal (node sub))"
| "lift_terminal (DupIf sub) = map_res normalized (lift_terminal (node sub))"
| "lift_terminal (Verify sub) = map_res normalized (lift_terminal (node sub))"
| "lift_terminal (NonZero sub) = map_res normalized (lift_terminal (node sub))"
| "lift_terminal (ZeroNotEqual sub) = map_res normalized (lift_terminal (node sub))"
| "lift_terminal (AndV l r) =
     map_res2 (\<lambda>l r. normalized (Threshold 2 [l, r])) (lift_terminal (node l)) (lift_terminal (node r))"
| "lift_terminal (AndB l r) =
     map_res2 (\<lambda>l r. normalized (Threshold 2 [l, r])) (lift_terminal (node l)) (lift_terminal (node r))"
| "lift_terminal (AndOr a b c) =
     bind_res (lift_terminal (node a)) (\<lambda>a'.
       map_res2 (\<lambda>b' c'. normalized (Threshold 1 [Threshold 2 [a', b'], c']))
         (lift_terminal (node b)) (lift_terminal (node c)))"
| "lift_terminal (OrB l r) =
     map_res2 (\<lambda>l r. normalized (Threshold 1 [l, r])) (lift_terminal (node l)) (lift_terminal (node r))"
| "lift_terminal (OrD l r) =
     map_res2 (\<lambda>l r. normalized (Threshold 1 [l, r])) (lift_terminal (node l)) (lift_terminal (node r))"
| "lift_terminal (OrC l r) =
     map_res2 (\<lambda>l r. normalized (Threshold 1 [l, r])) (lift_terminal (node l)) (lift_terminal (node r))"
| "lift_terminal (OrI l r) =
     map_res2 (\<lambda>l r. normalized (Threshold 1 [l, r])) (lift_terminal (node l)) (lift_terminal (node r))"
| "lift_terminal (Thresh k subs) =
     map_res (\<lambda>ps. normalized (Threshold k ps)) (collect_res (\<lambda>s. lift_terminal (node s)) subs)"
| "lift_terminal (Multi k keys) = Inr (normalized (Threshold k (map Key keys)))"
| "lift_terminal (MultiA k keys) = Inr (normalized (Threshold k (map Key keys)))"
| "lift_terminal (ExtT e) = Inl CovenantLift"

definition ms_lift :: "'pk key_info \<Rightarrow> 'e ext_checks \<Rightarrow> script_ctx \<Rightarrow> ('pk, 'h, 'e) miniscript \<Rightarrow> crate_error + ('pk, 'h) policy" where
  "ms_lift K X ctx ms =
     bind_res (map_err crate_error.LiftError (lift_check K X ctx ms)) (\<lambda>_. lift_terminal (node ms))"

section \<open>The data a satisfier has\<close>

definition available :: "('pk, 'h, 'e) sat_env \<Rightarrow> ('pk, 'h) policy \<Rightarrow> bool" where
  "available env c =
     (case c of
        Key pk \<Rightarrow> sig_of env pk \<noteq> None
      | policy.After t \<Rightarrow> check_after (env_stfr env) t
      | policy.Older t \<Rightarrow> check_older (env_stfr env) t
      | policy.Sha256 h \<Rightarrow> lookup_sha256 (env_stfr env) h \<noteq> None
      | policy.Hash256 h \<Rightarrow> lookup_hash256 (env_stfr env) h \<noteq> None
      | policy.Ripemd160 h \<Rightarrow> lookup_ripemd160 (env_stfr env) h \<noteq> None
      | policy.Hash160 h \<Rightarrow> lookup_hash160 (env_stfr env) h \<noteq> None
      | _ \<Rightarrow> False)"

definition is_wit :: "satisfaction \<Rightarrow> bool" where
  "is_wit s \<longleftrightarrow> (\<exists>w. stack s = Stack w)"

lemma is_wit_simps [simp]:
  "is_wit (Sat (Stack w) h)" "\<not> is_wit (Sat Impossible h)" "\<not> is_wit (Sat Unavailable h)"
  "is_wit (Sat (wit_combine a b) h) \<longleftrightarrow> is_wit (Sat a h) \<and> is_wit (Sat b h)"
  "is_wit (Sat push_1 h)" "is_wit (Sat push_0 h)"
  by (auto simp: is_wit_def push_1_def push_0_def)

lemma is_wit_stack [simp]: "is_wit (Sat (stack s) h) \<longleftrightarrow> is_wit s"
  by (simp add: is_wit_def)

lemma keys_available:
  "policy_eval (available env) (Threshold k (map Key keys)) \<longleftrightarrow> k \<le> length (available_sigs env keys)"
proof -
  have "length (filter (policy_eval (available env)) (map Key keys)) = length (available_sigs env keys)"
    by (induction keys) (auto simp: available_def available_sigs_def)
  then show ?thesis by simp
qed

lemma leaf_available:
  assumes "lift_terminal t = Inr p" "satisfy_helper env mf tf t = Some s"
    and "children t = []" "\<And>k subs. t \<noteq> Thresh k subs" "\<And>k keys. t = MultiA k keys \<Longrightarrow> 0 < k"
  shows "is_wit s \<longleftrightarrow> policy_eval (available env) p"
  using assms
  by (cases t) (auto simp: normalized_eval keys_available multi_sat_eq multi_a_sat_eq available_def wit_signature_eq
      timelock_sat_def wit_preimage_def wit_empty_def not_less
      simp del: normalized.simps policy_eval.simps(3) split: option.splits if_splits)

lemma normalized_2: "policy_eval av (normalized (Threshold 2 [p, q])) \<longleftrightarrow> policy_eval av p \<and> policy_eval av q"
  by (simp add: normalized_eval del: normalized.simps)

lemma normalized_1: "policy_eval av (normalized (Threshold 1 [p, q])) \<longleftrightarrow> policy_eval av p \<or> policy_eval av q"
  by (simp add: normalized_eval del: normalized.simps)

lemmas lift_simps = normalized_1 [unfolded One_nat_def] normalized_1 normalized_2 normalized_eval

section \<open>A witness implies the lifted policy\<close>

definition lift_implied :: "min_fn \<Rightarrow> thresh_fn \<Rightarrow> ('pk, 'h, 'e) sat_env \<Rightarrow> ('pk, 'h, 'e) terminal \<Rightarrow> bool" where
  "lift_implied mf tf env t \<longleftrightarrow>
     (\<forall>p s. lift_terminal t = Inr p \<longrightarrow> satisfy_helper env mf tf t = Some s \<longrightarrow> is_wit s \<longrightarrow>
        policy_eval (available env) p)"

lemma lift_impliedD:
  "lift_implied mf tf env t \<Longrightarrow> lift_terminal t = Inr p \<Longrightarrow> satisfy_helper env mf tf t = Some s \<Longrightarrow>
   is_wit s \<Longrightarrow> policy_eval (available env) p"
  by (auto simp: lift_implied_def)

text \<open>A set of positions where a predicate holds bounds the number of elements that satisfy it.\<close>

lemma card_le_filter:
  assumes "S \<subseteq> {..<length xs}" "\<And>i. i \<in> S \<Longrightarrow> P (xs ! i)"
  shows "card S \<le> length (filter P xs)"
proof -
  have "S \<subseteq> {i. i < length xs \<and> P (xs ! i)}" using assms by auto
  then show ?thesis by (simp add: length_filter_conv_card card_mono)
qed

context selection
begin

lemma min_wit: "is_wit (mf s1 s2) \<Longrightarrow> is_wit s1 \<or> is_wit s2"
  unfolding is_wit_def using min_choice by blast

lemma lift_implied_thresh:
  assumes "\<And>c. c \<in> set subs \<Longrightarrow> lift_implied mf tf env (node c)"
  shows "lift_implied mf tf env (Thresh k subs)"
  unfolding lift_implied_def
proof (intro allI impI)
  fix p s assume p: "lift_terminal (Thresh k subs) = Inr p" and s: "satisfy_helper env mf tf (Thresh k subs) = Some s" "is_wit s"
  obtain ps where ps: "list_all2 (\<lambda>c p. lift_terminal (node c) = Inr p) subs ps" "p = normalized (Threshold k ps)"
    using p by (auto simp: collect_res_Inr)
  obtain sats dissats where sats: "list_all2 (\<lambda>c s. satisfy_helper env mf tf (node c) = Some s) subs sats"
      and dis: "list_all2 (\<lambda>c s. dissatisfy_helper env mf tf (node c) = Some s) subs dissats"
      and tf: "tf k sats dissats = Some s"
    using s(1) by (auto simp: bind_eq_Some_conv collect_opt_Some)
  have len: "length sats = length subs" "length dissats = length sats" "length ps = length subs"
    using list_all2_lengthD [OF sats] list_all2_lengthD [OF dis] list_all2_lengthD [OF ps(1)] by simp_all
  obtain w where "picks k sats dissats w" using thresh_choice [OF tf _ len(2)] s(2) by (auto simp: is_wit_def)
  then obtain S ws where S: "S \<subseteq> {..<length sats}" "card S = k"
      and st: "\<forall>i<length sats. stack ((if i \<in> S then sats else dissats) ! i) = Stack (ws ! i)"
    by (auto simp: picks_def)
  have "policy_eval (available env) (ps ! i)" if "i \<in> S" for i
  proof (rule lift_impliedD)
    have i: "i < length subs" using that S(1) len(1) by auto
    show "lift_implied mf tf env (node (subs ! i))" using assms i by simp
    show "lift_terminal (node (subs ! i)) = Inr (ps ! i)" using ps(1) i by (auto dest: list_all2_nthD)
    show "satisfy_helper env mf tf (node (subs ! i)) = Some (sats ! i)" using sats i by (auto dest: list_all2_nthD)
    show "is_wit (sats ! i)" using st that i len(1) by (auto simp: is_wit_def)
  qed
  then have "card S \<le> length (filter (policy_eval (available env)) ps)"
    using S(1) len by (intro card_le_filter) auto
  then show "policy_eval (available env) p" using S(2) by (simp add: ps(2) normalized_eval del: normalized.simps)
qed

lemma lift_implied_node:
  assumes kids: "\<And>c. c \<in> set (children t) \<Longrightarrow> lift_implied mf tf env (node c)"
    and t: "type_rule E L t = Inr tt"
  shows "lift_implied mf tf env t"
proof (cases "children t = []")
  case True
  have "t \<noteq> Thresh k subs" for k subs using t True by auto
  moreover have "t = MultiA k keys \<Longrightarrow> 0 < k" for k keys using t by simp
  ultimately show ?thesis using leaf_available [of t _ env mf tf] True by (fastforce simp: lift_implied_def)
next
  case False
  have kid: "policy_eval (available env) p"
    if "lift_terminal (node c) = Inr p" "satisfy_helper env mf tf (node c) = Some s" "is_wit s"
      "c \<in> set (children t)" for c p s
    using lift_impliedD [OF kids [OF that(4)] that(1-3)] .
  show ?thesis using False
  proof (cases t)
    case (Thresh k subs)
    show ?thesis unfolding Thresh by (rule lift_implied_thresh) (use kids Thresh in auto)
  qed (auto simp: lift_implied_def bind_eq_Some_conv lift_simps assert_nosig_def split: if_splits
      dest!: min_wit simp del: normalized.simps, (fastforce dest: kid)+)
qed

lemma lift_sound:
  assumes "ms_wf E L st m"
  shows "lift_implied mf tf env (node m)"
  using assms
proof (induction "node m" arbitrary: m rule: terminal_children_induct)
  case step
  have kids: "lift_implied mf tf env (node c)" if "c \<in> set (children (node m))" for c
    using step.hyps [OF that refl] step.prems that by (auto simp: ms_wf_iff [of E L st m])
  have "type_rule E L (node m) = Inr (ty m)" using step.prems by (simp add: ms_wf_iff [of E L st m] node_wf_iff)
  with kids show ?case by (rule lift_implied_node)
qed

end

section \<open>In the malleable mode the lifted policy gives a witness\<close>

lemma minimum_mall_wit: "is_wit s1 \<or> is_wit s2 \<Longrightarrow> is_wit (minimum_mall vl s1 s2)"
  using wit_min_cases [of vl "stack s1" "stack s2"]
  by (cases "stack s1"; cases "stack s2") (auto simp: minimum_mall_def is_wit_def)

text \<open>Witnesses that fit in memory: their sizes stay below the sentinel that \<open>thresh_mall\<close> sorts by.\<close>

definition sizes_fit :: "('pk, 'h, 'e) sat_env \<Rightarrow> (nat \<Rightarrow> nat) \<Rightarrow> ('pk, 'h, 'e) miniscript \<Rightarrow> bool" where
  "sizes_fit env vl m \<longleftrightarrow>
     (\<forall>s w. satisfy_helper env (minimum_mall vl) (thresh_mall vl) (node m) = Some s \<longrightarrow> stack s = Stack w \<longrightarrow>
        int (witness_size vl w) < I64_MAX)"

lemma thresh_mall_wit:
  assumes len: "length dissats = length sats" and k: "k \<le> length (filter is_wit sats)"
    and dis: "\<And>i. i < length sats \<Longrightarrow> is_wit (dissats ! i)"
    and fit: "\<And>i w. i < length sats \<Longrightarrow> stack (sats ! i) = Stack w \<Longrightarrow> int (witness_size vl w) < I64_MAX"
  shows "\<exists>r. thresh_mall vl k sats dissats = Some r \<and> is_wit r"
proof -
  let ?n = "length sats" and ?key = "thresh_mall_key vl sats dissats"
  let ?S = "set (take k (sort_key ?key [0..<?n]))"
  have kn: "k \<le> ?n" using k length_filter_le [of is_wit sats] by linarith
  note pos = sorted_positions [OF kn, of ?key]
  have key_wit: "?key i < I64_MAX \<longleftrightarrow> is_wit (sats ! i)" if "i < ?n" for i
    using dis [OF that] fit [OF that]
    by (cases "stack (sats ! i)") (auto simp: is_wit_def thresh_mall_key_def stack_weight_def intro: le_less_trans [rotated])
  have order: "?key i \<le> ?key j" if "i \<in> ?S" "j < ?n" "j \<notin> ?S" for i j
  proof -
    have "k < ?n"
    proof (rule ccontr)
      assume "\<not> k < ?n"
      then have "?S = {..<?n}" using kn by (simp add: atLeast0LessThan)
      then show False using that(2,3) by auto
    qed
    then show ?thesis using pos(5) that(1) sorted_after [OF that(2,3) \<open>k < ?n\<close>] by fastforce
  qed
  have "is_wit (sats ! i)" if i: "i \<in> ?S" for i
  proof (rule ccontr)
    assume not: "\<not> is_wit (sats ! i)"
    have "i < ?n" using i pos(2) by auto
    have "{j. j < ?n \<and> is_wit (sats ! j)} \<subseteq> ?S - {i}"
      using key_wit order [OF i] not \<open>i < ?n\<close> by (auto simp: not_less) (metis le_less_trans)
    then have "card {j. j < ?n \<and> is_wit (sats ! j)} \<le> card (?S - {i})" by (rule card_mono [rotated]) simp
    also have "\<dots> < k" using i pos(3) by (metis card_Diff1_less List.finite_set)
    finally show False using k by (simp add: length_filter_conv_card)
  qed
  then have "\<forall>r\<in>set (map (\<lambda>i. if i \<in> ?S then sats ! i else dissats ! i) [0..<?n]). is_wit r"
    using dis by auto
  then have "\<exists>w. flatten_stacks (map (\<lambda>i. if i \<in> ?S then sats ! i else dissats ! i) [0..<?n]) = Stack w"
    unfolding flatten_Stack is_wit_def by (blast dest: list_all2_ex [of _ "\<lambda>d x. stack d = Stack x"])
  then show ?thesis by (auto simp: thresh_mall_unfold [OF kn len])
qed

definition lift_sufficient :: "('pk, 'h, 'e) sat_env \<Rightarrow> (nat \<Rightarrow> nat) \<Rightarrow> ('pk, 'h, 'e) terminal \<Rightarrow> bool" where
  "lift_sufficient env vl t \<longleftrightarrow>
     (\<forall>p s. lift_terminal t = Inr p \<longrightarrow> satisfy_helper env (minimum_mall vl) (thresh_mall vl) t = Some s \<longrightarrow>
        policy_eval (available env) p \<longrightarrow> is_wit s)"

lemma lift_sufficientD:
  "lift_sufficient env vl t \<Longrightarrow> lift_terminal t = Inr p \<Longrightarrow>
   satisfy_helper env (minimum_mall vl) (thresh_mall vl) t = Some s \<Longrightarrow>
   policy_eval (available env) p \<Longrightarrow> is_wit s"
  by (auto simp: lift_sufficient_def)

lemma filter_le_pointwise:
  "list_all2 (\<lambda>x y. P x \<longrightarrow> Q y) xs ys \<Longrightarrow> length (filter P xs) \<le> length (filter Q ys)"
  by (induction rule: list_all2_induct) auto

lemma lift_sufficient_thresh:
  assumes kids: "\<And>c. c \<in> set subs \<Longrightarrow> lift_sufficient env vl (node c)"
    and ok: "\<And>c. c \<in> set subs \<Longrightarrow> helpers_ok (minimum_mall vl) (thresh_mall vl) env c"
    and d: "\<And>c. c \<in> set subs \<Longrightarrow> dissatisfiable (corr (ty c))"
    and fit: "\<And>c. c \<in> set subs \<Longrightarrow> sizes_fit env vl c"
  shows "lift_sufficient env vl (Thresh k subs)"
  unfolding lift_sufficient_def
proof (intro allI impI)
  let ?sat = "satisfy_helper env (minimum_mall vl) (thresh_mall vl)"
    and ?dis = "dissatisfy_helper env (minimum_mall vl) (thresh_mall vl)"
  fix p s assume p: "lift_terminal (Thresh k subs) = Inr p" "policy_eval (available env) p"
    and s: "?sat (Thresh k subs) = Some s"
  obtain ps where ps: "list_all2 (\<lambda>c p. lift_terminal (node c) = Inr p) subs ps" "p = normalized (Threshold k ps)"
    using p by (auto simp: collect_res_Inr)
  obtain sats dissats where sats: "list_all2 (\<lambda>c s. ?sat (node c) = Some s) subs sats"
      and dis: "list_all2 (\<lambda>c s. ?dis (node c) = Some s) subs dissats"
      and tf: "thresh_mall vl k sats dissats = Some s"
    using s by (auto simp: bind_eq_Some_conv collect_opt_Some)
  have len: "length sats = length subs" "length dissats = length sats" "length ps = length subs"
    using list_all2_lengthD [OF sats] list_all2_lengthD [OF dis] list_all2_lengthD [OF ps(1)] by simp_all
  have nth: "subs ! i \<in> set subs" "?sat (node (subs ! i)) = Some (sats ! i)" "?dis (node (subs ! i)) = Some (dissats ! i)"
      "lift_terminal (node (subs ! i)) = Inr (ps ! i)" if "i < length subs" for i
    using that list_all2_nthD [OF sats that] list_all2_nthD [OF dis that] list_all2_nthD [OF ps(1) that] by simp_all
  have "list_all2 (\<lambda>p s. policy_eval (available env) p \<longrightarrow> is_wit s) ps sats"
    unfolding list_all2_conv_all_nth using len lift_sufficientD [OF kids [OF nth(1)] nth(4) nth(2)] by simp
  then have "k \<le> length (filter is_wit sats)"
    using p(2) filter_le_pointwise by (fastforce simp: ps(2) normalized_eval simp del: normalized.simps)
  moreover have "is_wit (dissats ! i)" if "i < length sats" for i
    using nth [of i] that len ok [of "subs ! i"] d [of "subs ! i"] by (auto simp: is_wit_def helpers_ok_def dissat_ready_def)
  moreover have "int (witness_size vl w) < I64_MAX" if "i < length sats" "stack (sats ! i) = Stack w" for i w
    using nth [of i] that len fit [of "subs ! i"] by (auto simp: sizes_fit_def)
  ultimately have "\<exists>r. thresh_mall vl k sats dissats = Some r \<and> is_wit r" by (rule thresh_mall_wit [OF len(2)])
  then show "is_wit s" using tf by auto
qed


lemma lift_sufficient_node:
  assumes kids: "\<And>c. c \<in> set (children t) \<Longrightarrow> lift_sufficient env vl (node c)"
    and ok: "\<And>c. c \<in> set (children t) \<Longrightarrow> helpers_ok (minimum_mall vl) (thresh_mall vl) env c"
    and fit: "\<And>c. c \<in> set (children t) \<Longrightarrow> sizes_fit env vl c"
    and t: "type_rule E L t = Inr tt"
  shows "lift_sufficient env vl t"
proof (cases "children t = []")
  case True
  have "t \<noteq> Thresh k subs" for k subs using t True by auto
  moreover have "t = MultiA k keys \<Longrightarrow> 0 < k" for k keys using t by simp
  ultimately show ?thesis using leaf_available [of t _ env "minimum_mall vl" "thresh_mall vl"] True by (fastforce simp: lift_sufficient_def)
next
  case False
  let ?sat = "satisfy_helper env (minimum_mall vl) (thresh_mall vl)"
    and ?dis = "dissatisfy_helper env (minimum_mall vl) (thresh_mall vl)"
  have kid: "is_wit s"
    if "lift_terminal (node c) = Inr p" "?sat (node c) = Some s" "policy_eval (available env) p"
      "c \<in> set (children t)" for c p s
    using lift_sufficientD [OF kids [OF that(4)] that(1-3)] .
  have dis: "is_wit d"
    if "?dis (node c) = Some d" "dissatisfiable (corr (ty c))" "c \<in> set (children t)" for c d
    using ok [of c] that by (auto simp: is_wit_def helpers_ok_def dissat_ready_def)
  show ?thesis using False
  proof (cases t)
    case (Thresh k subs)
    have "dissatisfiable (corr (ty c))" if "c \<in> set subs" for c
      using t that by (auto simp: Thresh ty_threshold_def ty_both_Inr corr_threshold_Inr thresh_child_ok_def in_set_conv_nth)
    then show ?thesis unfolding Thresh using kids ok fit Thresh by (intro lift_sufficient_thresh) auto
  qed (use t in \<open>auto simp: lift_sufficient_def bind_eq_Some_conv lift_simps assert_nosig_def ty_comb_defs ty_both_Inr
      corr_comb_Inr corr_and_or_Inr split: if_splits
      intro!: minimum_mall_wit simp del: normalized.simps, (fastforce dest: kid dis)+\<close>)
qed

lemma lift_complete:
  assumes "ms_wf E L st m" "every_node (env_dissat_ok env) m" "every_node (sizes_fit env vl) m"
  shows "lift_sufficient env vl (node m)"
  using assms
proof (induction "node m" arbitrary: m rule: terminal_children_induct)
  case step
  have wf: "ms_wf E L st c" if "c \<in> set (children (node m))" for c
    using step.prems(1) that by (simp add: ms_wf_iff [of E L st m])
  note child = every_node_child [OF step.prems(2)] every_node_child [OF step.prems(3)]
  show ?case
  proof (rule lift_sufficient_node)
    fix c assume c: "c \<in> set (children (node m))"
    show "lift_sufficient env vl (node c)" by (rule step.hyps [OF c refl wf [OF c] child(1) [OF c] child(2) [OF c]])
    show "helpers_ok (minimum_mall vl) (thresh_mall vl) env c" by (rule malleable.helpers_total [OF wf [OF c] child(1) [OF c]])
    show "sizes_fit env vl c" by (rule every_node_root [OF child(2) [OF c]])
  next
    show "type_rule E L (node m) = Inr (ty m)" using step.prems(1) by (simp add: ms_wf_iff [of E L st m] node_wf_iff)
  qed
qed

text \<open>What the two entry points answer, in terms of the lifted policy.\<close>

lemma satisfy_lifted:
  assumes "ms_wf E L st m" "lift_terminal (node m) = Inr p" "ms_satisfy env lh cw m = Some (Inr w)"
  shows "policy_eval (available (env\<lparr>env_root_has_sig := safe (mall (ty m)), env_leaf_hash := lh\<rparr>)) p"
  using assms(3)
proof (cases rule: ms_satisfy_Inr)
  case (1 s)
  then show ?thesis using nonmall.lift_sound [OF assms(1)] assms(2) by (auto intro!: lift_impliedD simp: is_wit_def)
qed

lemma satisfy_malleable_lifted:
  fixes env :: "('pk, 'h, 'e) sat_env" and m lh
  defines "env' \<equiv> env\<lparr>env_root_has_sig := safe (mall (ty m)), env_leaf_hash := lh\<rparr>"
  assumes "ms_wf E L st m" "every_node (env_dissat_ok env') m" "every_node (sizes_fit env' (env_varint env)) m"
    and "lift_terminal (node m) = Inr p"
  shows "ms_satisfy_malleable env lh cw m = Some (Inl satisfy_error.CouldNotSatisfy) \<longleftrightarrow> \<not> policy_eval (available env') p"
proof -
  obtain s where s: "satisfy_helper env' (minimum_mall (env_varint env)) (thresh_mall (env_varint env)) (node m) = Some s"
    using malleable.helpers_total [OF assms(2,3), of "env_varint env"] by (auto simp: helpers_ok_def)
  have "is_wit s \<longleftrightarrow> policy_eval (available env') p"
    using malleable.lift_sound [OF assms(2)] lift_complete [OF assms(2-4)] s assms(5)
    by (blast intro: lift_impliedD lift_sufficientD)
  moreover have "ms_satisfy_malleable env lh cw m = Some (Inl satisfy_error.CouldNotSatisfy) \<longleftrightarrow> \<not> is_wit s"
    using s by (cases "stack s") (auto simp: ms_satisfy_malleable_def satisfy_mall_def env'_def is_wit_def split: sum.splits)
  ultimately show ?thesis by simp
qed

end
