(* ===== verification/Encode.thy ===== *)
theory Encode
  imports Context Lexer
begin

text \<open>
  Encoding a miniscript as a script (\<open>miniscript/astelem.rs\<close>): \<open>encode\<close> drives the script builder,
  \<open>script_size\<close> predicts the length of the result. \<open>asm\<close> and \<open>toks\<close> are the specifications: the
  instructions of a fragment and the tokens the lexer makes of them.
\<close>

section \<open>The encoder\<close>

text \<open>\<open>subs[0]\<close> and \<open>keys[0]\<close> panic on empty vectors.\<close>

fun encode :: "('b, 'pk, 'h, 'e) builder \<Rightarrow> sig_type \<Rightarrow> ('pk, 'h, 'e) terminal \<Rightarrow> 'b \<Rightarrow> 'b option"
  and push_adds :: "('b, 'pk, 'h, 'e) builder \<Rightarrow> sig_type \<Rightarrow> ('pk, 'h, 'e) miniscript list \<Rightarrow> 'b \<Rightarrow> 'b option" where
  "encode B st (PkK pk) b = Some (push_ms_key B st b pk)"
| "encode B st (PkH pk) b =
     Some (push_opcode B (push_ms_key_hash B st (push_opcode B (push_opcode B b OP_DUP) OP_HASH160) pk) OP_EQUALVERIFY)"
| "encode B st (RawPkH h) b =
     Some (push_opcode B (push_slice B (push_opcode B (push_opcode B b OP_DUP) OP_HASH160) h) OP_EQUALVERIFY)"
| "encode B st (terminal.After t) b = Some (push_opcode B (push_int B b (uint t)) OP_CLTV)"
| "encode B st (terminal.Older t) b = Some (push_opcode B (push_int B b (uint t)) OP_CSV)"
| "encode B st (terminal.Sha256 h) b =
     Some (push_opcode B (push_slice B (push_opcode B (push_opcode B (push_int B (push_opcode B b OP_SIZE) 32)
       OP_EQUALVERIFY) OP_SHA256) (sha256_bytes B h)) OP_EQUAL)"
| "encode B st (terminal.Hash256 h) b =
     Some (push_opcode B (push_slice B (push_opcode B (push_opcode B (push_int B (push_opcode B b OP_SIZE) 32)
       OP_EQUALVERIFY) OP_HASH256) (hash256_bytes B h)) OP_EQUAL)"
| "encode B st (terminal.Ripemd160 h) b =
     Some (push_opcode B (push_slice B (push_opcode B (push_opcode B (push_int B (push_opcode B b OP_SIZE) 32)
       OP_EQUALVERIFY) OP_RIPEMD160) (ripemd160_bytes B h)) OP_EQUAL)"
| "encode B st (terminal.Hash160 h) b =
     Some (push_opcode B (push_slice B (push_opcode B (push_opcode B (push_int B (push_opcode B b OP_SIZE) 32)
       OP_EQUALVERIFY) OP_HASH160) (hash160_bytes B h)) OP_EQUAL)"
| "encode B st TrueT b = Some (push_opcode B b OP_TRUE)"
| "encode B st FalseT b = Some (push_opcode B b OP_FALSE)"
| "encode B st (Alt sub) b =
     map_option (\<lambda>b. push_opcode B b OP_FROMALTSTACK) (encode B st (node sub) (push_opcode B b OP_TOALTSTACK))"
| "encode B st (Swap sub) b = encode B st (node sub) (push_opcode B b OP_SWAP)"
| "encode B st (Check sub) b = map_option (\<lambda>b. push_opcode B b OP_CHECKSIG) (encode B st (node sub) b)"
| "encode B st (DupIf sub) b =
     map_option (\<lambda>b. push_opcode B b OP_ENDIF) (encode B st (node sub) (push_opcode B (push_opcode B b OP_DUP) OP_IF))"
| "encode B st (Verify sub) b = map_option (push_verify B) (encode B st (node sub) b)"
| "encode B st (NonZero sub) b =
     map_option (\<lambda>b. push_opcode B b OP_ENDIF)
       (encode B st (node sub) (push_opcode B (push_opcode B (push_opcode B b OP_SIZE) OP_0NOTEQUAL) OP_IF))"
| "encode B st (ZeroNotEqual sub) b = map_option (\<lambda>b. push_opcode B b OP_0NOTEQUAL) (encode B st (node sub) b)"
| "encode B st (AndV l r) b = Option.bind (encode B st (node l) b) (encode B st (node r))"
| "encode B st (AndB l r) b =
     map_option (\<lambda>b. push_opcode B b OP_BOOLAND) (Option.bind (encode B st (node l) b) (encode B st (node r)))"
| "encode B st (AndOr x y z) b =
     Option.bind (encode B st (node x) b) (\<lambda>b.
     Option.bind (encode B st (node z) (push_opcode B b OP_NOTIF)) (\<lambda>b.
     map_option (\<lambda>b. push_opcode B b OP_ENDIF) (encode B st (node y) (push_opcode B b OP_ELSE))))"
| "encode B st (OrB l r) b =
     map_option (\<lambda>b. push_opcode B b OP_BOOLOR) (Option.bind (encode B st (node l) b) (encode B st (node r)))"
| "encode B st (OrD l r) b =
     Option.bind (encode B st (node l) b) (\<lambda>b.
     map_option (\<lambda>b. push_opcode B b OP_ENDIF)
       (encode B st (node r) (push_opcode B (push_opcode B b OP_IFDUP) OP_NOTIF)))"
| "encode B st (OrC l r) b =
     Option.bind (encode B st (node l) b) (\<lambda>b.
     map_option (\<lambda>b. push_opcode B b OP_ENDIF) (encode B st (node r) (push_opcode B b OP_NOTIF)))"
| "encode B st (OrI l r) b =
     Option.bind (encode B st (node l) (push_opcode B b OP_IF)) (\<lambda>b.
     map_option (\<lambda>b. push_opcode B b OP_ENDIF) (encode B st (node r) (push_opcode B b OP_ELSE)))"
| "encode B st (Thresh k subs) b =
     map_option (\<lambda>b. push_opcode B (push_int B b (int k)) OP_EQUAL)
       (case subs of [] \<Rightarrow> None
        | s # rest \<Rightarrow> Option.bind (encode B st (node s) b) (push_adds B st rest))"
| "encode B st (Multi k keys) b =
     Some (push_opcode B (push_int B (foldl (push_key B) (push_int B b (int k)) keys) (int (length keys))) OP_CHECKMULTISIG)"
| "encode B st (MultiA k keys) b =
     (case keys of [] \<Rightarrow> None
      | pk # rest \<Rightarrow>
          Some (push_opcode B (push_int B
            (foldl (\<lambda>b pk. push_opcode B (push_ms_key B st b pk) OP_CHECKSIGADD)
              (push_opcode B (push_ms_key B st b pk) OP_CHECKSIG) rest) (int k)) OP_NUMEQUAL))"
| "encode B st (ExtT e) b = Some (push_to_builder B e b)"
| "push_adds B st [] b = Some b"
| "push_adds B st (s # rest) b = Option.bind (encode B st (node s) b) (\<lambda>b. push_adds B st rest (push_opcode B b OP_ADD))"

definition ms_encode :: "('b, 'pk, 'h, 'e) builder \<Rightarrow> sig_type \<Rightarrow> ('pk, 'h, 'e) miniscript \<Rightarrow> 'b option" where
  "ms_encode B st ms = encode B st (node ms) (builder_new B)"

text \<open>\<open>xs\<close> is \<open>Extension::script_size\<close>. The assertion on thresholds and the contexts without key lengths panic.\<close>

fun script_size :: "'pk key_info \<Rightarrow> ('e \<Rightarrow> nat) \<Rightarrow> script_ctx \<Rightarrow> ('pk, 'h, 'e) terminal \<Rightarrow> nat option" where
  "script_size K xs ctx (PkK pk) = pk_len K ctx pk"
| "script_size K xs ctx (PkH _) = Some 24"
| "script_size K xs ctx (RawPkH _) = Some 24"
| "script_size K xs ctx (terminal.After t) = Some (script_num_size (unat t) + 1)"
| "script_size K xs ctx (terminal.Older t) = Some (script_num_size (unat t) + 1)"
| "script_size K xs ctx (terminal.Sha256 _) = Some (33 + 6)"
| "script_size K xs ctx (terminal.Hash256 _) = Some (33 + 6)"
| "script_size K xs ctx (terminal.Ripemd160 _) = Some (21 + 6)"
| "script_size K xs ctx (terminal.Hash160 _) = Some (21 + 6)"
| "script_size K xs ctx TrueT = Some 1"
| "script_size K xs ctx FalseT = Some 1"
| "script_size K xs ctx (Alt sub) = map_option (\<lambda>n. n + 2) (script_size K xs ctx (node sub))"
| "script_size K xs ctx (Swap sub) = map_option (\<lambda>n. n + 1) (script_size K xs ctx (node sub))"
| "script_size K xs ctx (Check sub) = map_option (\<lambda>n. n + 1) (script_size K xs ctx (node sub))"
| "script_size K xs ctx (DupIf sub) = map_option (\<lambda>n. n + 3) (script_size K xs ctx (node sub))"
| "script_size K xs ctx (Verify sub) =
     map_option (\<lambda>n. n + (if has_free_verify (ext sub) then 0 else 1)) (script_size K xs ctx (node sub))"
| "script_size K xs ctx (NonZero sub) = map_option (\<lambda>n. n + 4) (script_size K xs ctx (node sub))"
| "script_size K xs ctx (ZeroNotEqual sub) = map_option (\<lambda>n. n + 1) (script_size K xs ctx (node sub))"
| "script_size K xs ctx (AndV l r) = opt_add (script_size K xs ctx (node l)) (script_size K xs ctx (node r))"
| "script_size K xs ctx (AndB l r) =
     map_option (\<lambda>n. n + 1) (opt_add (script_size K xs ctx (node l)) (script_size K xs ctx (node r)))"
| "script_size K xs ctx (AndOr x y z) =
     map_option (\<lambda>n. n + 3) (opt_add (opt_add (script_size K xs ctx (node x)) (script_size K xs ctx (node y)))
       (script_size K xs ctx (node z)))"
| "script_size K xs ctx (OrB l r) =
     map_option (\<lambda>n. n + 1) (opt_add (script_size K xs ctx (node l)) (script_size K xs ctx (node r)))"
| "script_size K xs ctx (OrD l r) =
     map_option (\<lambda>n. n + 3) (opt_add (script_size K xs ctx (node l)) (script_size K xs ctx (node r)))"
| "script_size K xs ctx (OrC l r) =
     map_option (\<lambda>n. n + 2) (opt_add (script_size K xs ctx (node l)) (script_size K xs ctx (node r)))"
| "script_size K xs ctx (OrI l r) =
     map_option (\<lambda>n. n + 3) (opt_add (script_size K xs ctx (node l)) (script_size K xs ctx (node r)))"
| "script_size K xs ctx (Thresh k subs) =
     (if subs = [] then None
      else map_option (\<lambda>ns. script_num_size k + 1 + sum_list ns + length subs - 1)
        (collect_opt (\<lambda>s. script_size K xs ctx (node s)) subs))"
| "script_size K xs ctx (Multi k pks) =
     map_option (\<lambda>ns. script_num_size k + 1 + script_num_size (length pks) + sum_list ns) (collect_opt (pk_len K ctx) pks)"
| "script_size K xs ctx (MultiA k pks) =
     map_option (\<lambda>ns. script_num_size k + 1 + sum_list ns + length pks) (collect_opt (pk_len K ctx) pks)"
| "script_size K xs ctx (ExtT e) = Some (xs e)"

section \<open>The instructions of a fragment\<close>

definition key_bytes :: "('b, 'pk, 'h, 'e) builder \<Rightarrow> sig_type \<Rightarrow> 'pk \<Rightarrow> bytes" where
  "key_bytes B st pk = (case st of Ecdsa \<Rightarrow> full_key_bytes B pk | Schnorr \<Rightarrow> xonly_key_bytes B pk)"

definition key_hash :: "('b, 'pk, 'h, 'e) builder \<Rightarrow> sig_type \<Rightarrow> 'pk \<Rightarrow> bytes" where
  "key_hash B st pk = (case st of Ecdsa \<Rightarrow> full_key_hash B pk | Schnorr \<Rightarrow> xonly_key_hash B pk)"

text \<open>Sequences for the children of a threshold: all but the first are followed by \<open>sep\<close>.\<close>

definition followed :: "'a list \<Rightarrow> 'a list list \<Rightarrow> 'a list" where
  "followed sep xss = concat (map (\<lambda>xs. xs @ sep) xss)"

fun joined :: "'a list \<Rightarrow> 'a list list \<Rightarrow> 'a list" where
  "joined sep [] = []"
| "joined sep (xs # xss) = xs @ followed sep xss"

definition hash_asm :: "opcode \<Rightarrow> bytes \<Rightarrow> instruction list" where
  "hash_asm op h = [Op OP_SIZE, int_instruction 32, Op OP_EQUALVERIFY, Op op, PushBytes h, Op OP_EQUAL]"

fun asm :: "('b, 'pk, 'h, 'e) builder \<Rightarrow> sig_type \<Rightarrow> ('pk, 'h, 'e) terminal \<Rightarrow> instruction list" where
  "asm B st (PkK pk) = [PushBytes (key_bytes B st pk)]"
| "asm B st (PkH pk) = [Op OP_DUP, Op OP_HASH160, PushBytes (key_hash B st pk), Op OP_EQUALVERIFY]"
| "asm B st (RawPkH h) = [Op OP_DUP, Op OP_HASH160, PushBytes h, Op OP_EQUALVERIFY]"
| "asm B st (terminal.After t) = [int_instruction (uint t), Op OP_CLTV]"
| "asm B st (terminal.Older t) = [int_instruction (uint t), Op OP_CSV]"
| "asm B st (terminal.Sha256 h) = hash_asm OP_SHA256 (sha256_bytes B h)"
| "asm B st (terminal.Hash256 h) = hash_asm OP_HASH256 (hash256_bytes B h)"
| "asm B st (terminal.Ripemd160 h) = hash_asm OP_RIPEMD160 (ripemd160_bytes B h)"
| "asm B st (terminal.Hash160 h) = hash_asm OP_HASH160 (hash160_bytes B h)"
| "asm B st TrueT = [Op OP_TRUE]"
| "asm B st FalseT = [PushBytes []]"
| "asm B st (Alt x) = Op OP_TOALTSTACK # asm B st (node x) @ [Op OP_FROMALTSTACK]"
| "asm B st (Swap x) = Op OP_SWAP # asm B st (node x)"
| "asm B st (Check x) = asm B st (node x) @ [Op OP_CHECKSIG]"
| "asm B st (DupIf x) = [Op OP_DUP, Op OP_IF] @ asm B st (node x) @ [Op OP_ENDIF]"
| "asm B st (Verify x) = add_verify (asm B st (node x))"
| "asm B st (NonZero x) = [Op OP_SIZE, Op OP_0NOTEQUAL, Op OP_IF] @ asm B st (node x) @ [Op OP_ENDIF]"
| "asm B st (ZeroNotEqual x) = asm B st (node x) @ [Op OP_0NOTEQUAL]"
| "asm B st (AndV x y) = asm B st (node x) @ asm B st (node y)"
| "asm B st (AndB x y) = asm B st (node x) @ asm B st (node y) @ [Op OP_BOOLAND]"
| "asm B st (AndOr x y z) =
     asm B st (node x) @ [Op OP_NOTIF] @ asm B st (node z) @ [Op OP_ELSE] @ asm B st (node y) @ [Op OP_ENDIF]"
| "asm B st (OrB x y) = asm B st (node x) @ asm B st (node y) @ [Op OP_BOOLOR]"
| "asm B st (OrD x y) = asm B st (node x) @ [Op OP_IFDUP, Op OP_NOTIF] @ asm B st (node y) @ [Op OP_ENDIF]"
| "asm B st (OrC x y) = asm B st (node x) @ [Op OP_NOTIF] @ asm B st (node y) @ [Op OP_ENDIF]"
| "asm B st (OrI x y) = [Op OP_IF] @ asm B st (node x) @ [Op OP_ELSE] @ asm B st (node y) @ [Op OP_ENDIF]"
| "asm B st (Thresh k subs) =
     joined [Op OP_ADD] (map (\<lambda>s. asm B st (node s)) subs) @ [int_instruction (int k), Op OP_EQUAL]"
| "asm B st (Multi k keys) =
     [int_instruction (int k)] @ map (\<lambda>pk. PushBytes (full_key_bytes B pk)) keys
       @ [int_instruction (int (length keys)), Op OP_CHECKMULTISIG]"
| "asm B st (MultiA k keys) =
     (case keys of [] \<Rightarrow> []
      | pk # rest \<Rightarrow> [PushBytes (key_bytes B st pk), Op OP_CHECKSIG]
          @ concat (map (\<lambda>pk. [PushBytes (key_bytes B st pk), Op OP_CHECKSIGADD]) rest))
     @ [int_instruction (int k), Op OP_NUMEQUAL]"
| "asm B st (ExtT e) = ext_instructions B e"


lemma add_verify_append [simp]: "is \<noteq> [] \<Longrightarrow> add_verify (xs @ is) = xs @ add_verify is"
  by (cases "is" rule: rev_cases) (auto simp: add_verify_def split: instruction.splits option.splits)

lemma add_verify_not_Nil [simp]: "add_verify is \<noteq> []"
  by (cases "is" rule: rev_cases) (auto simp: add_verify_def split: instruction.splits option.splits)

lemma joined_not_Nil: "xss \<noteq> [] \<Longrightarrow> \<forall>xs\<in>set xss. xs \<noteq> [] \<Longrightarrow> joined sep xss \<noteq> []"
  by (cases xss) auto

lemma asm_not_Nil:
  assumes "\<And>e. ext_instructions B e \<noteq> []"
  shows "asm B st t \<noteq> []"
  using assms by (induction B st t rule: asm.induct) (auto simp: hash_asm_def split: list.splits)

lemma op_instruction_simp [simp]: "op \<noteq> OP_PUSHBYTES_0 \<Longrightarrow> op_instruction op = Op op" "op_instruction OP_PUSHBYTES_0 = PushBytes []"
  by (simp_all add: op_instruction_def)

lemma push_keys_instructions:
  "builder_ok B \<Longrightarrow>
   instructions B (foldl (push_key B) b keys) = instructions B b @ map (\<lambda>pk. PushBytes (full_key_bytes B pk)) keys"
  by (induction keys arbitrary: b) (simp_all add: builder_simps)

lemma push_ms_key_instructions:
  "builder_ok B \<Longrightarrow> instructions B (push_ms_key B st b pk) = instructions B b @ [PushBytes (key_bytes B st pk)]"
  "builder_ok B \<Longrightarrow> instructions B (push_ms_key_hash B st b pk) = instructions B b @ [PushBytes (key_hash B st pk)]"
  by (cases st; simp add: push_ms_key_def push_ms_key_hash_def key_bytes_def key_hash_def builder_simps)+

lemma push_adds_keys_instructions:
  "builder_ok B \<Longrightarrow>
   instructions B (foldl (\<lambda>b pk. push_opcode B (push_ms_key B st b pk) OP_CHECKSIGADD) b keys) =
     instructions B b @ concat (map (\<lambda>pk. [PushBytes (key_bytes B st pk), Op OP_CHECKSIGADD]) keys)"
  by (induction keys arbitrary: b) (simp_all add: builder_simps push_ms_key_instructions)

text \<open>The builder receives exactly the instructions of the fragment.\<close>

lemma encode_instructions:
  assumes B: "builder_ok B"
  shows "encode B st t b = Some b' \<Longrightarrow> instructions B b' = instructions B b @ asm B st t"
    and "push_adds B st subs b = Some b' \<Longrightarrow>
      instructions B b' = instructions B b @ followed [Op OP_ADD] (map (\<lambda>s. asm B st (node s)) subs)"
  using B
proof (induction B st t b and B st subs b arbitrary: b' and b' rule: encode_push_adds.induct)
qed (auto simp: builder_simps hash_asm_def followed_def push_ms_key_instructions push_keys_instructions
    push_adds_keys_instructions bind_eq_Some_conv asm_not_Nil split: list.splits)

lemma encode_total:
  assumes "ms_wf E L st' m"
  shows "\<exists>b'. encode B st (node m) b = Some b'"
  using assms
proof (induction "node m" arbitrary: m b rule: terminal_children_induct)
  case step
  have "\<exists>b'. encode B st (node c) b = Some b'" if "c \<in> set (children (node m))" for c b
    using step.hyps [OF that refl] step.prems that by (simp add: ms_wf_iff [of E L st' m])
  then obtain f where kid: "\<And>c b. c \<in> set (children (node m)) \<Longrightarrow> encode B st (node c) b = Some (f c b)"
    by metis
  have adds: "\<exists>b'. push_adds B st cs b = Some b'" if "set cs \<subseteq> set (children (node m))" for cs b
    using that by (induction cs arbitrary: b) (auto simp: kid)
  have t: "type_rule E L (node m) = Inr (ty m)" using step.prems by (simp add: ms_wf_iff [of E L st' m] node_wf_iff)
  show ?case
  proof (cases "node m")
    case (Thresh k subs)
    obtain s rest where subs: "subs = s # rest" using t Thresh by (cases subs) auto
    then show ?thesis using adds [of rest] Thresh kid [of s] by auto
  next
    case (MultiA k keys)
    then show ?thesis using t by (cases keys) auto
  qed (auto simp: kid)
qed


section \<open>The size of a script\<close>

abbreviation size_of :: "instruction list \<Rightarrow> nat" where
  "size_of is \<equiv> sum_list (map instruction_size is)"

definition ends_free :: "instruction list \<Rightarrow> bool" where
  "ends_free is \<longleftrightarrow> (case rev is of Op op # _ \<Rightarrow> verify_form op \<noteq> None | _ \<Rightarrow> False)"

lemma ends_free_append [simp]: "is \<noteq> [] \<Longrightarrow> ends_free (xs @ is) = ends_free is"
  by (cases "is" rule: rev_cases) (auto simp: ends_free_def)

lemma ends_free_simps [simp]:
  "ends_free [Op op] \<longleftrightarrow> verify_form op \<noteq> None" "\<not> ends_free [PushBytes bs]"
  "is \<noteq> [] \<Longrightarrow> ends_free (i # is) = ends_free is"
  using ends_free_append [of "is" "[i]"] by (simp_all add: ends_free_def del: ends_free_append)

lemma verify_form_idem: "verify_form op = Some v \<Longrightarrow> verify_form v = None"
  by (cases op rule: verify_form.cases) auto

lemma add_verify_cases:
  obtains xs op v where "is = xs @ [Op op]" "verify_form op = Some v" "add_verify is = xs @ [Op v]" "ends_free is"
  | "add_verify is = is @ [Op OP_VERIFY]" "\<not> ends_free is"
  by (cases "is" rule: rev_cases; cases "last is")
    (force simp: add_verify_def ends_free_def split: option.splits)+

lemma ends_free_verify [simp]: "\<not> ends_free (add_verify is)"
  by (cases "is" rule: add_verify_cases) (auto dest: verify_form_idem)

lemma size_add_verify: "size_of (add_verify is) = size_of is + (if ends_free is then 0 else 1)"
  by (cases "is" rule: add_verify_cases) auto

lemma size_int: "n < 2 ^ 39 \<Longrightarrow> instruction_size (int_instruction (int n)) = script_num_size n"
proof (cases "n \<le> 16")
  case False
  assume "n < 2 ^ 39"
  with False have num: "script_num_size n = 1 + length (build_scriptint (int n))"
    by (intro script_num_size_scriptint) simp_all
  moreover have "script_num_size n \<le> 6" by (simp add: script_num_size_def)
  ultimately show ?thesis using False by (simp add: int_instruction_def)
qed (auto simp: int_instruction_def script_num_size_def)

text \<open>
  What the sizes rest on: serialised keys and hashes have their documented lengths, extensions
  report their own sizes, and the context has excluded the keys and fragments that \<open>pk_len\<close> does not
  account for.
\<close>

definition sizes_ok :: "('b, 'pk, 'h, 'e) builder \<Rightarrow> 'pk key_info \<Rightarrow> bool" where
  "sizes_ok B K \<longleftrightarrow>
     (\<forall>pk. length (full_key_bytes B pk) = (if is_uncompressed K pk then 65 else 33)
        \<and> length (xonly_key_bytes B pk) = 32
        \<and> length (full_key_hash B pk) = 20 \<and> length (xonly_key_hash B pk) = 20)
     \<and> (\<forall>h. length (sha256_bytes B h) = 32 \<and> length (hash256_bytes B h) = 32
        \<and> length (ripemd160_bytes B h) = 20 \<and> length (hash160_bytes B h) = 20)"

definition node_sized :: "('b, 'pk, 'h, 'e) builder \<Rightarrow> 'pk key_info \<Rightarrow> ('e \<Rightarrow> nat) \<Rightarrow> script_ctx \<Rightarrow>
    ('pk, 'h, 'e) miniscript \<Rightarrow> bool" where
  "node_sized B K xs ctx m =
     (case node m of
        PkK pk \<Rightarrow> ctx = Segwitv0 \<longrightarrow> \<not> is_uncompressed K pk
      | RawPkH h \<Rightarrow> length h = 20
      | Thresh k subs \<Rightarrow> k < 2 ^ 39
      | Multi k pks \<Rightarrow> ctx \<noteq> Tap \<and> (ctx = Segwitv0 \<longrightarrow> list_all (\<lambda>pk. \<not> is_uncompressed K pk) pks) \<and> length pks < 2 ^ 39
      | MultiA k pks \<Rightarrow> ctx = Tap \<and> length pks < 2 ^ 39
      | ExtT e \<Rightarrow> xs e = size_of (ext_instructions B e) \<and> has_free_verify (ext m) = ends_free (ext_instructions B e)
      | _ \<Rightarrow> True)"

lemma ext_threshold_free: "ext_threshold k es = Some (Inr x) \<Longrightarrow> has_free_verify x"
  by (auto simp: ext_threshold_def Let_def bind_eq_Some_conv)

lemma free_verify_ends:
  fixes m :: "('pk, 'h, 'e) miniscript"
  assumes B: "builder_ok B" and "ms_wf E L st m" "every_node (node_sized B K xs ctx) m"
  shows "has_free_verify (ext m) \<longleftrightarrow> ends_free (asm B st' (node m))"
  using assms(2,3)
proof (induction "node m" arbitrary: m rule: terminal_children_induct)
  case step
  have kid: "has_free_verify (ext c) \<longleftrightarrow> ends_free (asm B st' (node c))" if "c \<in> set (children (node m))" for c
    using step.hyps [OF that refl] step.prems that every_node_child [OF step.prems(2) that]
    by (simp add: ms_wf_iff [of E L st m])
  have x: "ext_rule E L st (node m) = Some (Inr (ext m))"
    using step.prems by (simp add: ms_wf_iff [of E L st m] node_wf_iff)
  note ne = asm_not_Nil [of B, OF builder_simps(8) [OF B]]
  note node = every_node_root [OF step.prems(2), unfolded node_sized_def]
  show ?case
  proof (cases "node m")
    case (ExtT e)
    then show ?thesis using node by simp
  next
    case (Thresh k subs)
    then show ?thesis using x by (auto split: if_splits dest: ext_threshold_free)
  qed (use x kid ne in \<open>auto simp: ext_leaf_defs ext_cast_defs ext_comb_defs Let_def hash_asm_def dest!: sym [of _ "ext m"]
      split: if_splits\<close>)
qed


lemma size_joined:
  "xss \<noteq> [] \<Longrightarrow> size_of (joined [Op OP_ADD] xss) = sum_list (map size_of xss) + length xss - 1"
proof (cases xss)
  case (Cons ys yss)
  have "size_of (followed [Op OP_ADD] yss) = sum_list (map size_of yss) + length yss"
    by (induction yss) (simp_all add: followed_def)
  with Cons show ?thesis by simp
qed simp

lemma collect_opt_eq: "(\<And>x. x \<in> set xs \<Longrightarrow> f x = Some (g x)) \<Longrightarrow> collect_opt f xs = Some (map g xs)"
  by (simp add: collect_opt_Some list_all2_conv_all_nth)

lemma pk_len_bytes:
  assumes "sizes_ok B K" "ctx \<noteq> NoChecks" "ctx = Segwitv0 \<longrightarrow> \<not> is_uncompressed K pk"
  shows "pk_len K ctx pk = Some (instruction_size (PushBytes (key_bytes B (ctx_sig_type ctx) pk)))"
  using assms by (cases ctx) (auto simp: sizes_ok_def key_bytes_def)

lemma size_keys: "size_of (map (\<lambda>pk. PushBytes (f pk)) pks) = sum_list (map (\<lambda>pk. instruction_size (PushBytes (f pk))) pks)"
  by (induction pks) simp_all

lemma size_key_adds:
  "size_of (concat (map (\<lambda>pk. [PushBytes (f pk), Op OP_CHECKSIGADD]) pks)) =
     sum_list (map (\<lambda>pk. instruction_size (PushBytes (f pk))) pks) + length pks"
  by (induction pks) simp_all

lemma ecdsa_key_bytes: "ctx \<noteq> Tap \<Longrightarrow> key_bytes B (ctx_sig_type ctx) pk = full_key_bytes B pk"
  by (cases ctx) (simp_all add: key_bytes_def)

lemma size_u32: "instruction_size (int_instruction (uint (t :: u32))) = script_num_size (unat t)"
proof -
  have "unat t < 2 ^ 32" using unsigned_less [of t] by simp
  then show ?thesis using size_int [of "unat t"] by simp
qed

lemma size_32: "instruction_size (int_instruction 32) = 2"
  using size_int [of 32] by (simp add: script_num_size_def)

lemma hash_lengths:
  assumes "sizes_ok B K"
  shows "length (sha256_bytes B h) = 32" "length (hash256_bytes B h) = 32" "length (ripemd160_bytes B h) = 20"
    "length (hash160_bytes B h) = 20" "length (key_hash B st pk) = 20"
  using assms by (auto simp: sizes_ok_def key_hash_def split: sig_type.splits)

lemma script_size_asm:
  fixes m :: "('pk, 'h, 'e) miniscript"
  assumes B: "builder_ok B" "sizes_ok B K" and ctx: "ctx \<noteq> NoChecks"
    and "ms_wf E L st m" "every_node (node_sized B K xs ctx) m"
  shows "script_size K xs ctx (node m) = Some (size_of (asm B (ctx_sig_type ctx) (node m)))"
  using assms(4,5)
proof (induction "node m" arbitrary: m rule: terminal_children_induct)
  case step
  let ?asm = "asm B (ctx_sig_type ctx)"
  have kid: "script_size K xs ctx (node c) = Some (size_of (?asm (node c)))"
      "has_free_verify (ext c) \<longleftrightarrow> ends_free (?asm (node c))" if "c \<in> set (children (node m))" for c
    using step.hyps [OF that refl] step.prems that every_node_child [OF step.prems(2) that] free_verify_ends [OF B(1), of E L st c K xs ctx]
    by (simp_all add: ms_wf_iff [of E L st m])
  have t: "type_rule E L (node m) = Inr (ty m)"
    using step.prems by (simp add: ms_wf_iff [of E L st m] node_wf_iff)
  note node = every_node_root [OF step.prems(2), unfolded node_sized_def]
  show ?case
  proof (cases "node m")
    case (PkK pk)
    then show ?thesis using node pk_len_bytes [OF B(2) ctx] by simp
  next
    case (Thresh k subs)
    have "subs \<noteq> []" "k < 2 ^ 39" using t node Thresh by auto
    then show ?thesis using Thresh kid collect_opt_eq [of subs "\<lambda>s. script_size K xs ctx (node s)"]
      by (simp add: size_joined size_int comp_def)
  next
    case (Multi k pks)
    have len: "pk_len K ctx pk = Some (instruction_size (PushBytes (full_key_bytes B pk)))" if "pk \<in> set pks" for pk
      using node Multi that pk_len_bytes [OF B(2) ctx, of pk] by (auto simp: ecdsa_key_bytes list_all_iff)
    show ?thesis using node Multi t by (simp add: collect_opt_eq [OF len] size_keys size_int comp_def)
  next
    case (MultiA k pks)
    have tap: "ctx = Tap" "length (key_bytes B Schnorr pk) = 32" for pk
      using node MultiA B(2) by (simp_all add: sizes_ok_def key_bytes_def)
    have keys: "collect_opt (pk_len K Tap) pks = Some (map (\<lambda>_. 33) pks)" by (rule collect_opt_eq) simp
    obtain pk rest where "pks = pk # rest" using t MultiA by (cases pks) auto
    then show ?thesis using node MultiA t keys by (simp add: tap size_key_adds size_int sum_list_triv)
  next
    case (ExtT e)
    then show ?thesis using node by simp
  qed (use kid node in \<open>auto simp: hash_asm_def hash_lengths [OF B(2)] size_32 size_u32 size_add_verify\<close>)
qed

text \<open>The cost that the type checker caches is the same number for the scripts it accounts for.\<close>

definition node_costed :: "('b, 'pk, 'h, 'e) builder \<Rightarrow> 'pk key_info \<Rightarrow> ('pk, 'h, 'e) miniscript \<Rightarrow> bool" where
  "node_costed B K m =
     (case node m of
        PkK pk \<Rightarrow> \<not> is_uncompressed K pk
      | Multi k pks \<Rightarrow> list_all (\<lambda>pk. \<not> is_uncompressed K pk) pks \<and> length pks < 128
      | MultiA k pks \<Rightarrow> length pks \<le> 16
      | ExtT e \<Rightarrow> pk_cost (ext m) = size_of (ext_instructions B e)
      | _ \<Rightarrow> True)"

lemma ext_threshold_cost:
  "ext_threshold k es = Some (Inr x) \<Longrightarrow> pk_cost x = 1 + script_num_size k + sum_list (map pk_cost es) + length es - 1"
  by (auto simp: ext_threshold_def Let_def bind_eq_Some_conv)

lemma pk_cost_asm:
  fixes m :: "('pk, 'h, 'e) miniscript"
  assumes B: "builder_ok B" "sizes_ok B K"
    and "ms_wf E L (ctx_sig_type ctx) m" "every_node (node_sized B K xs ctx) m" "every_node (node_costed B K) m"
  shows "pk_cost (ext m) = size_of (asm B (ctx_sig_type ctx) (node m))"
  using assms(3-5)
proof (induction "node m" arbitrary: m rule: terminal_children_induct)
  case step
  let ?st = "ctx_sig_type ctx"
  let ?asm = "asm B ?st"
  have kid: "pk_cost (ext c) = size_of (?asm (node c))"
      "has_free_verify (ext c) \<longleftrightarrow> ends_free (?asm (node c))" if "c \<in> set (children (node m))" for c
    using step.hyps [OF that refl] step.prems that every_node_child [OF step.prems(2) that]
      every_node_child [OF step.prems(3) that] free_verify_ends [OF B(1), of E L ?st c K xs ctx]
    by (simp_all add: ms_wf_iff [of E L ?st m])
  have x: "ext_rule E L ?st (node m) = Some (Inr (ext m))" and t: "type_rule E L (node m) = Inr (ty m)"
    using step.prems by (simp_all add: ms_wf_iff [of E L ?st m] node_wf_iff)
  note node = every_node_root [OF step.prems(2), unfolded node_sized_def]
    every_node_root [OF step.prems(3), unfolded node_costed_def]
  have key: "instruction_size (PushBytes (key_bytes B ?st pk)) = (case ?st of Ecdsa \<Rightarrow> 34 | Schnorr \<Rightarrow> 33)"
    if "\<not> is_uncompressed K pk \<or> ctx = Tap" for pk
    using B(2) that by (auto simp: sizes_ok_def key_bytes_def split: sig_type.splits)
  show ?case
  proof (cases "node m")
    case (PkK pk)
    then show ?thesis using node x key [of pk] by (auto simp: ext_leaf_defs dest!: sym [of _ "ext m"])
  next
    case (Thresh k subs)
    have "subs \<noteq> []" "k < 2 ^ 39" using t node Thresh by auto
    moreover have sums: "(\<Sum>s\<leftarrow>subs. pk_cost (ext s)) = (\<Sum>s\<leftarrow>subs. size_of (?asm (node s)))"
      using kid Thresh by (simp cong: map_cong)
    ultimately show ?thesis using Thresh x
      by (auto simp: size_joined size_int comp_def sums split: if_splits dest!: ext_threshold_cost)
  next
    case (Multi k pks)
    have "list_all (\<lambda>pk. \<not> is_uncompressed K pk) pks" using node Multi by simp
    then have "(\<Sum>pk\<leftarrow>pks. instruction_size (PushBytes (full_key_bytes B pk))) = 34 * length pks"
      using B(2) by (induction pks) (auto simp: sizes_ok_def)
    then show ?thesis using node Multi t x
      by (auto simp: comp_def size_int ext_leaf_defs multi_num_cost_def script_num_size_def
        dest!: sym [of _ "ext m"])
  next
    case (MultiA k pks)
    obtain pk rest where pks: "pks = pk # rest" using t MultiA by (cases pks) auto
    have tap: "ctx = Tap" "length (key_bytes B Schnorr pk) = 32" for pk
      using node MultiA B(2) by (simp_all add: sizes_ok_def key_bytes_def)
    show ?thesis using node MultiA t x pks
      by (auto simp: tap size_key_adds size_int ext_leaf_defs multi_num_cost_def script_num_size_def sum_list_triv
          dest!: sym [of _ "ext m"])
  next
    case (ExtT e)
    then show ?thesis using node by simp
  qed (use kid node x in \<open>auto simp: hash_asm_def hash_lengths [OF B(2)] size_32 size_u32 size_add_verify ext_leaf_defs ext_cast_defs
      ext_comb_defs Let_def dest!: sym [of _ "ext m"] split: if_splits\<close>)
qed

text \<open>A \<open>multi_a\<close> of more than sixteen keys is the exception: its cost counts a second number that the script does not have.\<close>

lemma pk_cost_multi_a:
  fixes m :: "('pk, 'h, 'e) miniscript"
  assumes B: "builder_ok B" "sizes_ok B K" and wf: "ms_wf E L (ctx_sig_type ctx) m" "every_node (node_sized B K xs ctx) m"
    and m: "node m = MultiA k pks" "16 < length pks" "k < 128"
  shows "pk_cost (ext m) = size_of (asm B (ctx_sig_type ctx) (node m)) + 1"
proof -
  have x: "ext_rule E L (ctx_sig_type ctx) (node m) = Some (Inr (ext m))" and t: "type_rule E L (node m) = Inr (ty m)"
    using wf(1) by (simp_all add: ms_wf_iff [of E L _ m] node_wf_iff)
  obtain pk rest where pks: "pks = pk # rest" using t m by (cases pks) auto
  have tap: "ctx = Tap" "length (key_bytes B Schnorr pk) = 32" for pk
    using every_node_root [OF wf(2), unfolded node_sized_def] m B(2) by (simp_all add: sizes_ok_def key_bytes_def)
  show ?thesis using m t x pks
    by (auto simp: tap size_key_adds size_int ext_leaf_defs multi_num_cost_def script_num_size_def sum_list_triv
        dest!: sym [of _ "ext m"])
qed

end
