(* ===== verification/Tokens.thy ===== *)
theory Tokens
  imports Encode
begin

text \<open>
  The tokens of a fragment, and that the lexer (\<open>miniscript/lex.rs\<close>) reads exactly these back from
  the encoding. \<open>et\<close> gives the tokens of an extension.
\<close>

section \<open>The tokens of a fragment\<close>

definition key_token :: "bytes \<Rightarrow> token" where
  "key_token bs = (if length bs = 32 then Bytes32 bs else if length bs = 33 then Bytes33 bs else Bytes65 bs)"

definition hash_token :: "bytes \<Rightarrow> token" where
  "hash_token h = (if length h = 20 then Hash20 h else Bytes32 h)"

definition hash_toks :: "token \<Rightarrow> bytes \<Rightarrow> token list" where
  "hash_toks f h = [Size, Num 32, Equal, VerifyTk, f, hash_token h, Equal]"

fun toks :: "('b, 'pk, 'h, 'e) builder \<Rightarrow> ('e \<Rightarrow> token list) \<Rightarrow> sig_type \<Rightarrow> ('pk, 'h, 'e) terminal \<Rightarrow> token list" where
  "toks B et st (PkK pk) = [key_token (key_bytes B st pk)]"
| "toks B et st (PkH pk) = [Dup, Hash160Tk, Hash20 (key_hash B st pk), Equal, VerifyTk]"
| "toks B et st (RawPkH h) = [Dup, Hash160Tk, Hash20 h, Equal, VerifyTk]"
| "toks B et st (terminal.After t) = [Num t, CheckLockTimeVerify]"
| "toks B et st (terminal.Older t) = [Num t, CheckSequenceVerify]"
| "toks B et st (terminal.Sha256 h) = hash_toks Sha256Tk (sha256_bytes B h)"
| "toks B et st (terminal.Hash256 h) = hash_toks Hash256Tk (hash256_bytes B h)"
| "toks B et st (terminal.Ripemd160 h) = hash_toks Ripemd160Tk (ripemd160_bytes B h)"
| "toks B et st (terminal.Hash160 h) = hash_toks Hash160Tk (hash160_bytes B h)"
| "toks B et st TrueT = [Num 1]"
| "toks B et st FalseT = [Num 0]"
| "toks B et st (Alt x) = [ToAltStack] @ toks B et st (node x) @ [FromAltStack]"
| "toks B et st (Swap x) = [SwapTk] @ toks B et st (node x)"
| "toks B et st (Check x) = toks B et st (node x) @ [CheckSig]"
| "toks B et st (DupIf x) = [Dup, If] @ toks B et st (node x) @ [EndIf]"
| "toks B et st (Verify x) = toks B et st (node x) @ [VerifyTk]"
| "toks B et st (NonZero x) = [Size, ZeroNotEqualTk, If] @ toks B et st (node x) @ [EndIf]"
| "toks B et st (ZeroNotEqual x) = toks B et st (node x) @ [ZeroNotEqualTk]"
| "toks B et st (AndV x y) = toks B et st (node x) @ toks B et st (node y)"
| "toks B et st (AndB x y) = toks B et st (node x) @ toks B et st (node y) @ [BoolAnd]"
| "toks B et st (AndOr x y z) =
     toks B et st (node x) @ [NotIf] @ toks B et st (node z) @ [Else] @ toks B et st (node y) @ [EndIf]"
| "toks B et st (OrB x y) = toks B et st (node x) @ toks B et st (node y) @ [BoolOr]"
| "toks B et st (OrD x y) = toks B et st (node x) @ [IfDup, NotIf] @ toks B et st (node y) @ [EndIf]"
| "toks B et st (OrC x y) = toks B et st (node x) @ [NotIf] @ toks B et st (node y) @ [EndIf]"
| "toks B et st (OrI x y) = [If] @ toks B et st (node x) @ [Else] @ toks B et st (node y) @ [EndIf]"
| "toks B et st (Thresh k subs) =
     joined [Add] (map (\<lambda>s. toks B et st (node s)) subs) @ [Num (of_nat k), Equal]"
| "toks B et st (Multi k keys) =
     [Num (of_nat k)] @ map (\<lambda>pk. key_token (full_key_bytes B pk)) keys @ [Num (of_nat (length keys)), CheckMultiSig]"
| "toks B et st (MultiA k keys) =
     (case keys of [] \<Rightarrow> []
      | pk # rest \<Rightarrow> [key_token (key_bytes B st pk), CheckSig]
          @ concat (map (\<lambda>pk. [key_token (key_bytes B st pk), CheckSigAdd]) rest))
     @ [Num (of_nat k), NumEqual]"
| "toks B et st (ExtT e) = et e"

section \<open>Lexing pieces of a script\<close>

fun lex_run :: "lex_lib \<Rightarrow> token list \<Rightarrow> instruction list \<Rightarrow> crate_error + token list" where
  "lex_run L ret [] = Inr ret"
| "lex_run L ret (i # is) = bind_res (lex_instruction L ret i) (\<lambda>ret'. lex_run L ret' is)"

lemma lex_loop_run: "lex_loop L ret (map Inr is) = map_res rev (lex_run L ret is)"
proof (induction "is" arbitrary: ret)
  case (Cons i "is")
  then show ?case by (cases "lex_instruction L ret i") (simp_all add: map_res_def)
qed (simp add: map_res_def)

lemma lex_run_append: "lex_run L ret (is @ js) = bind_res (lex_run L ret is) (\<lambda>r. lex_run L r js)"
proof (induction "is" arbitrary: ret)
  case (Cons i "is")
  then show ?case by (cases "lex_instruction L ret i") simp_all
qed simp

text \<open>A piece lexes to tokens wherever it stands, except after \<open>OP_PICK\<close>.\<close>

definition lexes :: "lex_lib \<Rightarrow> instruction list \<Rightarrow> token list \<Rightarrow> bool" where
  "lexes L is ts \<longleftrightarrow> is \<noteq> [] \<and> ts \<noteq> [] \<and> last ts \<noteq> Pick
     \<and> (\<forall>ret. (ret = [] \<or> hd ret \<noteq> Pick) \<longrightarrow> lex_run L ret is = Inr (rev ts @ ret))"

definition lexes_v :: "lex_lib \<Rightarrow> instruction list \<Rightarrow> token list \<Rightarrow> bool" where
  "lexes_v L is ts \<longleftrightarrow> lexes L is ts \<and> lexes L (add_verify is) (ts @ [VerifyTk])"

lemma lexes_append:
  assumes "lexes L is ts" "lexes L js us"
  shows "lexes L (is @ js) (ts @ us)"
proof -
  have "hd (rev ts @ ret) \<noteq> Pick" for ret
    using assms(1) by (auto simp: lexes_def hd_append hd_rev)
  then show ?thesis using assms by (auto simp: lexes_def lex_run_append)
qed

lemma lexes_v_append:
  assumes "lexes L is ts" "lexes_v L js us"
  shows "lexes_v L (is @ js) (ts @ us)"
proof -
  have "js \<noteq> []" using assms(2) by (auto simp: lexes_v_def lexes_def)
  then show ?thesis using assms lexes_append [of L "is" ts js us] lexes_append [of L "is" ts "add_verify js" "us @ [VerifyTk]"]
    by (auto simp: lexes_v_def)
qed

lemma lexes_v_lexes: "lexes_v L is ts \<Longrightarrow> lexes L is ts"
  by (simp add: lexes_v_def)

lemma lexes_v_Cons: "lexes L [i] ts \<Longrightarrow> lexes_v L is us \<Longrightarrow> lexes_v L (i # is) (ts @ us)"
  using lexes_v_append [of L "[i]"] by simp

lemma lexes_op:
  assumes "op_tokens op = Some ts" "op \<notin> {OP_CAT, OP_VERIFY}" "ts \<noteq> []" "last ts \<noteq> Pick"
  shows "lexes L [Op op] ts"
  using assms by (simp add: lexes_def lex_instruction_def)

lemma lexes_verify_op:
  assumes "lexes L is ts" "last ts \<notin> {Equal, CheckSig, CheckMultiSig}"
  shows "lexes L (is @ [Op OP_VERIFY]) (ts @ [VerifyTk])"
  using assms by (auto simp: lexes_def lex_run_append lex_instruction_def hd_append hd_rev)

lemma add_verify_plain: "\<not> ends_free is \<Longrightarrow> add_verify is = is @ [Op OP_VERIFY]"
  by (cases "is" rule: add_verify_cases) auto

lemma lexes_v_plain:
  assumes "lexes L is ts" "last ts \<notin> {Equal, CheckSig, CheckMultiSig}" "\<not> ends_free is"
  shows "lexes_v L is ts"
  using assms lexes_verify_op [OF assms(1,2)] by (simp add: lexes_v_def add_verify_plain)

lemma lexes_v_free:
  assumes "op_tokens op = Some ts" "op \<notin> {OP_CAT, OP_VERIFY}" "ts \<noteq> []" "last ts \<noteq> Pick"
    and "verify_form op = Some v" "op_tokens v = Some (ts @ [VerifyTk])" "v \<notin> {OP_CAT, OP_VERIFY}"
  shows "lexes_v L [Op op] ts"
  using lexes_op [OF assms(1-4)] lexes_op [OF assms(6,7), of L] assms(5) by (simp add: lexes_v_def add_verify_def)

lemma lexes_v_verify: "lexes_v L is ts \<Longrightarrow> lexes_v L (add_verify is) (ts @ [VerifyTk])"
  by (rule lexes_v_plain) (simp_all add: lexes_v_def)

lemma build_scriptint_short: "n \<noteq> 0 \<Longrightarrow> n < 2 ^ 31 \<Longrightarrow> length (build_scriptint (int n)) \<le> 4"
  using script_num_size_scriptint [of n] scriptint_loop_length [of False n]
  by (cases "n \<le> 16") (auto simp: script_num_size_def build_scriptint_def split: if_splits)

lemma lexes_int:
  assumes L: "lex_lib_ok L" and n: "n < 2 ^ 31"
  shows "lexes L [int_instruction (int n)] [Num (of_nat n)]"
proof (cases "n = 0 \<or> 16 < n")
  case True
  have bs: "int_instruction (int n) = PushBytes (build_scriptint (int n))"
    using True by (auto simp: int_instruction_def build_scriptint_def)
  have "length (build_scriptint (int n)) \<le> 4"
    using build_scriptint_short [of n] n by (cases "n = 0") (simp_all add: build_scriptint_def)
  moreover have "lex_number L (build_scriptint (int n)) = Inr (Num (of_nat n))"
  proof -
    have "read_scriptint L (build_scriptint (int n)) = Some (int n)" using L n by (simp add: lex_lib_ok_def)
    moreover have "push_int_tail L (int n) = build_scriptint (int n)"
      using L True by (auto simp: lex_lib_ok_def build_scriptint_def)
    ultimately show ?thesis by (simp add: lex_number_def)
  qed
  ultimately show ?thesis by (auto simp: lexes_def bs lex_instruction_def lex_push_def)
next
  case False
  then show ?thesis by (auto simp: lexes_def int_instruction_def lex_instruction_def)
qed

lemma lexes_v_int: "lex_lib_ok L \<Longrightarrow> n < 2 ^ 31 \<Longrightarrow> lexes_v L [int_instruction (int n)] [Num (of_nat n)]"
  by (rule lexes_v_plain [OF lexes_int]) (auto simp: int_instruction_def)

lemma lexes_key: "length bs \<in> {32, 33, 65} \<Longrightarrow> lexes_v L [PushBytes bs] [key_token bs]"
  by (rule lexes_v_plain) (auto simp: lexes_def lex_instruction_def lex_push_def key_token_def)

lemma lexes_hash: "length h \<in> {20, 32} \<Longrightarrow> lexes L [PushBytes h] [hash_token h]"
  by (auto simp: lexes_def lex_instruction_def lex_push_def hash_token_def)


section \<open>The lexer reads the encoding back\<close>

definition node_lexed :: "('b, 'pk, 'h, 'e) builder \<Rightarrow> ('e \<Rightarrow> token list) \<Rightarrow> lex_lib \<Rightarrow> ('pk, 'h, 'e) miniscript \<Rightarrow> bool" where
  "node_lexed B et L m =
     (case node m of
        RawPkH h \<Rightarrow> length h = 20
      | terminal.After t \<Rightarrow> unat t < 2 ^ 31
      | terminal.Older t \<Rightarrow> unat t < 2 ^ 31
      | Thresh k subs \<Rightarrow> k < 2 ^ 31
      | Multi k pks \<Rightarrow> length pks < 2 ^ 31
      | MultiA k pks \<Rightarrow> length pks < 2 ^ 31
      | ExtT e \<Rightarrow> lexes_v L (ext_instructions B e) (et e)
      | _ \<Rightarrow> True)"

lemma lexes_v_op:
  assumes "op \<in> {OP_FROMALTSTACK, OP_ENDIF, OP_0NOTEQUAL, OP_BOOLAND, OP_BOOLOR, OP_CLTV, OP_CSV, OP_ADD, OP_EQUALVERIFY,
      OP_CHECKSIGADD}"
  shows "lexes_v L [Op op] (the (op_tokens op))"
  using assms by (auto intro!: lexes_v_plain lexes_op)

lemma lexes_v_op_free:
  assumes "op \<in> {OP_EQUAL, OP_NUMEQUAL, OP_CHECKSIG, OP_CHECKMULTISIG}"
  shows "lexes_v L [Op op] (the (op_tokens op))"
  using assms by (auto intro!: lexes_v_free)

lemma lexes_followed:
  assumes "list_all2 (lexes L) iss tss" "lexes L [Op op] [t]" "lexes_v L js us"
  shows "lexes_v L (followed [Op op] iss @ js) (followed [t] tss @ us)"
  using assms(1)
proof (induction rule: list_all2_induct)
  case (Cons xs x ys y)
  then show ?case
    using lexes_v_append [OF lexes_append [OF Cons(1) assms(2)] Cons(3)] by (simp add: followed_def)
qed (simp add: followed_def assms(3))

lemma lexes_joined:
  assumes "list_all2 (lexes L) iss tss" "iss \<noteq> []" "lexes L [Op op] [t]" "lexes_v L js us"
  shows "lexes_v L (joined [Op op] iss @ js) (joined [t] tss @ us)"
proof -
  obtain a "is" b ts where "iss = a # is" "tss = b # ts" "lexes L a b" "list_all2 (lexes L) is ts"
    using assms(1,2) by (cases iss) (auto simp: list_all2_Cons1)
  then show ?thesis using lexes_v_append [OF \<open>lexes L a b\<close> lexes_followed [OF _ assms(3,4)]] by simp
qed

lemma lexes_hash_asm:
  assumes L: "lex_lib_ok L" and "length h \<in> {20, 32}" "lexes L [Op op] [f]"
  shows "lexes_v L (hash_asm op h) (hash_toks f h)"
proof -
  have "lexes L [Op OP_SIZE] [Size]" "lexes L [Op OP_EQUALVERIFY] [Equal, VerifyTk]" "lexes L [int_instruction 32] [Num 32]"
    using lexes_int [OF L, of 32] by (auto intro: lexes_op)
  moreover have "lexes_v L [Op OP_EQUAL] [Equal]" using lexes_v_op_free [of OP_EQUAL] by simp
  ultimately have "lexes_v L ([Op OP_SIZE] @ [int_instruction 32] @ [Op OP_EQUALVERIFY] @ [Op op] @ [PushBytes h] @ [Op OP_EQUAL])
      ([Size] @ [Num 32] @ [Equal, VerifyTk] @ [f] @ [hash_token h] @ [Equal])"
    using lexes_hash [OF assms(2), of L] assms(3) by (intro lexes_v_append)
  then show ?thesis by (simp add: hash_asm_def hash_toks_def)
qed

lemma lexes_keys:
  assumes "\<And>bs. bs \<in> set bss \<Longrightarrow> length bs \<in> {32, 33, 65}" "lexes_v L js us"
  shows "lexes_v L (map PushBytes bss @ js) (map key_token bss @ us)"
  using assms(1)
proof (induction bss)
  case (Cons bs bss)
  then show ?case using lexes_v_append [OF lexes_v_lexes [OF lexes_key [of bs L]]] by simp
qed (simp add: assms(2))

lemma lexes_multi_a_keys:
  assumes "\<And>bs. bs \<in> set bss \<Longrightarrow> length bs \<in> {32, 33, 65}" "lexes_v L js us"
  shows "lexes_v L (concat (map (\<lambda>bs. [PushBytes bs, Op OP_CHECKSIGADD]) bss) @ js)
    (concat (map (\<lambda>bs. [key_token bs, CheckSigAdd]) bss) @ us)"
  using assms(1)
proof (induction bss)
  case (Cons bs bss)
  have "lexes L ([PushBytes bs] @ [Op OP_CHECKSIGADD]) ([key_token bs] @ [CheckSigAdd])"
    using Cons.prems by (intro lexes_append lexes_v_lexes [OF lexes_key]) (auto intro: lexes_op)
  from lexes_v_append [OF this Cons.IH] Cons.prems show ?case by simp
qed (simp add: assms(2))

lemma key_lengths: "sizes_ok B K \<Longrightarrow> length (full_key_bytes B pk) \<in> {32, 33, 65}"
    "sizes_ok B K \<Longrightarrow> length (key_bytes B st pk) \<in> {32, 33, 65}"
  by (auto simp: sizes_ok_def key_bytes_def split: sig_type.splits)

lemma lexes_v_ops:
  "lexes_v L [Op OP_FROMALTSTACK] [FromAltStack]" "lexes_v L [Op OP_CHECKSIG] [CheckSig]"
  "lexes_v L [Op OP_ENDIF] [EndIf]" "lexes_v L [Op OP_0NOTEQUAL] [ZeroNotEqualTk]"
  "lexes_v L [Op OP_BOOLAND] [BoolAnd]" "lexes_v L [Op OP_BOOLOR] [BoolOr]" "lexes_v L [Op OP_EQUAL] [Equal]"
  "lexes_v L [Op OP_CLTV] [CheckLockTimeVerify]" "lexes_v L [Op OP_CSV] [CheckSequenceVerify]"
  "lexes_v L [Op OP_EQUALVERIFY] [Equal, VerifyTk]" "lexes_v L [Op OP_CHECKMULTISIG] [CheckMultiSig]"
  "lexes_v L [Op OP_NUMEQUAL] [NumEqual]"
  using lexes_v_op [of _ L] lexes_v_op_free [of _ L] by force+

lemma lexes_ops:
  "lexes L [Op OP_TOALTSTACK] [ToAltStack]" "lexes L [Op OP_SWAP] [SwapTk]"
  "lexes L [Op OP_DUP, Op OP_IF] [Dup, If]" "lexes L [Op OP_SIZE, Op OP_0NOTEQUAL, Op OP_IF] [Size, ZeroNotEqualTk, If]"
  "lexes L [Op OP_IF] [If]" "lexes L [Op OP_NOTIF] [NotIf]" "lexes L [Op OP_ELSE] [Else]"
  "lexes L [Op OP_IFDUP, Op OP_NOTIF] [IfDup, NotIf]" "lexes L [Op OP_DUP, Op OP_HASH160] [Dup, Hash160Tk]"
  "lexes L [Op OP_SHA256] [Sha256Tk]" "lexes L [Op OP_HASH256] [Hash256Tk]" "lexes L [Op OP_RIPEMD160] [Ripemd160Tk]"
  "lexes L [Op OP_HASH160] [Hash160Tk]" "lexes L [Op OP_ADD] [Add]"
  by (simp_all add: lexes_def lex_instruction_def)

lemma lexes_pk_h: "length h = 20 \<Longrightarrow>
    lexes_v L [Op OP_DUP, Op OP_HASH160, PushBytes h, Op OP_EQUALVERIFY] [Dup, Hash160Tk, Hash20 h, Equal, VerifyTk]"
  using lexes_v_append [OF lexes_ops(9) lexes_v_append [OF lexes_hash [of h L] lexes_v_ops(10)]]
  by (simp add: hash_token_def)

lemma asm_lexes_node:
  fixes t :: "('pk, 'h, 'e) terminal"
  assumes B: "sizes_ok B K" and L: "lex_lib_ok L"
    and kid: "\<And>c. c \<in> set (children t) \<Longrightarrow> lexes_v L (asm B st (node c)) (toks B et st (node c))"
    and node: "node_lexed B et L (Miniscript t ty0 ext0)" and t: "type_rule E LL t = Inr tt"
  shows "lexes_v L (asm B st t) (toks B et st t)"
proof -
  note kid' = lexes_v_lexes [OF kid] and app = lexes_v_append and ops = lexes_ops [of L] and vops = lexes_v_ops [of L]
    and key = key_lengths [OF B] and hash = hash_lengths [OF B] and int = lexes_v_int [OF L]
  note [simp] = node_lexed_def
  show ?thesis
  proof (cases t)
    case (After n)
    then show ?thesis using app [OF lexes_int [OF L, of "unat n"] vops(8)] node by simp
  next
    case (Older n)
    then show ?thesis using app [OF lexes_int [OF L, of "unat n"] vops(9)] node by simp
  next
    case (Thresh k subs)
    have "list_all2 (lexes L) (map (\<lambda>s. asm B st (node s)) subs) (map (\<lambda>s. toks B et st (node s)) subs)"
      using kid' Thresh by (simp add: list_all2_conv_all_nth)
    moreover have "lexes_v L ([int_instruction (int k)] @ [Op OP_EQUAL]) ([Num (of_nat k)] @ [Equal])"
      using app [OF lexes_int [OF L, of k] vops(7)] node Thresh by simp
    ultimately show ?thesis using lexes_joined [OF _ _ ops(14)] Thresh t by fastforce
  next
    case (Multi k keys)
    have "lexes_v L ([int_instruction (int (length keys))] @ [Op OP_CHECKMULTISIG]) ([Num (of_nat (length keys))] @ [CheckMultiSig])"
      using app [OF lexes_int [OF L, of "length keys"] vops(11)] node Multi by simp
    from app [OF lexes_int [OF L, of k] lexes_keys [OF _ this, of "map (full_key_bytes B) keys"]]
    show ?thesis using key(1) node Multi t by (auto simp: comp_def)
  next
    case (MultiA k keys)
    obtain pk rest where keys: "keys = pk # rest" using t MultiA by (cases keys) auto
    have "lexes_v L ([int_instruction (int k)] @ [Op OP_NUMEQUAL]) ([Num (of_nat k)] @ [NumEqual])"
      using app [OF lexes_int [OF L, of k] vops(12)] node MultiA t by simp
    from lexes_multi_a_keys [OF _ this, of "map (key_bytes B st) rest"] key(2)
    have "lexes_v L (concat (map (\<lambda>pk. [PushBytes (key_bytes B st pk), Op OP_CHECKSIGADD]) rest)
          @ [int_instruction (int k), Op OP_NUMEQUAL])
        (concat (map (\<lambda>pk. [key_token (key_bytes B st pk), CheckSigAdd]) rest) @ [Num (of_nat k), NumEqual])"
      by (auto simp: comp_def)
    from app [OF lexes_v_lexes [OF lexes_key [OF key(2) [of st pk]]] app [OF lexes_v_lexes [OF vops(2)] this]]
    show ?thesis using MultiA keys by simp
  next
    case (AndOr x y z)
    then show ?thesis using app [OF kid' app [OF ops(6) app [OF kid' app [OF ops(7) app [OF kid' vops(3)]]]], of x z y] by simp
  next
    case (OrI x y)
    then show ?thesis using app [OF ops(5) app [OF kid' app [OF ops(7) app [OF kid' vops(3)]]], of x y] by simp
  next
    case (ExtT e)
    then show ?thesis using node by simp
  next
    case (Alt x)
    then show ?thesis using app [OF ops(1) app [OF kid' vops(1)], of x] by simp
  next
    case (Swap x)
    then show ?thesis using app [OF ops(2) kid, of x] by simp
  next
    case (DupIf x)
    then show ?thesis using app [OF ops(3) app [OF kid' vops(3)], of x] by simp
  next
    case (NonZero x)
    then show ?thesis using app [OF ops(4) app [OF kid' vops(3)], of x] by simp
  next
    case (OrD x y)
    then show ?thesis using app [OF kid' app [OF ops(8) app [OF kid' vops(3)]], of x y] by simp
  next
    case (OrC x y)
    then show ?thesis using app [OF kid' app [OF ops(6) app [OF kid' vops(3)]], of x y] by simp
  next
    case (AndB x y)
    then show ?thesis using app [OF kid' app [OF kid' vops(5)], of x y] by simp
  next
    case (OrB x y)
    then show ?thesis using app [OF kid' app [OF kid' vops(6)], of x y] by simp
  next
    case (AndV x y)
    then show ?thesis using app [OF kid' kid, of x y] by simp
  qed (use int [of 0] int [of 1] key hash node kid app [OF kid' vops(2)] app [OF kid' vops(4)] in
      \<open>auto simp: int_instruction_def lexes_key lexes_hash_asm [OF L] ops lexes_pk_h lexes_v_verify\<close>)
qed

lemma asm_lexes:
  assumes "sizes_ok B K" "lex_lib_ok L" "ms_wf E LL st' m" "every_node (node_lexed B et L) m"
  shows "lexes_v L (asm B st (node m)) (toks B et st (node m))"
  using assms(3,4)
proof (induction "node m" arbitrary: m rule: terminal_children_induct)
  case step
  have kid: "lexes_v L (asm B st (node c)) (toks B et st (node c))" if "c \<in> set (children (node m))" for c
    using step.hyps [OF that refl] step.prems that every_node_child [OF step.prems(2) that]
    by (simp add: ms_wf_iff [of E LL st' m])
  have "type_rule E LL (node m) = Inr (ty m)"
    using step.prems by (simp add: ms_wf_iff [of E LL st' m] node_wf_iff)
  moreover have "node_lexed B et L (Miniscript (node m) (ty m) (ext m))" using every_node_root [OF step.prems(2)] by simp
  ultimately show ?case using asm_lexes_node [OF assms(1,2) kid] by blast
qed

text \<open>Lexing the encoding of a miniscript.\<close>

lemma lex_encode:
  assumes B: "builder_ok B" "sizes_ok B K" and L: "lex_lib_ok L"
    and m: "ms_wf E LL st' m" "every_node (node_lexed B et L) m" and b: "ms_encode B st m = Some b"
  shows "lex L (map Inr (instructions B b)) = Inr (toks B et st (node m))"
proof -
  have "instructions B b = asm B st (node m)"
    using encode_instructions(1) [OF B(1)] b by (simp add: ms_encode_def builder_simps(1) [OF B(1)])
  then show ?thesis using lexes_v_lexes [OF asm_lexes [OF B(2) L m, of st]]
    by (simp add: lex_def lex_loop_run lexes_def map_res_def)
qed

end
