(* ===== verification/Decode.thy ===== *)
theory Decode
  imports Tokens
begin

text \<open>
  The script decoder (\<open>miniscript/decode.rs\<close>): a stack machine that reads the tokens of a script from
  its end. \<open>parse_loop\<close> is the loop of \<open>parse\<close>, \<open>parse_step\<close> its body. A panic (\<open>unwrap\<close>, \<open>expect\<close>, \<open>assert_eq!\<close>) is
  \<open>None\<close>; so is a loop that does not end, which the last section excludes.
\<close>

section \<open>State and library\<close>

datatype nonterm =
    Expression | WExpression | NSwap | MaybeAndV | NAlt | NCheck | NDupIf | NVerify | NNonZero | NZeroNotEqual
  | NAndV | NAndB | NTern | NOrB | NOrD | NOrC
  | ThreshW nat nat
  | ThreshE nat nat
  | NEndIf | NEndIfNotIf | NEndIfElse

text \<open>
  Parsing of keys and hashes, and the extension parser, which may move the iterator. \<open>pe_keys\<close>,
  \<open>pe_checks\<close>, \<open>pe_ext\<close> and \<open>pe_lock\<close> are what the type and context checks ask of keys, extensions and lock times.
\<close>

record ('pk, 'h, 'e) parse_env =
  key_from_slice :: "bytes \<Rightarrow> 'pk option"
  sha256_from_slice :: "bytes \<Rightarrow> 'h option"
  hash256_from_slice :: "bytes \<Rightarrow> 'h option"
  ripemd160_from_slice :: "bytes \<Rightarrow> 'h option"
  hash160_from_slice :: "bytes \<Rightarrow> 'h option"
  ext_from_tokens :: "token_iter \<Rightarrow> 'e option \<times> token_iter"
  pe_ctx :: script_ctx
  pe_ext :: "'e extension"
  pe_lock :: lock_lib
  pe_keys :: "'pk key_info"
  pe_checks :: "'e ext_checks"

record ('pk, 'h, 'e) parse_state =
  tokens :: token_iter
  non_term :: "nonterm list"
  terms :: "('pk, 'h, 'e) miniscript list"

type_synonym ('pk, 'h, 'e) parse_res = "(crate_error + ('pk, 'h, 'e) parse_state) option"

section \<open>The terminal stack\<close>

definition reduce0 :: "('pk, 'h, 'e) parse_env \<Rightarrow> ('pk, 'h, 'e) terminal \<Rightarrow> ('pk, 'h, 'e) parse_state \<Rightarrow> ('pk, 'h, 'e) parse_res" where
  "reduce0 P t s =
     (case type_rule (pe_ext P) (pe_lock P) t of
        Inl e \<Rightarrow> Some (Inl (TypeCheck e))
      | Inr tt \<Rightarrow>
          (case ext_rule (pe_ext P) (pe_lock P) (ctx_sig_type (pe_ctx P)) t of
             None \<Rightarrow> None
           | Some (Inl e) \<Rightarrow> Some (Inl (TypeCheck e))
           | Some (Inr x) \<Rightarrow>
               (case check_global_validity (pe_keys P) (pe_checks P) (pe_ctx P) (Miniscript t tt x) of
                  Inl e \<Rightarrow> Some (Inl (crate_error.ContextError e))
                | Inr _ \<Rightarrow> Some (Inr (s\<lparr>terms := Miniscript t tt x # terms s\<rparr>)))))"

definition reduce1 :: "('pk, 'h, 'e) parse_env \<Rightarrow> (('pk, 'h, 'e) miniscript \<Rightarrow> ('pk, 'h, 'e) terminal) \<Rightarrow>
    ('pk, 'h, 'e) parse_state \<Rightarrow> ('pk, 'h, 'e) parse_res" where
  "reduce1 P wrap s = (case terms s of x # rest \<Rightarrow> reduce0 P (wrap x) (s\<lparr>terms := rest\<rparr>) | _ \<Rightarrow> None)"

definition reduce2 :: "('pk, 'h, 'e) parse_env \<Rightarrow>
    (('pk, 'h, 'e) miniscript \<Rightarrow> ('pk, 'h, 'e) miniscript \<Rightarrow> ('pk, 'h, 'e) terminal) \<Rightarrow>
    ('pk, 'h, 'e) parse_state \<Rightarrow> ('pk, 'h, 'e) parse_res" where
  "reduce2 P wrap s =
     (case terms s of l # r # rest \<Rightarrow> reduce0 P (wrap l r) (s\<lparr>terms := rest\<rparr>) | _ \<Rightarrow> None)"

text \<open>The \<open>Tern\<close> arm: type checks, but no check of the context.\<close>

definition reduce_tern :: "('pk, 'h, 'e) parse_env \<Rightarrow> ('pk, 'h, 'e) parse_state \<Rightarrow> ('pk, 'h, 'e) parse_res" where
  "reduce_tern P s =
     (case terms s of
        a # b # c # rest \<Rightarrow>
          (case type_rule (pe_ext P) (pe_lock P) (AndOr a c b) of
             Inl e \<Rightarrow> Some (Inl (TypeCheck e))
           | Inr tt \<Rightarrow>
               (case ext_rule (pe_ext P) (pe_lock P) (ctx_sig_type (pe_ctx P)) (AndOr a c b) of
                  None \<Rightarrow> None
                | Some (Inl e) \<Rightarrow> Some (Inl (TypeCheck e))
                | Some (Inr x) \<Rightarrow> Some (Inr (s\<lparr>terms := Miniscript (AndOr a c b) tt x # rest\<rparr>))))
      | _ \<Rightarrow> None)"

section \<open>Matching tokens\<close>

text \<open>The two last arms of \<open>match_token!\<close>.\<close>

definition unexpected :: "token \<Rightarrow> (crate_error + 'a) option" where
  "unexpected t = Some (Inl (UnexpectedToken t))"

definition unexpected_start :: "(crate_error + 'a) option" where
  "unexpected_start = Some (Inl UnexpectedStart)"

fun as_num :: "token \<Rightarrow> u32 option" where
  "as_num (Num n) = Some n" | "as_num _ = None"

fun as_hash20 :: "token \<Rightarrow> bytes option" where
  "as_hash20 (Hash20 h) = Some h" | "as_hash20 _ = None"

fun as_bytes32 :: "token \<Rightarrow> bytes option" where
  "as_bytes32 (Bytes32 h) = Some h" | "as_bytes32 _ = None"

fun as_key :: "token \<Rightarrow> bytes option" where
  "as_key (Bytes33 pk) = Some pk" | "as_key (Bytes65 pk) = Some pk" | "as_key _ = None"

text \<open>A sequence of patterns without variables.\<close>

fun expect :: "token list \<Rightarrow> token_iter \<Rightarrow> (token_iter \<Rightarrow> (crate_error + 'a) option) \<Rightarrow> (crate_error + 'a) option" where
  "expect [] ts f = f ts"
| "expect (w # ws) [] f = unexpected_start"
| "expect (w # ws) (t # ts) f = (if t = w then expect ws ts f else unexpected t)"

definition is_and_v :: "token_iter \<Rightarrow> bool" where
  "is_and_v ts = (case token_peek ts of None \<Rightarrow> False | Some t \<Rightarrow> t \<notin> {If, NotIf, Else, ToAltStack, SwapTk})"

section \<open>Expressions\<close>

definition push_nts :: "nonterm list \<Rightarrow> ('pk, 'h, 'e) parse_state \<Rightarrow> ('pk, 'h, 'e) parse_state" where
  "push_nts nts s = s\<lparr>non_term := nts @ non_term s\<rparr>"

definition with_key :: "('pk, 'h, 'e) parse_env \<Rightarrow> bytes \<Rightarrow> ('pk \<Rightarrow> (crate_error + 'a) option) \<Rightarrow> (crate_error + 'a) option" where
  "with_key P bs f =
     (case key_from_slice P bs of None \<Rightarrow> Some (Inl (PubKeyCtxError (name_str (pe_ctx P)))) | Some pk \<Rightarrow> f pk)"

abbreviation size_check :: "token list" where
  "size_check \<equiv> [VerifyTk, Equal, Num 32, Size]"

text \<open>A hash after \<open>OP_EQUAL\<close>; \<open>nts\<close> is pushed first (the \<open>Verify\<close> of the branch for \<open>OP_VERIFY\<close>).\<close>

definition hash_leaf :: "('pk, 'h, 'e) parse_env \<Rightarrow> nonterm list \<Rightarrow> 'h option \<Rightarrow> ('h \<Rightarrow> ('pk, 'h, 'e) terminal) \<Rightarrow>
    token list \<Rightarrow> ('pk, 'h, 'e) parse_state \<Rightarrow> token_iter \<Rightarrow> ('pk, 'h, 'e) parse_res" where
  "hash_leaf P nts h f ws s ts =
     expect ws ts (\<lambda>ts. case h of None \<Rightarrow> None | Some h \<Rightarrow> reduce0 P (f h) (push_nts nts s\<lparr>tokens := ts\<rparr>))"

definition parse_hash32 :: "('pk, 'h, 'e) parse_env \<Rightarrow> nonterm list \<Rightarrow> bytes \<Rightarrow> ('pk, 'h, 'e) parse_state \<Rightarrow> token_iter \<Rightarrow>
    ('pk, 'h, 'e) parse_res" where
  "parse_hash32 P nts h s ts =
     (case ts of
        [] \<Rightarrow> unexpected_start
      | t # ts \<Rightarrow>
          if t = Sha256Tk then hash_leaf P nts (sha256_from_slice P h) terminal.Sha256 size_check s ts
          else if t = Hash256Tk then hash_leaf P nts (hash256_from_slice P h) terminal.Hash256 size_check s ts
          else unexpected t)"

definition parse_hash20 :: "('pk, 'h, 'e) parse_env \<Rightarrow> bytes \<Rightarrow> ('pk, 'h, 'e) parse_state \<Rightarrow> token_iter \<Rightarrow> ('pk, 'h, 'e) parse_res" where
  "parse_hash20 P h s ts =
     (case ts of
        [] \<Rightarrow> unexpected_start
      | t # ts \<Rightarrow>
          if t = Ripemd160Tk then hash_leaf P [] (ripemd160_from_slice P h) terminal.Ripemd160 size_check s ts
          else if t = Hash160Tk then hash_leaf P [] (hash160_from_slice P h) terminal.Hash160 size_check s ts
          else unexpected t)"

text \<open>The same after \<open>OP_EQUAL OP_VERIFY\<close>, where it may also be a key hash.\<close>

definition parse_hash20_verify :: "('pk, 'h, 'e) parse_env \<Rightarrow> bytes \<Rightarrow> ('pk, 'h, 'e) parse_state \<Rightarrow> token_iter \<Rightarrow> ('pk, 'h, 'e) parse_res" where
  "parse_hash20_verify P h s ts =
     (case ts of
        [] \<Rightarrow> unexpected_start
      | t # ts \<Rightarrow>
          if t = Hash160Tk then
            (case ts of
               [] \<Rightarrow> unexpected_start
             | t # ts \<Rightarrow>
                 if t = Dup then (if length h = 20 then reduce0 P (RawPkH h) (s\<lparr>tokens := ts\<rparr>) else None)
                 else if t = VerifyTk then
                   hash_leaf P [NVerify] (hash160_from_slice P h) terminal.Hash160 [Equal, Num 32, Size] s ts
                 else unexpected t)
          else if t = Ripemd160Tk then
            hash_leaf P [NVerify] (ripemd160_from_slice P h) terminal.Ripemd160 size_check s ts
          else unexpected t)"

definition parse_verify :: "('pk, 'h, 'e) parse_env \<Rightarrow> ('pk, 'h, 'e) parse_state \<Rightarrow> token_iter \<Rightarrow> ('pk, 'h, 'e) parse_res" where
  "parse_verify P s ts =
     (case ts of
        [] \<Rightarrow> unexpected_start
      | t # ts \<Rightarrow>
          if t = Equal then
            (case ts of
               [] \<Rightarrow> unexpected_start
             | t # ts \<Rightarrow>
                 (case (as_hash20 t, as_bytes32 t, as_num t) of
                    (Some h, _) \<Rightarrow> parse_hash20_verify P h s ts
                  | (None, Some h, _) \<Rightarrow> parse_hash32 P [NVerify] h s ts
                  | (None, None, Some k) \<Rightarrow> Some (Inr (push_nts [ThreshW (unat k) 0, NVerify] s\<lparr>tokens := ts\<rparr>))
                  | _ \<Rightarrow> Some (Inr (push_nts [Expression, NVerify] s\<lparr>tokens := Equal # t # ts\<rparr>))))
          else Some (Inr (push_nts [Expression, NVerify] s\<lparr>tokens := t # ts\<rparr>)))"

definition parse_equal :: "('pk, 'h, 'e) parse_env \<Rightarrow> ('pk, 'h, 'e) parse_state \<Rightarrow> token_iter \<Rightarrow> ('pk, 'h, 'e) parse_res" where
  "parse_equal P s ts =
     (case ts of
        [] \<Rightarrow> unexpected_start
      | t # ts \<Rightarrow>
          (case (as_bytes32 t, as_hash20 t, as_num t) of
             (Some h, _) \<Rightarrow> parse_hash32 P [] h s ts
           | (None, Some h, _) \<Rightarrow> parse_hash20 P h s ts
           | (None, None, Some k) \<Rightarrow> Some (Inr (push_nts [ThreshW (unat k) 0] s\<lparr>tokens := ts\<rparr>))
           | _ \<Rightarrow> unexpected t))"

definition parse_num :: "token_iter \<Rightarrow> (u32 \<Rightarrow> token_iter \<Rightarrow> (crate_error + 'a) option) \<Rightarrow> (crate_error + 'a) option" where
  "parse_num ts f =
     (case ts of
        [] \<Rightarrow> unexpected_start
      | t # ts \<Rightarrow> (case as_num t of Some n \<Rightarrow> f n ts | None \<Rightarrow> unexpected t))"

fun multi_keys :: "('pk, 'h, 'e) parse_env \<Rightarrow> nat \<Rightarrow> 'pk list \<Rightarrow> token_iter \<Rightarrow>
    ('pk list \<Rightarrow> token_iter \<Rightarrow> (crate_error + 'a) option) \<Rightarrow> (crate_error + 'a) option" where
  "multi_keys P 0 keys ts f = f keys ts"
| "multi_keys P (Suc n) keys [] f = unexpected_start"
| "multi_keys P (Suc n) keys (t # ts) f =
     (case as_key t of
        Some bs \<Rightarrow> with_key P bs (\<lambda>pk. multi_keys P n (keys @ [pk]) ts f)
      | None \<Rightarrow> unexpected t)"

definition parse_multi :: "('pk, 'h, 'e) parse_env \<Rightarrow> ('pk, 'h, 'e) parse_state \<Rightarrow> token_iter \<Rightarrow> ('pk, 'h, 'e) parse_res" where
  "parse_multi P s ts =
     parse_num ts (\<lambda>n ts.
       if unat n > MAX_PUBKEYS_PER_MULTISIG then Some (Inl (CmsTooManyKeys n))
       else multi_keys P (unat n) [] ts (\<lambda>keys ts.
         parse_num ts (\<lambda>k ts. reduce0 P (Multi (unat k) (rev keys)) (s\<lparr>tokens := ts\<rparr>))))"

text \<open>One key of \<open>multi_a\<close>, after its \<open>OP_CHECKSIG\<close> or \<open>OP_CHECKSIGADD\<close>.\<close>

definition xonly_key :: "('pk, 'h, 'e) parse_env \<Rightarrow> token_iter \<Rightarrow>
    ('pk \<Rightarrow> token_iter \<Rightarrow> (crate_error + 'a) option) \<Rightarrow> (crate_error + 'a) option" where
  "xonly_key P ts f =
     (case ts of
        [] \<Rightarrow> unexpected_start
      | t # ts \<Rightarrow> (case as_bytes32 t of Some bs \<Rightarrow> with_key P bs (\<lambda>pk. f pk ts) | None \<Rightarrow> unexpected t))"

fun multi_a_keys :: "('pk, 'h, 'e) parse_env \<Rightarrow> 'pk list \<Rightarrow> token_iter \<Rightarrow>
    ('pk list \<Rightarrow> token_iter \<Rightarrow> (crate_error + 'a) option) \<Rightarrow> (crate_error + 'a) option" where
  "multi_a_keys P keys [] f = f keys []"
| "multi_a_keys P keys [t] f = (if t = CheckSigAdd then unexpected_start else f keys [t])"
| "multi_a_keys P keys (t # u # ts) f =
     (if t = CheckSigAdd then
        (case as_bytes32 u of
           Some bs \<Rightarrow> with_key P bs (\<lambda>pk. multi_a_keys P (keys @ [pk]) ts f)
         | None \<Rightarrow> unexpected u)
      else f keys (t # u # ts))"

definition parse_multi_a :: "('pk, 'h, 'e) parse_env \<Rightarrow> ('pk, 'h, 'e) parse_state \<Rightarrow> token_iter \<Rightarrow> ('pk, 'h, 'e) parse_res" where
  "parse_multi_a P s ts =
     parse_num ts (\<lambda>k ts.
       if unat k > MAX_BLOCK_WEIGHT div 32 then Some (Inl (MultiATooManyKeys (of_nat (MAX_BLOCK_WEIGHT div 32))))
       else multi_a_keys P [] ts (\<lambda>keys ts.
         expect [CheckSig] ts (\<lambda>ts.
           xonly_key P ts (\<lambda>pk ts. reduce0 P (MultiA (unat k) (rev (keys @ [pk]))) (s\<lparr>tokens := ts\<rparr>)))))"

definition parse_expression :: "('pk, 'h, 'e) parse_env \<Rightarrow> ('pk, 'h, 'e) parse_state \<Rightarrow> ('pk, 'h, 'e) parse_res" where
  "parse_expression P s =
     (case tokens s of
        [] \<Rightarrow> unexpected_start
      | t # ts \<Rightarrow>
          let go = \<lambda>nts. Some (Inr (push_nts nts s\<lparr>tokens := ts\<rparr>)) in
          (case (as_key t, as_bytes32 t) of
             (Some bs, _) \<Rightarrow> with_key P bs (\<lambda>pk. reduce0 P (PkK pk) (s\<lparr>tokens := ts\<rparr>))
           | (None, Some bs) \<Rightarrow> with_key P bs (\<lambda>pk. reduce0 P (PkK pk) (s\<lparr>tokens := ts\<rparr>))
           | _ \<Rightarrow>
               if t = CheckSig then go [Expression, NCheck]
               else if t = VerifyTk then parse_verify P s ts
               else if t = ZeroNotEqualTk then go [Expression, NZeroNotEqual]
               else if t = CheckSequenceVerify then parse_num ts (\<lambda>n ts. reduce0 P (terminal.Older n) (s\<lparr>tokens := ts\<rparr>))
               else if t = CheckLockTimeVerify then parse_num ts (\<lambda>n ts. reduce0 P (terminal.After n) (s\<lparr>tokens := ts\<rparr>))
               else if t = Equal then parse_equal P s ts
               else if t = Num 0 then reduce0 P FalseT (s\<lparr>tokens := ts\<rparr>)
               else if t = Num 1 then reduce0 P TrueT (s\<lparr>tokens := ts\<rparr>)
               else if t = EndIf then go [Expression, MaybeAndV, NEndIf]
               else if t = BoolAnd then go [WExpression, Expression, NAndB]
               else if t = BoolOr then go [WExpression, Expression, NOrB]
               else if t = CheckMultiSig then parse_multi P s ts
               else if t = NumEqual then parse_multi_a P s ts
               else unexpected t))"

section \<open>The loop\<close>

text \<open>The arms that look at the next token; \<open>s\<close> is the state after the non-terminal has been popped.\<close>

definition step_thresh_w :: "nat \<Rightarrow> nat \<Rightarrow> ('pk, 'h, 'e) parse_state \<Rightarrow> ('pk, 'h, 'e) parse_res" where
  "step_thresh_w k n s =
     (case tokens s of
        [] \<Rightarrow> unexpected_start
      | t # ts \<Rightarrow>
          if t = Add then Some (Inr (push_nts [WExpression, ThreshW k (n + 1)] s\<lparr>tokens := ts\<rparr>))
          else Some (Inr (push_nts [Expression, ThreshE k (n + 1)] s)))"

text \<open>The loop pops \<open>n\<close> terms; \<open>unwrap\<close> panics when there are fewer.\<close>

definition step_thresh_e :: "('pk, 'h, 'e) parse_env \<Rightarrow> nat \<Rightarrow> nat \<Rightarrow> ('pk, 'h, 'e) parse_state \<Rightarrow> ('pk, 'h, 'e) parse_res" where
  "step_thresh_e P k n s =
     (if n \<le> length (terms s) then reduce0 P (Thresh k (take n (terms s))) (s\<lparr>terms := drop n (terms s)\<rparr>) else None)"

definition step_end_if :: "('pk, 'h, 'e) parse_state \<Rightarrow> ('pk, 'h, 'e) parse_res" where
  "step_end_if s =
     (case tokens s of
        [] \<Rightarrow> unexpected_start
      | t # ts \<Rightarrow>
          if t = Else then Some (Inr (push_nts [Expression, MaybeAndV, NEndIfElse] s\<lparr>tokens := ts\<rparr>))
          else if t = If then
            (case ts of
               [] \<Rightarrow> unexpected_start
             | t # ts \<Rightarrow>
                 if t = Dup then Some (Inr (push_nts [NDupIf] s\<lparr>tokens := ts\<rparr>))
                 else if t = ZeroNotEqualTk then expect [Size] ts (\<lambda>ts. Some (Inr (push_nts [NNonZero] s\<lparr>tokens := ts\<rparr>)))
                 else unexpected t)
          else if t = NotIf then Some (Inr (push_nts [NEndIfNotIf] s\<lparr>tokens := ts\<rparr>))
          else unexpected t)"

definition step_end_if_not_if :: "('pk, 'h, 'e) parse_state \<Rightarrow> ('pk, 'h, 'e) parse_res" where
  "step_end_if_not_if s =
     (case tokens s of
        [] \<Rightarrow> unexpected_start
      | t # ts \<Rightarrow>
          if t = IfDup then Some (Inr (push_nts [Expression, NOrD] s\<lparr>tokens := ts\<rparr>))
          else Some (Inr (push_nts [Expression, NOrC] s)))"

definition step_end_if_else :: "('pk, 'h, 'e) parse_env \<Rightarrow> ('pk, 'h, 'e) parse_state \<Rightarrow> ('pk, 'h, 'e) parse_res" where
  "step_end_if_else P s =
     (case tokens s of
        [] \<Rightarrow> unexpected_start
      | t # ts \<Rightarrow>
          if t = If then reduce2 P OrI (s\<lparr>tokens := ts\<rparr>)
          else if t = NotIf then Some (Inr (push_nts [Expression, NTern] s\<lparr>tokens := ts\<rparr>))
          else unexpected t)"

definition step_w_expression :: "('pk, 'h, 'e) parse_state \<Rightarrow> ('pk, 'h, 'e) parse_res" where
  "step_w_expression s =
     (case tokens s of
        [] \<Rightarrow> unexpected_start
      | t # ts \<Rightarrow>
          if t = FromAltStack then Some (Inr (push_nts [Expression, MaybeAndV, NAlt] s\<lparr>tokens := ts\<rparr>))
          else Some (Inr (push_nts [Expression, MaybeAndV, NSwap] s)))"

fun step_nonterm :: "('pk, 'h, 'e) parse_env \<Rightarrow> nonterm \<Rightarrow> ('pk, 'h, 'e) parse_state \<Rightarrow> ('pk, 'h, 'e) parse_res" where
  "step_nonterm P Expression s =
     (case ext_from_tokens P (tokens s) of
        (Some e, ts) \<Rightarrow> reduce0 P (ExtT e) (s\<lparr>tokens := ts\<rparr>)
      | (None, ts) \<Rightarrow> parse_expression P (s\<lparr>tokens := ts\<rparr>))"
| "step_nonterm P MaybeAndV s = Some (Inr (if is_and_v (tokens s) then push_nts [Expression, NAndV] s else s))"
| "step_nonterm P NSwap s = expect [SwapTk] (tokens s) (\<lambda>ts. reduce1 P Swap (s\<lparr>tokens := ts\<rparr>))"
| "step_nonterm P NAlt s = expect [ToAltStack] (tokens s) (\<lambda>ts. reduce1 P Alt (s\<lparr>tokens := ts\<rparr>))"
| "step_nonterm P NCheck s = reduce1 P Check s"
| "step_nonterm P NDupIf s = reduce1 P DupIf s"
| "step_nonterm P NVerify s = reduce1 P Verify s"
| "step_nonterm P NNonZero s = reduce1 P NonZero s"
| "step_nonterm P NZeroNotEqual s = reduce1 P ZeroNotEqual s"
| "step_nonterm P NAndV s =
     (if is_and_v (tokens s) then Some (Inr (push_nts [MaybeAndV, NAndV] s)) else reduce2 P AndV s)"
| "step_nonterm P NAndB s = reduce2 P AndB s"
| "step_nonterm P NOrB s = reduce2 P OrB s"
| "step_nonterm P NOrC s = reduce2 P OrC s"
| "step_nonterm P NOrD s = reduce2 P OrD s"
| "step_nonterm P NTern s = reduce_tern P s"
| "step_nonterm P (ThreshW k n) s = step_thresh_w k n s"
| "step_nonterm P (ThreshE k n) s = step_thresh_e P k n s"
| "step_nonterm P NEndIf s = step_end_if s"
| "step_nonterm P NEndIfNotIf s = step_end_if_not_if s"
| "step_nonterm P NEndIfElse s = step_end_if_else P s"
| "step_nonterm P WExpression s = step_w_expression s"

partial_function (option) parse_loop :: "('pk, 'h, 'e) parse_env \<Rightarrow> ('pk, 'h, 'e) parse_state \<Rightarrow> ('pk, 'h, 'e) parse_res" where
  "parse_loop P s =
     (case non_term s of
        [] \<Rightarrow> Some (Inr s)
      | nt # rest \<Rightarrow>
          Option.bind (step_nonterm P nt (s\<lparr>non_term := rest\<rparr>))
            (\<lambda>r. case r of Inl e \<Rightarrow> Some (Inl e) | Inr s' \<Rightarrow> parse_loop P s'))"

definition parse :: "('pk, 'h, 'e) parse_env \<Rightarrow> token_iter \<Rightarrow>
    (crate_error + ('pk, 'h, 'e) miniscript \<times> token_iter) option" where
  "parse P ts =
     Option.bind (parse_loop P \<lparr>tokens = ts, non_term = [Expression, MaybeAndV], terms = []\<rparr>)
       (\<lambda>r. case r of
          Inl e \<Rightarrow> Some (Inl e)
        | Inr s \<Rightarrow> (case terms s of [ms] \<Rightarrow> Some (Inr (ms, tokens s)) | _ \<Rightarrow> None))"

text \<open>\<open>Miniscript::parse_with_ext\<close> and the two entry points built on it.\<close>

definition parse_with_ext :: "('pk, 'h, 'e) parse_env \<Rightarrow> lex_lib \<Rightarrow> ext_params \<Rightarrow> (unit + instruction) list \<Rightarrow>
    (crate_error + ('pk, 'h, 'e) miniscript) option" where
  "parse_with_ext P L ps script =
     (case lex L script of
        Inl e \<Rightarrow> Some (Inl e)
      | Inr ts \<Rightarrow>
          map_option (\<lambda>r. bind_res r (\<lambda>(ms, rest).
            bind_res (map_err crate_error.ContextError (check_global_validity (pe_keys P) (pe_checks P) (pe_ctx P) ms)) (\<lambda>_.
            bind_res (map_err TypeCheck (type_rule (pe_ext P) (pe_lock P) (node ms))) (\<lambda>tt.
              if base (corr tt) \<noteq> Base_B then Inl NonTopLevel
              else (case rest of
                      t # _ \<Rightarrow> Inl (Trailing t)
                    | [] \<Rightarrow> bind_res (map_err crate_error.AnalysisError (ext_check (pe_keys P) (pe_checks P) (pe_ctx P) ps ms))
                              (\<lambda>_. Inr ms))))))
            (parse P (token_iter_new ts)))"

definition ms_parse_insane :: "('pk, 'h, 'e) parse_env \<Rightarrow> lex_lib \<Rightarrow> (unit + instruction) list \<Rightarrow>
    (crate_error + ('pk, 'h, 'e) miniscript) option" where
  "ms_parse_insane P L script = parse_with_ext P L ext_params_insane script"

definition ms_parse :: "('pk, 'h, 'e) parse_env \<Rightarrow> lex_lib \<Rightarrow> (unit + instruction) list \<Rightarrow>
    (crate_error + ('pk, 'h, 'e) miniscript) option" where
  "ms_parse P L script =
     map_option (\<lambda>r. bind_res r (\<lambda>ms.
       bind_res (map_err crate_error.AnalysisError (sanity_check (pe_keys P) (pe_checks P) (pe_ctx P) ms)) (\<lambda>_. Inr ms)))
       (parse_with_ext P L ext_params_sane script)"

end
