(* ===== verification/Decode_Sound.thy ===== *)
theory Decode_Sound
  imports Decode Type_Invariants
begin

text \<open>
  Correctness of the decoder. The stack of non-terminals denotes the tokens read so far as a function
  of the tokens of the terms (\<open>denote\<close>); every turn of the loop keeps the equation between the script,
  the tokens left and this denotation, keeps the number of terms right, and decreases a measure.
  So the loop ends without a panic, and encoding what it returns gives back the tokens it read.
\<close>

section \<open>The tokens behind a stack of non-terminals\<close>

fun apply_nt :: "nonterm \<Rightarrow> token list list \<Rightarrow> token list list" where
  "apply_nt Expression xs = [] # xs"
| "apply_nt WExpression xs = [] # xs"
| "apply_nt NAlt (x # xs) = (x @ [FromAltStack]) # xs"
| "apply_nt NCheck (x # xs) = (x @ [CheckSig]) # xs"
| "apply_nt NDupIf (x # xs) = ([Dup, If] @ x @ [EndIf]) # xs"
| "apply_nt NVerify (x # xs) = (x @ [VerifyTk]) # xs"
| "apply_nt NNonZero (x # xs) = ([Size, ZeroNotEqualTk, If] @ x @ [EndIf]) # xs"
| "apply_nt NZeroNotEqual (x # xs) = (x @ [ZeroNotEqualTk]) # xs"
| "apply_nt NAndV (x # y # xs) = (x @ y) # xs"
| "apply_nt NAndB (x # y # xs) = (x @ y @ [BoolAnd]) # xs"
| "apply_nt NTern (x # y # z # xs) = (x @ [NotIf] @ y @ [Else] @ z @ [EndIf]) # xs"
| "apply_nt NOrB (x # y # xs) = (x @ y @ [BoolOr]) # xs"
| "apply_nt NOrD (x # y # xs) = (x @ [IfDup, NotIf] @ y @ [EndIf]) # xs"
| "apply_nt NOrC (x # y # xs) = (x @ [NotIf] @ y @ [EndIf]) # xs"
| "apply_nt (ThreshW k n) xs = (followed [Add] (take n xs) @ [Num (of_nat k), Equal]) # drop n xs"
| "apply_nt (ThreshE k n) xs = (joined [Add] (take n xs) @ [Num (of_nat k), Equal]) # drop n xs"
| "apply_nt NEndIf (x # xs) = (x @ [EndIf]) # xs"
| "apply_nt NEndIfNotIf (x # xs) = ([NotIf] @ x @ [EndIf]) # xs"
| "apply_nt NEndIfElse (x # y # xs) = (x @ [Else] @ y @ [EndIf]) # xs"
| "apply_nt _ xs = xs"

definition denote :: "nonterm list \<Rightarrow> token list list \<Rightarrow> token list" where
  "denote nts xs = concat (fold apply_nt nts xs)"

lemma denote_simps [simp]: "denote [] xs = concat xs" "denote (nt # nts) xs = denote nts (apply_nt nt xs)"
  by (simp_all add: denote_def)

text \<open>How many terms a non-terminal takes; it leaves one. At the end one term remains.\<close>

fun operands :: "nonterm \<Rightarrow> nat" where
  "operands Expression = 0"
| "operands WExpression = 0"
| "operands NAndV = 2"
| "operands NAndB = 2"
| "operands NOrB = 2"
| "operands NOrD = 2"
| "operands NOrC = 2"
| "operands NEndIfElse = 2"
| "operands NTern = 3"
| "operands (ThreshW k n) = n"
| "operands (ThreshE k n) = n"
| "operands _ = 1"

fun fits :: "nonterm list \<Rightarrow> nat \<Rightarrow> bool" where
  "fits [] n \<longleftrightarrow> n = 1"
| "fits (nt # nts) n \<longleftrightarrow> operands nt \<le> n \<and> fits nts (Suc (n - operands nt))"

text \<open>
  Below the top of the stack every non-terminal puts the tokens of the next term first. An
  \<open>Expression\<close> is there only as the left operand of \<open>and_b\<close> and \<open>or_b\<close>.
\<close>

fun linear :: "nonterm \<Rightarrow> bool" where
  "linear WExpression = False"
| "linear NDupIf = False"
| "linear NNonZero = False"
| "linear NEndIfNotIf = False"
| "linear (ThreshW k n) = (0 < n)"
| "linear (ThreshE k n) = (0 < n)"
| "linear _ = True"

fun lin :: "nonterm list \<Rightarrow> bool" where
  "lin [] = True"
| "lin (nt # nts) \<longleftrightarrow>
     linear nt \<and> lin nts \<and> (nt = Expression \<longrightarrow> nts \<noteq> [] \<and> hd nts \<in> {NAndB, NOrB})"

lemma apply_nt_prefix:
  assumes "linear nt" "operands nt \<le> Suc (length xs)" "nt \<noteq> Expression"
  shows "apply_nt nt ((p @ x) # xs) = (p @ hd (apply_nt nt (x # xs))) # tl (apply_nt nt (x # xs))"
    and "length (apply_nt nt (x # xs)) = Suc (Suc (length xs) - operands nt)"
  using assms
  by (cases nt; cases xs; cases "tl xs"; auto simp: followed_def take_Cons' drop_Cons' split: nat.splits)+

lemma denote_prefix:
  "lin nts \<Longrightarrow> fits nts (Suc (length xs)) \<Longrightarrow> denote nts ((p @ x) # xs) = p @ denote nts (x # xs)"
proof (induction nts arbitrary: x xs)
  case (Cons nt nts)
  show ?case
  proof (cases "nt = Expression")
    case True
    then obtain nts' where nts: "nts = NAndB # nts' \<or> nts = NOrB # nts'"
      using Cons.prems(1) by (cases nts) auto
    have "denote nts ((p @ x) # [] # xs) = p @ denote nts (x # [] # xs)"
      using Cons.IH [of "[] # xs" x] Cons.prems True by simp
    then show ?thesis using nts True by auto
  next
    case False
    have l: "linear nt" "operands nt \<le> Suc (length xs)" using Cons.prems by auto
    obtain y ys where y: "apply_nt nt (x # xs) = y # ys"
      using apply_nt_prefix(2) [OF l False, of x] by (cases "apply_nt nt (x # xs)") auto
    have "length ys = Suc (length xs) - operands nt" using apply_nt_prefix(2) [OF l False, of x] y by simp
    then show ?thesis using Cons.IH [of ys y] Cons.prems apply_nt_prefix(1) [OF l False, of p x] y by simp
  qed
qed simp


section \<open>What the decoder relies on\<close>

fun tok_ok :: "token \<Rightarrow> bool" where
  "tok_ok (Hash20 bs) \<longleftrightarrow> length bs = 20"
| "tok_ok (Bytes32 bs) \<longleftrightarrow> length bs = 32"
| "tok_ok (Bytes33 bs) \<longleftrightarrow> length bs = 33"
| "tok_ok (Bytes65 bs) \<longleftrightarrow> length bs = 65"
| "tok_ok _ \<longleftrightarrow> True"

text \<open>
  Documented behaviour of third-party code: a key that parses serialises to the same bytes, hashes
  parse from slices of their size. An extension's parser consumes the tokens of the extension
  it returns, and nothing when it fails; declared types and costs agree.
\<close>

definition parse_lib_ok :: "('pk, 'h, 'e) parse_env \<Rightarrow> ('b, 'pk, 'h, 'e) builder \<Rightarrow> bool" where
  "parse_lib_ok P B \<longleftrightarrow>
     (\<forall>bs k. key_from_slice P bs = Some k \<longrightarrow>
        key_bytes B (ctx_sig_type (pe_ctx P)) k = bs \<and> (length bs \<noteq> 32 \<longrightarrow> full_key_bytes B k = bs))
     \<and> (\<forall>bs. length bs = 32 \<longrightarrow> (\<exists>h. sha256_from_slice P bs = Some h \<and> sha256_bytes B h = bs))
     \<and> (\<forall>bs. length bs = 32 \<longrightarrow> (\<exists>h. hash256_from_slice P bs = Some h \<and> hash256_bytes B h = bs))
     \<and> (\<forall>bs. length bs = 20 \<longrightarrow> (\<exists>h. ripemd160_from_slice P bs = Some h \<and> ripemd160_bytes B h = bs))
     \<and> (\<forall>bs. length bs = 20 \<longrightarrow> (\<exists>h. hash160_from_slice P bs = Some h \<and> hash160_bytes B h = bs))"

definition parse_env_ok :: "('pk, 'h, 'e) parse_env \<Rightarrow> ('b, 'pk, 'h, 'e) builder \<Rightarrow> ('e \<Rightarrow> token list) \<Rightarrow> bool" where
  "parse_env_ok P B et \<longleftrightarrow>
     parse_lib_ok P B
     \<and> (\<forall>ts e ts'. ext_from_tokens P ts = (Some e, ts') \<longrightarrow> et e \<noteq> [] \<and> ts = rev (et e) @ ts')
     \<and> (\<forall>ts ts'. ext_from_tokens P ts = (None, ts') \<longrightarrow> ts' = ts)
     \<and> (\<forall>e. ext_inv (corr_prop (pe_ext P) e) (extra_prop (pe_ext P) e))"

definition good :: "('pk, 'h, 'e) parse_env \<Rightarrow> ('pk, 'h, 'e) miniscript \<Rightarrow> bool" where
  "good P m \<longleftrightarrow> ms_wf (pe_ext P) (pe_lock P) (ctx_sig_type (pe_ctx P)) m
     \<and> every_node (\<lambda>m. ext_data_ok (pe_ext P) (node m)) m"

abbreviation ms_toks :: "('pk, 'h, 'e) parse_env \<Rightarrow> ('b, 'pk, 'h, 'e) builder \<Rightarrow> ('e \<Rightarrow> token list) \<Rightarrow>
    ('pk, 'h, 'e) miniscript \<Rightarrow> token list" where
  "ms_toks P B et m \<equiv> toks B et (ctx_sig_type (pe_ctx P)) (node m)"

definition phase :: "('pk, 'h, 'e) parse_state \<Rightarrow> nat" where
  "phase s =
     (case non_term s of
        Expression # _ \<Rightarrow> 0
      | MaybeAndV # _ \<Rightarrow> if is_and_v (tokens s) then 1 else 3
      | NAndV # _ \<Rightarrow> if is_and_v (tokens s) then 2 else 3
      | _ \<Rightarrow> 3)"

definition smaller :: "(('pk, 'h, 'e) parse_state \<times> ('pk, 'h, 'e) parse_state) set" where
  "smaller = measures [\<lambda>s. length (tokens s), phase, \<lambda>s. length (non_term s)]"

lemma smaller_iff:
  "(s', s) \<in> smaller \<longleftrightarrow> length (tokens s') < length (tokens s) \<or>
     length (tokens s') = length (tokens s) \<and> (phase s' < phase s \<or>
       phase s' = phase s \<and> length (non_term s') < length (non_term s))"
  by (simp add: smaller_def)

definition parse_inv :: "('pk, 'h, 'e) parse_env \<Rightarrow> ('b, 'pk, 'h, 'e) builder \<Rightarrow> ('e \<Rightarrow> token list) \<Rightarrow> token list \<Rightarrow>
    ('pk, 'h, 'e) parse_state \<Rightarrow> bool" where
  "parse_inv P B et V s \<longleftrightarrow> fits (non_term s) (length (terms s)) \<and> lin (tl (non_term s))
     \<and> V = rev (tokens s) @ denote (non_term s) (map (ms_toks P B et) (terms s))
     \<and> list_all (good P) (terms s) \<and> list_all tok_ok (tokens s)"

text \<open>A turn of the loop does not panic, and a state it yields satisfies \<open>Q\<close>.\<close>

definition res_ok :: "('s \<Rightarrow> bool) \<Rightarrow> (crate_error + 's) option \<Rightarrow> bool" where
  "res_ok Q r \<longleftrightarrow> (\<exists>x. r = Some x \<and> (\<forall>s. x = Inr s \<longrightarrow> Q s))"

lemma res_ok_simps [simp]: "\<not> res_ok Q None" "res_ok Q (Some (Inl e))" "res_ok Q (Some (Inr s)) \<longleftrightarrow> Q s"
  "res_ok Q (unexpected t)" "res_ok Q unexpected_start"
  by (auto simp: res_ok_def unexpected_def unexpected_start_def)

lemma expect_ok:
  "(\<And>ts'. ts = ws @ ts' \<Longrightarrow> res_ok Q (f ts')) \<Longrightarrow> res_ok Q (expect ws ts f)"
  by (induction ws ts f rule: expect.induct) auto

lemma parse_num_ok:
  "(\<And>n ts'. ts = Num n # ts' \<Longrightarrow> res_ok Q (f n ts')) \<Longrightarrow> res_ok Q (parse_num ts f)"
  by (auto simp: parse_num_def elim: as_num.elims split: list.splits option.splits)

lemma with_key_ok: "(\<And>k. key_from_slice P bs = Some k \<Longrightarrow> res_ok Q (f k)) \<Longrightarrow> res_ok Q (with_key P bs f)"
  by (auto simp: with_key_def split: option.splits)

lemma reduce0_ok:
  assumes P: "parse_env_ok P B et" and kids: "\<And>c. c \<in> set (children t) \<Longrightarrow> good P c"
    and Q: "\<And>ms. node ms = t \<Longrightarrow> good P ms \<Longrightarrow> Q (s\<lparr>terms := ms # terms s\<rparr>)"
  shows "res_ok Q (reduce0 P t s)"
proof (cases "type_rule (pe_ext P) (pe_lock P) t")
  case (Inr tt)
  let ?st = "ctx_sig_type (pe_ctx P)"
  have ok: "ext_data_ok (pe_ext P) t" using P by (auto simp: ext_data_ok_def parse_env_ok_def parse_lib_ok_def split: terminal.splits)
  obtain x where x: "ext_rule (pe_ext P) (pe_lock P) ?st t = Some (Inr x)"
    using ext_rule_total [OF _ Inr ok, of ?st] ms_wf_ext_inv kids by (fastforce simp: good_def)
  have "good P (Miniscript t tt x)"
    using kids ok x Inr
    by (auto simp: good_def ms_wf_iff [of _ _ _ "Miniscript t tt x"] node_wf_iff every_node_def [of _ "Miniscript t tt x"]
        every_child_iff)
  then have "Q (s\<lparr>terms := Miniscript t tt x # terms s\<rparr>)" using Q by simp
  then show ?thesis by (simp add: reduce0_def Inr x split: sum.splits)
qed (simp add: reduce0_def)

lemma reduce_tern_ok:
  assumes P: "parse_env_ok P B et" and s: "terms s = a # b # c # rest" "list_all (good P) (terms s)"
    and Q: "\<And>ms. node ms = AndOr a c b \<Longrightarrow> good P ms \<Longrightarrow> Q (s\<lparr>terms := ms # rest\<rparr>)"
  shows "res_ok Q (reduce_tern P s)"
proof (cases "type_rule (pe_ext P) (pe_lock P) (AndOr a c b)")
  case (Inr tt)
  obtain x where x: "ext_rule (pe_ext P) (pe_lock P) (ctx_sig_type (pe_ctx P)) (AndOr a c b) = Some (Inr x)"
    by (simp add: ext_comb_defs)
  have "good P (Miniscript (AndOr a c b) tt x)"
    using s x Inr
    by (auto simp: good_def ms_wf_iff [of _ _ _ "Miniscript (AndOr a c b) tt x"] node_wf_iff ext_data_ok_def
        every_node_def [of _ "Miniscript (AndOr a c b) tt x"] every_child_iff)
  then have "Q (s\<lparr>terms := Miniscript (AndOr a c b) tt x # rest\<rparr>)" using Q by simp
  then show ?thesis using s Inr x by (simp add: reduce_tern_def del: ext_rule.simps type_rule.simps)
qed (use s in \<open>simp add: reduce_tern_def\<close>)


section \<open>Expressions\<close>

definition target :: "('pk, 'h, 'e) parse_env \<Rightarrow> ('b, 'pk, 'h, 'e) builder \<Rightarrow> ('e \<Rightarrow> token list) \<Rightarrow> token list \<Rightarrow>
    ('pk, 'h, 'e) parse_state \<Rightarrow> ('pk, 'h, 'e) parse_state \<Rightarrow> bool" where
  "target P B et V s0 s' \<longleftrightarrow> parse_inv P B et V s' \<and> (s', s0) \<in> smaller"

text \<open>An expression: tokens \<open>c\<close> are read, and pushing \<open>nts\<close> and some terms accounts for exactly these.\<close>

lemma expr_target:
  assumes inv: "parse_inv P B et V s0" and nt: "non_term s0 = Expression # rest"
    and "tokens s0 = rev c @ tokens s'" "c \<noteq> []" "non_term s' = nts @ rest"
    and f: "fold apply_nt nts (map (ms_toks P B et) (terms s')) = c # map (ms_toks P B et) (terms s0)"
    and fit: "fits rest (Suc (length (terms s0))) \<Longrightarrow> fits (nts @ rest) (length (terms s'))"
    and lin: "lin rest \<Longrightarrow> lin (tl (nts @ rest))" and good: "list_all (good P) (terms s')"
  shows "target P B et V s0 s'"
proof -
  let ?X = "map (ms_toks P B et) (terms s0)"
  have rest: "lin rest" "fits rest (Suc (length (terms s0)))" "V = rev (tokens s0) @ denote rest ([] # ?X)"
      "list_all tok_ok (tokens s0)"
    using inv nt by (simp_all add: parse_inv_def)
  have "c @ denote rest ([] # ?X) = denote rest (c # ?X)"
    using denote_prefix [of rest ?X c "[]"] rest(1,2) by simp
  also have "\<dots> = denote (non_term s') (map (ms_toks P B et) (terms s'))"
    using assms(5) f by (simp add: denote_def)
  finally show ?thesis
    using rest assms(3,4,5) fit lin good by (auto simp: target_def parse_inv_def smaller_iff)
qed

lemma leaf_target:
  assumes "parse_inv P B et V s0" "non_term s0 = Expression # rest" "tokens s0 = rev c @ ts" "c \<noteq> []"
    and "fold apply_nt nts [ms_toks P B et ms] = [c]" "\<forall>nt\<in>set nts. operands nt = 1 \<and> linear nt \<and> nt \<noteq> Expression"
    and "good P ms" "\<And>xs ys. fold apply_nt nts (xs # ys) = hd (fold apply_nt nts [xs]) # ys"
  shows "target P B et V s0 \<lparr>tokens = ts, non_term = nts @ rest, terms = ms # terms s0\<rparr>"
proof (rule expr_target [OF assms(1-2)])
  show "fold apply_nt nts (map (ms_toks P B et) (terms \<lparr>tokens = ts, non_term = nts @ rest, terms = ms # terms s0\<rparr>)) =
      c # map (ms_toks P B et) (terms s0)"
    using assms(5) assms(8) [of "ms_toks P B et ms" "map (ms_toks P B et) (terms s0)"] by simp
  show "fits (nts @ rest) (length (terms \<lparr>tokens = ts, non_term = nts @ rest, terms = ms # terms s0\<rparr>))"
    if "fits rest (Suc (length (terms s0)))" using assms(6) that by (induction nts) auto
  have "lin (nts @ rest)" if "lin rest" using assms(6) that by (induction nts) auto
  then show "lin (tl (nts @ rest))" if "lin rest" using that by (cases nts; cases rest) auto
  show "list_all (good P) (terms \<lparr>tokens = ts, non_term = nts @ rest, terms = ms # terms s0\<rparr>)"
    using assms(1,7) by (simp add: parse_inv_def)
qed (use assms(3,4) in auto)

lemma as_token_Some:
  "as_num t = Some n \<longleftrightarrow> t = Num n" "as_hash20 t = Some h \<longleftrightarrow> t = Hash20 h" "as_bytes32 t = Some h \<longleftrightarrow> t = Bytes32 h"
  by (auto elim: as_num.elims as_hash20.elims as_bytes32.elims)

lemma as_key_token: "as_key t = Some bs \<Longrightarrow> tok_ok t \<Longrightarrow> t = key_token bs \<and> length bs \<noteq> 32"
  by (auto simp: key_token_def elim: as_key.elims)

lemma as_bytes32_token: "as_bytes32 t = Some bs \<Longrightarrow> tok_ok t \<Longrightarrow> t = key_token bs"
  by (auto simp: key_token_def as_token_Some)

lemma parse_env_key:
  assumes "parse_env_ok P B et" "key_from_slice P bs = Some k"
  shows "key_bytes B (ctx_sig_type (pe_ctx P)) k = bs" "length bs \<noteq> 32 \<Longrightarrow> full_key_bytes B k = bs"
  using assms by (auto simp: parse_env_ok_def parse_lib_ok_def)

lemma multi_keys_ok:
  assumes P: "parse_env_ok P B et" and "list_all tok_ok ts"
    and "\<And>ks ts'. length ks = n \<Longrightarrow> ts = map (\<lambda>k. key_token (full_key_bytes B k)) ks @ ts' \<Longrightarrow> res_ok Q (f (keys @ ks) ts')"
  shows "res_ok Q (multi_keys P n keys ts f)"
  using assms(2,3)
proof (induction n arbitrary: keys ts)
  case 0
  then show ?case using "0.prems"(2) [of "[]" ts] by simp
next
  case (Suc n)
  show ?case
  proof (cases ts)
    case (Cons t ts')
    show ?thesis
    proof (cases "as_key t")
      case (Some bs)
      have "res_ok Q (with_key P bs (\<lambda>pk. multi_keys P n (keys @ [pk]) ts' f))"
      proof (rule with_key_ok, rule Suc.IH)
        fix k ks ts'' assume k: "key_from_slice P bs = Some k"
          and ks: "length ks = n" "ts' = map (\<lambda>k. key_token (full_key_bytes B k)) ks @ ts''"
        have "t = key_token (full_key_bytes B k)"
          using as_key_token [OF Some] Suc.prems(1) Cons parse_env_key(2) [OF P k] by simp
        then show "res_ok Q (f ((keys @ [k]) @ ks) ts'')" using Suc.prems(2) [of "k # ks" ts''] ks Cons by simp
      qed (use Suc.prems Cons in simp)
      then show ?thesis using Some Cons by simp
    qed (simp add: Cons)
  qed simp
qed

lemma xonly_key_ok:
  assumes P: "parse_env_ok P B et" and "list_all tok_ok ts"
    and "\<And>k ts'. ts = key_token (key_bytes B (ctx_sig_type (pe_ctx P)) k) # ts' \<Longrightarrow> res_ok Q (f k ts')"
  shows "res_ok Q (xonly_key P ts f)"
proof (cases ts)
  case (Cons t ts')
  show ?thesis
  proof (cases "as_bytes32 t")
    case (Some bs)
    have "res_ok Q (with_key P bs (\<lambda>pk. f pk ts'))"
      using assms(2,3) as_bytes32_token [OF Some] Cons parse_env_key(1) [OF P] by (intro with_key_ok) auto
    then show ?thesis by (simp add: xonly_key_def Cons Some)
  qed (simp add: xonly_key_def Cons)
qed (simp add: xonly_key_def)

lemma multi_a_keys_ok:
  assumes P: "parse_env_ok P B et" and "list_all tok_ok ts"
    and "\<And>ks ts'. ts = concat (map (\<lambda>k. [CheckSigAdd, key_token (key_bytes B (ctx_sig_type (pe_ctx P)) k)]) ks) @ ts' \<Longrightarrow>
      res_ok Q (f (keys @ ks) ts')"
  shows "res_ok Q (multi_a_keys P keys ts f)"
  using assms(2,3)
proof (induction ts arbitrary: keys rule: induct_list012)
  case 1
  then show ?case using "1.prems"(2) [of "[]" "[]"] by simp
next
  case (2 t)
  then show ?case using "2.prems"(2) [of "[]" "[t]"] by simp
next
  case (3 t u ts)
  show ?case
  proof (cases "t = CheckSigAdd \<and> as_bytes32 u \<noteq> None")
    case True
    then obtain bs where bs: "as_bytes32 u = Some bs" by auto
    have "res_ok Q (with_key P bs (\<lambda>pk. multi_a_keys P (keys @ [pk]) ts f))"
    proof (rule with_key_ok, rule "3.IH"(1))
      fix k ks ts'' assume k: "key_from_slice P bs = Some k"
        and ks: "ts = concat (map (\<lambda>k. [CheckSigAdd, key_token (key_bytes B (ctx_sig_type (pe_ctx P)) k)]) ks) @ ts''"
      have "u = key_token (key_bytes B (ctx_sig_type (pe_ctx P)) k)"
        using as_bytes32_token [OF bs] "3.prems"(1) parse_env_key(1) [OF P k] by simp
      then show "res_ok Q (f ((keys @ [k]) @ ks) ts'')" using "3.prems"(2) [of "k # ks" ts''] ks True by simp
    qed (use "3.prems" in simp)
    then show ?thesis using True bs by simp
  next
    case False
    then show ?thesis using "3.prems"(2) [of "[]" "t # u # ts"] by auto
  qed
qed

text \<open>The leaves read in one turn.\<close>

lemma reduce_leaf:
  assumes P: "parse_env_ok P B et" and inv: "parse_inv P B et V s0" and nt: "non_term s0 = Expression # rest"
    and "tokens s0 = rev (toks B et (ctx_sig_type (pe_ctx P)) t) @ ts" "toks B et (ctx_sig_type (pe_ctx P)) t \<noteq> []"
    and "children t = []"
  shows "res_ok (target P B et V s0) (reduce0 P t (s0\<lparr>non_term := rest, tokens := ts\<rparr>))"
proof (rule reduce0_ok [OF P])
  fix ms assume "node ms = t" "good P ms"
  then show "target P B et V s0 (s0\<lparr>non_term := rest, tokens := ts, terms := ms # terms (s0\<lparr>non_term := rest, tokens := ts\<rparr>)\<rparr>)"
    using leaf_target [OF inv nt assms(4,5), of "[]" ms] by (cases s0) simp
qed (use assms(6) in simp)

lemma parse_multi_ok:
  assumes P: "parse_env_ok P B et" and inv: "parse_inv P B et V s0" and nt: "non_term s0 = Expression # rest"
    and ts: "tokens s0 = CheckMultiSig # ts"
  shows "res_ok (target P B et V s0) (parse_multi P (s0\<lparr>non_term := rest\<rparr>) ts)"
proof -
  have ok: "list_all tok_ok (tokens s0)" using inv by (simp add: parse_inv_def)
  show ?thesis
    unfolding parse_multi_def
  proof (rule parse_num_ok)
    fix n ts1 assume n: "ts = Num n # ts1"
    have "res_ok (target P B et V s0) (multi_keys P (unat n) [] ts1 (\<lambda>keys ts.
        parse_num ts (\<lambda>k ts. reduce0 P (Multi (unat k) (rev keys)) (s0\<lparr>non_term := rest, tokens := ts\<rparr>))))"
    proof (rule multi_keys_ok [OF P], goal_cases)
      case (2 ks ts2)
      show ?case
      proof (rule parse_num_ok)
        fix k ts3 assume "ts2 = Num k # ts3"
        then show "res_ok (target P B et V s0) (reduce0 P (Multi (unat k) (rev ([] @ ks))) (s0\<lparr>non_term := rest, tokens := ts3\<rparr>))"
          using ts n 2 by (intro reduce_leaf [OF P inv nt]) (simp_all add: rev_map)
      qed
    qed (use ok ts n in simp)
    then show "res_ok (target P B et V s0)
       (if unat n > MAX_PUBKEYS_PER_MULTISIG then Some (Inl (CmsTooManyKeys n))
        else multi_keys P (unat n) [] ts1 (\<lambda>keys ts.
          parse_num ts (\<lambda>k ts. reduce0 P (Multi (unat k) (rev keys)) (s0\<lparr>non_term := rest\<rparr>\<lparr>tokens := ts\<rparr>))))"
      by simp
  qed
qed

lemma parse_multi_a_ok:
  assumes P: "parse_env_ok P B et" and inv: "parse_inv P B et V s0" and nt: "non_term s0 = Expression # rest"
    and ts: "tokens s0 = NumEqual # ts"
  shows "res_ok (target P B et V s0) (parse_multi_a P (s0\<lparr>non_term := rest\<rparr>) ts)"
proof -
  have ok: "list_all tok_ok (tokens s0)" using inv by (simp add: parse_inv_def)
  show ?thesis
    unfolding parse_multi_a_def
  proof (rule parse_num_ok)
    fix k ts1 assume k: "ts = Num k # ts1"
    have "res_ok (target P B et V s0) (multi_a_keys P [] ts1 (\<lambda>keys ts. expect [CheckSig] ts (\<lambda>ts.
        xonly_key P ts (\<lambda>pk ts. reduce0 P (MultiA (unat k) (rev (keys @ [pk]))) (s0\<lparr>non_term := rest, tokens := ts\<rparr>)))))"
    proof (rule multi_a_keys_ok [OF P], goal_cases)
      case (2 ks ts2)
      show ?case
      proof (rule expect_ok, rule xonly_key_ok [OF P], goal_cases)
        case (2 ts3 pk ts4)
        then show ?case
          using ts k \<open>ts1 = _\<close> by (intro reduce_leaf [OF P inv nt]) (simp_all add: rev_concat rev_map comp_def)
      qed (use ok ts k 2 in auto)
    qed (use ok ts k in simp)
    then show "res_ok (target P B et V s0)
       (if unat k > MAX_BLOCK_WEIGHT div 32 then Some (Inl (MultiATooManyKeys (of_nat (MAX_BLOCK_WEIGHT div 32))))
        else multi_a_keys P [] ts1 (\<lambda>keys ts. expect [CheckSig] ts (\<lambda>ts.
        xonly_key P ts (\<lambda>pk ts. reduce0 P (MultiA (unat k) (rev (keys @ [pk]))) (s0\<lparr>non_term := rest\<rparr>\<lparr>tokens := ts\<rparr>)))))"
      by simp
  qed
qed

text \<open>Hashes, plain (\<open>nts = []\<close>) and under \<open>OP_VERIFY\<close>.\<close>

lemma hash_leaf_ok:
  assumes P: "parse_env_ok P B et" and inv: "parse_inv P B et V s0" and nt: "non_term s0 = Expression # rest"
    and h: "h = Some h'" and nts: "nts = [] \<and> vs = [] \<or> nts = [NVerify] \<and> vs = [VerifyTk]"
    and ts: "\<And>ts'. ts = ws @ ts' \<Longrightarrow> tokens s0 = rev (toks B et (ctx_sig_type (pe_ctx P)) (f h') @ vs) @ ts'"
    and ne: "toks B et (ctx_sig_type (pe_ctx P)) (f h') \<noteq> []" "children (f h') = []"
  shows "res_ok (target P B et V s0) (hash_leaf P nts h f ws (s0\<lparr>non_term := rest\<rparr>) ts)"
  unfolding hash_leaf_def h option.case
proof (rule expect_ok, rule reduce0_ok [OF P])
  fix ts' ms assume "ts = ws @ ts'" and ms: "node ms = f h'" "good P ms"
  have "target P B et V s0 \<lparr>tokens = ts', non_term = nts @ rest, terms = ms # terms s0\<rparr>"
    by (rule leaf_target [OF inv nt ts [OF \<open>ts = ws @ ts'\<close>]]) (use ne ms nts in auto)
  moreover have "push_nts nts (s0\<lparr>non_term := rest\<rparr>)\<lparr>tokens := ts',
      terms := ms # terms (push_nts nts (s0\<lparr>non_term := rest\<rparr>)\<lparr>tokens := ts'\<rparr>)\<rparr> =
      \<lparr>tokens = ts', non_term = nts @ rest, terms = ms # terms s0\<rparr>"
    by (cases s0) (simp add: push_nts_def)
  ultimately show "target P B et V s0 (push_nts nts (s0\<lparr>non_term := rest\<rparr>)\<lparr>tokens := ts',
      terms := ms # terms (push_nts nts (s0\<lparr>non_term := rest\<rparr>)\<lparr>tokens := ts'\<rparr>)\<rparr>)"
    by metis
qed (use ne in simp)


lemma parse_env_hash:
  assumes "parse_env_ok P B et"
  shows "length bs = 32 \<Longrightarrow> \<exists>h. sha256_from_slice P bs = Some h \<and> sha256_bytes B h = bs"
    "length bs = 32 \<Longrightarrow> \<exists>h. hash256_from_slice P bs = Some h \<and> hash256_bytes B h = bs"
    "length bs = 20 \<Longrightarrow> \<exists>h. ripemd160_from_slice P bs = Some h \<and> ripemd160_bytes B h = bs"
    "length bs = 20 \<Longrightarrow> \<exists>h. hash160_from_slice P bs = Some h \<and> hash160_bytes B h = bs"
  using assms by (simp_all add: parse_env_ok_def parse_lib_ok_def)

lemma parse_hash32_ok:
  assumes P: "parse_env_ok P B et" and inv: "parse_inv P B et V s0" and nt: "non_term s0 = Expression # rest"
    and ts: "tokens s0 = vs @ Equal # Bytes32 h # ts" and nts: "nts = [] \<and> vs = [] \<or> nts = [NVerify] \<and> vs = [VerifyTk]"
  shows "res_ok (target P B et V s0) (parse_hash32 P nts h (s0\<lparr>non_term := rest\<rparr>) ts)"
proof -
  have len: "length h = 32" using inv ts nts by (auto simp: parse_inv_def)
  then obtain h1 h2 where h: "sha256_from_slice P h = Some h1" "sha256_bytes B h1 = h"
      "hash256_from_slice P h = Some h2" "hash256_bytes B h2 = h"
    using parse_env_hash(1,2) [OF P len] by auto
  note leaf = hash_leaf_ok [OF P inv nt _ nts]
  let ?Q = "target P B et V s0" and ?s = "s0\<lparr>non_term := rest\<rparr>"
  show ?thesis
  proof (cases ts)
    case (Cons t ts')
    have "res_ok ?Q (hash_leaf P nts (sha256_from_slice P h) terminal.Sha256 size_check ?s ts')" if "t = Sha256Tk"
      by (rule leaf [OF h(1)]) (use ts Cons h len that nts in \<open>auto simp: hash_toks_def hash_token_def\<close>)
    moreover have "res_ok ?Q (hash_leaf P nts (hash256_from_slice P h) terminal.Hash256 size_check ?s ts')" if "t = Hash256Tk"
      by (rule leaf [OF h(3)]) (use ts Cons h len that nts in \<open>auto simp: hash_toks_def hash_token_def\<close>)
    ultimately show ?thesis using Cons by (simp add: parse_hash32_def)
  qed (simp add: parse_hash32_def)
qed

lemma parse_hash20_ok:
  assumes P: "parse_env_ok P B et" and inv: "parse_inv P B et V s0" and nt: "non_term s0 = Expression # rest"
    and ts: "tokens s0 = Equal # Hash20 h # ts"
  shows "res_ok (target P B et V s0) (parse_hash20 P h (s0\<lparr>non_term := rest\<rparr>) ts)"
proof -
  have len: "length h = 20" using inv ts by (auto simp: parse_inv_def)
  then obtain h1 h2 where h: "ripemd160_from_slice P h = Some h1" "ripemd160_bytes B h1 = h"
      "hash160_from_slice P h = Some h2" "hash160_bytes B h2 = h"
    using parse_env_hash(3,4) [OF P len] by auto
  note leaf = hash_leaf_ok [OF P inv nt, where nts = "[]" and vs = "[]"]
  let ?Q = "target P B et V s0" and ?s = "s0\<lparr>non_term := rest\<rparr>"
  show ?thesis
  proof (cases ts)
    case (Cons t ts')
    have "res_ok ?Q (hash_leaf P [] (ripemd160_from_slice P h) terminal.Ripemd160 size_check ?s ts')" if "t = Ripemd160Tk"
      by (rule leaf [OF h(1)]) (use ts Cons h len that in \<open>auto simp: hash_toks_def hash_token_def\<close>)
    moreover have "res_ok ?Q (hash_leaf P [] (hash160_from_slice P h) terminal.Hash160 size_check ?s ts')" if "t = Hash160Tk"
      by (rule leaf [OF h(3)]) (use ts Cons h len that in \<open>auto simp: hash_toks_def hash_token_def\<close>)
    ultimately show ?thesis using Cons by (simp add: parse_hash20_def)
  qed (simp add: parse_hash20_def)
qed

lemma parse_hash20_verify_ok:
  assumes P: "parse_env_ok P B et" and inv: "parse_inv P B et V s0" and nt: "non_term s0 = Expression # rest"
    and ts: "tokens s0 = VerifyTk # Equal # Hash20 h # ts"
  shows "res_ok (target P B et V s0) (parse_hash20_verify P h (s0\<lparr>non_term := rest\<rparr>) ts)"
proof -
  have len: "length h = 20" using inv ts by (auto simp: parse_inv_def)
  then obtain h1 h2 where h: "ripemd160_from_slice P h = Some h1" "ripemd160_bytes B h1 = h"
      "hash160_from_slice P h = Some h2" "hash160_bytes B h2 = h"
    using parse_env_hash(3,4) [OF P len] by auto
  note leaf = hash_leaf_ok [OF P inv nt, where nts = "[NVerify]" and vs = "[VerifyTk]"]
  let ?Q = "target P B et V s0" and ?s = "s0\<lparr>non_term := rest\<rparr>"
  show ?thesis
  proof (cases ts)
    case (Cons t ts')
    have "res_ok ?Q (hash_leaf P [NVerify] (ripemd160_from_slice P h) terminal.Ripemd160 size_check ?s ts')" if "t = Ripemd160Tk"
      by (rule leaf [OF h(1)]) (use ts Cons h len that in \<open>auto simp: hash_toks_def hash_token_def\<close>)
    moreover have "res_ok ?Q (parse_hash20_verify P h ?s ts)" if t: "t = Hash160Tk"
    proof (cases ts')
      case u: (Cons u us)
      have "res_ok ?Q (hash_leaf P [NVerify] (hash160_from_slice P h) terminal.Hash160 [Equal, Num 32, Size] ?s us)" if "u = VerifyTk"
        by (rule leaf [OF h(3)]) (use ts Cons u t h len that in \<open>auto simp: hash_toks_def hash_token_def\<close>)
      moreover have "res_ok ?Q (reduce0 P (RawPkH h) (s0\<lparr>non_term := rest, tokens := us\<rparr>))" if "u = Dup"
        by (rule reduce_leaf [OF P inv nt]) (use ts Cons u t that in simp_all)
      ultimately show ?thesis using Cons u t len by (simp add: parse_hash20_verify_def)
    qed (simp add: parse_hash20_verify_def Cons t)
    ultimately show ?thesis using Cons by (auto simp: parse_hash20_verify_def)
  qed (simp add: parse_hash20_verify_def)
qed


lemma push_target:
  assumes inv: "parse_inv P B et V s0" and nt: "non_term s0 = Expression # rest"
    and "tokens s0 = rev c @ ts" "c \<noteq> []" and "\<And>xs. fold apply_nt nts xs = c # xs"
    and "\<And>n. fits rest (Suc n) \<Longrightarrow> fits (nts @ rest) n" and "lin rest \<Longrightarrow> lin (tl (nts @ rest))"
  shows "target P B et V s0 (push_nts nts (s0\<lparr>non_term := rest\<rparr>)\<lparr>tokens := ts\<rparr>)"
  by (rule expr_target [OF inv nt]) (use assms in \<open>auto simp: push_nts_def parse_inv_def\<close>)

lemma Num_u32 [simp]: "Num (word_of_nat (unat (k :: u32))) = Num k"
  by simp

lemma parse_verify_ok:
  assumes P: "parse_env_ok P B et" and inv: "parse_inv P B et V s0" and nt: "non_term s0 = Expression # rest"
    and ts: "tokens s0 = VerifyTk # ts"
  shows "res_ok (target P B et V s0) (parse_verify P (s0\<lparr>non_term := rest\<rparr>) ts)"
proof (cases ts)
  case (Cons t us)
  note push = push_target [OF inv nt]
  have other: "target P B et V s0 (push_nts [Expression, NVerify] (s0\<lparr>non_term := rest\<rparr>)\<lparr>tokens := ts\<rparr>)"
    by (rule push [where c = "[VerifyTk]"]) (use ts in auto)
  show ?thesis
  proof (cases "t = Equal")
    case True
    show ?thesis
    proof (cases us)
      case u: (Cons u vs)
      have thresh: "target P B et V s0 (push_nts [ThreshW (unat k) 0, NVerify] (s0\<lparr>non_term := rest\<rparr>)\<lparr>tokens := vs\<rparr>)"
        if "u = Num k" for k
        by (rule push [where c = "[Num k, Equal, VerifyTk]"]) (use ts Cons True u that in \<open>auto simp: followed_def\<close>)
      have "res_ok (target P B et V s0) (parse_hash20_verify P h (s0\<lparr>non_term := rest\<rparr>) vs)" if "u = Hash20 h" for h
        using parse_hash20_verify_ok [OF P inv nt] ts Cons True u that by simp
      moreover have "res_ok (target P B et V s0) (parse_hash32 P [NVerify] h (s0\<lparr>non_term := rest\<rparr>) vs)" if "u = Bytes32 h" for h
        using parse_hash32_ok [OF P inv nt, of "[VerifyTk]" h vs "[NVerify]"] ts Cons True u that by simp
      ultimately show ?thesis using Cons True u thresh other
        by (simp add: parse_verify_def as_token_Some split: option.splits)
    qed (simp add: parse_verify_def Cons True)
  next
    case False
    then show ?thesis using Cons other by (simp add: parse_verify_def)
  qed
qed (simp add: parse_verify_def)

lemma lin_tl: "lin rest \<Longrightarrow> lin (tl rest)"
  by (cases rest) auto

lemma parse_equal_ok:
  assumes P: "parse_env_ok P B et" and inv: "parse_inv P B et V s0" and nt: "non_term s0 = Expression # rest"
    and ts: "tokens s0 = Equal # ts"
  shows "res_ok (target P B et V s0) (parse_equal P (s0\<lparr>non_term := rest\<rparr>) ts)"
proof (cases ts)
  case (Cons u vs)
  have thresh: "target P B et V s0 (push_nts [ThreshW (unat k) 0] (s0\<lparr>non_term := rest\<rparr>)\<lparr>tokens := vs\<rparr>)"
    if "u = Num k" for k
    by (rule push_target [OF inv nt, where c = "[Num k, Equal]"]) (use ts Cons that in \<open>auto simp: followed_def intro: lin_tl\<close>)
  have "res_ok (target P B et V s0) (parse_hash20 P h (s0\<lparr>non_term := rest\<rparr>) vs)" if "u = Hash20 h" for h
    using parse_hash20_ok [OF P inv nt] ts Cons that by simp
  moreover have "res_ok (target P B et V s0) (parse_hash32 P [] h (s0\<lparr>non_term := rest\<rparr>) vs)" if "u = Bytes32 h" for h
    using parse_hash32_ok [OF P inv nt, of "[]" h vs "[]"] ts Cons that by simp
  ultimately show ?thesis using Cons thresh
    by (simp add: parse_equal_def as_token_Some split: option.splits)
qed (simp add: parse_equal_def)

lemma parse_expression_ok:
  assumes P: "parse_env_ok P B et" and inv: "parse_inv P B et V s0" and nt: "non_term s0 = Expression # rest"
  shows "res_ok (target P B et V s0) (parse_expression P (s0\<lparr>non_term := rest\<rparr>))"
proof (cases "tokens s0")
  case (Cons t ts)
  let ?s = "s0\<lparr>non_term := rest\<rparr>"
  have go: "target P B et V s0 (push_nts [Expression, nt] ?s\<lparr>tokens := ts\<rparr>)"
    if "(t, nt) \<in> {(CheckSig, NCheck), (ZeroNotEqualTk, NZeroNotEqual)}" for nt
    by (rule push_target [OF inv nt, where c = "[t]"]) (use Cons that in auto)
  have end_if: "target P B et V s0 (push_nts [Expression, MaybeAndV, NEndIf] ?s\<lparr>tokens := ts\<rparr>)" if "t = EndIf"
    by (rule push_target [OF inv nt, where c = "[t]"]) (use Cons that in auto)
  have bool: "target P B et V s0 (push_nts [WExpression, Expression, nt] ?s\<lparr>tokens := ts\<rparr>)"
    if "(t, nt) \<in> {(BoolAnd, NAndB), (BoolOr, NOrB)}" for nt
    by (rule push_target [OF inv nt, where c = "[t]"]) (use Cons that in auto)
  have key: "res_ok (target P B et V s0) (with_key P bs (\<lambda>pk. reduce0 P (PkK pk) (?s\<lparr>tokens := ts\<rparr>)))"
    if "as_key t = Some bs \<or> as_bytes32 t = Some bs" for bs
  proof (rule with_key_ok, rule reduce_leaf [OF P inv nt])
    fix k assume "key_from_slice P bs = Some k"
    moreover have "tok_ok t" using inv Cons by (simp add: parse_inv_def)
    ultimately show "tokens s0 = rev (toks B et (ctx_sig_type (pe_ctx P)) (PkK k)) @ ts"
      using Cons that as_key_token as_bytes32_token parse_env_key(1) [OF P] by fastforce
  qed simp_all
  have time: "res_ok (target P B et V s0) (parse_num ts (\<lambda>n ts. reduce0 P (f n) (?s\<lparr>tokens := ts\<rparr>)))"
    if "t = CheckSequenceVerify \<and> f = terminal.Older \<or> t = CheckLockTimeVerify \<and> f = terminal.After" for f
    by (rule parse_num_ok, rule reduce_leaf [OF P inv nt]) (use Cons that in auto)
  have const: "res_ok (target P B et V s0) (reduce0 P u (?s\<lparr>tokens := ts\<rparr>))"
    if "t = Num 0 \<and> u = FalseT \<or> t = Num 1 \<and> u = TrueT" for u
    by (rule reduce_leaf [OF P inv nt]) (use Cons that in auto)
  show ?thesis
    using Cons go end_if bool key time const parse_verify_ok [OF P inv nt, of ts] parse_equal_ok [OF P inv nt, of ts]
      parse_multi_ok [OF P inv nt, of ts] parse_multi_a_ok [OF P inv nt, of ts]
    by (simp add: parse_expression_def split: option.splits)
qed (simp add: parse_expression_def)


section \<open>The other non-terminals\<close>

lemma phase_le: "phase s \<le> 3"
  by (auto simp: phase_def split: list.splits nonterm.splits)

text \<open>A term is built from the top ones while tokens \<open>c\<close> are read; its tokens are what the non-terminal denotes.\<close>

lemma reduce_target:
  assumes inv: "parse_inv P B et V s0" and nt: "non_term s0 = nt # rest" and "tokens s0 = rev c @ ts"
    and "terms s0 = xs @ ys" "length xs = operands nt" "c \<noteq> [] \<or> phase s0 = 3" "good P ms"
    and "apply_nt nt (map (ms_toks P B et) (xs @ ys)) = d # map (ms_toks P B et) ys" "ms_toks P B et ms = c @ d"
  shows "target P B et V s0 \<lparr>tokens = ts, non_term = rest, terms = ms # ys\<rparr>"
proof -
  let ?s = "\<lparr>tokens = ts, non_term = rest, terms = ms # ys\<rparr>"
  have rest: "lin rest" "fits rest (Suc (length ys))" "V = rev (tokens s0) @ denote rest (d # map (ms_toks P B et) ys)"
      "list_all tok_ok (tokens s0)" "list_all (good P) ys"
    using inv nt assms(4,5,8) by (simp_all add: parse_inv_def)
  have "denote rest ((c @ d) # map (ms_toks P B et) ys) = c @ denote rest (d # map (ms_toks P B et) ys)"
    using rest by (intro denote_prefix) simp_all
  moreover have "lin (tl rest)" using lin_tl rest(1) .
  moreover have "(?s, s0) \<in> smaller"
    using assms(3,6) nt phase_le [of ?s] by (auto simp: smaller_iff le_less)
  ultimately show ?thesis using rest assms(3,7,9) by (simp add: target_def parse_inv_def)
qed

lemma reduce0_target:
  assumes P: "parse_env_ok P B et" and inv: "parse_inv P B et V s0" and nt: "non_term s0 = nt # rest"
    and "tokens s0 = rev c @ ts" "terms s0 = xs @ ys" "length xs = operands nt" "c \<noteq> [] \<or> phase s0 = 3"
    and "set (children t) \<subseteq> set xs" "apply_nt nt (map (ms_toks P B et) (xs @ ys)) = d # map (ms_toks P B et) ys"
    and "toks B et (ctx_sig_type (pe_ctx P)) t = c @ d"
  shows "res_ok (target P B et V s0) (reduce0 P t (s0\<lparr>non_term := rest, tokens := ts, terms := ys\<rparr>))"
proof (rule reduce0_ok [OF P])
  have "list_all (good P) (xs @ ys)" using inv assms(5) by (simp add: parse_inv_def)
  then show "good P m" if "m \<in> set (children t)" for m using that assms(8) by (auto simp: list_all_iff)
  fix ms assume "node ms = t" "good P ms"
  then have "target P B et V s0 \<lparr>tokens = ts, non_term = rest, terms = ms # ys\<rparr>"
    using assms by (intro reduce_target [OF inv nt, where c = c and xs = xs and d = d]) auto
  then show "target P B et V s0 (s0\<lparr>non_term := rest, tokens := ts, terms := ys,
      terms := ms # terms (s0\<lparr>non_term := rest, tokens := ts, terms := ys\<rparr>)\<rparr>)"
    by (cases s0) simp
qed

lemma reduce1_ok:
  assumes P: "parse_env_ok P B et" and inv: "parse_inv P B et V s0" and nt: "non_term s0 = nt # rest"
    and "tokens s0 = rev c @ ts" "operands nt = 1" "c \<noteq> [] \<or> phase s0 = 3" "\<And>x. children (wrap x) = [x]"
    and "\<And>x xs. apply_nt nt (x # xs) = f x # xs"
    and "\<And>x. toks B et (ctx_sig_type (pe_ctx P)) (wrap x) = c @ f (ms_toks P B et x)"
  shows "res_ok (target P B et V s0) (reduce1 P wrap (s0\<lparr>non_term := rest, tokens := ts\<rparr>))"
proof -
  obtain x ys where x: "terms s0 = [x] @ ys" using inv nt assms(5) by (cases "terms s0") (auto simp: parse_inv_def)
  have "res_ok (target P B et V s0) (reduce0 P (wrap x) (s0\<lparr>non_term := rest, tokens := ts, terms := ys\<rparr>))"
    by (rule reduce0_target [OF P inv nt assms(4) x]) (use assms in auto)
  then show ?thesis using x by (simp add: reduce1_def)
qed

lemma reduce2_ok:
  assumes P: "parse_env_ok P B et" and inv: "parse_inv P B et V s0" and nt: "non_term s0 = nt # rest"
    and "tokens s0 = rev c @ ts" "operands nt = 2" "c \<noteq> [] \<or> phase s0 = 3" "\<And>x y. children (wrap x y) = [x, y]"
    and "\<And>x y xs. apply_nt nt (x # y # xs) = f x y # xs"
    and "\<And>x y. toks B et (ctx_sig_type (pe_ctx P)) (wrap x y) = c @ f (ms_toks P B et x) (ms_toks P B et y)"
  shows "res_ok (target P B et V s0) (reduce2 P wrap (s0\<lparr>non_term := rest, tokens := ts\<rparr>))"
proof -
  obtain x y ys where x: "terms s0 = [x, y] @ ys"
    using inv nt assms(5) by (cases "terms s0"; cases "tl (terms s0)") (auto simp: parse_inv_def)
  have "res_ok (target P B et V s0) (reduce0 P (wrap x y) (s0\<lparr>non_term := rest, tokens := ts, terms := ys\<rparr>))"
    by (rule reduce0_target [OF P inv nt assms(4) x]) (use assms in auto)
  then show ?thesis using x by (simp add: reduce2_def)
qed

text \<open>Non-terminals are pushed while tokens \<open>c\<close> are read.\<close>

lemma replace_target:
  assumes inv: "parse_inv P B et V s0" and nt: "non_term s0 = nt # rest" and "tokens s0 = rev c @ ts"
    and "c \<noteq> [] \<or> phase (s0\<lparr>non_term := nts @ rest\<rparr>) < phase s0 \<or> nts = [] \<and> phase s0 = 3"
    and f: "\<And>xs. operands nt \<le> length xs \<Longrightarrow> \<exists>d ys. apply_nt nt xs = d # ys \<and> length ys = length xs - operands nt \<and>
      fold apply_nt nts xs = (c @ d) # ys"
    and "\<And>n. operands nt \<le> n \<Longrightarrow> fits rest (Suc (n - operands nt)) \<Longrightarrow> fits (nts @ rest) n"
    and "lin rest \<Longrightarrow> lin (tl (nts @ rest))"
  shows "target P B et V s0 (push_nts nts (s0\<lparr>non_term := rest\<rparr>)\<lparr>tokens := ts\<rparr>)"
proof -
  let ?X = "map (ms_toks P B et) (terms s0)"
  have rest: "lin rest" "operands nt \<le> length (terms s0)" "fits rest (Suc (length (terms s0) - operands nt))"
      "V = rev (tokens s0) @ denote rest (apply_nt nt ?X)" "list_all tok_ok (tokens s0)" "list_all (good P) (terms s0)"
    using inv nt by (simp_all add: parse_inv_def)
  obtain d ys where d: "apply_nt nt ?X = d # ys" "length ys = length (terms s0) - operands nt" "fold apply_nt nts ?X = (c @ d) # ys"
    using f [of ?X] rest(2) by auto
  have "denote rest ((c @ d) # ys) = c @ denote rest (d # ys)"
    using rest d(2) by (intro denote_prefix) simp_all
  moreover have "denote (nts @ rest) ?X = denote rest ((c @ d) # ys)" using d(3) by (simp add: denote_def)
  moreover have "(push_nts nts (s0\<lparr>non_term := rest\<rparr>)\<lparr>tokens := ts\<rparr>, s0) \<in> smaller"
  proof (cases "c = []")
    case True
    then have "push_nts nts (s0\<lparr>non_term := rest\<rparr>)\<lparr>tokens := ts\<rparr> = s0\<lparr>non_term := nts @ rest\<rparr>"
      using assms(3) by (cases s0) (simp add: push_nts_def)
    then show ?thesis using True assms(3,4) nt phase_le [of "s0\<lparr>non_term := rest\<rparr>"] by (auto simp: smaller_iff le_less)
  qed (use assms(3) in \<open>simp add: smaller_iff\<close>)
  moreover have "fits (nts @ rest) (length (terms s0))" "lin (tl (nts @ rest))" using rest assms(6,7) by auto
  ultimately show ?thesis
    using rest(4-6) d(1) assms(3) by (simp add: target_def parse_inv_def push_nts_def)
qed

lemma push_same: "push_nts nts (s0\<lparr>non_term := rest\<rparr>)\<lparr>tokens := tokens s0\<rparr> = push_nts nts (s0\<lparr>non_term := rest\<rparr>)"
  by (cases s0) (simp add: push_nts_def)

lemma two_operands: "2 \<le> length xs \<Longrightarrow> \<exists>x y ys. xs = x # y # ys"
  by (cases xs; cases "tl xs") auto

lemma one_operand: "Suc 0 \<le> length xs \<Longrightarrow> \<exists>x ys. xs = x # ys"
  by (cases xs) auto

lemma step_thresh_w_ok:
  assumes inv: "parse_inv P B et V s0" and nt: "non_term s0 = ThreshW k n # rest"
  shows "res_ok (target P B et V s0) (step_thresh_w k n (s0\<lparr>non_term := rest\<rparr>))"
proof (cases "tokens s0")
  case (Cons t ts)
  note repl = replace_target [OF inv nt]
  have "target P B et V s0 (push_nts [WExpression, ThreshW k (n + 1)] (s0\<lparr>non_term := rest\<rparr>)\<lparr>tokens := ts\<rparr>)" if "t = Add"
    by (rule repl [where c = "[Add]"]) (use Cons that in \<open>auto simp: followed_def\<close>)
  moreover have "target P B et V s0 (push_nts [Expression, ThreshE k (n + 1)] (s0\<lparr>non_term := rest\<rparr>))"
    by (subst push_same [symmetric], rule repl [where c = "[]"]) (use nt in \<open>auto simp: followed_def phase_def\<close>)
  ultimately show ?thesis using Cons by (simp add: step_thresh_w_def)
qed (simp add: step_thresh_w_def)

lemma step_thresh_e_ok:
  assumes P: "parse_env_ok P B et" and inv: "parse_inv P B et V s0" and nt: "non_term s0 = ThreshE k n # rest"
  shows "res_ok (target P B et V s0) (step_thresh_e P k n (s0\<lparr>non_term := rest\<rparr>))"
proof -
  have n: "n \<le> length (terms s0)" using inv nt by (simp add: parse_inv_def)
  have "res_ok (target P B et V s0)
      (reduce0 P (Thresh k (take n (terms s0))) (s0\<lparr>non_term := rest, tokens := tokens s0, terms := drop n (terms s0)\<rparr>))"
    by (rule reduce0_target [OF P inv nt, where c = "[]" and xs = "take n (terms s0)"])
      (use n nt in \<open>auto simp: phase_def comp_def take_map drop_map\<close>)
  then show ?thesis using n by (simp add: step_thresh_e_def)
qed

lemma step_end_if_ok:
  assumes inv: "parse_inv P B et V s0" and nt: "non_term s0 = NEndIf # rest"
  shows "res_ok (target P B et V s0) (step_end_if (s0\<lparr>non_term := rest\<rparr>))"
proof (cases "tokens s0")
  case (Cons t ts)
  let ?s = "s0\<lparr>non_term := rest\<rparr>"
  note repl = replace_target [OF inv nt]
  have "target P B et V s0 (push_nts [Expression, MaybeAndV, NEndIfElse] ?s\<lparr>tokens := ts\<rparr>)" if "t = Else"
    by (rule repl [where c = "[Else]"]) (use Cons that in \<open>auto dest!: one_operand\<close>)
  moreover have "target P B et V s0 (push_nts [NEndIfNotIf] ?s\<lparr>tokens := ts\<rparr>)" if "t = NotIf"
    by (rule repl [where c = "[NotIf]"]) (use Cons that in \<open>auto dest!: one_operand intro: lin_tl\<close>)
  moreover have "target P B et V s0 (push_nts [NDupIf] ?s\<lparr>tokens := us\<rparr>)" if "t = If" "ts = Dup # us" for us
    by (rule repl [where c = "[Dup, If]"]) (use Cons that in \<open>auto dest!: one_operand intro: lin_tl\<close>)
  moreover have "res_ok (target P B et V s0) (expect [Size] us (\<lambda>ts. Some (Inr (push_nts [NNonZero] ?s\<lparr>tokens := ts\<rparr>))))"
    if "t = If" "ts = ZeroNotEqualTk # us" for us
  proof (rule expect_ok, simp only: res_ok_simps)
    fix us' assume "us = [Size] @ us'"
    then show "target P B et V s0 (push_nts [NNonZero] ?s\<lparr>tokens := us'\<rparr>)"
      by (intro repl [where c = "[Size, ZeroNotEqualTk, If]"]) (use Cons that in \<open>auto dest!: one_operand intro: lin_tl\<close>)
  qed
  ultimately show ?thesis using Cons by (cases ts) (simp_all add: step_end_if_def)
qed (simp add: step_end_if_def)

lemma step_end_if_not_if_ok:
  assumes inv: "parse_inv P B et V s0" and nt: "non_term s0 = NEndIfNotIf # rest"
  shows "res_ok (target P B et V s0) (step_end_if_not_if (s0\<lparr>non_term := rest\<rparr>))"
proof (cases "tokens s0")
  case (Cons t ts)
  note repl = replace_target [OF inv nt]
  have "target P B et V s0 (push_nts [Expression, NOrD] (s0\<lparr>non_term := rest\<rparr>)\<lparr>tokens := ts\<rparr>)" if "t = IfDup"
    by (rule repl [where c = "[IfDup]"]) (use Cons that in \<open>auto dest!: one_operand\<close>)
  moreover have "target P B et V s0 (push_nts [Expression, NOrC] (s0\<lparr>non_term := rest\<rparr>))"
    by (subst push_same [symmetric], rule repl [where c = "[]"]) (use nt in \<open>auto simp: phase_def dest!: one_operand\<close>)
  ultimately show ?thesis using Cons by (simp add: step_end_if_not_if_def)
qed (simp add: step_end_if_not_if_def)

lemma step_end_if_else_ok:
  assumes P: "parse_env_ok P B et" and inv: "parse_inv P B et V s0" and nt: "non_term s0 = NEndIfElse # rest"
  shows "res_ok (target P B et V s0) (step_end_if_else P (s0\<lparr>non_term := rest\<rparr>))"
proof (cases "tokens s0")
  case (Cons t ts)
  have "target P B et V s0 (push_nts [Expression, NTern] (s0\<lparr>non_term := rest\<rparr>)\<lparr>tokens := ts\<rparr>)" if "t = NotIf"
    by (rule replace_target [OF inv nt, where c = "[NotIf]"]) (use Cons that in \<open>auto dest!: two_operands\<close>)
  moreover have "res_ok (target P B et V s0) (reduce2 P OrI (s0\<lparr>non_term := rest, tokens := ts\<rparr>))" if "t = If"
    by (rule reduce2_ok [OF P inv nt, where c = "[If]" and f = "\<lambda>x y. x @ [Else] @ y @ [EndIf]"]) (use Cons that in auto)
  ultimately show ?thesis using Cons by (simp add: step_end_if_else_def)
qed (simp add: step_end_if_else_def)

lemma step_w_expression_ok:
  assumes inv: "parse_inv P B et V s0" and nt: "non_term s0 = WExpression # rest"
  shows "res_ok (target P B et V s0) (step_w_expression (s0\<lparr>non_term := rest\<rparr>))"
proof (cases "tokens s0")
  case (Cons t ts)
  note repl = replace_target [OF inv nt]
  have "target P B et V s0 (push_nts [Expression, MaybeAndV, NAlt] (s0\<lparr>non_term := rest\<rparr>)\<lparr>tokens := ts\<rparr>)" if "t = FromAltStack"
    by (rule repl [where c = "[FromAltStack]"]) (use Cons that in auto)
  moreover have "target P B et V s0 (push_nts [Expression, MaybeAndV, NSwap] (s0\<lparr>non_term := rest\<rparr>))"
    by (subst push_same [symmetric], rule repl [where c = "[]"]) (use nt in \<open>auto simp: phase_def\<close>)
  ultimately show ?thesis using Cons by (simp add: step_w_expression_def)
qed (simp add: step_w_expression_def)


lemma step_expression_ok:
  assumes P: "parse_env_ok P B et" and inv: "parse_inv P B et V s0" and nt: "non_term s0 = Expression # rest"
  shows "res_ok (target P B et V s0) (step_nonterm P Expression (s0\<lparr>non_term := rest\<rparr>))"
proof -
  obtain r ts where r: "ext_from_tokens P (tokens s0) = (r, ts)" by force
  show ?thesis
  proof (cases r)
    case None
    then have "ts = tokens s0" using P r by (auto simp: parse_env_ok_def parse_lib_ok_def)
    then have "s0\<lparr>non_term := rest, tokens := ts\<rparr> = s0\<lparr>non_term := rest\<rparr>" by (cases s0) simp
    then show ?thesis using parse_expression_ok [OF P inv nt] r None by simp
  next
    case (Some e)
    then have "et e \<noteq> []" "tokens s0 = rev (et e) @ ts" using P r by (auto simp: parse_env_ok_def parse_lib_ok_def)
    then show ?thesis using reduce_leaf [OF P inv nt, of "ExtT e" ts] r Some by simp
  qed
qed

lemma step_and_v_ok:
  assumes P: "parse_env_ok P B et" and inv: "parse_inv P B et V s0" and nt: "non_term s0 = nt # rest"
    and "nt = MaybeAndV \<or> nt = NAndV"
  shows "res_ok (target P B et V s0) (step_nonterm P nt (s0\<lparr>non_term := rest\<rparr>))"
proof -
  let ?s = "s0\<lparr>non_term := rest\<rparr>"
  note repl = replace_target [OF inv nt, where c = "[]"]
  consider "nt = MaybeAndV" "is_and_v (tokens s0)" | "nt = MaybeAndV" "\<not> is_and_v (tokens s0)"
    | "nt = NAndV" "is_and_v (tokens s0)" | "nt = NAndV" "\<not> is_and_v (tokens s0)" using assms(4) by blast
  then show ?thesis
  proof cases
    case 1
    have "target P B et V s0 (push_nts [Expression, NAndV] ?s)"
      by (subst push_same [symmetric], rule repl) (use 1 nt in \<open>auto simp: phase_def dest!: one_operand\<close>)
    then show ?thesis using 1 by simp
  next
    case 2
    have "target P B et V s0 (push_nts [] ?s)"
      by (subst push_same [symmetric], rule repl) (use 2 nt in \<open>auto simp: phase_def dest!: one_operand intro: lin_tl\<close>)
    then show ?thesis using 2 by (simp add: push_nts_def)
  next
    case 3
    have "target P B et V s0 (push_nts [MaybeAndV, NAndV] ?s)"
      by (subst push_same [symmetric], rule repl) (use 3 nt in \<open>auto simp: phase_def dest!: two_operands\<close>)
    then show ?thesis using 3 by simp
  next
    case 4
    have "res_ok (target P B et V s0) (reduce2 P AndV (?s\<lparr>tokens := tokens s0\<rparr>))"
      by (rule reduce2_ok [OF P inv nt, where c = "[]" and f = "\<lambda>x y. x @ y"]) (use 4 nt in \<open>auto simp: phase_def\<close>)
    then show ?thesis using 4 by simp
  qed
qed

lemma step_tern_ok:
  assumes P: "parse_env_ok P B et" and inv: "parse_inv P B et V s0" and nt: "non_term s0 = NTern # rest"
  shows "res_ok (target P B et V s0) (reduce_tern P (s0\<lparr>non_term := rest\<rparr>))"
proof -
  obtain a b c ys where abc: "terms s0 = [a, b, c] @ ys"
    using inv nt by (cases "terms s0"; cases "tl (terms s0)"; cases "tl (tl (terms s0))") (auto simp: parse_inv_def)
  show ?thesis
  proof (rule reduce_tern_ok [OF P])
    fix ms assume "node ms = AndOr a c b" "good P ms"
    then have "target P B et V s0 \<lparr>tokens = tokens s0, non_term = rest, terms = ms # ys\<rparr>"
      by (intro reduce_target [OF inv nt, where c = "[]", OF _ abc]) (use nt in \<open>auto simp: phase_def\<close>)
    then show "target P B et V s0 (s0\<lparr>non_term := rest, terms := ms # ys\<rparr>)" by (cases s0) simp
  qed (use abc inv in \<open>simp_all add: parse_inv_def\<close>)
qed

lemma step_nonterm_ok:
  assumes P: "parse_env_ok P B et" and inv: "parse_inv P B et V s0" and nt: "non_term s0 = nt # rest"
  shows "res_ok (target P B et V s0) (step_nonterm P nt (s0\<lparr>non_term := rest\<rparr>))"
proof -
  let ?s = "s0\<lparr>non_term := rest\<rparr>"
  have same: "?s\<lparr>tokens := tokens s0\<rparr> = ?s" by (cases s0) simp
  note r1 = reduce1_ok [OF P inv nt, where c = "[]" and ts = "tokens s0", unfolded same]
    and r2 = reduce2_ok [OF P inv nt, where c = "[]" and ts = "tokens s0", unfolded same]
  have wrap: "res_ok (target P B et V s0) (expect [t] (tokens s0) (\<lambda>ts. reduce1 P f (?s\<lparr>tokens := ts\<rparr>)))"
    if "(nt, t, f, g) \<in> {(NSwap, SwapTk, Swap, id), (NAlt, ToAltStack, Alt, \<lambda>x. x @ [FromAltStack])}" for t f g
    by (rule expect_ok, rule reduce1_ok [OF P inv nt, where c = "[t]" and f = g]) (use that in auto)
  show ?thesis
  proof (cases nt)
    case Expression
    then show ?thesis using step_expression_ok [OF P inv] nt by simp
  next
    case MaybeAndV
    then show ?thesis using step_and_v_ok [OF P inv nt] by simp
  next
    case NAndV
    then show ?thesis using step_and_v_ok [OF P inv nt] by simp
  next
    case NSwap
    then show ?thesis using wrap [of SwapTk Swap id] by simp
  next
    case NAlt
    then show ?thesis using wrap [of ToAltStack Alt "\<lambda>x. x @ [FromAltStack]"] by simp
  next
    case NCheck
    then show ?thesis using r1 [where f = "\<lambda>x. x @ [CheckSig]" and wrap = Check] nt by (simp add: phase_def)
  next
    case NDupIf
    then show ?thesis using r1 [where f = "\<lambda>x. [Dup, If] @ x @ [EndIf]" and wrap = DupIf] nt by (simp add: phase_def)
  next
    case NVerify
    then show ?thesis using r1 [where f = "\<lambda>x. x @ [VerifyTk]" and wrap = Verify] nt by (simp add: phase_def)
  next
    case NNonZero
    then show ?thesis using r1 [where f = "\<lambda>x. [Size, ZeroNotEqualTk, If] @ x @ [EndIf]" and wrap = NonZero] nt by (simp add: phase_def)
  next
    case NZeroNotEqual
    then show ?thesis using r1 [where f = "\<lambda>x. x @ [ZeroNotEqualTk]" and wrap = ZeroNotEqual] nt by (simp add: phase_def)
  next
    case NAndB
    then show ?thesis using r2 [where f = "\<lambda>x y. x @ y @ [BoolAnd]" and wrap = AndB] nt by (simp add: phase_def)
  next
    case NOrB
    then show ?thesis using r2 [where f = "\<lambda>x y. x @ y @ [BoolOr]" and wrap = OrB] nt by (simp add: phase_def)
  next
    case NOrD
    then show ?thesis using r2 [where f = "\<lambda>x y. x @ [IfDup, NotIf] @ y @ [EndIf]" and wrap = OrD] nt by (simp add: phase_def)
  next
    case NOrC
    then show ?thesis using r2 [where f = "\<lambda>x y. x @ [NotIf] @ y @ [EndIf]" and wrap = OrC] nt by (simp add: phase_def)
  next
    case NTern
    then show ?thesis using step_tern_ok [OF P inv] nt by simp
  qed (use step_thresh_w_ok [OF inv] step_thresh_e_ok [OF P inv] step_end_if_ok [OF inv] step_end_if_not_if_ok [OF inv]
      step_end_if_else_ok [OF P inv] step_w_expression_ok [OF inv] nt in simp_all)
qed

section \<open>The decoder is total and exact\<close>

lemma wf_smaller: "wf smaller"
  by (simp add: smaller_def)

lemma parse_loop_ok:
  assumes P: "parse_env_ok P B et"
  shows "parse_inv P B et V s \<Longrightarrow> res_ok (\<lambda>s'. parse_inv P B et V s' \<and> non_term s' = []) (parse_loop P s)"
proof (induction s rule: wf_induct_rule [OF wf_smaller, case_names less])
  case (less s)
  show ?case
  proof (cases "non_term s")
    case Nil
    then show ?thesis using less.prems by (simp add: parse_loop.simps [of P s])
  next
    case (Cons nt rest)
    have "res_ok (target P B et V s) (step_nonterm P nt (s\<lparr>non_term := rest\<rparr>))"
      by (rule step_nonterm_ok [OF P less.prems Cons])
    then obtain x where x: "step_nonterm P nt (s\<lparr>non_term := rest\<rparr>) = Some x" "\<And>s'. x = Inr s' \<Longrightarrow> target P B et V s s'"
      by (auto simp: res_ok_def)
    show ?thesis
    proof (cases x)
      case (Inl e)
      then show ?thesis using x(1) Cons by (simp add: parse_loop.simps [of P s])
    next
      case (Inr s')
      then have "res_ok (\<lambda>s'. parse_inv P B et V s' \<and> non_term s' = []) (parse_loop P s')"
        using less.IH [of s'] x(2) by (simp add: target_def)
      then show ?thesis using x(1) Inr Cons by (simp add: parse_loop.simps [of P s])
    qed
  qed
qed

lemma parse_ok:
  assumes P: "parse_env_ok P B et" and "list_all tok_ok ts"
  shows "res_ok (\<lambda>(ms, rest). good P ms \<and> rev ts = rev rest @ ms_toks P B et ms) (parse P ts)"
proof -
  have "parse_inv P B et (rev ts) \<lparr>tokens = ts, non_term = [Expression, MaybeAndV], terms = []\<rparr>"
    using assms(2) by (simp add: parse_inv_def)
  from parse_loop_ok [OF P this] obtain x where
    x: "parse_loop P \<lparr>tokens = ts, non_term = [Expression, MaybeAndV], terms = []\<rparr> = Some x"
    and s: "\<And>s. x = Inr s \<Longrightarrow> parse_inv P B et (rev ts) s \<and> non_term s = []"
    by (auto simp: res_ok_def)
  show ?thesis
  proof (cases x)
    case (Inr s')
    then obtain ms where "terms s' = [ms]" "good P ms" "rev ts = rev (tokens s') @ ms_toks P B et ms"
      using s by (cases "terms s'") (auto simp: parse_inv_def)
    then show ?thesis using Inr x by (simp add: parse_def)
  qed (simp add: parse_def x)
qed

lemma process_candidate_ok: "list_all tok_ok ret \<Longrightarrow> list_all tok_ok (process_candidate_push ret)"
  by (auto simp: process_candidate_push_def split: list.splits option.splits)

lemma op_tokens_ok: "op_tokens op = Some ts \<Longrightarrow> list_all tok_ok ts"
  by (cases op rule: op_tokens.cases) (auto split: if_splits)

lemma lex_instruction_ok:
  assumes "lex_instruction L ret i = Inr ret'" "list_all tok_ok ret"
  shows "list_all tok_ok ret'"
proof (cases i)
  case (PushBytes bs)
  have "list_all tok_ok (tl ret)" using assms(2) by (cases ret) auto
  then show ?thesis using assms PushBytes
    by (auto simp: lex_instruction_def lex_push_def lex_number_def split: if_splits option.splits)
next
  case (Op op)
  then show ?thesis using assms process_candidate_ok [OF assms(2)] op_tokens_ok [of op]
    by (auto simp: lex_instruction_def list_all_iff split: if_splits option.splits)
qed

lemma lex_ok: "lex_loop L ret is = Inr ts \<Longrightarrow> list_all tok_ok ret \<Longrightarrow> list_all tok_ok ts"
  by (induction L ret "is" rule: lex_loop.induct) (auto dest: lex_instruction_ok)


lemma parse_with_ext_ok:
  assumes P: "parse_env_ok P B et"
  shows "\<exists>r. parse_with_ext P L ps script = Some r \<and>
    (\<forall>ms. r = Inr ms \<longrightarrow> good P ms \<and> lex L script = Inr (ms_toks P B et ms) \<and> base (corr (ty ms)) = Base_B
       \<and> ext_check (pe_keys P) (pe_checks P) (pe_ctx P) ps ms = Inr ())"
proof (cases "lex L script")
  case (Inl e)
  then show ?thesis by (simp add: parse_with_ext_def)
next
  case (Inr ts)
  then have "list_all tok_ok (token_iter_new ts)"
    using lex_ok [of L "[]" script ts] by (simp add: lex_def token_iter_new_def)
  from parse_ok [OF P this] obtain x where x: "parse P (token_iter_new ts) = Some x"
      and ok: "\<And>ms rest. x = Inr (ms, rest) \<Longrightarrow> good P ms \<and> ts = rev rest @ ms_toks P B et ms"
    by (auto simp: res_ok_def token_iter_new_def)
  have ty: "type_rule (pe_ext P) (pe_lock P) (node ms) = Inr (ty ms)" if "good P ms" for ms
    using that by (simp add: good_def ms_wf_iff [of _ _ _ ms] node_wf_iff)
  show ?thesis
    by (rule exI, rule conjI, simp add: parse_with_ext_def Inr x)
      (auto dest!: ok simp: Inr ty neq_Nil_conv split: if_splits list.splits)
qed

lemma decode_encode:
  assumes P: "parse_env_ok P B et" and B: "builder_ok B" "sizes_ok B K" and L: "lex_lib_ok L"
    and ms: "parse_with_ext P L ps script = Some (Inr ms)" "every_node (node_lexed B et L) ms"
  shows "\<exists>b. ms_encode B (ctx_sig_type (pe_ctx P)) ms = Some b \<and> lex L (map Inr (instructions B b)) = lex L script"
proof -
  have g: "good P ms" "lex L script = Inr (ms_toks P B et ms)"
    using parse_with_ext_ok [OF P, of L ps script] ms(1) by auto
  then have wf: "ms_wf (pe_ext P) (pe_lock P) (ctx_sig_type (pe_ctx P)) ms" by (simp add: good_def)
  obtain b where b: "ms_encode B (ctx_sig_type (pe_ctx P)) ms = Some b"
    using encode_total [OF wf, of B _ "builder_new B"] by (auto simp: ms_encode_def)
  then show ?thesis using lex_encode [OF B L wf ms(2) b] g(2) by simp
qed

end
