(* ===== verification/Demo_Script.thy ===== *)
theory Demo_Script
  imports Decode_Sound Demo Lift Translate
begin

text \<open>
  A script library on lists of instructions, with keys and hashes that are padded to their size, and a
  small script for it. It meets the hypotheses on the builder, the lexer and the decoder.
\<close>

section \<open>A script library\<close>

definition pad :: "nat \<Rightarrow> bytes \<Rightarrow> bytes" where
  "pad n bs = take n (bs @ replicate n 0)"

lemma length_pad [simp]: "length (pad n bs) = n"
  by (simp add: pad_def)

lemma pad_id: "length bs = n \<Longrightarrow> pad n bs = bs"
  by (simp add: pad_def)

definition list_builder :: "(instruction list, bytes, bytes, unit) builder" where
  "list_builder = \<lparr>builder_new = [], push_opcode = (\<lambda>b op. b @ [op_instruction op]),
     push_int = (\<lambda>b n. b @ [int_instruction n]), push_slice = (\<lambda>b bs. b @ [PushBytes bs]),
     push_key = (\<lambda>b pk. b @ [PushBytes (pad 33 pk)]), push_verify = add_verify,
     push_to_builder = (\<lambda>_ b. b @ [Op OP_DROP]), instructions = id,
     script_len = (\<lambda>b. sum_list (map instruction_size b)),
     full_key_bytes = pad 33, xonly_key_bytes = pad 32, full_key_hash = pad 20, xonly_key_hash = pad 20,
     sha256_bytes = pad 32, hash256_bytes = pad 32, ripemd160_bytes = pad 20, hash160_bytes = pad 20,
     ext_instructions = (\<lambda>_. [Op OP_DROP])\<rparr>"

lemma list_builder_ok: "builder_ok list_builder"
  by (simp add: builder_ok_def list_builder_def)

definition demo_keys :: "bytes key_info" where
  "demo_keys = \<lparr>is_uncompressed = (\<lambda>_. False), is_x_only_key = (\<lambda>_. False), key_to_string = (\<lambda>_. [])\<rparr>"

definition no_ext_checks :: "unit ext_checks" where
  "no_ext_checks = \<lparr>segwit_ctx_checks = (\<lambda>_. Inr ()), tap_ctx_checks = (\<lambda>_. Inr ())\<rparr>"

lemma list_builder_sizes: "sizes_ok list_builder demo_keys"
  by (simp add: sizes_ok_def list_builder_def demo_keys_def)

definition demo_lex :: lex_lib where
  "demo_lex = \<lparr>read_scriptint = (\<lambda>bs. if length bs \<le> 4 then Some (scriptint_val bs) else None),
     push_int_tail = (\<lambda>v. if -1 \<le> v \<and> v \<le> 16 then [] else build_scriptint v)\<rparr>"

lemma scriptint_loop_short: "a < 2 ^ 31 \<Longrightarrow> length (scriptint_loop neg a) \<le> 4"
  by (simp add: scriptint_loop_length [of _ a] scriptint_loop_length [of _ "a div 256"]
      scriptint_loop_length [of _ "a div 65536"] scriptint_loop_length [of _ "a div 16777216"] div_mult2_eq [symmetric]
      div_less_iff_less_mult)

lemma demo_lex_ok: "lex_lib_ok demo_lex"
proof -
  have "length (build_scriptint n) \<le> 4" if "\<bar>n\<bar> < 2 ^ 31" for n
    using scriptint_loop_short [of "nat \<bar>n\<bar>" "n < 0"] that by (simp add: build_scriptint_def nat_less_iff)
  then show ?thesis by (simp add: lex_lib_ok_def demo_lex_def scriptint_roundtrip)
qed

definition demo_parse_env :: "(bytes, bytes, unit) parse_env" where
  "demo_parse_env = \<lparr>key_from_slice = (\<lambda>bs. if length bs = 33 then Some bs else None),
     sha256_from_slice = (\<lambda>bs. if length bs = 32 then Some bs else None),
     hash256_from_slice = (\<lambda>bs. if length bs = 32 then Some bs else None),
     ripemd160_from_slice = (\<lambda>bs. if length bs = 20 then Some bs else None),
     hash160_from_slice = (\<lambda>bs. if length bs = 20 then Some bs else None),
     ext_from_tokens = (\<lambda>ts. (None, ts)), pe_ctx = Segwitv0, pe_ext = no_ext, pe_lock = demo_lock,
     pe_keys = demo_keys, pe_checks = no_ext_checks\<rparr>"

lemma demo_parse_env_ok: "parse_env_ok demo_parse_env list_builder (\<lambda>_. [Drop])"
  by (simp add: parse_env_ok_def parse_lib_ok_def demo_parse_env_def list_builder_def Encode.key_bytes_def pad_id no_ext_def ext_inv_leaves)

section \<open>A script\<close>

text \<open>\<open>and_v(and_v(v:pk(A),v:sha256(H)),older(100))\<close> and its script.\<close>

definition script_key :: bytes where "script_key = 2 # replicate 32 5"

definition script_ms :: "(bytes, bytes, unit) miniscript" where
  "script_ms = mk (AndV (mk (AndV (mk (Verify (mk (Check (mk (PkK script_key))))))
     (mk (Verify (mk (terminal.Sha256 demo_hash)))))) (mk (terminal.Older 100)))"

definition demo_script :: "instruction list" where
  "demo_script = [PushBytes script_key, Op OP_CHECKSIGVERIFY, Op OP_SIZE, PushBytes [32], Op OP_EQUALVERIFY, Op OP_SHA256,
     PushBytes demo_hash, Op OP_EQUALVERIFY, PushBytes [100], Op OP_CSV]"

lemma script_wf: "ms_wf no_ext demo_lock Ecdsa script_ms"
  by code_simp

lemma script_encode: "ms_encode list_builder Ecdsa script_ms = Some demo_script"
  by code_simp

lemma script_sized: "every_node (node_sized list_builder demo_keys (\<lambda>_. 1) Segwitv0) script_ms"
  by (simp add: script_ms_def every_node_mk node_sized_def demo_keys_def)

lemma script_lexed: "every_node (node_lexed list_builder (\<lambda>_. [Drop]) demo_lex) script_ms"
  by (simp add: script_ms_def every_node_mk node_lexed_def)

declare parse_loop.simps [code]

lemma script_lex: "lex demo_lex (map Inr demo_script) = Inr (toks list_builder (\<lambda>_. [Drop]) Ecdsa (node script_ms))"
  by code_simp

lemma script_parse:
  "parse demo_parse_env (token_iter_new (toks list_builder (\<lambda>_. [Drop]) Ecdsa (node script_ms))) = Some (Inr (script_ms, []))"
  by code_simp

lemma script_checks:
  "check_global_validity demo_keys no_ext_checks Segwitv0 script_ms = Inr ()"
  "type_rule no_ext demo_lock (node script_ms) = Inr (ty script_ms)" "base (corr (ty script_ms)) = Base_B"
  "requires_sig script_ms" "is_non_malleable script_ms" "within_resource_limits demo_keys no_ext_checks Segwitv0 script_ms"
  "\<not> has_mixed_timelocks script_ms"
  by code_simp+

lemma preorder_mk: "preorder (mk t) = mk t # concat (map preorder (children t))"
  by (simp add: preorder_eq [of "mk t"])

lemma script_iter: "distinct (iter_pk script_ms)" "\<not> contains_raw_pkh script_ms"
  by (auto simp: iter_pk_eq contains_raw_pkh_iff script_ms_def preorder_mk)

lemma script_sane: "sanity_check demo_keys no_ext_checks Segwitv0 script_ms = Inr ()"
  using script_checks script_iter by (simp add: sanity_check_Inr)

lemma demo_parse_env_sel:
  "pe_keys demo_parse_env = demo_keys" "pe_checks demo_parse_env = no_ext_checks" "pe_ctx demo_parse_env = Segwitv0"
  "pe_ext demo_parse_env = no_ext" "pe_lock demo_parse_env = demo_lock"
  by (simp_all add: demo_parse_env_def)

lemma script_parses: "parse_with_ext demo_parse_env demo_lex ext_params_sane (map Inr demo_script) = Some (Inr script_ms)"
proof -
  have "ext_check demo_keys no_ext_checks Segwitv0 ext_params_sane script_ms = Inr ()"
    using script_sane script_iter by (simp add: ext_check_sane)
  then show ?thesis using script_checks by (simp add: parse_with_ext_def script_lex script_parse demo_parse_env_sel map_err_def)
qed

lemma script_parses_sane: "ms_parse demo_parse_env demo_lex (map Inr demo_script) = Some (Inr script_ms)"
  using script_sane by (simp add: ms_parse_def script_parses map_err_def demo_parse_env_sel)

section \<open>A lifted policy and a translator\<close>

lemma sizes_fit_code [code]:
  "sizes_fit env vl m =
     (case satisfy_helper env (minimum_mall vl) (thresh_mall vl) (node m) of
        None \<Rightarrow> True
      | Some s \<Rightarrow> (case stack s of Stack w \<Rightarrow> int (witness_size vl w) < I64_MAX | _ \<Rightarrow> True))"
  by (auto simp: sizes_fit_def split: option.splits witness.splits)

lemma demo_sizes_fit: "every_node (sizes_fit demo_run_env (env_varint demo_env)) demo_ms"
  by code_simp

definition demo_bitcoin_keys :: "bitcoin_key key_info" where
  "demo_bitcoin_keys = \<lparr>is_uncompressed = (\<lambda>_. False), is_x_only_key = (\<lambda>_. False), key_to_string = (\<lambda>_. [])\<rparr>"

definition demo_policy :: "(bitcoin_key, bytes) policy" where
  "demo_policy = Threshold 2 [Threshold 2 [Key key_A, Key key_B, policy.Sha256 demo_hash], policy.Older 10]"

lemma demo_lift: "ms_lift demo_bitcoin_keys no_ext_checks Segwitv0 demo_ms = Inr demo_policy"
  by code_simp

definition demo_translator :: "(bitcoin_key, bytes, nat, nat, unit) translator" where
  "demo_translator = \<lparr>tr_pk = (\<lambda>k. Inr (if k = key_A then 1 else 2)), tr_sha256 = (\<lambda>_. Inr 7), tr_hash256 = (\<lambda>_. Inr 8),
     tr_ripemd160 = (\<lambda>_. Inr 9), tr_hash160 = (\<lambda>_. Inr 10)\<rparr>"

end
