(* ===== verification/Checksum.thy ===== *)
theory Checksum
  imports Errors
begin

text \<open>
  The descriptor checksum (\<open>descriptor/checksum.rs\<close>): the engine with its polynomial state, the
  function that appends a checksum while writing and the one that verifies it. Rust strings are
  strings over one-byte characters; a character outside of the input charset is an error. \<open>check_valid_chars\<close>
  belongs to the upstream crate and is a parameter. Positions, classes and the state are \<open>u64\<close>.
\<close>

unbundle bit_operations_syntax

type_synonym u64 = "64 word"

section \<open>The engine\<close>

definition INPUT_CHARSET :: string where
  "INPUT_CHARSET = ''0123456789()[],'' @ [CHR 0x27] @ ''/*abcdefgh@:$%{}IJKLMNOPQRSTUVWXYZ&+-.;<=>?!^_|~ijklmnopqrstuvwxyzABCDEFGH'' @
     [CHR 0x60] @ ''#'' @ [CHR 0x22, CHR 0x5C, CHR 0x20]"

definition CHECKSUM_CHARSET :: string where
  "CHECKSUM_CHARSET = ''qpzry9x8gf2tvdw0s3jn54khce6mua7l''"

definition poly_mod :: "u64 \<Rightarrow> u64 \<Rightarrow> u64" where
  "poly_mod c val =
     (let c0 = drop_bit 35 c;
          c = push_bit 5 (c AND 0x7ffffffff) XOR val;
          c = (if c0 AND 1 > 0 then c XOR 0xf5dee51989 else c);
          c = (if c0 AND 2 > 0 then c XOR 0xa9fdca3312 else c);
          c = (if c0 AND 4 > 0 then c XOR 0x1bab10e32d else c);
          c = (if c0 AND 8 > 0 then c XOR 0x3706b1677a else c);
          c = (if c0 AND 16 > 0 then c XOR 0x644d626ffd else c)
      in c)"

record engine =
  eng_c :: u64
  cls :: u64
  clscount :: u64

definition engine_new :: engine where
  "engine_new = \<lparr>eng_c = 1, cls = 0, clscount = 0\<rparr>"

text \<open>\<open>str::find\<close> for a character.\<close>

fun str_find :: "string \<Rightarrow> char \<Rightarrow> nat option" where
  "str_find [] ch = None"
| "str_find (x # xs) ch = (if x = ch then Some 0 else map_option Suc (str_find xs ch))"

definition input_pos :: "engine \<Rightarrow> u64 \<Rightarrow> engine" where
  "input_pos e pos =
     (let c = poly_mod (eng_c e) (pos AND 31);
          cl = cls e * 3 + drop_bit 5 pos;
          n = clscount e + 1
      in if n = 3 then \<lparr>eng_c = poly_mod c cl, cls = 0, clscount = 0\<rparr>
         else \<lparr>eng_c = c, cls = cl, clscount = n\<rparr>)"

definition char_error :: "char \<Rightarrow> crate_error" where
  "char_error ch = BadDescriptor (''Invalid character in checksum: '' @ [CHR 0x27, ch, CHR 0x27])"

fun engine_input :: "engine \<Rightarrow> string \<Rightarrow> engine \<times> (crate_error + unit)" where
  "engine_input e [] = (e, Inr ())"
| "engine_input e (ch # s) =
     (case str_find INPUT_CHARSET ch of
        None \<Rightarrow> (e, Inl (char_error ch))
      | Some pos \<Rightarrow> engine_input (input_pos e (of_nat pos)) s)"

definition checksum_state :: "engine \<Rightarrow> u64" where
  "checksum_state e =
     (let c = (if clscount e > 0 then poly_mod (eng_c e) (cls e) else eng_c e)
      in ((\<lambda>c. poly_mod c 0) ^^ 8) c XOR 1)"

definition symbol :: "u64 \<Rightarrow> nat \<Rightarrow> char" where
  "symbol c j = CHECKSUM_CHARSET ! unat (drop_bit (5 * (7 - j)) c AND 31)"

definition checksum_chars :: "engine \<Rightarrow> engine \<times> string" where
  "checksum_chars e = (let c = checksum_state e in (e\<lparr>eng_c := c\<rparr>, map (symbol c) [0..<8]))"

definition engine_checksum :: "engine \<Rightarrow> engine \<times> string" where
  "engine_checksum e = checksum_chars e"

definition desc_checksum :: "string \<Rightarrow> crate_error + string" where
  "desc_checksum desc =
     (case engine_input engine_new desc of
        (e, Inl err) \<Rightarrow> Inl err
      | (e, Inr _) \<Rightarrow> Inr (snd (engine_checksum e)))"

text \<open>\<open>s.splitn(2, '#')\<close>.\<close>

fun split_hash :: "string \<Rightarrow> string \<times> string option" where
  "split_hash [] = ([], None)"
| "split_hash (ch # s) = (if ch = CHR ''#'' then ([], Some s) else (case split_hash s of (d, r) \<Rightarrow> (ch # d, r)))"

definition sum_error :: "string \<Rightarrow> string \<Rightarrow> crate_error" where
  "sum_error got expected =
     BadDescriptor (''Invalid checksum '' @ [CHR 0x27] @ got @ [CHR 0x27] @ '', expected '' @ [CHR 0x27] @ expected @ [CHR 0x27])"

definition verify_checksum :: "(string \<Rightarrow> crate_error + unit) \<Rightarrow> string \<Rightarrow> crate_error + string" where
  "verify_checksum check_valid_chars s =
     bind_res (check_valid_chars s) (\<lambda>_.
       case split_hash s of
         (desc_str, None) \<Rightarrow> Inr desc_str
       | (desc_str, Some checksum_str) \<Rightarrow>
           bind_res (desc_checksum desc_str) (\<lambda>expected_sum.
             if checksum_str \<noteq> expected_sum then Inl (sum_error checksum_str expected_sum) else Inr desc_str))"

section \<open>Writing with a checksum\<close>

text \<open>
  \<open>Formatter\<close> wraps a \<open>fmt::Formatter\<close>, of which the code uses the text written so far and the
  alternate flag. \<open>None\<close> is \<open>fmt::Error\<close>.
\<close>

record formatter =
  fmt_out :: string
  fmt_alternate :: bool
  fmt_eng :: engine

definition formatter_new :: "string \<Rightarrow> bool \<Rightarrow> formatter" where
  "formatter_new out alt = \<lparr>fmt_out = out, fmt_alternate = alt, fmt_eng = engine_new\<rparr>"

definition write_str :: "string \<Rightarrow> formatter \<Rightarrow> formatter option" where
  "write_str s f =
     (case engine_input (fmt_eng f) s of
        (e, Inl _) \<Rightarrow> None
      | (e, Inr _) \<Rightarrow> Some (f\<lparr>fmt_out := fmt_out f @ s, fmt_eng := e\<rparr>))"

definition write_checksum :: "formatter \<Rightarrow> formatter" where
  "write_checksum f =
     (case checksum_chars (fmt_eng f) of
        (e, chars) \<Rightarrow> f\<lparr>fmt_out := fmt_out f @ ''#'' @ chars, fmt_eng := e\<rparr>)"

definition write_checksum_if_not_alt :: "formatter \<Rightarrow> formatter" where
  "write_checksum_if_not_alt f = (if \<not> fmt_alternate f then write_checksum f else f)"

section \<open>The polynomial\<close>

text \<open>The generators selected by the five bits that are shifted out.\<close>

definition gens :: "(nat \<Rightarrow> bool) \<Rightarrow> u64" where
  "gens b = (if b 35 then 0xf5dee51989 else 0) XOR (if b 36 then 0xa9fdca3312 else 0) XOR
     (if b 37 then 0x1bab10e32d else 0) XOR (if b 38 then 0x3706b1677a else 0) XOR (if b 39 then 0x644d626ffd else 0)"

lemma and_exp_pos: "(w :: u64) AND 2 ^ i > 0 \<longleftrightarrow> bit w i"
  by (simp add: word_gt_0 and_exp_eq_0_iff_not_bit)

lemma top_bits: "drop_bit 35 (c :: u64) AND 1 > 0 \<longleftrightarrow> bit c 35" "drop_bit 35 c AND 2 > 0 \<longleftrightarrow> bit c 36" "drop_bit 35 c AND 4 > 0 \<longleftrightarrow> bit c 37"
  "drop_bit 35 c AND 8 > 0 \<longleftrightarrow> bit c 38" "drop_bit 35 c AND 16 > 0 \<longleftrightarrow> bit c 39"
  using and_exp_pos [of "drop_bit 35 c" 0] and_exp_pos [of "drop_bit 35 c" 1] and_exp_pos [of "drop_bit 35 c" 2]
    and_exp_pos [of "drop_bit 35 c" 3] and_exp_pos [of "drop_bit 35 c" 4] by (simp_all add: bit_drop_bit_eq)

lemma cond_xor: "(if p then x XOR k else x) = x XOR (if p then k else (0 :: u64))"
  by simp

lemma poly_mod_eq: "poly_mod c v = push_bit 5 (take_bit 35 c) XOR v XOR gens (bit c)"
proof -
  have "c AND 0x7ffffffff = take_bit 35 c" by (simp add: take_bit_eq_mask mask_eq_exp_minus_1)
  then show ?thesis unfolding poly_mod_def Let_def top_bits cond_xor gens_def by (simp only: xor.assoc)
qed

lemma gens_xor: "gens (\<lambda>i. b i \<noteq> b' i) = gens b XOR gens b'"
proof -
  have one: "(if p \<noteq> q then k else 0) = (if p then k else 0) XOR (if q then k else (0::u64))" for p q k by simp
  show ?thesis unfolding gens_def one by (simp only: ac_simps)
qed

lemma poly_mod_xor: "poly_mod (c XOR d) (v XOR w) = poly_mod c v XOR poly_mod d w"
proof -
  have "bit (c XOR d) = (\<lambda>i. bit c i \<noteq> bit d i)" by (rule ext) (simp add: bit_xor_iff)
  then have "gens (bit (c XOR d)) = gens (bit c) XOR gens (bit d)" using gens_xor [of "bit c" "bit d"] by simp
  then show ?thesis by (simp add: poly_mod_eq push_bit_xor take_bit_xor ac_simps)
qed

lemma gens_low:
  assumes "take_bit 5 (gens b) = 0"
  shows "\<not> b 35 \<and> \<not> b 36 \<and> \<not> b 37 \<and> \<not> b 38 \<and> \<not> b 39"
proof -
  have "take_bit 5 (gens b) = (if b 35 then 9 else 0) XOR (if b 36 then 18 else 0) XOR (if b 37 then 13 else 0)
      XOR (if b 38 then 26 else 0) XOR (if b 39 then 29 else 0)"
    by (simp add: gens_def take_bit_xor if_distrib cong: if_cong)
  then show ?thesis using assms
    by (cases "b 35"; cases "b 36"; cases "b 37"; cases "b 38"; cases "b 39"; simp)
qed

text \<open>\<open>below n c\<close>: the bits from position \<open>n\<close> on are zero.\<close>

definition below :: "nat \<Rightarrow> u64 \<Rightarrow> bool" where
  "below n c \<longleftrightarrow> (\<forall>i. bit c i \<longrightarrow> i < n)"

lemma below_take: "below n c \<Longrightarrow> take_bit n c = c"
  by (rule bit_eqI) (auto simp: below_def bit_take_bit_iff)

lemma below_xor: "below n c \<Longrightarrow> below n d \<Longrightarrow> below n (c XOR d)"
  by (auto simp: below_def bit_xor_iff)

lemma below_mono: "below m c \<Longrightarrow> m \<le> n \<Longrightarrow> below n c"
  by (auto simp: below_def intro: less_le_trans)

lemma below_push: "below m c \<Longrightarrow> below (n + m) (push_bit n c)"
  by (auto simp: below_def bit_push_bit_iff)

lemma below_take_bit: "below n (take_bit n c)"
  by (simp add: below_def bit_take_bit_iff)

lemma below_numeral: "take_bit n c = c \<Longrightarrow> below n c"
  by (metis below_take_bit)

lemma below_gens: "below 40 (gens b)"
  unfolding gens_def by (intro below_xor; rule below_numeral; simp)

lemma below_poly_mod: "below 40 v \<Longrightarrow> below 40 (poly_mod c v)"
  using below_push [OF below_take_bit [of 35 c], of 5]
  by (simp add: poly_mod_eq below_xor below_gens)

lemma poly_mod_small: "below 35 c \<Longrightarrow> poly_mod c v = push_bit 5 c XOR v"
proof -
  assume c: "below 35 c"
  have "\<not> bit c i" if "35 \<le> i" for i using c that by (auto simp: below_def dest: leD)
  then have "gens (bit c) = 0" by (simp add: gens_def)
  then show ?thesis by (simp add: poly_mod_eq below_take [OF c])
qed

lemma below_35:
  assumes "below 40 d" "\<not> bit d 35" "\<not> bit d 36" "\<not> bit d 37" "\<not> bit d 38" "\<not> bit d 39"
  shows "below 35 d"
  unfolding below_def
proof (intro allI impI)
  fix i assume i: "bit d i"
  then have "i < 40" using assms(1) by (simp add: below_def)
  then have "i < 35 \<or> i \<in> {35, 36, 37, 38, 39}" by auto
  then show "i < 35" using assms(2-) i by blast
qed

lemma push_bit_0:
  assumes "below m c" "n + m \<le> 64" "push_bit n c = 0"
  shows "c = 0"
proof (rule ccontr)
  assume "c \<noteq> 0"
  then obtain i where "bit c i" by (auto simp: bit_eq_iff)
  then have "bit (push_bit n c) (n + i)" using assms(1,2) by (auto simp: below_def bit_push_bit_iff)
  then show False by (simp add: assms(3))
qed

lemma xor_zero: "(c :: u64) XOR d = 0 \<longleftrightarrow> c = d"
  by (auto simp: bit_eq_iff bit_xor_iff)

lemma poly_mod_kernel:
  assumes "poly_mod d 0 = 0" "below 40 d"
  shows "d = 0"
proof -
  have "take_bit 5 (gens (bit d)) = take_bit 5 (poly_mod d 0)"
    by (simp add: poly_mod_eq take_bit_xor take_bit_push_bit)
  then have "\<not> bit d 35" "\<not> bit d 36" "\<not> bit d 37" "\<not> bit d 38" "\<not> bit d 39"
    using gens_low [of "bit d"] assms(1) by simp_all
  then have small: "below 35 d" using below_35 assms(2) by blast
  then have "push_bit 5 d = 0" using assms(1) by (simp add: poly_mod_small)
  then show ?thesis using push_bit_0 [OF small, of 5] by simp
qed

lemma poly_mod_inj: "below 40 c \<Longrightarrow> below 40 d \<Longrightarrow> poly_mod c v = poly_mod d v \<Longrightarrow> c = d"
  using poly_mod_kernel [of "c XOR d"] poly_mod_xor [of c d v v] by (simp add: below_xor xor_zero)

section \<open>Engine states\<close>

definition engine_ok :: "engine \<Rightarrow> bool" where
  "engine_ok e \<longleftrightarrow> below 40 (eng_c e) \<and> clscount e \<in> {0, 1, 2} \<and> unat (cls e) < 3 ^ unat (clscount e)"

text \<open>
  Two engines that have seen the same characters but one: either their polynomial states differ, or the
  classes collected for the current group differ and the states do so at most in the low positions.
\<close>

definition diverged :: "nat \<Rightarrow> u64 \<Rightarrow> u64 \<Rightarrow> u64 \<Rightarrow> u64 \<Rightarrow> bool" where
  "diverged n c cl c' cl' \<longleftrightarrow> cl = cl' \<and> c \<noteq> c' \<or> cl \<noteq> cl' \<and> below (5 * n) (c XOR c')"

definition engines_differ :: "engine \<Rightarrow> engine \<Rightarrow> bool" where
  "engines_differ e e' \<longleftrightarrow> engine_ok e \<and> engine_ok e' \<and> clscount e = clscount e'
     \<and> diverged (unat (clscount e)) (eng_c e) (cls e) (eng_c e') (cls e')"

lemma below_unat: "below n c \<longleftrightarrow> unat c < 2 ^ n" if "n \<le> 64"
proof -
  have "below n c \<longleftrightarrow> take_bit n c = c" by (metis below_take below_take_bit)
  also have "\<dots> \<longleftrightarrow> take_bit n (unat c) = unat c" by (metis unsigned_take_bit_eq word_unat_eq_iff)
  finally show ?thesis by (simp add: take_bit_nat_eq_self_iff)
qed

lemma flush_differ:
  assumes "diverged n c cl c' cl'" "n \<le> 3" "unat cl < 27" "unat cl' < 27" "below 40 c" "below 40 c'"
  shows "poly_mod c cl \<noteq> poly_mod c' cl'"
proof
  assume eq: "poly_mod c cl = poly_mod c' cl'"
  then have "cl \<noteq> cl'" and d: "below (5 * n) (c XOR c')"
    using assms poly_mod_inj by (auto simp: diverged_def)
  have b5: "below 5 (cl XOR cl')" using assms(3,4) by (intro below_xor) (auto simp: below_unat)
  have "poly_mod (c XOR c') (cl XOR cl') = 0" using eq by (simp add: poly_mod_xor)
  moreover have "below 35 (c XOR c')" using d assms(2) by (auto elim: below_mono)
  ultimately have "push_bit 5 (c XOR c') XOR (cl XOR cl') = 0" by (simp add: poly_mod_small)
  then have "take_bit 5 (push_bit 5 (c XOR c')) = take_bit 5 (cl XOR cl')" by (simp add: xor_zero)
  then have "cl XOR cl' = 0" using below_take [OF b5] by (simp add: take_bit_push_bit take_bit_xor)
  then show False using \<open>cl \<noteq> cl'\<close> by (simp add: xor_zero)
qed

lemma unat_class: "unat (x :: u64) < 9 \<Longrightarrow> unat d < 3 \<Longrightarrow> unat (x * 3 + d) = unat x * 3 + unat d"
  by (simp add: unat_word_ariths)

lemma pow3_unat: "n \<in> {0, 1, 2 :: u64} \<Longrightarrow> (3::nat) ^ unat n \<le> 9"
  by auto

text \<open>What one character does to the state before a full group is flushed.\<close>

lemma pos_parts:
  assumes "unat p < 96"
  shows "unat (drop_bit 5 p) < 3" "below 5 (p AND 31)"
proof -
  show "unat (drop_bit 5 p) < 3" using assms by (simp add: drop_bit_eq_div unat_div)
  have "p AND 31 = take_bit 5 p" by (simp add: take_bit_eq_mask mask_eq_exp_minus_1)
  then show "below 5 (p AND 31)" by (simp add: below_take_bit)
qed

lemma class_bound:
  assumes "engine_ok e" "unat p < 96"
  shows "unat (cls e * 3 + drop_bit 5 p) = unat (cls e) * 3 + unat (drop_bit 5 p)"
    and "unat (cls e * 3 + drop_bit 5 p) < 3 * 3 ^ unat (clscount e)" "unat (cls e * 3 + drop_bit 5 p) < 27"
proof -
  have x: "unat (cls e) < 9" using assms(1) pow3_unat [of "clscount e"] by (auto simp: engine_ok_def)
  show eq: "unat (cls e * 3 + drop_bit 5 p) = unat (cls e) * 3 + unat (drop_bit 5 p)"
    using unat_class [OF x] pos_parts(1) [OF assms(2)] by blast
  have "unat (cls e) < 3 ^ unat (clscount e)" using assms(1) by (simp add: engine_ok_def)
  then show "unat (cls e * 3 + drop_bit 5 p) < 3 * 3 ^ unat (clscount e)"
    unfolding eq using pos_parts(1) [OF assms(2)] by linarith
  show "unat (cls e * 3 + drop_bit 5 p) < 27" unfolding eq using x pos_parts(1) [OF assms(2)] by linarith
qed

lemma input_pos_ok:
  assumes "engine_ok e" "unat p < 96"
  shows "engine_ok (input_pos e p)"
proof -
  have "below 40 (p AND 31)" using pos_parts(2) [OF assms(2)] by (rule below_mono) simp
  moreover have "below 40 (cls e * 3 + drop_bit 5 p)" using class_bound(3) [OF assms] by (simp add: below_unat)
  ultimately show ?thesis using assms(1) class_bound(2) [OF assms]
    by (auto simp: engine_ok_def input_pos_def Let_def intro!: below_poly_mod)
qed

lemma input_pos_differ:
  assumes e: "engine_ok e" "engine_ok e'" "clscount e = clscount e'" and p: "unat p < 96" "unat p' < 96"
    and d: "diverged (Suc (unat (clscount e))) (poly_mod (eng_c e) (p AND 31)) (cls e * 3 + drop_bit 5 p)
      (poly_mod (eng_c e') (p' AND 31)) (cls e' * 3 + drop_bit 5 p')"
  shows "engines_differ (input_pos e p) (input_pos e' p')"
proof -
  have b: "below 40 (poly_mod (eng_c e) (p AND 31))" "below 40 (poly_mod (eng_c e') (p' AND 31))"
    using pos_parts(2) [OF p(1)] pos_parts(2) [OF p(2)] by (auto intro!: below_poly_mod elim: below_mono)
  have c: "clscount e \<in> {0, 1, 2}" using e(1) by (simp add: engine_ok_def)
  have "poly_mod (poly_mod (eng_c e) (p AND 31)) (cls e * 3 + drop_bit 5 p)
      \<noteq> poly_mod (poly_mod (eng_c e') (p' AND 31)) (cls e' * 3 + drop_bit 5 p')"
    using c by (intro flush_differ [OF d _ class_bound(3) [OF e(1) p(1)] class_bound(3) [OF e(2) p(2)] b]) auto
  then show ?thesis
    using c d e(3) input_pos_ok [OF e(1) p(1)] input_pos_ok [OF e(2) p(2)]
    by (auto simp: engines_differ_def input_pos_def Let_def diverged_def)
qed

lemma engines_differ_input:
  assumes "engines_differ e e'" "unat p < 96"
  shows "engines_differ (input_pos e p) (input_pos e' p)"
proof -
  have e: "engine_ok e" "engine_ok e'" "clscount e = clscount e'"
    and d: "diverged (unat (clscount e)) (eng_c e) (cls e) (eng_c e') (cls e')"
    using assms(1) by (auto simp: engines_differ_def)
  have "diverged (Suc (unat (clscount e))) (poly_mod (eng_c e) (p AND 31)) (cls e * 3 + drop_bit 5 p)
      (poly_mod (eng_c e') (p AND 31)) (cls e' * 3 + drop_bit 5 p)"
  proof (cases "cls e = cls e'")
    case True
    then show ?thesis using d e poly_mod_inj [of "eng_c e" "eng_c e'" "p AND 31"] by (auto simp: diverged_def engine_ok_def)
  next
    case False
    then have bel: "below (5 * unat (clscount e)) (eng_c e XOR eng_c e')" using d by (simp add: diverged_def)
    have "below 35 (eng_c e XOR eng_c e')" using e(1) by (intro below_mono [OF bel]) (auto simp: engine_ok_def)
    then have "poly_mod (eng_c e) (p AND 31) XOR poly_mod (eng_c e') (p AND 31) = push_bit 5 (eng_c e XOR eng_c e')"
      using poly_mod_xor [of "eng_c e" "eng_c e'" "p AND 31" "p AND 31"] by (simp add: poly_mod_small)
    moreover have "cls e * 3 + drop_bit 5 p \<noteq> cls e' * 3 + drop_bit 5 p"
      using False class_bound(1) [OF e(1) assms(2)] class_bound(1) [OF e(2) assms(2)] by (metis add_right_cancel mult_right_cancel word_unat_eq_iff zero_neq_numeral)
    ultimately show ?thesis using below_push [OF bel, of 5] by (simp add: diverged_def)
  qed
  then show ?thesis using e assms(2) by (intro input_pos_differ)
qed

lemma first_difference:
  assumes "engine_ok e" "unat p < 96" "unat p' < 96" "p \<noteq> p'"
  shows "engines_differ (input_pos e p) (input_pos e p')"
proof -
  have x: "poly_mod (eng_c e) (p AND 31) XOR poly_mod (eng_c e) (p' AND 31) = (p AND 31) XOR (p' AND 31)"
    using poly_mod_xor [of "eng_c e" "eng_c e" "p AND 31" "p' AND 31"] by (simp add: poly_mod_eq gens_def)
  have "diverged (Suc (unat (clscount e))) (poly_mod (eng_c e) (p AND 31)) (cls e * 3 + drop_bit 5 p)
      (poly_mod (eng_c e) (p' AND 31)) (cls e * 3 + drop_bit 5 p')"
  proof (cases "drop_bit 5 p = drop_bit 5 p'")
    case True
    have "p AND 31 \<noteq> p' AND 31"
    proof
      assume "p AND 31 = p' AND 31"
      then have "take_bit 5 p = take_bit 5 p'" by (simp add: take_bit_eq_mask mask_eq_exp_minus_1)
      then show False using True assms(4) bits_ident [of 5 p] bits_ident [of 5 p'] by simp
    qed
    then show ?thesis using True x by (auto simp: diverged_def xor_zero)
  next
    case False
    moreover have "below (5 * Suc (unat (clscount e))) ((p AND 31) XOR (p' AND 31))"
      using below_xor [OF pos_parts(2) [OF assms(2)] pos_parts(2) [OF assms(3)]] by (rule below_mono) simp
    ultimately show ?thesis using x by (simp add: diverged_def)
  qed
  then show ?thesis using assms by (intro input_pos_differ) auto
qed

section \<open>Checksums\<close>

lemma charset_distinct: "distinct CHECKSUM_CHARSET" "length CHECKSUM_CHARSET = 32" "length INPUT_CHARSET = 95"
  by (simp_all add: CHECKSUM_CHARSET_def INPUT_CHARSET_def)

lemma symbol_eq: "symbol c j = symbol c' j \<longleftrightarrow> take_bit 5 (drop_bit (5 * (7 - j)) c) = take_bit 5 (drop_bit (5 * (7 - j)) c')"
proof -
  have m: "w AND 31 = take_bit 5 w" for w :: u64 by (simp add: take_bit_eq_mask mask_eq_exp_minus_1)
  have "unat (take_bit 5 w) < 32" for w :: u64 using below_unat [of 5 "take_bit 5 w"] by (simp add: below_take_bit)
  then show ?thesis by (simp add: symbol_def m nth_eq_iff_index_eq charset_distinct word_unat_eq_iff)
qed

lemma symbols_inj:
  assumes "below 40 c" "below 40 c'" "map (symbol c) [0..<8] = map (symbol c') [0..<8]"
  shows "c = c'"
proof (rule bit_eqI)
  fix i
  show "bit c i = bit c' i"
  proof (cases "i < 40")
    case True
    let ?j = "7 - i div 5"
    have "symbol c ?j = symbol c' ?j" using assms(3) by (auto simp: map_eq_conv)
    moreover have "7 - ?j = i div 5" using True by auto
    ultimately have "bit (take_bit 5 (drop_bit (5 * (i div 5)) c)) (i mod 5) = bit (take_bit 5 (drop_bit (5 * (i div 5)) c')) (i mod 5)"
      by (simp add: symbol_eq)
    then show ?thesis by (simp add: bit_take_bit_iff bit_drop_bit_eq)
  next
    case False
    then show ?thesis using assms(1,2) by (auto simp: below_def)
  qed
qed

lemma below_0: "below n 0"
  by (simp add: below_def)

lemma below_poly_mod_iterate: "below 40 c \<Longrightarrow> below 40 (((\<lambda>c. poly_mod c 0) ^^ n) c)"
  by (induction n) (auto intro: below_poly_mod below_0)

lemma poly_mod_iterate_inj:
  assumes "below 40 c" "below 40 d"
  shows "((\<lambda>c. poly_mod c 0) ^^ n) c = ((\<lambda>c. poly_mod c 0) ^^ n) d \<Longrightarrow> c = d"
proof (induction n)
  case (Suc n)
  then show ?case using poly_mod_inj below_poly_mod_iterate assms by simp
qed simp

lemma xor_right_cancel: "x XOR k = y XOR k \<longleftrightarrow> x = (y :: u64)"
  by (auto simp: bit_eq_iff bit_xor_iff)

lemma checksum_differ:
  assumes "engines_differ e e'"
  shows "snd (checksum_chars e) \<noteq> snd (checksum_chars e')"
proof
  let ?fl = "\<lambda>e. if clscount e > 0 then poly_mod (eng_c e) (cls e) else eng_c e"
  assume eq: "snd (checksum_chars e) = snd (checksum_chars e')"
  have e: "engine_ok e" "engine_ok e'" "clscount e = clscount e'"
    and d: "diverged (unat (clscount e)) (eng_c e) (cls e) (eng_c e') (cls e')"
    using assms by (auto simp: engines_differ_def)
  have lt: "unat (cls e) < 27" "unat (cls e') < 27" "unat (clscount e) \<le> 3" using e by (auto simp: engine_ok_def)
  have cl: "below 40 (cls e)" "below 40 (cls e')" using lt by (auto simp: below_unat)
  have b: "below 40 (?fl e)" "below 40 (?fl e')" using e cl by (auto simp: engine_ok_def intro: below_poly_mod)
  have b1: "below 40 (1 :: u64)" by (simp add: below_unat)
  have "checksum_state e = checksum_state e'"
    using eq b b1 by (intro symbols_inj) (auto simp: checksum_chars_def checksum_state_def Let_def intro!: below_xor below_poly_mod_iterate simp del: funpow.simps)
  then have "?fl e = ?fl e'"
    using poly_mod_iterate_inj [OF b, of 8] unfolding checksum_state_def Let_def xor_right_cancel by blast
  moreover have "?fl e \<noteq> ?fl e'"
  proof (cases "clscount e = 0")
    case True
    then show ?thesis using d e by (auto simp: diverged_def engine_ok_def unat_eq_zero)
  next
    case False
    then show ?thesis using flush_differ [OF d lt(3,1,2)] e by (auto simp: word_gt_0 engine_ok_def)
  qed
  ultimately show False by simp
qed

lemma str_find_Some: "str_find s ch = Some p \<Longrightarrow> p < length s \<and> s ! p = ch"
  by (induction s arbitrary: p) (auto split: if_splits)

lemma char_position: "str_find INPUT_CHARSET ch = Some p \<Longrightarrow> unat (of_nat p :: u64) = p \<and> unat (of_nat p :: u64) < 96"
  using str_find_Some [of INPUT_CHARSET ch p] charset_distinct(3) by (simp add: unat_of_nat)

lemma engine_input_append:
  "engine_input e (s @ t) = (case engine_input e s of (e', Inl err) \<Rightarrow> (e', Inl err) | (e', Inr _) \<Rightarrow> engine_input e' t)"
  by (induction e s rule: engine_input.induct) (auto split: option.splits)

lemma engine_input_ok: "engine_ok e \<Longrightarrow> engine_ok (fst (engine_input e s))"
proof (induction e s rule: engine_input.induct)
  case (2 e ch s)
  then show ?case using input_pos_ok [OF 2(2)] char_position [of ch] by (cases "str_find INPUT_CHARSET ch") auto
qed simp

lemma engine_input_differ:
  "engines_differ e e' \<Longrightarrow> engine_input e s = (f, Inr ()) \<Longrightarrow> engine_input e' s = (f', Inr ()) \<Longrightarrow> engines_differ f f'"
proof (induction e s arbitrary: e' rule: engine_input.induct)
  case (2 e ch s)
  then show ?case using engines_differ_input [OF 2(2)] char_position [of ch] by (cases "str_find INPUT_CHARSET ch") auto
qed simp

lemma desc_checksum_Inr:
  "desc_checksum s = Inr k \<longleftrightarrow> (\<exists>e. engine_input engine_new s = (e, Inr ()) \<and> k = snd (checksum_chars e))"
  by (auto simp: desc_checksum_def engine_checksum_def split: prod.splits sum.splits)

text \<open>Replacing one character changes the checksum.\<close>

lemma substitution_detected:
  assumes "desc_checksum (xs @ a # ys) = Inr k" "desc_checksum (xs @ b # ys) = Inr k'" "a \<noteq> b"
  shows "k \<noteq> k'"
proof -
  obtain e where e: "engine_input engine_new xs = (e, Inr ())"
    using assms(1) by (auto simp: desc_checksum_Inr engine_input_append split: prod.splits sum.splits)
  have "engine_ok engine_new" by (simp add: engine_ok_def engine_new_def below_unat)
  then have ok: "engine_ok e" using engine_input_ok [of engine_new xs] e by simp
  obtain p f where p: "str_find INPUT_CHARSET a = Some p" "engine_input (input_pos e (of_nat p)) ys = (f, Inr ())"
    "k = snd (checksum_chars f)"
    using assms(1) e by (auto simp: desc_checksum_Inr engine_input_append split: option.splits)
  obtain p' f' where p': "str_find INPUT_CHARSET b = Some p'" "engine_input (input_pos e (of_nat p')) ys = (f', Inr ())"
    "k' = snd (checksum_chars f')"
    using assms(2) e by (auto simp: desc_checksum_Inr engine_input_append split: option.splits)
  have "p \<noteq> p'" using p(1) p'(1) assms(3) str_find_Some by blast
  then have "of_nat p \<noteq> (of_nat p' :: u64)" using char_position [OF p(1)] char_position [OF p'(1)] by metis
  then have "engines_differ (input_pos e (of_nat p)) (input_pos e (of_nat p'))"
    using first_difference [OF ok] char_position [OF p(1)] char_position [OF p'(1)] by simp
  then show ?thesis using engine_input_differ [OF _ p(2) p'(2)] checksum_differ p(3) p'(3) by blast
qed

lemma split_hash_free: "CHR ''#'' \<notin> set d \<Longrightarrow> split_hash (d @ CHR ''#'' # r) = (d, Some r)"
  by (induction d) auto

lemma verify_checksum_Inr:
  assumes "CHR ''#'' \<notin> set d"
  shows "verify_checksum V (d @ CHR ''#'' # k) = Inr r \<longleftrightarrow>
    V (d @ CHR ''#'' # k) = Inr () \<and> desc_checksum d = Inr k \<and> r = d"
  using assms by (auto simp: verify_checksum_def split_hash_free)

lemma write_str_append: "write_str (s @ t) f = Option.bind (write_str s f) (write_str t)"
  by (auto simp: write_str_def engine_input_append split: prod.splits sum.splits)

lemma written_checksum:
  assumes "write_str d (formatter_new [] alt) = Some f"
  shows "\<exists>k. desc_checksum d = Inr k \<and> fmt_out (write_checksum f) = d @ CHR ''#'' # k"
  using assms
  by (auto simp: write_str_def formatter_new_def write_checksum_def desc_checksum_Inr checksum_chars_def Let_def split: prod.splits sum.splits)

end
