(* ===== verification/Text_Tree.thy ===== *)
theory Text_Tree
  imports Errors
begin

text \<open>
  The expression language of descriptors and policies (\<open>expression.rs\<close>): trees \<open>name(arg,...)\<close>, their
  parser with its recursion limit, and the helpers that read numbers and arguments. Strings are
  the bytes of Rust's UTF-8 strings; every character the code looks for is a single byte.
  \<open>check_valid_chars\<close> belongs to the upstream crate and is a parameter.
\<close>

section \<open>The parser\<close>

datatype tree = Tree (tree_name: string) (tree_args: "tree list")

datatype found = Nothing | LBracket nat | Comma nat | RBracket nat

text \<open>The two delimiters the callers pass.\<close>

datatype delim = Paren | Brace

text \<open>
  The two loops of \<open>next_expr\<close>: the whole string, what is left of it and the position. Inside of
  \<open>musig(...)\<close> brackets and commas belong to the key.
\<close>

fun scan_paren :: "string \<Rightarrow> string \<Rightarrow> nat \<Rightarrow> bool \<Rightarrow> int \<Rightarrow> found" where
  "scan_paren sl [] n key_ctx count = Nothing"
| "scan_paren sl (ch # rest) n key_ctx count =
     (if ch = CHR ''('' then
        (if key_ctx then scan_paren sl rest (Suc n) key_ctx (count + 1)
         else if take n sl = ''musig'' then scan_paren sl rest (Suc n) True 1
         else LBracket n)
      else if ch = CHR '','' then
        (if \<not> key_ctx then Comma n else scan_paren sl rest (Suc n) key_ctx count)
      else if ch = CHR '')'' then
        (if key_ctx then scan_paren sl rest (Suc n) (count - 1 \<noteq> 0) (count - 1)
         else RBracket n)
      else scan_paren sl rest (Suc n) key_ctx count)"

fun scan_brace :: "string \<Rightarrow> nat \<Rightarrow> int \<Rightarrow> found" where
  "scan_brace [] n new_count = Nothing"
| "scan_brace (ch # rest) n new_count =
     (if ch = CHR ''{'' then LBracket n
      else if ch = CHR ''('' then scan_brace rest (Suc n) (new_count + 1)
      else if ch = CHR '','' then
        (if new_count = 0 then Comma n else scan_brace rest (Suc n) new_count)
      else if ch = CHR '')'' then scan_brace rest (Suc n) (new_count - 1)
      else if ch = CHR ''}'' then RBracket n
      else scan_brace rest (Suc n) new_count)"

fun next_expr :: "string \<Rightarrow> delim \<Rightarrow> found" where
  "next_expr sl Paren = scan_paren sl sl 0 False 0"
| "next_expr sl Brace = scan_brace sl 0 0"

fun closing_delim :: "delim \<Rightarrow> char" where
  "closing_delim Paren = CHR '')''"
| "closing_delim Brace = CHR ''}''"

definition MAX_RECURSION_DEPTH :: nat where "MAX_RECURSION_DEPTH = 402"

lemma scan_paren_bound: "scan_paren sl rest n c k = LBracket m \<Longrightarrow> n \<le> m \<and> m < n + length rest"
  by (induction sl rest n c k rule: scan_paren.induct) (auto split: if_splits)

lemma scan_brace_bound: "scan_brace rest n k = LBracket m \<Longrightarrow> n \<le> m \<and> m < n + length rest"
  by (induction rest n k rule: scan_brace.induct) (auto split: if_splits)

lemma next_expr_bound: "next_expr sl d = LBracket n \<Longrightarrow> n < length sl"
  using scan_paren_bound [of sl sl 0] scan_brace_bound [of sl 0] by (cases d) auto

text \<open>\<open>from_slice_delim\<close> and the loop in it that collects arguments.\<close>

function from_slice_delim :: "delim \<Rightarrow> nat \<Rightarrow> string \<Rightarrow> crate_error + tree \<times> string"
  and parse_args :: "delim \<Rightarrow> nat \<Rightarrow> string \<Rightarrow> crate_error + tree list \<times> string" where
  "from_slice_delim delim depth sl =
     (if depth \<ge> MAX_RECURSION_DEPTH then Inl MaxRecursiveDepthExceeded
      else case next_expr sl delim of
        Nothing \<Rightarrow> Inr (Tree sl [], [])
      | Comma n \<Rightarrow> Inr (Tree (take n sl) [], drop n sl)
      | RBracket n \<Rightarrow> Inr (Tree (take n sl) [], drop n sl)
      | LBracket n \<Rightarrow>
          bind_res (parse_args delim depth (drop (Suc n) sl)) (\<lambda>r. Inr (Tree (take n sl) (fst r), snd r)))"
| "parse_args delim depth sl =
     bind_res (from_slice_delim delim (Suc depth) sl) (\<lambda>r.
       case snd r of
         [] \<Rightarrow> Inl (ExpectedChar (closing_delim delim))
       | ch # rest \<Rightarrow>
           if ch = CHR '','' then
             bind_res (parse_args delim depth rest) (\<lambda>r'. Inr (fst r # fst r', snd r'))
           else if ch = closing_delim delim then Inr ([fst r], rest)
           else Inl (ExpectedChar (closing_delim delim)))"
  by pat_completeness auto

termination
proof -
  have shorter:
    "from_slice_delim_parse_args_dom (Inl (d, k, sl)) \<Longrightarrow> from_slice_delim d k sl = Inr r \<Longrightarrow> length (snd r) \<le> length sl"
    "from_slice_delim_parse_args_dom (Inr (d, k, sl)) \<Longrightarrow> parse_args d k sl = Inr q \<Longrightarrow> length (snd q) \<le> length sl"
    for d k sl and r :: "tree \<times> string" and q :: "tree list \<times> string"
  proof (induction d k sl and d k sl arbitrary: r and q rule: from_slice_delim_parse_args.pinduct)
    case (1 d k sl)
    show ?case
      using "1.prems" "1.IH" unfolding from_slice_delim.psimps [OF "1.hyps"]
      by (fastforce split: if_splits found.splits)
  next
    case (2 d k sl)
    obtain a where a: "from_slice_delim d (Suc k) sl = Inr a"
      using "2.prems" unfolding parse_args.psimps [OF "2.hyps"] by auto
    have len: "length (snd a) \<le> length sl" using "2.IH"(1) a by blast
    show ?case
      using "2.prems" "2.IH"(2) [OF a] a len unfolding parse_args.psimps [OF "2.hyps"]
      by (fastforce split: if_splits list.splits)
  qed
  show "All from_slice_delim_parse_args_dom"
    by (relation "measure (\<lambda>x. case x of Inl (d, k, sl) \<Rightarrow> 2 * length sl | Inr (d, k, sl) \<Rightarrow> 2 * length sl + 1)")
      (use next_expr_bound in \<open>force dest: shorter\<close>)+
qed

declare from_slice_delim.simps [simp del] parse_args.simps [simp del]

definition from_slice :: "string \<Rightarrow> crate_error + tree \<times> string" where
  "from_slice sl = from_slice_delim Paren 0 sl"

definition errstr :: "string \<Rightarrow> crate_error" where
  "errstr s = Unexpected s"

definition tree_from_str :: "(string \<Rightarrow> crate_error + unit) \<Rightarrow> string \<Rightarrow> crate_error + tree" where
  "tree_from_str check_valid_chars s =
     bind_res (check_valid_chars s) (\<lambda>_.
     bind_res (from_slice s) (\<lambda>(t, rem). if rem = [] then Inr t else Inl (errstr rem)))"

section \<open>Numbers and arguments\<close>

definition digit_of :: "char \<Rightarrow> nat option" where
  "digit_of ch = (let n = of_char ch :: nat in if 48 \<le> n \<and> n \<le> 57 then Some (n - 48) else None)"

fun digits_val :: "nat \<Rightarrow> string \<Rightarrow> nat option" where
  "digits_val acc [] = Some acc"
| "digits_val acc (ch # s) = (case digit_of ch of None \<Rightarrow> None | Some d \<Rightarrow> digits_val (10 * acc + d) s)"

text \<open>\<open>from_str\<close> of the unsigned integers of the standard library, with their width.\<close>

definition uint_from_str :: "nat \<Rightarrow> string \<Rightarrow> nat option" where
  "uint_from_str w s =
     (let ds = (case s of c # d # r \<Rightarrow> if c = CHR ''+'' then d # r else s | _ \<Rightarrow> s)
      in if ds = [] then None
         else case digits_val 0 ds of None \<Rightarrow> None | Some v \<Rightarrow> if v < 2 ^ w then Some v else None)"

definition u32_from_str :: "string \<Rightarrow> u32 option" where
  "u32_from_str s = map_option of_nat (uint_from_str 32 s)"

definition expr_parse_num :: "(string \<Rightarrow> 'a option) \<Rightarrow> string \<Rightarrow> crate_error + 'a" where
  "expr_parse_num from_str s =
     (case (case s of
              c0 # c1 # _ \<Rightarrow>
                let ch = (if c0 = CHR ''-'' then c1 else c0)
                in if \<not> (of_char CHR ''1'' \<le> (of_char ch :: nat) \<and> of_char ch \<le> (of_char CHR ''9'' :: nat))
                   then Inl (Unexpected ''Number must start with a digit 1-9'') else Inr ()
            | _ \<Rightarrow> Inr ()) of
        Inl e \<Rightarrow> Inl e
      | Inr _ \<Rightarrow> (case from_str s of None \<Rightarrow> Inl (errstr s) | Some v \<Rightarrow> Inr v))"

text \<open>\<open>terminal\<close>; the error of the conversion is turned into text by \<open>to_string\<close>.\<close>

definition parse_terminal :: "('err \<Rightarrow> string) \<Rightarrow> tree \<Rightarrow> (string \<Rightarrow> 'err + 'a) \<Rightarrow> crate_error + 'a" where
  "parse_terminal to_string t convert =
     (if tree_args t = [] then map_err (\<lambda>e. Unexpected (to_string e)) (convert (tree_name t)) else Inl (errstr (tree_name t)))"

text \<open>\<open>Display\<close> of the one error that \<open>expr_parse_num\<close> returns; the quotation marks are two bytes each.\<close>

definition num_error_string :: "crate_error \<Rightarrow> string" where
  "num_error_string e =
     (case e of Unexpected s \<Rightarrow> ''unexpected '' @ [CHR 0xC2, CHR 0xAB] @ s @ [CHR 0xC2, CHR 0xBB] | _ \<Rightarrow> [])"

definition terminal_num :: "tree \<Rightarrow> crate_error + u32" where
  "terminal_num t = parse_terminal num_error_string t (expr_parse_num u32_from_str)"

fun digit_char :: "nat \<Rightarrow> char" where
  "digit_char d = char_of (48 + d)"

text \<open>\<open>Display\<close> of unsigned integers.\<close>

fun show_nat :: "nat \<Rightarrow> string" where
  "show_nat n = (if n < 10 then [digit_char n] else show_nat (n div 10) @ [digit_char (n mod 10)])"

declare show_nat.simps [simp del] digit_char.simps [simp del]

lemma digit_of_char [simp]: "d < 10 \<Longrightarrow> digit_of (digit_char d) = Some d"
  by (simp add: digit_of_def digit_char.simps Let_def)

lemma digits_val_append: "digits_val acc (s @ t) = Option.bind (digits_val acc s) (\<lambda>acc. digits_val acc t)"
  by (induction acc s rule: digits_val.induct) (auto split: option.splits)

lemma digits_val_show: "digits_val 0 (show_nat n) = Some n"
proof (induction n rule: show_nat.induct)
  case (1 n)
  then show ?case by (subst show_nat.simps) (auto simp: digits_val_append)
qed

lemma show_nat_not_Nil [simp]: "show_nat n \<noteq> []"
  by (subst show_nat.simps) simp

lemma set_show_nat: "ch \<in> set (show_nat n) \<Longrightarrow> \<exists>d<10. ch = digit_char d"
proof (induction n rule: show_nat.induct)
  case (1 n)
  then show ?case by (subst (asm) (2) show_nat.simps) (force split: if_splits)
qed

lemma hd_show_nat: "0 < n \<Longrightarrow> \<exists>d. 0 < d \<and> d < 10 \<and> hd (show_nat n) = digit_char d"
proof (induction n rule: show_nat.induct)
  case (1 n)
  then show ?case by (subst show_nat.simps) (auto simp: hd_append)
qed

lemma show_nat_length: "length (show_nat n) > 1 \<Longrightarrow> 0 < n"
  by (cases n) (auto simp: show_nat.simps [of 0])

lemma digit_char_range: "0 < d \<Longrightarrow> d < 10 \<Longrightarrow> (of_char (digit_char d) :: nat) = 48 + d"
  by (simp add: digit_char.simps)

lemma digit_char_neq: "d < 10 \<Longrightarrow> digit_char d \<notin> {CHR ''+'', CHR ''-'', CHR ''('', CHR '')'', CHR '','', CHR '':'', CHR ''@''}"
  by (auto simp: digit_char.simps dest!: arg_cong [where f = "of_char :: char \<Rightarrow> nat"])

lemma show_nat_chars: "ch \<in> set (show_nat n) \<Longrightarrow> ch \<notin> {CHR ''+'', CHR ''-'', CHR ''('', CHR '')'', CHR '','', CHR '':'', CHR ''@''}"
proof -
  assume "ch \<in> set (show_nat n)"
  then obtain d where "d < 10" "ch = digit_char d" using set_show_nat [of ch n] by auto
  then show ?thesis using digit_char_neq [of d] by simp
qed

lemma uint_from_show: "n < 2 ^ w \<Longrightarrow> uint_from_str w (show_nat n) = Some n"
proof -
  assume n: "n < 2 ^ w"
  have "CHR ''+'' \<notin> set (show_nat n)" using show_nat_chars [of "CHR ''+''" n] by auto
  then have "(case show_nat n of c # d # r \<Rightarrow> if c = CHR ''+'' then d # r else show_nat n | _ \<Rightarrow> show_nat n) = show_nat n"
    by (auto split: list.splits)
  then show ?thesis using n by (simp add: uint_from_str_def Let_def digits_val_show)
qed

lemma u32_from_show: "n < 2 ^ 32 \<Longrightarrow> u32_from_str (show_nat n) = Some (of_nat n)"
  by (simp add: u32_from_str_def uint_from_show)

lemma show_nat_digit:
  assumes "show_nat n = c # c' # s"
  shows "c \<noteq> CHR ''-''" "49 \<le> (of_char c :: nat)" "(of_char c :: nat) \<le> 57"
proof -
  have "0 < n" using assms show_nat_length [of n] by simp
  then obtain d where d: "0 < d" "d < 10" "c = digit_char d" using hd_show_nat [of n] assms by auto
  then show "c \<noteq> CHR ''-''" "49 \<le> (of_char c :: nat)" "(of_char c :: nat) \<le> 57"
    using digit_char_neq [of d] digit_char_range [OF d(1,2)] by auto
qed

lemma expr_parse_num_nat: "from_str (show_nat n) = Some v \<Longrightarrow> expr_parse_num from_str (show_nat n) = Inr v"
  using show_nat_digit [of n] by (auto simp: expr_parse_num_def split: list.splits)

lemma expr_parse_num_show: "n < 2 ^ 32 \<Longrightarrow> expr_parse_num u32_from_str (show_nat n) = Inr (of_nat n)"
  by (rule expr_parse_num_nat) (rule u32_from_show)

lemma terminal_num_show: "n < 2 ^ 32 \<Longrightarrow> terminal_num (Tree (show_nat n) []) = Inr (of_nat n)"
  by (simp add: terminal_num_def parse_terminal_def expr_parse_num_show)

text \<open>\<open>str::split\<close> on a character.\<close>

fun split_on :: "char \<Rightarrow> string \<Rightarrow> string list" where
  "split_on c [] = [[]]"
| "split_on c (ch # s) =
     (if ch = c then [] # split_on c s else (case split_on c s of [] \<Rightarrow> [[ch]] | p # ps \<Rightarrow> (ch # p) # ps))"

lemma split_on_free: "c \<notin> set s \<Longrightarrow> split_on c s = [s]"
  by (induction s) auto

lemma split_on_two: "c \<notin> set s \<Longrightarrow> c \<notin> set t \<Longrightarrow> split_on c (s @ c # t) = [s, t]"
  by (induction s) (auto simp: split_on_free)

text \<open>
  \<open>FromStr\<close> and \<open>Display\<close> of keys and hashes, whose parse errors are given as text, and \<open>Display\<close> of
  absolute and relative lock times.
\<close>

record ('pk, 'h) text_env =
  pk_from_str :: "string \<Rightarrow> string + 'pk"
  sha256_from_str :: "string \<Rightarrow> string + 'h"
  hash256_from_str :: "string \<Rightarrow> string + 'h"
  ripemd160_from_str :: "string \<Rightarrow> string + 'h"
  hash160_from_str :: "string \<Rightarrow> string + 'h"
  pk_show :: "'pk \<Rightarrow> string"
  sha256_show :: "'h \<Rightarrow> string"
  hash256_show :: "'h \<Rightarrow> string"
  ripemd160_show :: "'h \<Rightarrow> string"
  hash160_show :: "'h \<Rightarrow> string"
  lock_show :: "u32 \<Rightarrow> string"
  sequence_show :: "u32 \<Rightarrow> string"

lemma size_arg [termination_simp]: "i < length args \<Longrightarrow> size (args ! i) < Suc (size_list size args)"
  using size_list_estimation' [of "args ! i" args "size (args ! i)" size] by simp

section \<open>Printing and reading trees\<close>

fun join_args :: "string list \<Rightarrow> string" where
  "join_args [] = []"
| "join_args [s] = s"
| "join_args (s # ss) = s @ '','' @ join_args ss"

fun show_tree :: "tree \<Rightarrow> string" where
  "show_tree (Tree name args) =
     (if args = [] then name else name @ ''('' @ join_args (map show_tree args) @ '')'')"

definition plain :: "string \<Rightarrow> bool" where
  "plain s \<longleftrightarrow> CHR ''('' \<notin> set s \<and> CHR '')'' \<notin> set s \<and> CHR '','' \<notin> set s"

fun tree_ok :: "tree \<Rightarrow> bool" where
  "tree_ok (Tree name args) \<longleftrightarrow> plain name \<and> (args \<noteq> [] \<longrightarrow> name \<noteq> ''musig'') \<and> list_all tree_ok args"

fun tree_depth :: "tree \<Rightarrow> nat" where
  "tree_depth (Tree name args) = (if args = [] then 0 else Suc (Max (set (map tree_depth args))))"

lemma plain_simps [simp]:
  "plain (s @ t) \<longleftrightarrow> plain s \<and> plain t" "plain []"
  "plain (c # s) \<longleftrightarrow> c \<notin> {CHR ''('', CHR '')'', CHR '',''} \<and> plain s"
  by (auto simp: plain_def)

lemma plain_show_nat [simp]: "plain (show_nat n)"
  using show_nat_chars [of _ n] by (auto simp: plain_def)

text \<open>Values that are printed without brackets and commas and read back.\<close>

definition readable :: "('a \<Rightarrow> string) \<Rightarrow> (string \<Rightarrow> string + 'a) \<Rightarrow> 'a \<Rightarrow> bool" where
  "readable shw rd x \<longleftrightarrow> plain (shw x) \<and> rd (shw x) = Inr x"

definition locks_decimal :: "('pk, 'h, 'z) text_env_scheme \<Rightarrow> bool" where
  "locks_decimal T \<longleftrightarrow> (\<forall>t. lock_show T t = show_nat (unat t) \<and> sequence_show T t = show_nat (unat t))"

lemma parse_terminal_readable: "readable shw rd x \<Longrightarrow> parse_terminal f (Tree (shw x) []) rd = Inr x"
  by (simp add: readable_def parse_terminal_def)

lemma terminal_num_unat [simp]: "terminal_num (Tree (show_nat (unat (t :: u32))) []) = Inr t"
  using terminal_num_show [of "unat t"] unsigned_less [of t] by simp

lemma scan_plain: "plain nm \<Longrightarrow> scan_paren sl (nm @ rest) n False k = scan_paren sl rest (n + length nm) False k"
  by (induction nm arbitrary: n) (auto simp: plain_def)

definition stops :: "string \<Rightarrow> bool" where
  "stops rest \<longleftrightarrow> rest = [] \<or> hd rest \<in> {CHR '','', CHR '')''}"

lemma read_leaf:
  assumes "plain nm" "stops rest" "k < MAX_RECURSION_DEPTH"
  shows "from_slice_delim Paren k (nm @ rest) = Inr (Tree nm [], rest)"
  using assms scan_plain [of nm nm "[]"]
  by (cases rest) (auto simp: from_slice_delim.simps scan_plain stops_def)

lemma read_node:
  assumes "plain nm" "nm \<noteq> ''musig''" "k < MAX_RECURSION_DEPTH" "parse_args Paren k rest = Inr (args, rest')"
  shows "from_slice_delim Paren k (nm @ CHR ''('' # rest) = Inr (Tree nm args, rest')"
  using assms by (simp add: from_slice_delim.simps scan_plain)

lemma read_args:
  assumes "\<And>t rest. t \<in> set ts \<Longrightarrow> stops rest \<Longrightarrow> from_slice_delim Paren (Suc k) (show_tree t @ rest) = Inr (t, rest)" "ts \<noteq> []"
  shows "parse_args Paren k (join_args (map show_tree ts) @ CHR '')'' # rest) = Inr (ts, rest)"
  using assms
proof (induction ts)
  case (Cons t ts)
  have t: "from_slice_delim Paren (Suc k) (show_tree t @ r) = Inr (t, r)" if "stops r" for r using Cons.prems(1) that by simp
  show ?case
  proof (cases ts)
    case Nil
    then show ?thesis using t [of "CHR '')'' # rest"] by (simp add: parse_args.simps stops_def)
  next
    case (Cons t' ts')
    then have "parse_args Paren k (join_args (map show_tree ts) @ CHR '')'' # rest) = Inr (ts, rest)"
      using Cons.IH Cons.prems(1) by simp
    then show ?thesis
      using t [of "CHR '','' # join_args (map show_tree ts) @ CHR '')'' # rest"] Cons
      by (simp add: parse_args.simps [of Paren k "show_tree t @ _"] stops_def)
  qed
qed simp

lemma read_tree:
  "tree_ok t \<Longrightarrow> k + tree_depth t < MAX_RECURSION_DEPTH \<Longrightarrow> stops rest \<Longrightarrow>
     from_slice_delim Paren k (show_tree t @ rest) = Inr (t, rest)"
proof (induction t arbitrary: k rest)
  case (Tree nm args)
  show ?case
  proof (cases "args = []")
    case True
    then show ?thesis using Tree.prems read_leaf by simp
  next
    case False
    have "from_slice_delim Paren (Suc k) (show_tree t @ r) = Inr (t, r)" if "t \<in> set args" "stops r" for t r
    proof -
      have "tree_depth t \<le> Max (tree_depth ` set args)" using that by simp
      moreover have "Suc (k + Max (tree_depth ` set args)) < MAX_RECURSION_DEPTH" using Tree.prems(2) False by simp
      ultimately have "Suc k + tree_depth t < MAX_RECURSION_DEPTH" by linarith
      moreover have "tree_ok t" using Tree.prems(1) that(1) by (simp add: list_all_iff)
      ultimately show ?thesis using Tree.IH [OF that(1)] that(2) by blast
    qed
    then have "parse_args Paren k (join_args (map show_tree args) @ CHR '')'' # rest) = Inr (args, rest)"
      using read_args False by blast
    then show ?thesis using Tree.prems False by (simp add: read_node)
  qed
qed

text \<open>Conversely a tree that was read prints as the text that was consumed.\<close>

lemma scan_paren_LBracket: "scan_paren sl rest n c k = LBracket m \<Longrightarrow> rest = drop n sl \<Longrightarrow> sl = take m sl @ CHR ''('' # drop (Suc m) sl"
proof (induction sl rest n c k rule: scan_paren.induct)
  case (2 sl ch rest n c k)
  have "rest = drop (Suc n) sl" using 2(7) by (metis drop_Suc drop_tl list.sel(3))
  moreover have "sl = take n sl @ ch # rest" using 2(7) by (metis append_take_drop_id)
  ultimately show ?case using 2 by (auto split: if_splits)
qed simp

lemma show_read:
  "from_slice_delim d k s = Inr r \<Longrightarrow> d = Paren \<Longrightarrow> s = show_tree (fst r) @ snd r"
  "parse_args d k s = Inr q \<Longrightarrow> d = Paren \<Longrightarrow>
     fst q \<noteq> [] \<and> s = join_args (map show_tree (fst q)) @ CHR '')'' # snd q"
proof (induction d k s and d k s arbitrary: r and q rule: from_slice_delim_parse_args.induct)
  case (1 d k s)
  show ?case
  proof (cases "next_expr s Paren")
    case (LBracket n)
    then obtain q where q: "parse_args Paren k (drop (Suc n) s) = Inr q" "r = (Tree (take n s) (fst q), snd q)"
      using 1 by (auto simp: from_slice_delim.simps [of Paren k s] split: if_splits)
    have "fst q \<noteq> [] \<and> drop (Suc n) s = join_args (map show_tree (fst q)) @ CHR '')'' # snd q"
      using 1 q(1) LBracket by (auto simp: from_slice_delim.simps [of Paren k s] split: if_splits)
    moreover have "s = take n s @ CHR ''('' # drop (Suc n) s"
      using LBracket scan_paren_LBracket [of s s 0] by simp
    ultimately show ?thesis using q(2) by (metis append.assoc append_Cons append_Nil fst_conv show_tree.simps snd_conv)
  qed (use 1 in \<open>auto simp: from_slice_delim.simps [of Paren k s] split: if_splits\<close>)
next
  case (2 d k s)
  obtain a where a: "from_slice_delim Paren (Suc k) s = Inr a" using 2 by (auto simp: parse_args.simps [of Paren k s])
  have s: "s = show_tree (fst a) @ snd a" using 2 a by blast
  have eq: "parse_args Paren k s = Inr q" using 2 by simp
  then obtain ch rest where c: "snd a = ch # rest" using a by (cases "snd a") (simp_all add: parse_args.simps [of Paren k s])
  show ?case
  proof (cases "ch = CHR '',''")
    case True
    then obtain q' where q': "parse_args Paren k rest = Inr q'" "q = (fst a # fst q', snd q')"
      using eq a c by (auto simp: parse_args.simps [of Paren k s])
    have "fst q' \<noteq> [] \<and> rest = join_args (map show_tree (fst q')) @ CHR '')'' # snd q'" using 2 a c True q'(1) by blast
    then show ?thesis using s c True q'(2) by (cases "fst q'") auto
  next
    case False
    then have "ch = CHR '')'' \<and> q = ([fst a], rest)"
      using eq a c by (auto simp: parse_args.simps [of Paren k s] split: if_splits)
    then show ?thesis using c s by simp
  qed
qed

lemma tree_from_str_show: "tree_from_str V s = Inr t \<Longrightarrow> show_tree t = s"
  using show_read(1) [of Paren 0 s] by (auto simp: tree_from_str_def from_slice_def split: if_splits)

lemma join_Cons: "xs \<noteq> [] \<Longrightarrow> join_args (x # xs) = x @ '','' @ join_args xs"
  by (cases xs) auto

lemma concat_join: "xs \<noteq> [] \<Longrightarrow> concat (map (\<lambda>x. '','' @ f x) xs) = '','' @ join_args (map f xs)"
  by (induction xs) (auto simp: join_Cons, case_tac xs, auto simp: join_Cons)

lemma show_tree_prefix: "show_tree (Tree (s @ tree_name t) (tree_args t)) = s @ show_tree t"
  by (cases t) simp

text \<open>
  What a type needs to be read back from its text: a printer that prints a well-formed tree, and
  a reader of trees that inverts it. \<open>ok\<close> says for which values, \<open>ret\<close> how success is returned.
\<close>

locale tree_text =
  fixes to_tree :: "'a \<Rightarrow> tree" and from_tree :: "tree \<Rightarrow> 'r" and ret :: "'a \<Rightarrow> 'r" and ok :: "'a \<Rightarrow> bool"
  assumes to_tree_ok: "ok x \<Longrightarrow> tree_ok (to_tree x)"
    and from_to_tree: "ok x \<Longrightarrow> from_tree (to_tree x) = ret x"
begin

lemma from_str_tree:
  assumes "ok x" "tree_depth (to_tree x) < MAX_RECURSION_DEPTH" "V (show_tree (to_tree x)) = Inr ()"
  shows "tree_from_str V (show_tree (to_tree x)) = Inr (to_tree x)" "from_tree (to_tree x) = ret x"
  using read_tree [of "to_tree x" 0 "[]"] assms from_to_tree to_tree_ok
  by (simp_all add: tree_from_str_def from_slice_def stops_def)

end

end
