(* ===== verification/Policy_Concrete.thy ===== *)
theory Policy_Concrete
  imports Text_Tree Lift Timelocks Policy_Analysis
begin

text \<open>
  Concrete policies (\<open>policy/concrete.rs\<close>) and their lift to semantic policies (\<open>policy/mod.rs\<close>):
  the type, key visits, translation, the validity and time lock checks, the test for safe and non-malleable
  compilations, text form and parser. The compiler entry points, which compute with floating point
  probabilities, are left out. Constructors carry a \<open>C\<close> to tell them from those of semantic policies.
\<close>

section \<open>The type and its traversals\<close>

datatype ('pk, 'h) concrete =
    CUnsatisfiable
  | CTrivial
  | CKey 'pk
  | CAfter u32
  | COlder u32
  | CSha256 'h
  | CHash256 'h
  | CRipemd160 'h
  | CHash160 'h
  | CAnd "('pk, 'h) concrete list"
  | COr "(nat \<times> ('pk, 'h) concrete) list"
  | CThreshold nat "('pk, 'h) concrete list"

lemma size_or_child [termination_simp]: "(n, p) \<in> set subs \<Longrightarrow> size p < Suc (size_list (size_prod (\<lambda>x. 0) size) subs)"
  by (induction subs) auto

fun concrete_for_each_key :: "('pk \<Rightarrow> 's \<Rightarrow> bool \<times> 's) \<Rightarrow> ('pk, 'h) concrete \<Rightarrow> 's \<Rightarrow> bool \<times> 's" where
  "concrete_for_each_key pred (CKey pk) = pred pk"
| "concrete_for_each_key pred (CThreshold k subs) = all_st (concrete_for_each_key pred) subs"
| "concrete_for_each_key pred (CAnd subs) = all_st (concrete_for_each_key pred) subs"
| "concrete_for_each_key pred (COr subs) = all_st (\<lambda>(_, sub). concrete_for_each_key pred sub) subs"
| "concrete_for_each_key pred _ = (\<lambda>s. (True, s))"

fun concrete_translate_pk :: "('pk, 'h, 'pk', 'h', 'err) translator \<Rightarrow> ('pk, 'h) concrete \<Rightarrow> 'err + ('pk', 'h') concrete" where
  "concrete_translate_pk t CUnsatisfiable = Inr CUnsatisfiable"
| "concrete_translate_pk t CTrivial = Inr CTrivial"
| "concrete_translate_pk t (CKey pk) = map_res CKey (tr_pk t pk)"
| "concrete_translate_pk t (CSha256 h) = map_res CSha256 (tr_sha256 t h)"
| "concrete_translate_pk t (CHash256 h) = map_res CHash256 (tr_hash256 t h)"
| "concrete_translate_pk t (CRipemd160 h) = map_res CRipemd160 (tr_ripemd160 t h)"
| "concrete_translate_pk t (CHash160 h) = map_res CHash160 (tr_hash160 t h)"
| "concrete_translate_pk t (COlder n) = Inr (COlder n)"
| "concrete_translate_pk t (CAfter n) = Inr (CAfter n)"
| "concrete_translate_pk t (CThreshold k subs) = map_res (CThreshold k) (collect_res (concrete_translate_pk t) subs)"
| "concrete_translate_pk t (CAnd subs) = map_res CAnd (collect_res (concrete_translate_pk t) subs)"
| "concrete_translate_pk t (COr subs) =
     map_res COr (collect_res (\<lambda>(prob, sub). map_res (\<lambda>sub'. (prob, sub')) (concrete_translate_pk t sub)) subs)"

fun translate_unsatisfiable_pk :: "('pk, 'h) concrete \<Rightarrow> 'pk \<Rightarrow> ('pk, 'h) concrete" where
  "translate_unsatisfiable_pk (CKey k) key = (if k = key then CUnsatisfiable else CKey k)"
| "translate_unsatisfiable_pk (CAnd subs) key = CAnd (map (\<lambda>sub. translate_unsatisfiable_pk sub key) subs)"
| "translate_unsatisfiable_pk (COr subs) key = COr (map (\<lambda>(k, sub). (k, translate_unsatisfiable_pk sub key)) subs)"
| "translate_unsatisfiable_pk (CThreshold k subs) key = CThreshold k (map (\<lambda>sub. translate_unsatisfiable_pk sub key) subs)"
| "translate_unsatisfiable_pk x key = x"

fun concrete_keys :: "('pk, 'h) concrete \<Rightarrow> 'pk list" where
  "concrete_keys (CKey pk) = [pk]"
| "concrete_keys (CThreshold k subs) = concat (map concrete_keys subs)"
| "concrete_keys (CAnd subs) = concat (map concrete_keys subs)"
| "concrete_keys (COr subs) = concat (map (\<lambda>(_, sub). concrete_keys sub) subs)"
| "concrete_keys _ = []"

fun num_tap_leaves :: "('pk, 'h) concrete \<Rightarrow> nat" where
  "num_tap_leaves (COr subs) = sum_list (map (\<lambda>(_, pol). num_tap_leaves pol) subs)"
| "num_tap_leaves (CThreshold k subs) = (if k = 1 then sum_list (map num_tap_leaves subs) else 1)"
| "num_tap_leaves _ = 1"

definition MAX_COMPILATION_LEAVES :: nat where "MAX_COMPILATION_LEAVES = 1024"

definition check_num_tapleaves :: "('pk, 'h) concrete \<Rightarrow> crate_error + unit" where
  "check_num_tapleaves p = (if num_tap_leaves p > MAX_COMPILATION_LEAVES then Inl (errstr ''Too many Tapleaves'') else Inr ())"

section \<open>Checks\<close>

definition check_duplicate_keys :: "('pk, 'h) concrete \<Rightarrow> policy_error + unit" where
  "check_duplicate_keys p =
     (let pks = concrete_keys p
      in if length pks > card (set pks) then Inl DuplicatePubKeys else Inr ())"

fun check_timelocks_helper :: "lock_lib \<Rightarrow> ('pk, 'h) concrete \<Rightarrow> timelock_info" where
  "check_timelocks_helper L (CAfter t) =
     \<lparr>csv_with_height = False, csv_with_time = False, cltv_with_height = is_block_height L t,
      cltv_with_time = is_block_time L t, contains_combination = False\<rparr>"
| "check_timelocks_helper L (COlder t) =
     \<lparr>csv_with_height = is_height_locked L t, csv_with_time = is_time_locked L t, cltv_with_height = False,
      cltv_with_time = False, contains_combination = False\<rparr>"
| "check_timelocks_helper L (CThreshold k subs) = combine_threshold k (map (check_timelocks_helper L) subs)"
| "check_timelocks_helper L (CAnd subs) = combine_threshold (length subs) (map (check_timelocks_helper L) subs)"
| "check_timelocks_helper L (COr subs) = combine_threshold 1 (map (\<lambda>(_, sub). check_timelocks_helper L sub) subs)"
| "check_timelocks_helper L _ = timelock_default"

definition check_timelocks :: "lock_lib \<Rightarrow> ('pk, 'h) concrete \<Rightarrow> policy_error + unit" where
  "check_timelocks L p =
     (if contains_combination (check_timelocks_helper L p) then Inl PolicyHeightTimelockCombination else Inr ())"

definition time_in_range :: "u32 \<Rightarrow> policy_error + unit" where
  "time_in_range n = (if n = 0 then Inl ZeroTime else if n > 2 ^ 31 then Inl TimeTooFar else Inr ())"

fun is_valid :: "lock_lib \<Rightarrow> ('pk, 'h) concrete \<Rightarrow> policy_error + unit" where
  "is_valid L p =
     bind_res (check_timelocks L p) (\<lambda>_.
     bind_res (check_duplicate_keys p) (\<lambda>_.
       case p of
         CAnd subs \<Rightarrow>
           if length subs \<noteq> 2 then Inl NonBinaryArgAnd else map_res (\<lambda>_. ()) (collect_res (is_valid L) subs)
       | COr subs \<Rightarrow>
           if length subs \<noteq> 2 then Inl NonBinaryArgOr
           else map_res (\<lambda>_. ()) (collect_res (\<lambda>(_, sub). is_valid L sub) subs)
       | CThreshold k subs \<Rightarrow>
           if k = 0 \<or> k > length subs then Inl IncorrectThresh else map_res (\<lambda>_. ()) (collect_res (is_valid L) subs)
       | CAfter n \<Rightarrow> time_in_range n
       | COlder n \<Rightarrow> time_in_range n
       | _ \<Rightarrow> Inr ()))"

declare is_valid.simps [simp del]

text \<open>
  \<open>is_safe_nonmalleable\<close>. The subtraction \<open>subs.len() - k\<close> panics (\<open>None\<close>) when \<open>k\<close> is larger than the
  number of children.
\<close>

fun is_safe_nonmalleable :: "('pk, 'h) concrete \<Rightarrow> (bool \<times> bool) option" where
  "is_safe_nonmalleable CUnsatisfiable = Some (True, True)"
| "is_safe_nonmalleable CTrivial = Some (True, True)"
| "is_safe_nonmalleable (CKey _) = Some (True, True)"
| "is_safe_nonmalleable (CThreshold k subs) =
     Option.bind (collect_opt is_safe_nonmalleable subs) (\<lambda>rs.
       let safe_count = length (filter fst rs); non_mall_count = length (filter snd rs)
       in if k > length subs then None
          else Some (safe_count \<ge> length subs - k + 1, non_mall_count = length subs \<and> safe_count \<ge> length subs - k))"
| "is_safe_nonmalleable (CAnd subs) =
     map_option (foldl (\<lambda>acc x. (fst acc \<or> fst x, snd acc \<and> snd x)) (False, True)) (collect_opt is_safe_nonmalleable subs)"
| "is_safe_nonmalleable (COr subs) =
     map_option (\<lambda>rs.
       case foldl (\<lambda>(all_safe, one_safe, all_mall) x. (all_safe \<and> fst x, one_safe \<or> fst x, all_mall \<and> snd x))
              (True, False, True) rs of
         (all_safe, one_safe, all_mall) \<Rightarrow> (all_safe, one_safe \<and> all_mall))
       (collect_opt (\<lambda>(_, sub). is_safe_nonmalleable sub) subs)"
| "is_safe_nonmalleable _ = Some (False, True)"

section \<open>Lifting\<close>

fun concrete_lift :: "lock_lib \<Rightarrow> ('pk, 'h) concrete \<Rightarrow> crate_error + ('pk, 'h) policy" where
  "concrete_lift L p =
     bind_res (map_err PolicyError (check_timelocks L p)) (\<lambda>_.
     map_res normalized
       (case p of
          CUnsatisfiable \<Rightarrow> Inr Unsatisfiable
        | CTrivial \<Rightarrow> Inr Trivial
        | CKey pk \<Rightarrow> Inr (Key pk)
        | CAfter t \<Rightarrow> Inr (policy.After t)
        | COlder t \<Rightarrow> Inr (policy.Older t)
        | CSha256 h \<Rightarrow> Inr (policy.Sha256 h)
        | CHash256 h \<Rightarrow> Inr (policy.Hash256 h)
        | CRipemd160 h \<Rightarrow> Inr (policy.Ripemd160 h)
        | CHash160 h \<Rightarrow> Inr (policy.Hash160 h)
        | CAnd subs \<Rightarrow> map_res (Threshold 2) (collect_res (concrete_lift L) subs)
        | COr subs \<Rightarrow> map_res (Threshold 1) (collect_res (\<lambda>(_, sub). concrete_lift L sub) subs)
        | CThreshold k subs \<Rightarrow> map_res (Threshold k) (collect_res (concrete_lift L) subs)))"

declare concrete_lift.simps [simp del]

section \<open>Text\<close>

fun concrete_show :: "('pk, 'h) text_env \<Rightarrow> ('pk, 'h) concrete \<Rightarrow> string" where
  "concrete_show T CUnsatisfiable = ''UNSATISFIABLE''"
| "concrete_show T CTrivial = ''TRIVIAL''"
| "concrete_show T (CKey pk) = ''pk('' @ pk_show T pk @ '')''"
| "concrete_show T (CAfter n) = ''after('' @ lock_show T n @ '')''"
| "concrete_show T (COlder n) = ''older('' @ sequence_show T n @ '')''"
| "concrete_show T (CSha256 h) = ''sha256('' @ sha256_show T h @ '')''"
| "concrete_show T (CHash256 h) = ''hash256('' @ hash256_show T h @ '')''"
| "concrete_show T (CRipemd160 h) = ''ripemd160('' @ ripemd160_show T h @ '')''"
| "concrete_show T (CHash160 h) = ''hash160('' @ hash160_show T h @ '')''"
| "concrete_show T (CAnd subs) = ''and('' @ join_args (map (concrete_show T) subs) @ '')''"
| "concrete_show T (COr subs) =
     ''or('' @ join_args (map (\<lambda>(prob, sub). show_nat prob @ ''@'' @ concrete_show T sub) subs) @ '')''"
| "concrete_show T (CThreshold k subs) =
     ''thresh('' @ show_nat k @ concat (map (\<lambda>sub. '','' @ concrete_show T sub) subs) @ '')''"

definition split_prob :: "bool \<Rightarrow> string \<Rightarrow> crate_error + nat \<times> string" where
  "split_prob allow_prob name =
     (case split_on CHR ''@'' name of
        [] \<Rightarrow> Inr (1, [])
      | [frag] \<Rightarrow> Inr (1, frag)
      | [prob, frag] \<Rightarrow>
          if \<not> allow_prob then Inl (AtOutsideOr name)
          else map_res (\<lambda>n. (unat n, frag)) (expr_parse_num u32_from_str prob)
      | _ \<Rightarrow> Inl (MultiColon name))"

definition parse_time :: "tree \<Rightarrow> crate_error + u32" where
  "parse_time arg =
     bind_res (terminal_num arg) (\<lambda>num.
       if num > 2 ^ 31 then Inl (PolicyError TimeTooFar) else if num = 0 then Inl (PolicyError ZeroTime) else Inr num)"

fun from_tree_prob :: "('pk, 'h) text_env \<Rightarrow> bool \<Rightarrow> tree \<Rightarrow> crate_error + nat \<times> ('pk, 'h) concrete" where
  "from_tree_prob T allow_prob (Tree name args) =
     bind_res (split_prob allow_prob name) (\<lambda>(frag_prob, frag_name).
     map_res (\<lambda>res. (frag_prob, res))
       (if frag_name = ''UNSATISFIABLE'' \<and> length args = 0 then Inr CUnsatisfiable
        else if frag_name = ''TRIVIAL'' \<and> length args = 0 then Inr CTrivial
        else if frag_name = ''pk'' \<and> length args = 1 then map_res CKey (parse_terminal id (args ! 0) (pk_from_str T))
        else if frag_name = ''after'' \<and> length args = 1 then map_res CAfter (parse_time (args ! 0))
        else if frag_name = ''older'' \<and> length args = 1 then map_res COlder (parse_time (args ! 0))
        else if frag_name = ''sha256'' \<and> length args = 1 then map_res CSha256 (parse_terminal id (args ! 0) (sha256_from_str T))
        else if frag_name = ''hash256'' \<and> length args = 1 then map_res CHash256 (parse_terminal id (args ! 0) (hash256_from_str T))
        else if frag_name = ''ripemd160'' \<and> length args = 1 then map_res CRipemd160 (parse_terminal id (args ! 0) (ripemd160_from_str T))
        else if frag_name = ''hash160'' \<and> length args = 1 then map_res CHash160 (parse_terminal id (args ! 0) (hash160_from_str T))
        else if frag_name = ''and'' then
          (if length args \<noteq> 2 then Inl (PolicyError NonBinaryArgAnd)
           else map_res CAnd (collect_res (\<lambda>arg. map_res snd (from_tree_prob T False arg)) args))
        else if frag_name = ''or'' then
          (if length args \<noteq> 2 then Inl (PolicyError NonBinaryArgOr)
           else map_res COr (collect_res (from_tree_prob T True) args))
        else if frag_name = ''thresh'' then
          (case args of
             [] \<Rightarrow> Inl (PolicyError IncorrectThresh)
           | a # rest \<Rightarrow>
               if tree_args a \<noteq> [] then Inl (PolicyError IncorrectThresh)
               else bind_res (expr_parse_num u32_from_str (tree_name a)) (\<lambda>thr.
                 if unat thr \<ge> length args \<or> thr = 0 then Inl (PolicyError IncorrectThresh)
                 else map_res (CThreshold (unat thr)) (collect_res (\<lambda>arg. map_res snd (from_tree_prob T False arg)) rest)))
        else Inl (errstr name)))"

declare from_tree_prob.simps [simp del]

definition concrete_from_tree :: "('pk, 'h) text_env \<Rightarrow> tree \<Rightarrow> crate_error + ('pk, 'h) concrete" where
  "concrete_from_tree T t = map_res snd (from_tree_prob T False t)"

definition concrete_from_str :: "(string \<Rightarrow> crate_error + unit) \<Rightarrow> ('pk, 'h) text_env \<Rightarrow> lock_lib \<Rightarrow> string \<Rightarrow>
    crate_error + ('pk, 'h) concrete" where
  "concrete_from_str V T L s =
     bind_res (V s) (\<lambda>_.
     bind_res (tree_from_str V s) (\<lambda>t.
     bind_res (concrete_from_tree T t) (\<lambda>policy.
     bind_res (map_err PolicyError (check_timelocks L policy)) (\<lambda>_. Inr policy))))"

section \<open>Lemmas on the checks\<close>

lemma concrete_for_each_key_keys: "concrete_for_each_key pred p = all_st pred (concrete_keys p)"
proof (induction pred p rule: concrete_for_each_key.induct)
  case (4 pred subs)
  then show ?case by (auto simp: split_beta intro!: all_st_concat)
qed (auto intro!: all_st_concat)

fun concrete_eval :: "(('pk, 'h) policy \<Rightarrow> bool) \<Rightarrow> ('pk, 'h) concrete \<Rightarrow> bool" where
  "concrete_eval av CUnsatisfiable = False"
| "concrete_eval av CTrivial = True"
| "concrete_eval av (CKey pk) = av (Key pk)"
| "concrete_eval av (CAfter t) = av (policy.After t)"
| "concrete_eval av (COlder t) = av (policy.Older t)"
| "concrete_eval av (CSha256 h) = av (policy.Sha256 h)"
| "concrete_eval av (CHash256 h) = av (policy.Hash256 h)"
| "concrete_eval av (CRipemd160 h) = av (policy.Ripemd160 h)"
| "concrete_eval av (CHash160 h) = av (policy.Hash160 h)"
| "concrete_eval av (CAnd subs) = list_all (concrete_eval av) subs"
| "concrete_eval av (COr subs) = list_ex (\<lambda>(_, sub). concrete_eval av sub) subs"
| "concrete_eval av (CThreshold k subs) \<longleftrightarrow> k \<le> length (filter (concrete_eval av) subs)"

lemma is_valid_Inr:
  "is_valid L p = Inr () \<longleftrightarrow>
     check_timelocks L p = Inr () \<and> distinct (concrete_keys p) \<and>
     (case p of
        CAnd subs \<Rightarrow> length subs = 2 \<and> (\<forall>s\<in>set subs. is_valid L s = Inr ())
      | COr subs \<Rightarrow> length subs = 2 \<and> (\<forall>s\<in>set subs. is_valid L (snd s) = Inr ())
      | CThreshold k subs \<Rightarrow> 0 < k \<and> k \<le> length subs \<and> (\<forall>s\<in>set subs. is_valid L s = Inr ())
      | CAfter n \<Rightarrow> 0 < n \<and> n \<le> 2 ^ 31
      | COlder n \<Rightarrow> 0 < n \<and> n \<le> 2 ^ 31
      | _ \<Rightarrow> True)"
proof -
  have dup: "check_duplicate_keys p = Inr () \<longleftrightarrow> distinct (concrete_keys p)"
    by (auto simp: check_duplicate_keys_def Let_def distinct_card not_less intro: card_distinct le_antisym card_length)
  have coll: "(\<exists>ys. collect_res f xs = Inr ys) \<longleftrightarrow> (\<forall>x\<in>set xs. f x = Inr ())" for f :: "'x \<Rightarrow> policy_error + unit" and xs
    by (induction xs) auto
  show ?thesis
    by (subst is_valid.simps)
      (auto simp: dup coll time_in_range_def word_gt_0 not_less split_beta split: concrete.splits if_splits)
qed

lemma collect_res_ex:
  "\<forall>x\<in>set xs. \<exists>y. f x = Inr y \<and> Q x y \<Longrightarrow> \<exists>ys. collect_res f xs = Inr ys \<and> list_all2 Q xs ys"
  by (induction xs) (auto 0 4)

lemma filter_length_all2:
  "list_all2 (\<lambda>x y. P x = P' y) xs ys \<Longrightarrow> length (filter P xs) = length (filter P' ys)"
  by (induction rule: list_all2_induct) auto

lemma lift_children:
  assumes "\<forall>x\<in>set xs. \<exists>s. f x = Inr s \<and> (\<forall>av. policy_eval av s = ev av x)"
  shows "\<exists>ss. collect_res f xs = Inr ss \<and> length ss = length xs
    \<and> (\<forall>av k. policy_eval av (normalized (Threshold k ss)) \<longleftrightarrow> k \<le> length (filter (ev av) xs))"
proof -
  obtain ss where ss: "collect_res f xs = Inr ss" "list_all2 (\<lambda>x s. \<forall>av. policy_eval av s = ev av x) xs ss"
    using collect_res_ex [OF assms] by blast
  have "length (filter (ev av) xs) = length (filter (policy_eval av) ss)" for av
    by (rule filter_length_all2, rule list_all2_mono [OF ss(2)]) simp
  then show ?thesis using ss(1) collect_res_length [OF ss(1)] by (simp add: normalized_eval del: normalized.simps)
qed

lemma valid_lift:
  "is_valid L p = Inr () \<Longrightarrow> \<exists>s. concrete_lift L p = Inr s \<and> (\<forall>av. policy_eval av s = concrete_eval av p)"
proof (induction p)
  case (CAnd subs)
  have v: "check_timelocks L (CAnd subs) = Inr ()" "length subs = 2" "\<forall>s\<in>set subs. is_valid L s = Inr ()"
    using CAnd.prems is_valid_Inr [of L "CAnd subs"] by auto
  obtain ss where "collect_res (concrete_lift L) subs = Inr ss"
    "\<And>av k. policy_eval av (normalized (Threshold k ss)) \<longleftrightarrow> k \<le> length (filter (concrete_eval av) subs)"
    using lift_children [of subs "concrete_lift L" concrete_eval] CAnd.IH v(3) by blast
  moreover obtain a b where "subs = [a, b]" using v(2) by (auto simp: numeral_2_eq_2 length_Suc_conv)
  then have "2 \<le> length (filter (concrete_eval av) subs) \<longleftrightarrow> list_all (concrete_eval av) subs" for av by simp
  ultimately show ?case using v(1) by (simp add: concrete_lift.simps [of L "CAnd subs"] map_res_def del: normalized.simps)
next
  case (COr subs)
  have v: "check_timelocks L (COr subs) = Inr ()" "\<forall>s\<in>set subs. is_valid L (snd s) = Inr ()"
    using COr.prems is_valid_Inr [of L "COr subs"] by auto
  have "\<forall>x\<in>set subs. \<exists>s. concrete_lift L (snd x) = Inr s \<and> (\<forall>av. policy_eval av s = concrete_eval av (snd x))"
    using COr.IH v(2) by (metis prod.collapse snds.intros)
  then obtain ss where "collect_res (\<lambda>x. concrete_lift L (snd x)) subs = Inr ss"
    "\<And>av k. policy_eval av (normalized (Threshold k ss)) \<longleftrightarrow> k \<le> length (filter (\<lambda>x. concrete_eval av (snd x)) subs)"
    using lift_children [of subs "\<lambda>x. concrete_lift L (snd x)" "\<lambda>av x. concrete_eval av (snd x)"] by blast
  then show ?case using v(1)
    by (simp add: concrete_lift.simps [of L "COr subs"] map_res_def case_prod_unfold list_ex_iff Suc_le_eq filter_empty_conv del: normalized.simps)
next
  case (CThreshold k subs)
  have v: "check_timelocks L (CThreshold k subs) = Inr ()" "\<forall>s\<in>set subs. is_valid L s = Inr ()"
    using CThreshold.prems is_valid_Inr [of L "CThreshold k subs"] by auto
  obtain ss where "collect_res (concrete_lift L) subs = Inr ss"
    "\<And>av k. policy_eval av (normalized (Threshold k ss)) \<longleftrightarrow> k \<le> length (filter (concrete_eval av) subs)"
    using lift_children [of subs "concrete_lift L" concrete_eval] CThreshold.IH v(2) by blast
  then show ?case using v(1) by (simp add: concrete_lift.simps [of L "CThreshold k subs"] map_res_def del: normalized.simps)
qed (auto simp: concrete_lift.simps check_timelocks_def timelock_default_def)

section \<open>Safety\<close>

text \<open>
  What \<open>is_safe_nonmalleable\<close> takes for a policy: it treats \<open>TRIVIAL\<close> as it treats \<open>UNSATISFIABLE\<close>.
\<close>

fun trivial_unmet :: "('pk, 'h) concrete \<Rightarrow> ('pk, 'h) concrete" where
  "trivial_unmet CTrivial = CUnsatisfiable"
| "trivial_unmet (CAnd subs) = CAnd (map trivial_unmet subs)"
| "trivial_unmet (COr subs) = COr (map (\<lambda>(prob, sub). (prob, trivial_unmet sub)) subs)"
| "trivial_unmet (CThreshold k subs) = CThreshold k (map trivial_unmet subs)"
| "trivial_unmet p = p"

fun no_trivial :: "('pk, 'h) concrete \<Rightarrow> bool" where
  "no_trivial CTrivial = False"
| "no_trivial (CAnd subs) = list_all no_trivial subs"
| "no_trivial (COr subs) = list_all (\<lambda>(_, sub). no_trivial sub) subs"
| "no_trivial (CThreshold k subs) = list_all no_trivial subs"
| "no_trivial _ = True"

definition keyless :: "('pk, 'h) policy \<Rightarrow> bool" where
  "keyless c = (case c of Key _ \<Rightarrow> False | _ \<Rightarrow> True)"

lemma foldl_and: "foldl (\<lambda>acc x. (fst acc \<or> fst x, snd acc \<and> snd x)) (a, b) rs = (a \<or> list_ex fst rs, b \<and> list_all snd rs)"
  by (induction rs arbitrary: a b) auto

lemma foldl_or:
  "foldl (\<lambda>(all_safe, one_safe, all_mall) x. (all_safe \<and> fst x, one_safe \<or> fst x, all_mall \<and> snd x)) (a, b, c) rs
     = (a \<and> list_all fst rs, b \<or> list_ex fst rs, c \<and> list_all snd rs)"
  by (induction rs arbitrary: a b c) auto

lemma safe_children:
  assumes "collect_opt f xs = Some rs" "\<And>x s m. x \<in> set xs \<Longrightarrow> f x = Some (s, m) \<Longrightarrow> s = P x"
  shows "map fst rs = map P xs"
  using assms by (induction xs arbitrary: rs) (auto simp: bind_eq_Some_conv split: option.splits)

lemma no_trivial_unmet: "no_trivial p \<Longrightarrow> trivial_unmet p = p"
proof (induction p)
  case (COr subs)
  have "trivial_unmet (snd x) = snd x" if "x \<in> set subs" for x
    using COr.IH [of x "snd x"] COr.prems that by (cases x) (auto simp: list_all_iff)
  then show ?case by (auto intro!: map_idI)
qed (auto simp: list_all_iff intro: map_idI)

lemma safe_exact:
  "is_safe_nonmalleable p = Some (s, m) \<Longrightarrow> s \<longleftrightarrow> \<not> concrete_eval keyless (trivial_unmet p)"
proof (induction p arbitrary: s m)
  case (CAnd subs)
  then obtain rs where rs: "collect_opt is_safe_nonmalleable subs = Some rs" "s = list_ex fst rs" by (auto simp: foldl_and)
  have "map fst rs = map (\<lambda>p. \<not> concrete_eval keyless (trivial_unmet p)) subs"
    using CAnd by (intro safe_children [OF rs(1)]) auto
  then have "list_ex id (map fst rs) = list_ex id (map (\<lambda>p. \<not> concrete_eval keyless (trivial_unmet p)) subs)" by simp
  then show ?case using rs(2) by (auto simp: list_ex_iff list_all_iff)
next
  case (COr subs)
  then obtain rs where rs: "collect_opt (\<lambda>(_, sub). is_safe_nonmalleable sub) subs = Some rs" "s = list_all fst rs"
    by (auto simp: foldl_or)
  have "s = (\<not> concrete_eval keyless (trivial_unmet (snd x)))" if "x \<in> set subs" "is_safe_nonmalleable (snd x) = Some (s, m)" for x s m
    using COr.IH [of x "snd x"] that by (cases x) auto
  then have "map fst rs = map (\<lambda>x. \<not> concrete_eval keyless (trivial_unmet (snd x))) subs"
    by (intro safe_children [OF rs(1)]) (auto simp: split_beta)
  then have "list_all id (map fst rs) = list_all id (map (\<lambda>x. \<not> concrete_eval keyless (trivial_unmet (snd x))) subs)" by simp
  then show ?case using rs(2) by (auto simp: list_ex_iff list_all_iff split_beta)
next
  case (CThreshold k subs)
  then obtain rs where rs: "collect_opt is_safe_nonmalleable subs = Some rs" "k \<le> length subs"
    "s \<longleftrightarrow> length (filter fst rs) \<ge> length subs - k + 1"
    by (auto simp: bind_eq_Some_conv Let_def split: if_splits)
  have "map fst rs = map (\<lambda>p. \<not> concrete_eval keyless (trivial_unmet p)) subs"
    using CThreshold by (intro safe_children [OF rs(1)]) auto
  then have "length (filter id (map fst rs)) = length (filter id (map (\<lambda>p. \<not> concrete_eval keyless (trivial_unmet p)) subs))" by simp
  then have "length (filter fst rs) = length (filter (\<lambda>p. \<not> concrete_eval keyless (trivial_unmet p)) subs)"
    by (simp add: filter_map o_def)
  then show ?case
    using rs(2,3) sum_length_filter_compl [of "\<lambda>p. concrete_eval keyless (trivial_unmet p)" subs] by (auto simp: filter_map o_def)
qed (auto simp: keyless_def)

lemma collect_opt_total: "\<forall>x\<in>set xs. \<exists>y. f x = Some y \<Longrightarrow> \<exists>ys. collect_opt f xs = Some ys"
  using collect_opt_ex [of xs f "\<lambda>_ _. True"] by blast

lemma valid_safe_total: "is_valid L p = Inr () \<Longrightarrow> \<exists>r. is_safe_nonmalleable p = Some r"
proof (induction p)
  case (CAnd subs)
  then have "\<exists>rs. collect_opt is_safe_nonmalleable subs = Some rs"
    using is_valid_Inr [of L "CAnd subs"] collect_opt_total [of subs is_safe_nonmalleable] by auto
  then show ?case by auto
next
  case (COr subs)
  have "\<exists>r. is_safe_nonmalleable (snd x) = Some r" if "x \<in> set subs" for x
    using COr is_valid_Inr [of L "COr subs"] that by (cases x) (fastforce simp: snds.simps)
  then have "\<exists>rs. collect_opt (\<lambda>(_, sub). is_safe_nonmalleable sub) subs = Some rs"
    using collect_opt_total [of subs "\<lambda>(_, sub). is_safe_nonmalleable sub"] by (auto simp: split_beta)
  then show ?case by auto
next
  case (CThreshold k subs)
  then have "\<exists>rs. collect_opt is_safe_nonmalleable subs = Some rs"
    using is_valid_Inr [of L "CThreshold k subs"] collect_opt_total [of subs is_safe_nonmalleable] by auto
  then show ?case using CThreshold.prems is_valid_Inr [of L "CThreshold k subs"] by (auto simp: Let_def)
qed auto

section \<open>Time locks\<close>

text \<open>
  \<open>spends p S\<close>: the leaves in \<open>S\<close> together satisfy the policy, with exactly \<open>k\<close> children of each threshold.
\<close>

inductive spends :: "('pk, 'h) concrete \<Rightarrow> ('pk, 'h) concrete set \<Rightarrow> bool" where
  trivial: "spends CTrivial {}"
| leaf: "p \<noteq> CUnsatisfiable \<Longrightarrow> p \<noteq> CTrivial \<Longrightarrow> (\<And>subs. p \<noteq> CAnd subs) \<Longrightarrow> (\<And>subs. p \<noteq> COr subs) \<Longrightarrow>
    (\<And>k subs. p \<noteq> CThreshold k subs) \<Longrightarrow> spends p {p}"
| conj: "list_all2 spends subs Ss \<Longrightarrow> spends (CAnd subs) (\<Union> (set Ss))"
| disj: "(n, sub) \<in> set subs \<Longrightarrow> spends sub S \<Longrightarrow> spends (COr subs) S"
| thresh: "subseq chosen subs \<Longrightarrow> length chosen = k \<Longrightarrow> list_all2 spends chosen Ss \<Longrightarrow> spends (CThreshold k subs) (\<Union> (set Ss))"

definition leaf_locks :: "lock_lib \<Rightarrow> ('pk, 'h) concrete set \<Rightarrow> timelock_info \<Rightarrow> bool" where
  "leaf_locks L S i \<longleftrightarrow> (\<forall>p\<in>S. let j = check_timelocks_helper L p in
     (csv_with_height j \<longrightarrow> csv_with_height i) \<and> (csv_with_time j \<longrightarrow> csv_with_time i)
     \<and> (cltv_with_height j \<longrightarrow> cltv_with_height i) \<and> (cltv_with_time j \<longrightarrow> cltv_with_time i))"

definition mixes :: "lock_lib \<Rightarrow> ('pk, 'h) concrete set \<Rightarrow> bool" where
  "mixes L S \<longleftrightarrow> (\<exists>p\<in>S. \<exists>q\<in>S. height_and_time (check_timelocks_helper L p) (check_timelocks_helper L q))"

lemma subseq_subset: "subseq xs ys \<Longrightarrow> set xs \<subseteq> set ys"
  by (induction rule: list_emb.induct) auto

lemma subseq_positions:
  "subseq xs ys \<Longrightarrow> i < j \<Longrightarrow> j < length xs \<Longrightarrow> \<exists>i' j'. i' < j' \<and> j' < length ys \<and> ys ! i' = xs ! i \<and> ys ! j' = xs ! j"
proof (induction arbitrary: i j rule: list_emb.induct)
  case (list_emb_Cons xs ys y)
  then obtain i' j' where "i' < j'" "j' < length ys" "ys ! i' = xs ! i" "ys ! j' = xs ! j" by blast
  then show ?case by (intro exI [of _ "Suc i'"] exI [of _ "Suc j'"]) simp
next
  case (list_emb_Cons2 x y xs ys)
  show ?case
  proof (cases i)
    case 0
    have "xs ! (j - 1) \<in> set ys"
      using list_emb_Cons2.prems 0 subseq_subset [OF list_emb_Cons2.hyps(2)] nth_mem [of "j - 1" xs] by auto
    then obtain j' where "j' < length ys" "ys ! j' = xs ! (j - 1)" by (auto simp: in_set_conv_nth)
    then show ?thesis using 0 list_emb_Cons2 by (intro exI [of _ 0] exI [of _ "Suc j'"]) auto
  next
    case (Suc i0)
    moreover obtain j0 where "j = Suc j0" using list_emb_Cons2.prems(1) by (cases j) auto
    ultimately obtain i' j' where "i' < j'" "j' < length ys" "ys ! i' = xs ! i0" "ys ! j' = xs ! j0"
      using list_emb_Cons2.IH [of i0 j0] list_emb_Cons2.prems by auto
    then show ?thesis using Suc \<open>j = Suc j0\<close> list_emb_Cons2.hyps by (intro exI [of _ "Suc i'"] exI [of _ "Suc j'"]) auto
  qed
qed simp

lemma height_and_time_mono:
  assumes "leaf_locks L S i" "leaf_locks L T j" "p \<in> S" "q \<in> T"
    "height_and_time (check_timelocks_helper L p) (check_timelocks_helper L q)"
  shows "height_and_time i j"
  using assms by (auto simp: leaf_locks_def height_and_time_def Let_def)

text \<open>Satisfactions of several children do not mix locks when the combined information does not.\<close>

lemma spends_combine:
  assumes all: "list_all2 (\<lambda>c S. leaf_locks L S (check_timelocks_helper L c) \<and> \<not> mixes L S) chosen Ss"
    and sub: "subseq chosen subs" "length chosen \<le> k"
    and ok: "\<not> contains_combination (combine_threshold k (map (check_timelocks_helper L) subs))"
  shows "leaf_locks L (\<Union> (set Ss)) (combine_threshold k (map (check_timelocks_helper L) subs)) \<and> \<not> mixes L (\<Union> (set Ss))"
proof
  let ?h = "check_timelocks_helper L"
  have in_subs: "set chosen \<subseteq> set subs" using sub(1) by (rule subseq_subset)
  show "leaf_locks L (\<Union> (set Ss)) (combine_threshold k (map ?h subs))"
    using all in_subs by (fastforce simp: leaf_locks_def combine_threshold_eq Let_def list_all2_conv_all_nth in_set_conv_nth)
  show "\<not> mixes L (\<Union> (set Ss))"
  proof
    assume "mixes L (\<Union> (set Ss))"
    then obtain i j p q where ij: "i < length Ss" "j < length Ss" "p \<in> Ss ! i" "q \<in> Ss ! j" "height_and_time (?h p) (?h q)"
      by (auto simp: mixes_def in_set_conv_nth)
    have len: "length chosen = length Ss" using all by (rule list_all2_lengthD)
    have loc: "leaf_locks L (Ss ! n) (?h (chosen ! n))" "\<not> mixes L (Ss ! n)" if "n < length Ss" for n
      using all that by (auto simp: list_all2_conv_all_nth)
    have "i \<noteq> j" using ij loc(2) by (auto simp: mixes_def)
    have hij: "height_and_time (?h (chosen ! i)) (?h (chosen ! j))" by (rule height_and_time_mono [OF loc(1) loc(1)]) (use ij in auto)
    have "\<exists>i' j'. i' < j' \<and> j' < length subs \<and> height_and_time (?h (subs ! i')) (?h (subs ! j'))"
    proof (cases "i < j")
      case True
      then show ?thesis using subseq_positions [OF sub(1), of i j] hij ij len by metis
    next
      case False
      then show ?thesis using subseq_positions [OF sub(1), of j i] hij ij len \<open>i \<noteq> j\<close> height_and_time_sym by (metis linorder_neqE_nat)
    qed
    moreover have "k > 1" using \<open>i \<noteq> j\<close> ij(1,2) len sub(2) by linarith
    ultimately show False using ok by (fastforce simp: combine_threshold_eq)
  qed
qed

definition one_unit :: "lock_lib \<Rightarrow> bool" where
  "one_unit L \<longleftrightarrow> (\<forall>t. \<not> (is_block_height L t \<and> is_block_time L t) \<and> \<not> (is_height_locked L t \<and> is_time_locked L t))"

lemma combination_children:
  assumes "\<not> contains_combination (combine_threshold k (map (check_timelocks_helper L) subs))"
    and "list_all2 (\<lambda>c S. spends c S \<and> (\<not> contains_combination (check_timelocks_helper L c) \<longrightarrow> Q c S)) chosen Ss"
    and "subseq chosen subs"
  shows "list_all2 Q chosen Ss"
proof -
  have "\<not> contains_combination (check_timelocks_helper L c)" if "c \<in> set chosen" for c
    using assms(1) that subseq_subset [OF assms(3)] by (auto simp: combine_threshold_eq)
  then show ?thesis using assms(2) by (auto simp: list_all2_conv_all_nth)
qed

lemma timelocks_sound:
  assumes "one_unit L"
  shows "spends p S \<Longrightarrow> \<not> contains_combination (check_timelocks_helper L p) \<longrightarrow>
    leaf_locks L S (check_timelocks_helper L p) \<and> \<not> mixes L S"
proof (induction rule: spends.induct)
  case (leaf p)
  have "\<not> height_and_time (check_timelocks_helper L p) (check_timelocks_helper L p)"
    using assms leaf by (cases p) (auto simp: height_and_time_def one_unit_def timelock_default_def)
  then show ?case by (auto simp: leaf_locks_def mixes_def Let_def)
next
  case (conj subs Ss)
  show ?case
  proof
    assume ok: "\<not> contains_combination (check_timelocks_helper L (CAnd subs))"
    have "list_all2 (\<lambda>c S. leaf_locks L S (check_timelocks_helper L c) \<and> \<not> mixes L S) subs Ss"
      using combination_children [OF ok [simplified] conj.IH] by simp
    then show "leaf_locks L (\<Union> (set Ss)) (check_timelocks_helper L (CAnd subs)) \<and> \<not> mixes L (\<Union> (set Ss))"
      using spends_combine [of L subs Ss subs "length subs"] ok by simp
  qed
next
  case (disj n sub subs S)
  show ?case
  proof
    assume ok: "\<not> contains_combination (check_timelocks_helper L (COr subs))"
    then have "\<not> contains_combination (check_timelocks_helper L sub)"
      using disj.hyps(1) by (auto simp: combine_threshold_eq)
    then have "leaf_locks L S (check_timelocks_helper L sub) \<and> \<not> mixes L S" using disj.IH by blast
    moreover have "leaf_locks L S (check_timelocks_helper L (COr subs))" if "leaf_locks L S (check_timelocks_helper L sub)"
      using that disj.hyps(1) unfolding leaf_locks_def check_timelocks_helper.simps combine_threshold_eq Let_def
      by (auto intro!: bexI [of _ "(n, sub)"])
    ultimately show "leaf_locks L S (check_timelocks_helper L (COr subs)) \<and> \<not> mixes L S" by blast
  qed
next
  case (thresh chosen subs k Ss)
  show ?case
  proof
    assume ok: "\<not> contains_combination (check_timelocks_helper L (CThreshold k subs))"
    have "list_all2 (\<lambda>c S. leaf_locks L S (check_timelocks_helper L c) \<and> \<not> mixes L S) chosen Ss"
      using combination_children [OF ok [simplified] thresh.IH thresh.hyps(1)] .
    then show "leaf_locks L (\<Union> (set Ss)) (check_timelocks_helper L (CThreshold k subs)) \<and> \<not> mixes L (\<Union> (set Ss))"
      using spends_combine [of L chosen Ss subs k] ok thresh.hyps by simp
  qed
qed (simp add: leaf_locks_def mixes_def)

section \<open>Reading back what was printed\<close>

fun concrete_to_tree :: "('pk, 'h) text_env \<Rightarrow> ('pk, 'h) concrete \<Rightarrow> tree" where
  "concrete_to_tree T CUnsatisfiable = Tree ''UNSATISFIABLE'' []"
| "concrete_to_tree T CTrivial = Tree ''TRIVIAL'' []"
| "concrete_to_tree T (CKey pk) = Tree ''pk'' [Tree (pk_show T pk) []]"
| "concrete_to_tree T (CAfter n) = Tree ''after'' [Tree (lock_show T n) []]"
| "concrete_to_tree T (COlder n) = Tree ''older'' [Tree (sequence_show T n) []]"
| "concrete_to_tree T (CSha256 h) = Tree ''sha256'' [Tree (sha256_show T h) []]"
| "concrete_to_tree T (CHash256 h) = Tree ''hash256'' [Tree (hash256_show T h) []]"
| "concrete_to_tree T (CRipemd160 h) = Tree ''ripemd160'' [Tree (ripemd160_show T h) []]"
| "concrete_to_tree T (CHash160 h) = Tree ''hash160'' [Tree (hash160_show T h) []]"
| "concrete_to_tree T (CAnd subs) = Tree ''and'' (map (concrete_to_tree T) subs)"
| "concrete_to_tree T (COr subs) =
     Tree ''or'' (map (\<lambda>(prob, sub). Tree (show_nat prob @ ''@'' @ tree_name (concrete_to_tree T sub)) (tree_args (concrete_to_tree T sub))) subs)"
| "concrete_to_tree T (CThreshold k subs) = Tree ''thresh'' (Tree (show_nat k) [] # map (concrete_to_tree T) subs)"

text \<open>Policies that the parser accepts: binary connectives, thresholds and times in range.\<close>

fun parseable :: "('pk, 'h) text_env \<Rightarrow> ('pk, 'h) concrete \<Rightarrow> bool" where
  "parseable T (CKey pk) = readable (pk_show T) (pk_from_str T) pk"
| "parseable T (CAfter n) = (0 < n \<and> n \<le> 2 ^ 31)"
| "parseable T (COlder n) = (0 < n \<and> n \<le> 2 ^ 31)"
| "parseable T (CSha256 h) = readable (sha256_show T) (sha256_from_str T) h"
| "parseable T (CHash256 h) = readable (hash256_show T) (hash256_from_str T) h"
| "parseable T (CRipemd160 h) = readable (ripemd160_show T) (ripemd160_from_str T) h"
| "parseable T (CHash160 h) = readable (hash160_show T) (hash160_from_str T) h"
| "parseable T (CAnd subs) = (length subs = 2 \<and> list_all (parseable T) subs)"
| "parseable T (COr subs) = (length subs = 2 \<and> list_all (\<lambda>(prob, sub). prob < 2 ^ 32 \<and> parseable T sub) subs)"
| "parseable T (CThreshold k subs) = (0 < k \<and> k \<le> length subs \<and> k < 2 ^ 32 \<and> list_all (parseable T) subs)"
| "parseable T _ = True"

lemma concrete_show_tree: "parseable T p \<Longrightarrow> show_tree (concrete_to_tree T p) = concrete_show T p"
proof (induction p)
  case (CAnd subs)
  then have "join_args (map (show_tree \<circ> concrete_to_tree T) subs) = join_args (map (concrete_show T) subs)"
    by (intro arg_cong [where f = join_args]) (auto simp: list_all_iff)
  then show ?case using CAnd.prems by auto
next
  case (COr subs)
  have "show_tree (case x of (prob, sub) \<Rightarrow> Tree (show_nat prob @ ''@'' @ tree_name (concrete_to_tree T sub)) (tree_args (concrete_to_tree T sub)))
      = (case x of (prob, sub) \<Rightarrow> show_nat prob @ ''@'' @ concrete_show T sub)" if "x \<in> set subs" for x
  proof (cases x)
    case (Pair n q)
    then have "show_tree (concrete_to_tree T q) = concrete_show T q" using COr that by (fastforce simp: list_all_iff)
    then show ?thesis using Pair show_tree_prefix [of "show_nat n @ ''@''" "concrete_to_tree T q"] by simp
  qed
  then have "join_args (map (show_tree \<circ> (\<lambda>(prob, sub). Tree (show_nat prob @ ''@'' @ tree_name (concrete_to_tree T sub)) (tree_args (concrete_to_tree T sub)))) subs)
      = join_args (map (\<lambda>(prob, sub). show_nat prob @ ''@'' @ concrete_show T sub) subs)"
    by (intro arg_cong [where f = join_args]) auto
  then show ?case using COr.prems by auto
next
  case (CThreshold k subs)
  then have "join_args (map (show_tree \<circ> concrete_to_tree T) subs) = join_args (map (concrete_show T) subs)"
    by (intro arg_cong [where f = join_args]) (auto simp: list_all_iff)
  moreover have "subs \<noteq> []" using CThreshold.prems by auto
  ultimately show ?case using concat_join [of subs "concrete_show T"] by (simp add: join_Cons)
qed auto

lemma concrete_name_free: "CHR ''@'' \<notin> set (tree_name (concrete_to_tree T p))"
  by (cases p) auto

lemma concrete_name_plain: "plain (tree_name (concrete_to_tree T p))" "tree_name (concrete_to_tree T p) \<noteq> ''musig''"
  by (cases p; simp)+

lemma concrete_tree_ok: "locks_decimal T \<Longrightarrow> parseable T p \<Longrightarrow> tree_ok (concrete_to_tree T p)"
proof (induction p)
  case (COr subs)
  have "tree_ok (Tree (show_nat n @ ''@'' @ tree_name (concrete_to_tree T q)) (tree_args (concrete_to_tree T q)))" if "(n, q) \<in> set subs" for n q
  proof -
    have "tree_ok (concrete_to_tree T q)" using COr that by (fastforce simp: list_all_iff)
    moreover have "show_nat n @ CHR ''@'' # s \<noteq> ''musig''" for s
    proof
      assume "show_nat n @ CHR ''@'' # s = ''musig''"
      then have "CHR ''@'' \<in> set ''musig''" by (metis in_set_conv_decomp)
      then show False by simp
    qed
    ultimately show ?thesis using concrete_name_plain [of T q] by (cases "concrete_to_tree T q") auto
  qed
  then show ?case by (auto simp: list_all_iff)
qed (auto simp: list_all_iff readable_def locks_decimal_def)

lemma split_prob_name: "split_prob b (tree_name (concrete_to_tree T p)) = Inr (1, tree_name (concrete_to_tree T p))"
  by (simp add: split_prob_def split_on_free concrete_name_free)

lemma split_prob_odds:
  "n < 2 ^ 32 \<Longrightarrow> split_prob True (show_nat n @ CHR ''@'' # tree_name (concrete_to_tree T p)) = Inr (n, tree_name (concrete_to_tree T p))"
proof -
  assume n: "n < 2 ^ 32"
  have "CHR ''@'' \<notin> set (show_nat n)" using show_nat_chars [of "CHR ''@''" n] by auto
  then show ?thesis using n by (simp add: split_prob_def split_on_two concrete_name_free expr_parse_num_show unat_of_nat map_res_def)
qed

lemma parse_time_show: "0 < n \<Longrightarrow> n \<le> 2 ^ 31 \<Longrightarrow> parse_time (Tree (show_nat (unat n)) []) = Inr n"
  by (auto simp: parse_time_def word_gt_0 not_less)

lemma from_tree_prob_to_tree:
  assumes "locks_decimal T"
  shows "parseable T p \<Longrightarrow> split_prob b nm = Inr (n, tree_name (concrete_to_tree T p)) \<Longrightarrow>
    from_tree_prob T b (Tree nm (tree_args (concrete_to_tree T p))) = Inr (n, p)"
proof (induction p arbitrary: b nm n)
  case (CAnd subs)
  have "map_res snd (from_tree_prob T False (concrete_to_tree T q)) = Inr q" if "q \<in> set subs" for q
    using CAnd.IH [OF that _ split_prob_name, of False] CAnd.prems(1) that by (cases "concrete_to_tree T q") (simp add: list_all_iff map_res_def)
  then have "collect_res (\<lambda>arg. map_res snd (from_tree_prob T False arg)) (map (concrete_to_tree T) subs) = Inr subs"
    by (auto simp: collect_res_Inr list_all2_conv_all_nth)
  then show ?case using CAnd.prems by (simp add: from_tree_prob.simps map_res_def)
next
  case (COr subs)
  have "from_tree_prob T True (Tree (show_nat (fst x) @ CHR ''@'' # tree_name (concrete_to_tree T (snd x))) (tree_args (concrete_to_tree T (snd x)))) = Inr x"
    if "x \<in> set subs" for x
    using COr.IH [of x "snd x" True _ "fst x", OF that _ _ split_prob_odds] COr.prems(1) that
    by (cases x) (fastforce simp: list_all_iff)
  then have "collect_res (from_tree_prob T True) (tree_args (concrete_to_tree T (COr subs))) = Inr subs"
    by (auto simp: collect_res_Inr list_all2_conv_all_nth split_beta)
  then show ?case using COr.prems by (simp add: from_tree_prob.simps map_res_def)
next
  case (CThreshold k subs)
  have "map_res snd (from_tree_prob T False (concrete_to_tree T q)) = Inr q" if "q \<in> set subs" for q
    using CThreshold.IH [OF that _ split_prob_name, of False] CThreshold.prems(1) that by (cases "concrete_to_tree T q") (simp add: list_all_iff map_res_def)
  then have "collect_res (\<lambda>arg. map_res snd (from_tree_prob T False arg)) (map (concrete_to_tree T) subs) = Inr subs"
    by (auto simp: collect_res_Inr list_all2_conv_all_nth)
  then show ?case using CThreshold.prems by (simp add: from_tree_prob.simps map_res_def expr_parse_num_show unat_of_nat unat_eq_zero [symmetric])
qed (use assms in \<open>simp_all add: from_tree_prob.simps map_res_def parse_terminal_readable parse_time_show locks_decimal_def\<close>)

interpretation concrete_text: tree_text "concrete_to_tree T" "concrete_from_tree T" Inr "\<lambda>p. locks_decimal T \<and> parseable T p"
  for T :: "('pk, 'h) text_env"
proof
  fix p :: "('pk, 'h) concrete"
  assume p: "locks_decimal T \<and> parseable T p"
  then show "tree_ok (concrete_to_tree T p)" by (simp add: concrete_tree_ok)
  show "concrete_from_tree T (concrete_to_tree T p) = Inr p"
    using from_tree_prob_to_tree [of T p False, OF _ _ split_prob_name] p
    by (cases "concrete_to_tree T p") (simp add: concrete_from_tree_def map_res_def)
qed

lemma concrete_from_show:
  assumes "locks_decimal T" "parseable T p" "tree_depth (concrete_to_tree T p) < MAX_RECURSION_DEPTH"
    and "V (concrete_show T p) = Inr ()" "check_timelocks L p = Inr ()"
  shows "concrete_from_str V T L (concrete_show T p) = Inr p"
  using concrete_text.from_str_tree [of T p V] assms
  by (simp add: concrete_from_str_def concrete_show_tree map_err_def)

end
