(* ===== verification/Policy_Text.thy ===== *)
theory Policy_Text
  imports Policy_Concrete
begin

text \<open>
  The text form of semantic policies (\<open>Display\<close>, \<open>FromTree\<close> and \<open>FromStr\<close> in \<open>policy/semantic.rs\<close>).
\<close>

fun policy_show :: "('pk, 'h) text_env \<Rightarrow> ('pk, 'h) policy \<Rightarrow> string" where
  "policy_show T Unsatisfiable = ''UNSATISFIABLE''"
| "policy_show T Trivial = ''TRIVIAL''"
| "policy_show T (Key pkh) = ''pk('' @ pk_show T pkh @ '')''"
| "policy_show T (policy.After n) = ''after('' @ lock_show T n @ '')''"
| "policy_show T (policy.Older n) = ''older('' @ sequence_show T n @ '')''"
| "policy_show T (policy.Sha256 h) = ''sha256('' @ sha256_show T h @ '')''"
| "policy_show T (policy.Hash256 h) = ''hash256('' @ hash256_show T h @ '')''"
| "policy_show T (policy.Ripemd160 h) = ''ripemd160('' @ ripemd160_show T h @ '')''"
| "policy_show T (policy.Hash160 h) = ''hash160('' @ hash160_show T h @ '')''"
| "policy_show T (Threshold k subs) =
     (if k = length subs then ''and('' else if k = 1 then ''or('' else ''thresh('' @ show_nat k @ '','')
     @ join_args (map (policy_show T) subs) @ '')''"

fun policy_from_tree :: "('pk, 'h) text_env \<Rightarrow> tree \<Rightarrow> crate_error + ('pk, 'h) policy" where
  "policy_from_tree T (Tree name args) =
     (if name = ''UNSATISFIABLE'' \<and> length args = 0 then Inr Unsatisfiable
      else if name = ''TRIVIAL'' \<and> length args = 0 then Inr Trivial
      else if name = ''pk'' \<and> length args = 1 then map_res Key (parse_terminal id (args ! 0) (pk_from_str T))
      else if name = ''after'' \<and> length args = 1 then map_res policy.After (terminal_num (args ! 0))
      else if name = ''older'' \<and> length args = 1 then map_res policy.Older (terminal_num (args ! 0))
      else if name = ''sha256'' \<and> length args = 1 then map_res policy.Sha256 (parse_terminal id (args ! 0) (sha256_from_str T))
      else if name = ''hash256'' \<and> length args = 1 then map_res policy.Hash256 (parse_terminal id (args ! 0) (hash256_from_str T))
      else if name = ''ripemd160'' \<and> length args = 1 then map_res policy.Ripemd160 (parse_terminal id (args ! 0) (ripemd160_from_str T))
      else if name = ''hash160'' \<and> length args = 1 then map_res policy.Hash160 (parse_terminal id (args ! 0) (hash160_from_str T))
      else if name = ''and'' then
        (if length args < 2 then Inl (PolicyError InsufficientArgsforAnd)
         else map_res (Threshold (length args)) (collect_res (policy_from_tree T) args))
      else if name = ''or'' then
        (if length args < 2 then Inl (PolicyError InsufficientArgsforOr)
         else map_res (Threshold 1) (collect_res (policy_from_tree T) args))
      else if name = ''thresh'' then
        (case args of
           a # b # rest \<Rightarrow>
             (case tree_args a of
                inner # _ \<Rightarrow> Inl (errstr (tree_name inner))
              | [] \<Rightarrow>
                  bind_res (expr_parse_num u32_from_str (tree_name a)) (\<lambda>thr.
                    if unat thr \<le> 1 \<or> unat thr \<ge> length args - 1
                    then Inl (errstr (''Semantic Policy thresh cannot have k = 1 or k =n, use '' @ [CHR 0x60] @ ''and'' @ [CHR 0x60]
                           @ ''/'' @ [CHR 0x60] @ ''or'' @ [CHR 0x60] @ '' instead''))
                    else if unat thr \<ge> length args then Inl (errstr (tree_name a))
                    else map_res (Threshold (unat thr)) (collect_res (policy_from_tree T) (b # rest))))
         | _ \<Rightarrow> Inl (errstr ''thresh without args''))
      else Inl (errstr name))"

declare policy_from_tree.simps [simp del]

definition policy_from_str :: "(string \<Rightarrow> crate_error + unit) \<Rightarrow> ('pk, 'h) text_env \<Rightarrow> string \<Rightarrow> crate_error + ('pk, 'h) policy" where
  "policy_from_str V T s = bind_res (V s) (\<lambda>_. bind_res (tree_from_str V s) (policy_from_tree T))"

section \<open>Reading back what was printed\<close>

fun policy_to_tree :: "('pk, 'h) text_env \<Rightarrow> ('pk, 'h) policy \<Rightarrow> tree" where
  "policy_to_tree T Unsatisfiable = Tree ''UNSATISFIABLE'' []"
| "policy_to_tree T Trivial = Tree ''TRIVIAL'' []"
| "policy_to_tree T (Key pk) = Tree ''pk'' [Tree (pk_show T pk) []]"
| "policy_to_tree T (policy.After n) = Tree ''after'' [Tree (lock_show T n) []]"
| "policy_to_tree T (policy.Older n) = Tree ''older'' [Tree (sequence_show T n) []]"
| "policy_to_tree T (policy.Sha256 h) = Tree ''sha256'' [Tree (sha256_show T h) []]"
| "policy_to_tree T (policy.Hash256 h) = Tree ''hash256'' [Tree (hash256_show T h) []]"
| "policy_to_tree T (policy.Ripemd160 h) = Tree ''ripemd160'' [Tree (ripemd160_show T h) []]"
| "policy_to_tree T (policy.Hash160 h) = Tree ''hash160'' [Tree (hash160_show T h) []]"
| "policy_to_tree T (Threshold k subs) =
     (if k = length subs then Tree ''and'' (map (policy_to_tree T) subs)
      else if k = 1 then Tree ''or'' (map (policy_to_tree T) subs)
      else Tree ''thresh'' (Tree (show_nat k) [] # map (policy_to_tree T) subs))"

text \<open>Policies whose thresholds have at least two children and a threshold between one and their number.\<close>

fun policy_parseable :: "('pk, 'h) text_env \<Rightarrow> ('pk, 'h) policy \<Rightarrow> bool" where
  "policy_parseable T (Key pk) = readable (pk_show T) (pk_from_str T) pk"
| "policy_parseable T (policy.Sha256 h) = readable (sha256_show T) (sha256_from_str T) h"
| "policy_parseable T (policy.Hash256 h) = readable (hash256_show T) (hash256_from_str T) h"
| "policy_parseable T (policy.Ripemd160 h) = readable (ripemd160_show T) (ripemd160_from_str T) h"
| "policy_parseable T (policy.Hash160 h) = readable (hash160_show T) (hash160_from_str T) h"
| "policy_parseable T (Threshold k subs) =
     (2 \<le> length subs \<and> 0 < k \<and> k \<le> length subs \<and> length subs < 2 ^ 32 \<and> list_all (policy_parseable T) subs)"
| "policy_parseable T _ = True"

lemma policy_show_tree: "policy_parseable T p \<Longrightarrow> show_tree (policy_to_tree T p) = policy_show T p"
proof (induction p)
  case (Threshold k subs)
  then have "join_args (map (show_tree \<circ> policy_to_tree T) subs) = join_args (map (policy_show T) subs)"
    by (intro arg_cong [where f = join_args]) (auto simp: list_all_iff)
  moreover have "subs \<noteq> []" using Threshold.prems by auto
  ultimately show ?case by (simp add: join_Cons)
qed auto

lemma policy_tree_ok: "locks_decimal T \<Longrightarrow> policy_parseable T p \<Longrightarrow> tree_ok (policy_to_tree T p)"
  by (induction p) (auto simp: list_all_iff readable_def locks_decimal_def)

lemma policy_read_list:
  assumes "collect_res (policy_from_tree T) ts = Inr ps" "2 \<le> length ts"
  shows "policy_from_tree T (Tree ''and'' ts) = Inr (Threshold (length ts) ps)"
    and "policy_from_tree T (Tree ''or'' ts) = Inr (Threshold 1 ps)"
    and "1 < k \<Longrightarrow> k < length ts \<Longrightarrow> k < 2 ^ 32 \<Longrightarrow> policy_from_tree T (Tree ''thresh'' (Tree (show_nat k) [] # ts)) = Inr (Threshold k ps)"
proof -
  show "policy_from_tree T (Tree ''and'' ts) = Inr (Threshold (length ts) ps)" "policy_from_tree T (Tree ''or'' ts) = Inr (Threshold 1 ps)"
    using assms by (simp_all add: policy_from_tree.simps map_res_def)
  assume k: "1 < k" "k < length ts" "k < 2 ^ 32"
  obtain t rest where "ts = t # rest" using assms(2) by (cases ts) auto
  moreover have "unat (of_nat k :: u32) = k" using k(3) by (simp add: unat_of_nat)
  ultimately show "policy_from_tree T (Tree ''thresh'' (Tree (show_nat k) [] # ts)) = Inr (Threshold k ps)"
    using k assms(1) expr_parse_num_show [OF k(3)]
    by (simp add: policy_from_tree.simps [of T "''thresh''"] map_res_def del: collect_res.simps)
qed

lemma policy_from_to_tree:
  assumes "locks_decimal T"
  shows "policy_parseable T p \<Longrightarrow> policy_from_tree T (policy_to_tree T p) = Inr p"
proof (induction p)
  case (Threshold k subs)
  have "collect_res (policy_from_tree T) (map (policy_to_tree T) subs) = Inr subs"
    using Threshold by (auto simp: collect_res_Inr list_all2_conv_all_nth list_all_iff)
  then show ?case using policy_read_list [of T "map (policy_to_tree T) subs" subs] Threshold.prems by auto
qed (use assms in \<open>simp_all add: policy_from_tree.simps map_res_def parse_terminal_readable locks_decimal_def\<close>)

interpretation semantic_text: tree_text "policy_to_tree T" "policy_from_tree T" Inr "\<lambda>p. locks_decimal T \<and> policy_parseable T p"
  for T :: "('pk, 'h) text_env"
  by unfold_locales (simp_all add: policy_tree_ok policy_from_to_tree)

lemma policy_from_show:
  assumes "locks_decimal T" "policy_parseable T p" "tree_depth (policy_to_tree T p) < MAX_RECURSION_DEPTH"
    and "V (policy_show T p) = Inr ()"
  shows "policy_from_str V T (policy_show T p) = Inr p"
  using semantic_text.from_str_tree [of T p V] assms by (simp add: policy_from_str_def policy_show_tree)

end
