(* ===== verification/Text_Miniscript.thy ===== *)
theory Text_Miniscript
  imports Text_Tree Context Type_Invariants
begin

text \<open>
  The text form of miniscripts: \<open>Display\<close> and \<open>FromTree\<close> of \<open>miniscript/astelem.rs\<close> with wrappers and
  aliases, and the \<open>from_str\<close> functions of \<open>miniscript/mod.rs\<close>. A panic is \<open>None\<close>.
\<close>

section \<open>Printing\<close>

text \<open>
  The printers and parsers of keys and hashes, of raw key hashes and of extensions, and what the type and
  context checks ask for.
\<close>

record ('pk, 'h, 'e) ms_text_env = "('pk, 'h) text_env" +
  rawpkh_from_str :: "string \<Rightarrow> string + bytes"
  rawpkh_show :: "bytes \<Rightarrow> string"
  ext_from_name_tree :: "string \<Rightarrow> tree list \<Rightarrow> 'e option"
  ext_show :: "'e \<Rightarrow> string"
  mt_ctx :: script_ctx
  mt_ext :: "'e extension"
  mt_lock :: lock_lib
  mt_keys :: "'pk key_info"
  mt_checks :: "'e ext_checks"

fun wrap_char :: "('pk, 'h, 'e) terminal \<Rightarrow> (char \<times> ('pk, 'h, 'e) miniscript) option" where
  "wrap_char (Alt sub) = Some (CHR ''a'', sub)"
| "wrap_char (Swap sub) = Some (CHR ''s'', sub)"
| "wrap_char (Check sub) = Some (CHR ''c'', sub)"
| "wrap_char (DupIf sub) = Some (CHR ''d'', sub)"
| "wrap_char (Verify sub) = Some (CHR ''v'', sub)"
| "wrap_char (NonZero sub) = Some (CHR ''j'', sub)"
| "wrap_char (ZeroNotEqual sub) = Some (CHR ''n'', sub)"
| "wrap_char (AndV sub r) = (if node r = TrueT then Some (CHR ''t'', sub) else None)"
| "wrap_char (OrI l r) =
     (if node r = FalseT then Some (CHR ''u'', l) else if node l = FalseT then Some (CHR ''l'', r) else None)"
| "wrap_char _ = None"

definition is_key_leaf :: "('pk, 'h, 'e) terminal \<Rightarrow> bool" where
  "is_key_leaf t = (case t of PkK _ \<Rightarrow> True | PkH _ \<Rightarrow> True | RawPkH _ \<Rightarrow> True | _ \<Rightarrow> False)"

text \<open>The colon after a wrapper character, when no other wrapper is printed.\<close>

definition wrap_colon :: "('pk, 'h, 'e) terminal \<Rightarrow> string" where
  "wrap_colon sub =
     (case wrap_char sub of
        None \<Rightarrow> '':''
      | Some (ch, ms) \<Rightarrow> if ch = CHR ''c'' \<and> is_key_leaf (node ms) then '':'' else [])"

text \<open>A key fragment under \<open>c:\<close>.\<close>

definition key_alias :: "('pk, 'h, 'e, 'z) ms_text_env_scheme \<Rightarrow> ('pk, 'h, 'e) terminal \<Rightarrow> string" where
  "key_alias T t =
     (case t of
        PkK pk \<Rightarrow> ''pk('' @ pk_show T pk @ '')''
      | RawPkH h \<Rightarrow> ''expr_raw_pkh('' @ rawpkh_show T h @ '')''
      | PkH pk \<Rightarrow> ''pkh('' @ pk_show T pk @ '')''
      | _ \<Rightarrow> [])"

fun terminal_show :: "('pk, 'h, 'e, 'z) ms_text_env_scheme \<Rightarrow> ('pk, 'h, 'e) terminal \<Rightarrow> string" where
  "terminal_show T (PkK pk) = ''pk_k('' @ pk_show T pk @ '')''"
| "terminal_show T (PkH pk) = ''pk_h('' @ pk_show T pk @ '')''"
| "terminal_show T (RawPkH h) = ''expr_raw_pk_h('' @ rawpkh_show T h @ '')''"
| "terminal_show T (terminal.After t) = ''after('' @ lock_show T t @ '')''"
| "terminal_show T (terminal.Older t) = ''older('' @ sequence_show T t @ '')''"
| "terminal_show T (terminal.Sha256 h) = ''sha256('' @ sha256_show T h @ '')''"
| "terminal_show T (terminal.Hash256 h) = ''hash256('' @ hash256_show T h @ '')''"
| "terminal_show T (terminal.Ripemd160 h) = ''ripemd160('' @ ripemd160_show T h @ '')''"
| "terminal_show T (terminal.Hash160 h) = ''hash160('' @ hash160_show T h @ '')''"
| "terminal_show T TrueT = ''1''"
| "terminal_show T FalseT = ''0''"
| "terminal_show T (ExtT e) = ext_show T e"
| "terminal_show T (AndV l r) =
     (if node r \<noteq> TrueT then ''and_v('' @ terminal_show T (node l) @ '','' @ terminal_show T (node r) @ '')''
      else CHR ''t'' # wrap_colon (node l) @ terminal_show T (node l))"
| "terminal_show T (AndB l r) = ''and_b('' @ terminal_show T (node l) @ '','' @ terminal_show T (node r) @ '')''"
| "terminal_show T (AndOr a b c) =
     (if node c = FalseT then ''and_n('' @ terminal_show T (node a) @ '','' @ terminal_show T (node b) @ '')''
      else ''andor('' @ terminal_show T (node a) @ '','' @ terminal_show T (node b) @ '','' @ terminal_show T (node c) @ '')'')"
| "terminal_show T (OrB l r) = ''or_b('' @ terminal_show T (node l) @ '','' @ terminal_show T (node r) @ '')''"
| "terminal_show T (OrD l r) = ''or_d('' @ terminal_show T (node l) @ '','' @ terminal_show T (node r) @ '')''"
| "terminal_show T (OrC l r) = ''or_c('' @ terminal_show T (node l) @ '','' @ terminal_show T (node r) @ '')''"
| "terminal_show T (OrI l r) =
     (if node l \<noteq> FalseT \<and> node r \<noteq> FalseT then ''or_i('' @ terminal_show T (node l) @ '','' @ terminal_show T (node r) @ '')''
      else if node r = FalseT then CHR ''u'' # wrap_colon (node l) @ terminal_show T (node l)
      else CHR ''l'' # wrap_colon (node r) @ terminal_show T (node r))"
| "terminal_show T (Thresh k subs) =
     ''thresh('' @ show_nat k @ concat (map (\<lambda>s. '','' @ terminal_show T (node s)) subs) @ '')''"
| "terminal_show T (Multi k keys) = ''multi('' @ show_nat k @ concat (map (\<lambda>pk. '','' @ pk_show T pk) keys) @ '')''"
| "terminal_show T (MultiA k keys) = ''multi_a('' @ show_nat k @ concat (map (\<lambda>pk. '','' @ pk_show T pk) keys) @ '')''"
| "terminal_show T (Check sub) =
     (if is_key_leaf (node sub) then key_alias T (node sub)
      else CHR ''c'' # wrap_colon (node sub) @ terminal_show T (node sub))"
| "terminal_show T (Alt sub) = CHR ''a'' # wrap_colon (node sub) @ terminal_show T (node sub)"
| "terminal_show T (Swap sub) = CHR ''s'' # wrap_colon (node sub) @ terminal_show T (node sub)"
| "terminal_show T (DupIf sub) = CHR ''d'' # wrap_colon (node sub) @ terminal_show T (node sub)"
| "terminal_show T (Verify sub) = CHR ''v'' # wrap_colon (node sub) @ terminal_show T (node sub)"
| "terminal_show T (NonZero sub) = CHR ''j'' # wrap_colon (node sub) @ terminal_show T (node sub)"
| "terminal_show T (ZeroNotEqual sub) = CHR ''n'' # wrap_colon (node sub) @ terminal_show T (node sub)"

definition ms_show :: "('pk, 'h, 'e, 'z) ms_text_env_scheme \<Rightarrow> ('pk, 'h, 'e) miniscript \<Rightarrow> string" where
  "ms_show T ms = terminal_show T (node ms)"

section \<open>Parsing\<close>

definition bind_po :: "('err + 'a) option \<Rightarrow> ('a \<Rightarrow> ('err + 'b) option) \<Rightarrow> ('err + 'b) option" where
  "bind_po r f = (case r of None \<Rightarrow> None | Some (Inl e) \<Rightarrow> Some (Inl e) | Some (Inr x) \<Rightarrow> f x)"

lemma bind_po_simps [simp]: "bind_po None f = None" "bind_po (Some (Inl e)) f = Some (Inl e)" "bind_po (Some (Inr x)) f = f x"
  by (simp_all add: bind_po_def)

lemma bind_po_cong [fundef_cong]: "r = r' \<Longrightarrow> (\<And>x. r' = Some (Inr x) \<Longrightarrow> f x = g x) \<Longrightarrow> bind_po r f = bind_po r' g"
  by (auto simp: bind_po_def split: option.splits sum.splits)

fun collect_po :: "('a \<Rightarrow> ('err + 'b) option) \<Rightarrow> 'a list \<Rightarrow> ('err + 'b list) option" where
  "collect_po f [] = Some (Inr [])"
| "collect_po f (x # xs) = bind_po (f x) (\<lambda>y. bind_po (collect_po f xs) (\<lambda>ys. Some (Inr (y # ys))))"

lemma collect_po_cong [fundef_cong]: "xs = ys \<Longrightarrow> (\<And>x. x \<in> set ys \<Longrightarrow> f x = g x) \<Longrightarrow> collect_po f xs = collect_po g ys"
  by (induction ys arbitrary: xs) auto

text \<open>\<open>Miniscript::from_ast\<close> with the error of the crate, and the same followed by the global context check.\<close>

definition make :: "('pk, 'h, 'e, 'z) ms_text_env_scheme \<Rightarrow> ('pk, 'h, 'e) terminal \<Rightarrow> (crate_error + ('pk, 'h, 'e) miniscript) option" where
  "make T t =
     (case type_rule (mt_ext T) (mt_lock T) t of
        Inl e \<Rightarrow> Some (Inl (TypeCheck e))
      | Inr tt \<Rightarrow>
          map_option (\<lambda>r. case r of Inl e \<Rightarrow> Inl (TypeCheck e) | Inr x \<Rightarrow> Inr (Miniscript t tt x))
            (ext_rule (mt_ext T) (mt_lock T) (ctx_sig_type (mt_ctx T)) t))"

definition make_checked :: "('pk, 'h, 'e, 'z) ms_text_env_scheme \<Rightarrow> ('pk, 'h, 'e) terminal \<Rightarrow>
    (crate_error + ('pk, 'h, 'e) miniscript) option" where
  "make_checked T t =
     bind_po (make T t) (\<lambda>ms.
       case check_global_validity (mt_keys T) (mt_checks T) (mt_ctx T) ms of
         Inl e \<Rightarrow> Some (Inl (crate_error.ContextError e))
       | Inr _ \<Rightarrow> Some (Inr ms))"

text \<open>The name before the arguments, split into wrappers and fragment, with the key aliases replaced.\<close>

definition split_wrap :: "string \<Rightarrow> crate_error + string \<times> string" where
  "split_wrap top_name =
     (case split_on CHR '':'' top_name of
        [] \<Rightarrow> Inr ([], [])
      | [name] \<Rightarrow>
          if name = ''pk'' then Inr (''c'', ''pk_k'')
          else if name = ''pkh'' then Inr (''c'', ''pk_h'')
          else Inr ([], name)
      | [wrap, name] \<Rightarrow>
          if wrap = [] then Inl (Unexpected top_name)
          else if name = ''pk'' then Inr (wrap @ ''c'', ''pk_k'')
          else if name = ''pkh'' then Inr (wrap @ ''c'', ''pk_h'')
          else Inr (wrap, name)
      | _ \<Rightarrow> Inl (MultiColon top_name))"

definition wrap_step :: "('pk, 'h, 'e, 'z) ms_text_env_scheme \<Rightarrow> char \<Rightarrow> ('pk, 'h, 'e) terminal \<Rightarrow> (crate_error + ('pk, 'h, 'e) terminal) option" where
  "wrap_step T ch unwrapped =
     bind_po (make_checked T unwrapped) (\<lambda>ms.
       if ch = CHR ''a'' then Some (Inr (Alt ms))
       else if ch = CHR ''s'' then Some (Inr (Swap ms))
       else if ch = CHR ''c'' then Some (Inr (Check ms))
       else if ch = CHR ''d'' then Some (Inr (DupIf ms))
       else if ch = CHR ''v'' then Some (Inr (Verify ms))
       else if ch = CHR ''j'' then Some (Inr (NonZero ms))
       else if ch = CHR ''n'' then Some (Inr (ZeroNotEqual ms))
       else if ch = CHR ''t'' then bind_po (make T TrueT) (\<lambda>r. Some (Inr (AndV ms r)))
       else if ch = CHR ''u'' then bind_po (make T FalseT) (\<lambda>r. Some (Inr (OrI ms r)))
       else if ch = CHR ''l'' then
         (if node ms = FalseT then Some (Inl LikelyFalse) else bind_po (make T FalseT) (\<lambda>l. Some (Inr (OrI l ms))))
       else Some (Inl (UnknownWrapper ch)))"

fun wrap_loop :: "('pk, 'h, 'e, 'z) ms_text_env_scheme \<Rightarrow> string \<Rightarrow> ('pk, 'h, 'e) terminal \<Rightarrow> (crate_error + ('pk, 'h, 'e) terminal) option" where
  "wrap_loop T [] unwrapped = Some (Inr unwrapped)"
| "wrap_loop T (ch # chs) unwrapped = bind_po (wrap_step T ch unwrapped) (wrap_loop T chs)"

definition ext_error :: "string \<Rightarrow> tree list \<Rightarrow> crate_error" where
  "ext_error name args = Unexpected (name @ ''('' @ show_nat (length args) @ '' args) while parsing Miniscript'')"

text \<open>The fragments without child scripts.\<close>

definition leaf_from_tree :: "('pk, 'h, 'e, 'z) ms_text_env_scheme \<Rightarrow> string \<Rightarrow> tree list \<Rightarrow> (crate_error + ('pk, 'h, 'e) terminal) option" where
  "leaf_from_tree T name args =
     (if name = ''expr_raw_pkh'' \<and> length args = 1 then Some (map_res RawPkH (parse_terminal id (args ! 0) (rawpkh_from_str T)))
      else if name = ''pk_k'' \<and> length args = 1 then Some (map_res PkK (parse_terminal id (args ! 0) (pk_from_str T)))
      else if name = ''pk_h'' \<and> length args = 1 then Some (map_res PkH (parse_terminal id (args ! 0) (pk_from_str T)))
      else if name = ''after'' \<and> length args = 1 then Some (map_res terminal.After (terminal_num (args ! 0)))
      else if name = ''older'' \<and> length args = 1 then Some (map_res terminal.Older (terminal_num (args ! 0)))
      else if name = ''sha256'' \<and> length args = 1 then Some (map_res terminal.Sha256 (parse_terminal id (args ! 0) (sha256_from_str T)))
      else if name = ''hash256'' \<and> length args = 1 then Some (map_res terminal.Hash256 (parse_terminal id (args ! 0) (hash256_from_str T)))
      else if name = ''ripemd160'' \<and> length args = 1 then Some (map_res terminal.Ripemd160 (parse_terminal id (args ! 0) (ripemd160_from_str T)))
      else if name = ''hash160'' \<and> length args = 1 then Some (map_res terminal.Hash160 (parse_terminal id (args ! 0) (hash160_from_str T)))
      else if name = ''1'' \<and> args = [] then Some (Inr TrueT)
      else if name = ''0'' \<and> args = [] then Some (Inr FalseT)
      else None)"

definition multi_from_tree :: "('pk, 'h, 'e, 'z) ms_text_env_scheme \<Rightarrow> (nat \<Rightarrow> 'pk list \<Rightarrow> ('pk, 'h, 'e) terminal) \<Rightarrow> tree list \<Rightarrow>
    crate_error + ('pk, 'h, 'e) terminal" where
  "multi_from_tree T con args =
     (case args of
        [] \<Rightarrow> Inl (errstr ''no arguments given'')
      | a # rest \<Rightarrow>
          bind_res (terminal_num a) (\<lambda>k.
            if unat k > length args - 1 then Inl (errstr ''higher threshold than there were keys in multi'')
            else map_res (con (unat k)) (collect_res (\<lambda>sub. parse_terminal id sub (pk_from_str T)) rest)))"

text \<open>\<open>FromTree\<close> for fragments and for miniscripts.\<close>

fun terminal_from_tree :: "('pk, 'h, 'e, 'z) ms_text_env_scheme \<Rightarrow> tree \<Rightarrow> (crate_error + ('pk, 'h, 'e) terminal) option" where
  "terminal_from_tree T (Tree top_name args) =
     bind_po (Some (split_wrap top_name)) (\<lambda>(frag_wrap, frag_name).
     bind_po
       (case leaf_from_tree T frag_name args of
          Some r \<Rightarrow> Some r
        | None \<Rightarrow>
          if frag_name \<in> {''and_v'', ''and_b'', ''and_n'', ''or_b'', ''or_d'', ''or_c'', ''or_i''} \<and> length args = 2 then
            bind_po (bind_po (terminal_from_tree T (args ! 0)) (make T)) (\<lambda>l.
            bind_po (bind_po (terminal_from_tree T (args ! 1)) (make T)) (\<lambda>r.
              if frag_name = ''and_v'' then Some (Inr (AndV l r))
              else if frag_name = ''and_b'' then Some (Inr (AndB l r))
              else if frag_name = ''and_n'' then bind_po (make T FalseT) (\<lambda>c. Some (Inr (AndOr l r c)))
              else if frag_name = ''or_b'' then Some (Inr (OrB l r))
              else if frag_name = ''or_d'' then Some (Inr (OrD l r))
              else if frag_name = ''or_c'' then Some (Inr (OrC l r))
              else Some (Inr (OrI l r))))
          else if frag_name = ''andor'' \<and> length args = 3 then
            bind_po (bind_po (terminal_from_tree T (args ! 0)) (make T)) (\<lambda>a.
            bind_po (bind_po (terminal_from_tree T (args ! 1)) (make T)) (\<lambda>b.
            bind_po (bind_po (terminal_from_tree T (args ! 2)) (make T)) (\<lambda>c. Some (Inr (AndOr a b c)))))
          else if frag_name = ''thresh'' then
            (case args of
               [] \<Rightarrow> Some (Inl (errstr ''no arguments given''))
             | a # rest \<Rightarrow>
                 bind_po (Some (terminal_num a)) (\<lambda>k.
                   if unat k > length args - 1 then Some (Inl (errstr ''higher threshold than there are subexpressions''))
                   else if length args = 1 then Some (Inl (errstr ''empty thresholds not allowed in descriptors''))
                   else bind_po (collect_po (\<lambda>sub. bind_po (terminal_from_tree T sub) (make T)) rest)
                     (\<lambda>subs. Some (Inr (Thresh (unat k) subs)))))
          else if frag_name = ''multi'' then Some (multi_from_tree T Multi args)
          else if frag_name = ''multi_a'' then Some (multi_from_tree T MultiA args)
          else (case ext_from_name_tree T frag_name args of
                  Some e \<Rightarrow> Some (Inr (ExtT e))
                | None \<Rightarrow> Some (Inl (ext_error top_name args))))
       (\<lambda>unwrapped.
     bind_po (wrap_loop T (rev frag_wrap) unwrapped) (\<lambda>unwrapped.
     bind_po (make_checked T unwrapped) (\<lambda>ms. Some (Inr (node ms))))))"

declare terminal_from_tree.simps [simp del]

definition ms_from_tree :: "('pk, 'h, 'e, 'z) ms_text_env_scheme \<Rightarrow> tree \<Rightarrow> (crate_error + ('pk, 'h, 'e) miniscript) option" where
  "ms_from_tree T t = bind_po (terminal_from_tree T t) (make T)"

definition ms_from_str_ext :: "(string \<Rightarrow> crate_error + unit) \<Rightarrow> ('pk, 'h, 'e, 'z) ms_text_env_scheme \<Rightarrow> ext_params \<Rightarrow> string \<Rightarrow>
    (crate_error + ('pk, 'h, 'e) miniscript) option" where
  "ms_from_str_ext V T p s =
     bind_po (Some (tree_from_str V s)) (\<lambda>t.
     bind_po (ms_from_tree T t) (\<lambda>ms.
     bind_po (Some (map_err crate_error.AnalysisError (ext_check (mt_keys T) (mt_checks T) (mt_ctx T) p ms))) (\<lambda>_.
       if base (corr (ty ms)) \<noteq> Base_B then Some (Inl NonTopLevel) else Some (Inr ms))))"

definition ms_from_str_insane :: "(string \<Rightarrow> crate_error + unit) \<Rightarrow> ('pk, 'h, 'e, 'z) ms_text_env_scheme \<Rightarrow> string \<Rightarrow>
    (crate_error + ('pk, 'h, 'e) miniscript) option" where
  "ms_from_str_insane V T s = ms_from_str_ext V T ext_params_insane s"

definition ms_from_str :: "(string \<Rightarrow> crate_error + unit) \<Rightarrow> ('pk, 'h, 'e, 'z) ms_text_env_scheme \<Rightarrow> string \<Rightarrow>
    (crate_error + ('pk, 'h, 'e) miniscript) option" where
  "ms_from_str V T s =
     bind_po (ms_from_str_ext V T ext_params_sane s) (\<lambda>ms.
     bind_po (Some (map_err crate_error.AnalysisError (sanity_check (mt_keys T) (mt_checks T) (mt_ctx T) ms))) (\<lambda>_.
       Some (Inr ms)))"

section \<open>The printed tree\<close>

lemma wrap_char_child: "wrap_char t = Some (ch, sub) \<Longrightarrow> sub \<in> set (children t)"
  by (cases t) (auto split: if_splits)

lemma wrap_char_size: "wrap_char t = Some (ch, sub) \<Longrightarrow> size (node sub) < size t"
  by (drule wrap_char_child, drule size_children) (rule size_node_less, simp)

function wraps :: "('pk, 'h, 'e) terminal \<Rightarrow> string" where
  "wraps t = (case wrap_char t of None \<Rightarrow> [] | Some (ch, sub) \<Rightarrow> ch # wraps (node sub))"
  by pat_completeness auto
termination by (relation "measure size") (auto dest: wrap_char_size)

function core :: "('pk, 'h, 'e) terminal \<Rightarrow> ('pk, 'h, 'e) terminal" where
  "core t = (case wrap_char t of None \<Rightarrow> t | Some (ch, sub) \<Rightarrow> core (node sub))"
  by pat_completeness auto
termination by (relation "measure size") (auto dest: wrap_char_size)

declare wraps.simps [simp del] core.simps [simp del]

lemma no_wrap_simps: "wrap_char t = None \<Longrightarrow> wraps t = []" "wrap_char t = None \<Longrightarrow> core t = t"
  by (simp_all add: wraps.simps [of t] core.simps [of t])

lemma wrap_simps:
  "wrap_char t = Some (ch, sub) \<Longrightarrow> wraps t = ch # wraps (node sub)"
  "wrap_char t = Some (ch, sub) \<Longrightarrow> core t = core (node sub)"
  by (simp_all add: wraps.simps [of t] core.simps [of t])

lemma wraps_core_induct [case_names base wrap]:
  assumes "\<And>t. wrap_char t = None \<Longrightarrow> P t" "\<And>t ch sub. wrap_char t = Some (ch, sub) \<Longrightarrow> P (node sub) \<Longrightarrow> P t"
  shows "P t"
proof (induction t rule: measure_induct_rule [where f = size])
  case (less t)
  then show ?case using assms wrap_char_size by (cases "wrap_char t") force+
qed

lemma core_no_wrap: "wrap_char (core t) = None"
  by (induction t rule: wraps_core_induct) (simp_all add: no_wrap_simps wrap_simps)

lemma core_size: "size (core t) \<le> size t"
proof (induction t rule: wraps_core_induct)
  case (wrap t ch sub)
  then show ?case using wrap_char_size [OF wrap(1)] by (simp add: wrap_simps [OF wrap(1)])
qed (simp add: no_wrap_simps)

fun base_name :: "('e \<Rightarrow> tree) \<Rightarrow> ('pk, 'h, 'e) terminal \<Rightarrow> string" where
  "base_name xt (PkK _) = ''pk_k''"
| "base_name xt (PkH _) = ''pk_h''"
| "base_name xt (RawPkH _) = ''expr_raw_pk_h''"
| "base_name xt (terminal.After _) = ''after''"
| "base_name xt (terminal.Older _) = ''older''"
| "base_name xt (terminal.Sha256 _) = ''sha256''"
| "base_name xt (terminal.Hash256 _) = ''hash256''"
| "base_name xt (terminal.Ripemd160 _) = ''ripemd160''"
| "base_name xt (terminal.Hash160 _) = ''hash160''"
| "base_name xt TrueT = ''1''"
| "base_name xt FalseT = ''0''"
| "base_name xt (AndV _ _) = ''and_v''"
| "base_name xt (AndB _ _) = ''and_b''"
| "base_name xt (AndOr _ _ c) = (if node c = FalseT then ''and_n'' else ''andor'')"
| "base_name xt (OrB _ _) = ''or_b''"
| "base_name xt (OrD _ _) = ''or_d''"
| "base_name xt (OrC _ _) = ''or_c''"
| "base_name xt (OrI _ _) = ''or_i''"
| "base_name xt (Thresh _ _) = ''thresh''"
| "base_name xt (Multi _ _) = ''multi''"
| "base_name xt (MultiA _ _) = ''multi_a''"
| "base_name xt (ExtT e) = tree_name (xt e)"
| "base_name xt _ = []"

fun leaf_args :: "('pk, 'h, 'e, 'z) ms_text_env_scheme \<Rightarrow> ('e \<Rightarrow> tree) \<Rightarrow> ('pk, 'h, 'e) terminal \<Rightarrow> tree list" where
  "leaf_args T xt (PkK pk) = [Tree (pk_show T pk) []]"
| "leaf_args T xt (PkH pk) = [Tree (pk_show T pk) []]"
| "leaf_args T xt (RawPkH h) = [Tree (rawpkh_show T h) []]"
| "leaf_args T xt (terminal.After t) = [Tree (lock_show T t) []]"
| "leaf_args T xt (terminal.Older t) = [Tree (sequence_show T t) []]"
| "leaf_args T xt (terminal.Sha256 h) = [Tree (sha256_show T h) []]"
| "leaf_args T xt (terminal.Hash256 h) = [Tree (hash256_show T h) []]"
| "leaf_args T xt (terminal.Ripemd160 h) = [Tree (ripemd160_show T h) []]"
| "leaf_args T xt (terminal.Hash160 h) = [Tree (hash160_show T h) []]"
| "leaf_args T xt (Thresh k _) = [Tree (show_nat k) []]"
| "leaf_args T xt (Multi k pks) = Tree (show_nat k) [] # map (\<lambda>pk. Tree (pk_show T pk) []) pks"
| "leaf_args T xt (MultiA k pks) = Tree (show_nat k) [] # map (\<lambda>pk. Tree (pk_show T pk) []) pks"
| "leaf_args T xt (ExtT e) = tree_args (xt e)"
| "leaf_args T xt _ = []"

definition shown_children :: "('pk, 'h, 'e) terminal \<Rightarrow> ('pk, 'h, 'e) miniscript list" where
  "shown_children t = (case t of AndOr a b c \<Rightarrow> if node c = FalseT then [a, b] else [a, b, c] | _ \<Rightarrow> children t)"

text \<open>The wrappers and the name that are printed: \<open>c:pk_k\<close> and \<open>c:pk_h\<close> become \<open>pk\<close> and \<open>pkh\<close>.\<close>

definition aliased :: "('pk, 'h, 'e) terminal \<Rightarrow> bool" where
  "aliased t \<longleftrightarrow> is_key_leaf (core t) \<and> wraps t \<noteq> [] \<and> last (wraps t) = CHR ''c''"

definition shown_wraps :: "('pk, 'h, 'e) terminal \<Rightarrow> string" where
  "shown_wraps t = (if aliased t then butlast (wraps t) else wraps t)"

definition shown_name :: "('e \<Rightarrow> tree) \<Rightarrow> ('pk, 'h, 'e) terminal \<Rightarrow> string" where
  "shown_name xt t =
     (if aliased t then (case core t of PkK _ \<Rightarrow> ''pk'' | PkH _ \<Rightarrow> ''pkh'' | _ \<Rightarrow> ''expr_raw_pkh'') else base_name xt (core t))"

definition full_name :: "('e \<Rightarrow> tree) \<Rightarrow> ('pk, 'h, 'e) terminal \<Rightarrow> string" where
  "full_name xt t = (if shown_wraps t = [] then [] else shown_wraps t @ '':'') @ shown_name xt t"

lemma shown_children_subset: "set (shown_children t) \<subseteq> set (children t)"
  by (cases t) (auto simp: shown_children_def)

function ms_tree :: "('pk, 'h, 'e, 'z) ms_text_env_scheme \<Rightarrow> ('e \<Rightarrow> tree) \<Rightarrow> ('pk, 'h, 'e) terminal \<Rightarrow> tree" where
  "ms_tree T xt t =
     Tree (full_name xt t) (leaf_args T xt (core t) @ map (\<lambda>c. ms_tree T xt (node c)) (shown_children (core t)))"
  by pat_completeness auto
termination
proof (relation "measure (\<lambda>(T, xt, t). size t)")
  fix T xt t c
  assume "c \<in> set (shown_children (core t))"
  then have "size c < size (core t)" using shown_children_subset size_children by blast
  then show "((T, xt, node c), T, xt, t) \<in> measure (\<lambda>(T, xt, t). size t)"
    using core_size [of t] size_node_less [of c] by simp
qed simp

declare ms_tree.simps [simp del]

lemma wraps_Nil_iff: "wraps t = [] \<longleftrightarrow> wrap_char t = None"
  by (simp add: wraps.simps [of t] split: option.splits)

lemma key_leaf_no_wrap: "is_key_leaf t \<Longrightarrow> wrap_char t = None"
  by (cases t) (auto simp: is_key_leaf_def)

lemma wrap_colon_shown:
  assumes "wrap_char t = Some (ch, sub)"
  shows "wrap_colon t = (if shown_wraps t = [] then '':'' else [])"
proof -
  have "shown_wraps t = [] \<longleftrightarrow> ch = CHR ''c'' \<and> is_key_leaf (node sub)"
  proof (cases "wraps (node sub) = []")
    case True
    then have "core (node sub) = node sub" by (simp add: wraps_Nil_iff no_wrap_simps)
    then show ?thesis using True by (auto simp: shown_wraps_def aliased_def wrap_simps [OF assms])
  next
    case False
    then have "\<not> is_key_leaf (node sub)" using key_leaf_no_wrap wraps_Nil_iff by blast
    then show ?thesis using False by (simp add: shown_wraps_def wrap_simps [OF assms])
  qed
  then show ?thesis by (simp add: wrap_colon_def assms)
qed

lemma full_name_wrap:
  assumes "wrap_char t = Some (ch, sub)" "\<not> (ch = CHR ''c'' \<and> is_key_leaf (node sub))"
  shows "full_name xt t = ch # wrap_colon (node sub) @ full_name xt (node sub)"
proof (cases "wrap_char (node sub)")
  case None
  then have "wraps (node sub) = []" "core (node sub) = node sub" by (simp_all add: no_wrap_simps)
  then show ?thesis using assms(2) None
    by (auto simp: full_name_def shown_wraps_def shown_name_def aliased_def wrap_simps [OF assms(1)] wrap_colon_def)
next
  case (Some p)
  then have "wraps (node sub) \<noteq> []" by (simp add: wraps_Nil_iff)
  then have "aliased t = aliased (node sub)" "shown_wraps t = ch # shown_wraps (node sub)"
    by (simp_all add: aliased_def shown_wraps_def wrap_simps [OF assms(1)])
  then show ?thesis using Some wrap_colon_shown [of "node sub"]
    by (cases p) (simp add: full_name_def shown_name_def wrap_simps [OF assms(1)])
qed

lemma terminal_show_wrap:
  "wrap_char t = Some (ch, sub) \<Longrightarrow> \<not> (ch = CHR ''c'' \<and> is_key_leaf (node sub)) \<Longrightarrow>
     terminal_show T t = ch # wrap_colon (node sub) @ terminal_show T (node sub)"
  by (cases t) (auto split: if_splits)

lemma ms_tree_wrap:
  assumes "wrap_char t = Some (ch, sub)"
  shows "tree_args (ms_tree T xt t) = tree_args (ms_tree T xt (node sub))"
  by (simp add: ms_tree.simps [of T xt t] ms_tree.simps [of T xt "node sub"] wrap_simps [OF assms])

lemma ms_tree_name [simp]: "tree_name (ms_tree T xt t) = full_name xt t"
  by (subst ms_tree.simps) simp

lemma show_tree_named: "show_tree (Tree (s @ nm) args) = s @ show_tree (Tree nm args)"
  by simp

lemma ms_tree_eq: "ms_tree T xt t = Tree (full_name xt t) (tree_args (ms_tree T xt t))"
  by (metis ms_tree_name tree.collapse)

lemma ms_tree_base:
  assumes "wrap_char t = None"
  shows "ms_tree T xt t = Tree (base_name xt t) (leaf_args T xt t @ map (\<lambda>c. ms_tree T xt (node c)) (shown_children t))"
proof -
  have "wraps t = []" "core t = t" using assms by (simp_all add: no_wrap_simps)
  then show ?thesis by (subst ms_tree.simps) (simp add: full_name_def shown_wraps_def shown_name_def aliased_def)
qed

lemma ms_tree_depth: "wrap_char t = Some (ch, sub) \<Longrightarrow> tree_depth (ms_tree T xt t) = tree_depth (ms_tree T xt (node sub))"
  by (metis ms_tree_eq ms_tree_wrap tree_depth.simps)

lemma ms_tree_alias:
  assumes "is_key_leaf (node sub)"
  shows "ms_tree T xt (Check sub) =
    Tree (case node sub of PkK _ \<Rightarrow> ''pk'' | PkH _ \<Rightarrow> ''pkh'' | _ \<Rightarrow> ''expr_raw_pkh'') (leaf_args T xt (node sub))"
proof -
  have n: "wrap_char (node sub) = None" using assms by (rule key_leaf_no_wrap)
  then have "wraps (Check sub) = ''c''" "core (Check sub) = node sub"
    by (simp_all add: wrap_simps [of "Check sub" "CHR ''c''" sub] no_wrap_simps)
  moreover have "shown_children (node sub) = []" using assms by (cases "node sub") (auto simp: is_key_leaf_def shown_children_def)
  ultimately show ?thesis using assms by (subst ms_tree.simps) (simp add: full_name_def shown_wraps_def shown_name_def aliased_def)
qed

lemma join_first: "join_args (x # map f xs) = x @ concat (map (\<lambda>y. CHR '','' # f y) xs)"
  by (induction xs arbitrary: x) (auto simp: join_Cons)

lemma ms_show_tree:
  assumes ext: "\<And>e. show_tree (xt e) = ext_show T e"
  shows "show_tree (ms_tree T xt t) = terminal_show T t"
proof (induction t rule: terminal_children_induct)
  case (step t)
  have kid: "show_tree (ms_tree T xt (node c)) = terminal_show T (node c)" if "c \<in> set (children t)" for c using step that by blast
  show ?case
  proof (cases "wrap_char t")
    case None
    show ?thesis
    proof (cases t)
      case (Thresh k subs)
      then have "join_args (show_nat k # map (show_tree \<circ> (\<lambda>c. ms_tree T xt (node c))) subs)
          = join_args (show_nat k # map (\<lambda>c. terminal_show T (node c)) subs)"
        using kid by (intro arg_cong [where f = join_args]) auto
      then show ?thesis using Thresh by (simp add: ms_tree_base shown_children_def join_first)
    next
      case (ExtT e)
      then show ?thesis using ext [of e] by (cases "xt e") (auto simp: ms_tree_base shown_children_def)
    qed (use None kid in \<open>auto simp: ms_tree_base shown_children_def join_first o_def\<close>)
  next
    case (Some p)
    obtain ch sub where p: "p = (ch, sub)" by (cases p)
    show ?thesis
    proof (cases "ch = CHR ''c'' \<and> is_key_leaf (node sub)")
      case True
      then have "t = Check sub" using Some p by (cases t) (auto split: if_splits)
      then show ?thesis using True by (cases "node sub") (auto simp: ms_tree_alias is_key_leaf_def key_alias_def)
    next
      case False
      have "ms_tree T xt t = Tree ((ch # wrap_colon (node sub)) @ full_name xt (node sub)) (tree_args (ms_tree T xt (node sub)))"
        using Some p False ms_tree_eq [of T xt t] by (simp add: full_name_wrap ms_tree_wrap)
      then have "show_tree (ms_tree T xt t) = (ch # wrap_colon (node sub)) @ show_tree (ms_tree T xt (node sub))"
        using show_tree_named [of "ch # wrap_colon (node sub)" "full_name xt (node sub)"] ms_tree_eq [of T xt "node sub"] by metis
      then show ?thesis using kid [OF wrap_char_child] Some p False by (simp add: terminal_show_wrap)
    qed
  qed
qed

section \<open>Reading back what was printed\<close>

text \<open>The tree that an extension prints as, with a name that is not one of the fragments'.\<close>

definition ext_text_ok :: "('pk, 'h, 'e, 'z) ms_text_env_scheme \<Rightarrow> ('e \<Rightarrow> tree) \<Rightarrow> 'e \<Rightarrow> bool" where
  "ext_text_ok T xt e \<longleftrightarrow>
     tree_ok (xt e) \<and> CHR '':'' \<notin> set (tree_name (xt e))
     \<and> tree_name (xt e) \<notin> {''pk'', ''pkh'', ''expr_raw_pkh'', ''pk_k'', ''pk_h'', ''after'', ''older'', ''sha256'', ''hash256'', ''ripemd160'',
         ''hash160'', ''1'', ''0'', ''and_v'', ''and_b'', ''and_n'', ''andor'', ''or_b'', ''or_d'', ''or_c'', ''or_i'', ''thresh'', ''multi'', ''multi_a''}
     \<and> ext_from_name_tree T (tree_name (xt e)) (tree_args (xt e)) = Some e"

definition leaf_readable :: "('pk, 'h, 'e, 'z) ms_text_env_scheme \<Rightarrow> ('e \<Rightarrow> tree) \<Rightarrow> ('pk, 'h, 'e) terminal \<Rightarrow> bool" where
  "leaf_readable T xt t =
     (case t of
        PkK pk \<Rightarrow> readable (pk_show T) (pk_from_str T) pk
      | PkH pk \<Rightarrow> readable (pk_show T) (pk_from_str T) pk
      | RawPkH _ \<Rightarrow> False
      | terminal.Sha256 h \<Rightarrow> readable (sha256_show T) (sha256_from_str T) h
      | terminal.Hash256 h \<Rightarrow> readable (hash256_show T) (hash256_from_str T) h
      | terminal.Ripemd160 h \<Rightarrow> readable (ripemd160_show T) (ripemd160_from_str T) h
      | terminal.Hash160 h \<Rightarrow> readable (hash160_show T) (hash160_from_str T) h
      | Thresh k subs \<Rightarrow> 0 < k \<and> k \<le> length subs \<and> k < 2 ^ 32
      | Multi k pks \<Rightarrow> k \<le> length pks \<and> k < 2 ^ 32 \<and> list_all (readable (pk_show T) (pk_from_str T)) pks
      | MultiA k pks \<Rightarrow> k \<le> length pks \<and> k < 2 ^ 32 \<and> list_all (readable (pk_show T) (pk_from_str T)) pks
      | ExtT e \<Rightarrow> ext_text_ok T xt e
      | _ \<Rightarrow> True)"

definition text_good :: "('pk, 'h, 'e, 'z) ms_text_env_scheme \<Rightarrow> ('e \<Rightarrow> tree) \<Rightarrow> ('pk, 'h, 'e) miniscript \<Rightarrow> bool" where
  "text_good T xt m \<longleftrightarrow>
     node_wf (mt_ext T) (mt_lock T) (ctx_sig_type (mt_ctx T)) m
     \<and> check_global_validity (mt_keys T) (mt_checks T) (mt_ctx T) m = Inr () \<and> leaf_readable T xt (node m)"

lemma make_good: "text_good T xt m \<Longrightarrow> make T (node m) = Some (Inr m)" "text_good T xt m \<Longrightarrow> make_checked T (node m) = Some (Inr m)"
  by (simp_all add: text_good_def node_wf_iff make_def make_checked_def)

lemma wrap_loop_append: "wrap_loop T (xs @ ys) t = bind_po (wrap_loop T xs t) (wrap_loop T ys)"
  by (induction xs arbitrary: t) (auto simp: bind_po_def split: option.splits sum.splits)

lemma wrap_step_good:
  assumes "wrap_char t = Some (ch, sub)" "\<And>c. c \<in> set (children t) \<Longrightarrow> text_good T xt c"
  shows "wrap_step T ch (node sub) = Some (Inr t)"
proof -
  have "make_checked T (node sub) = Some (Inr sub)" using make_good(2) assms(2) wrap_char_child [OF assms(1)] by blast
  moreover have mk: "make T (node c) = Some (Inr c)" if "c \<in> set (children t)" for c using make_good(1) assms(2) that by blast
  ultimately show ?thesis
  proof (cases t)
    case (AndV l r)
    then show ?thesis using assms(1) mk [of r] \<open>make_checked T (node sub) = Some (Inr sub)\<close> by (auto simp: wrap_step_def split: if_splits)
  next
    case (OrI l r)
    then show ?thesis using assms(1) mk [of r] mk [of l] \<open>make_checked T (node sub) = Some (Inr sub)\<close>
      by (auto simp: wrap_step_def split: if_splits)
  qed (use assms(1) in \<open>auto simp: wrap_step_def\<close>)
qed

lemma wrap_loop_good:
  "every_node (text_good T xt) m \<Longrightarrow> wrap_loop T (rev (wraps (node m))) (core (node m)) = Some (Inr (node m))"
proof (induction "node m" arbitrary: m rule: wraps_core_induct)
  case (wrap ch sub)
  have c: "every_node (text_good T xt) c" if "c \<in> set (children (node m))" for c using wrap.prems that by (rule every_node_child)
  have "wrap_loop T (rev (wraps (node sub))) (core (node sub)) = Some (Inr (node sub))"
    using wrap.hyps(2) [OF refl] c wrap_char_child [OF wrap.hyps(1)] by blast
  moreover have "wrap_step T ch (node sub) = Some (Inr (node m))"
    using wrap_step_good [OF wrap.hyps(1)] c every_node_root by blast
  ultimately show ?case by (simp add: wrap_simps [OF wrap.hyps(1)] wrap_loop_append)
qed (simp add: no_wrap_simps)

lemma core_good: "every_node (text_good T xt) m \<Longrightarrow> \<exists>m'. every_node (text_good T xt) m' \<and> node m' = core (node m)"
proof (induction "node m" arbitrary: m rule: wraps_core_induct)
  case (wrap ch sub)
  have "every_node (text_good T xt) sub" using wrap.prems wrap_char_child [OF wrap.hyps(1)] by (rule every_node_child)
  then show ?case using wrap.hyps(2) [OF refl] by (simp add: wrap_simps [OF wrap.hyps(1)])
qed (auto simp: no_wrap_simps)

lemma wraps_chars: "set (wraps t) \<subseteq> set ''ascdvjntul''"
proof (induction t rule: wraps_core_induct)
  case (wrap t ch sub)
  then have "ch \<in> set ''ascdvjntul''" by (cases t) (auto split: if_splits)
  then show ?case using wrap by (simp add: wrap_simps [OF wrap(1)])
qed (simp add: no_wrap_simps)

lemma base_name_free:
  "leaf_readable T xt t \<Longrightarrow> CHR '':'' \<notin> set (base_name xt t)"
  "leaf_readable T xt t \<Longrightarrow> wrap_char t = None \<Longrightarrow> base_name xt t \<notin> {''pk'', ''pkh''}"
  by (cases t; auto simp: leaf_readable_def ext_text_ok_def)+

lemma split_wrap_full:
  assumes "leaf_readable T xt (core t)"
  shows "split_wrap (full_name xt t) = Inr (wraps t, base_name xt (core t))"
proof -
  have w: "CHR '':'' \<notin> set (wraps t)" using wraps_chars [of t] by auto
  note b = base_name_free(1) [OF assms] base_name_free(2) [OF assms core_no_wrap]
  show ?thesis
  proof (cases "aliased t")
    case True
    then have k: "is_key_leaf (core t)" "wraps t = butlast (wraps t) @ ''c''"
      by (simp add: aliased_def) (metis True aliased_def append_butlast_last_id)
    have free: "CHR '':'' \<notin> set (butlast (wraps t))" using w by (meson in_set_butlastD)
    have "butlast (wraps t) @ ''c'' = wraps t" using k(2) by simp
    then show ?thesis using k(1) True assms
      by (cases "core t")
        (auto simp: is_key_leaf_def leaf_readable_def full_name_def shown_wraps_def shown_name_def split_wrap_def split_on_free
          split_on_two [OF free] split: if_splits)
  next
    case False
    then show ?thesis using w b
      by (auto simp: full_name_def shown_wraps_def shown_name_def split_wrap_def split_on_free split_on_two split: if_splits)
  qed
qed

lemma ext_tree_ok:
  assumes "ext_text_ok T xt e"
  shows "plain (tree_name (xt e))" "list_all tree_ok (tree_args (xt e))" "tree_name (xt e) = ''musig'' \<Longrightarrow> tree_args (xt e) = []"
  using assms by (cases "xt e"; auto simp: ext_text_ok_def)+

lemma full_name_plain:
  assumes "leaf_readable T xt (core t)"
  shows "plain (full_name xt t)"
    and "full_name xt t = ''musig'' \<Longrightarrow> leaf_args T xt (core t) = [] \<and> shown_children (core t) = []"
proof -
  have "plain (wraps t)" using wraps_chars [of t] by (auto simp: plain_def)
  moreover have "plain (butlast s)" if "plain s" for s using that by (auto simp: plain_def dest: in_set_butlastD)
  moreover have "plain (base_name xt (core t))"
    using assms core_no_wrap [of t] by (cases "core t") (auto simp: leaf_readable_def dest: ext_tree_ok(1))
  ultimately show "plain (full_name xt t)" by (auto simp: full_name_def shown_wraps_def shown_name_def split: terminal.splits)
  assume m: "full_name xt t = ''musig''"
  have "shown_wraps t = []"
  proof (rule ccontr)
    assume "shown_wraps t \<noteq> []"
    then have "CHR '':'' \<in> set (full_name xt t)" by (simp add: full_name_def)
    then show False by (simp add: m)
  qed
  then have "shown_name xt t = ''musig''" using m by (simp add: full_name_def)
  then have "base_name xt (core t) = ''musig''" by (auto simp: shown_name_def split: if_splits terminal.splits)
  then show "leaf_args T xt (core t) = [] \<and> shown_children (core t) = []"
    using assms core_no_wrap [of t]
    by (cases "core t") (auto simp: leaf_readable_def shown_children_def dest: ext_tree_ok(3) split: if_splits)
qed

lemma core_child: "c \<in> set (shown_children (core t)) \<Longrightarrow> size c < size t"
  using shown_children_subset [of "core t"] size_children [of c "core t"] core_size [of t] by auto

lemma ms_child_size: "c \<in> set (shown_children (core (node m))) \<Longrightarrow> size c < size m"
  using core_child [of c "node m"] size_node_less [of m "size m"] by simp

text \<open>Induction over the miniscripts that are printed as arguments.\<close>

lemma printed_induct [consumes 1, case_names node]:
  assumes "every_node (text_good T xt) m"
    and step: "\<And>m. every_node (text_good T xt) m \<Longrightarrow> leaf_readable T xt (core (node m)) \<Longrightarrow>
       (\<And>c. c \<in> set (shown_children (core (node m))) \<Longrightarrow> text_good T xt c \<and> P c) \<Longrightarrow>
       (\<And>c. c \<in> set (children (core (node m))) \<Longrightarrow> text_good T xt c) \<Longrightarrow> P m"
  shows "P m"
  using assms(1)
proof (induction m rule: measure_induct_rule [where f = size])
  case (less m)
  obtain m' where m': "every_node (text_good T xt) m'" "node m' = core (node m)" using core_good [OF less.prems] by blast
  have kid: "every_node (text_good T xt) c" if "c \<in> set (children (core (node m)))" for c
    using every_node_child [OF m'(1)] that m'(2) by simp
  show ?case
  proof (rule step [OF less.prems])
    show "leaf_readable T xt (core (node m))" using every_node_root [OF m'(1)] m'(2) by (simp add: text_good_def)
    show "text_good T xt c \<and> P c" if "c \<in> set (shown_children (core (node m)))" for c
    proof -
      have "every_node (text_good T xt) c" using kid that shown_children_subset by blast
      then show ?thesis using less.IH [OF ms_child_size [OF that]] every_node_root by blast
    qed
    show "text_good T xt c" if "c \<in> set (children (core (node m)))" for c using kid [OF that] by (rule every_node_root)
  qed
qed

lemma ms_tree_ok:
  assumes "every_node (text_good T xt) m" "locks_decimal T"
  shows "tree_ok (ms_tree T xt (node m))"
  using assms(1)
proof (induction rule: printed_induct)
  case (node m)
  have "list_all tree_ok (leaf_args T xt (core (node m)))"
    using node(2) assms(2)
    by (cases "core (node m)") (auto simp: leaf_readable_def readable_def locks_decimal_def list_all_iff dest: ext_tree_ok(2))
  then show ?case using node full_name_plain [OF node(2)] by (subst ms_tree.simps) (auto simp: list_all_iff)
qed

lemma collect_po_good: "\<forall>x\<in>set xs. f (g x) = Some (Inr x) \<Longrightarrow> collect_po f (map g xs) = Some (Inr xs)"
  by (induction xs) auto

lemma multi_from_tree_good:
  assumes "k \<le> length pks" "k < 2 ^ 32" "list_all (readable (pk_show T) (pk_from_str T)) pks"
  shows "multi_from_tree T con (Tree (show_nat k) [] # map (\<lambda>pk. Tree (pk_show T pk) []) pks) = Inr (con k pks)"
proof -
  have "collect_res (\<lambda>sub. parse_terminal id sub (pk_from_str T)) (map (\<lambda>pk. Tree (pk_show T pk) []) pks) = Inr pks"
    using assms(3) by (auto simp: collect_res_Inr list_all2_conv_all_nth list_all_length parse_terminal_readable)
  moreover have "unat (of_nat k :: u32) = k" using assms(2) by (simp add: unat_of_nat)
  ultimately show ?thesis using assms(1) terminal_num_show [OF assms(2)] by (simp add: multi_from_tree_def map_res_def)
qed

lemma terminal_from_ms_tree:
  assumes "every_node (text_good T xt) m" "locks_decimal T"
  shows "terminal_from_tree T (ms_tree T xt (node m)) = Some (Inr (node m))"
  using assms(1)
proof (induction rule: printed_induct)
  case (node m)
  let ?t = "core (node m)"
  have split: "split_wrap (full_name xt (node m)) = Inr (wraps (node m), base_name xt ?t)" using node(2) by (rule split_wrap_full)
  have wrap: "wrap_loop T (rev (wraps (node m))) t = Some (Inr (node m))" if "?t = t" for t
    using wrap_loop_good [OF node(1)] that by simp
  have top: "make_checked T (node m) = Some (Inr m)" using node(1) make_good(2) every_node_root by blast
  have kid: "terminal_from_tree T (ms_tree T xt (node c)) = Some (Inr (node c))" "make T (node c) = Some (Inr c)"
    if "c \<in> set (shown_children ?t)" for c using node.IH [OF that] make_good(1) by blast+
  have hidden: "make T (node c) = Some (Inr c)" if "c \<in> set (children ?t)" for c using node.hyps(3) [OF that] make_good(1) by blast
  note core = split wrap top terminal_from_tree.simps [of T "full_name xt (node m)"] ms_tree.simps [of T xt "node m"]
    leaf_from_tree_def shown_children_def
  show ?case
  proof (cases ?t)
    case (AndOr a b c)
    then show ?thesis using kid [of a] kid [of b] kid [of c] hidden [of c] by (auto simp: core numeral_2_eq_2 numeral_3_eq_3)
  next
    case (Thresh k subs)
    have k: "0 < k" "k \<le> length subs" "k < 2 ^ 32" using node(2) Thresh by (auto simp: leaf_readable_def)
    have "collect_po (\<lambda>sub. bind_po (terminal_from_tree T sub) (make T)) (map (\<lambda>c. ms_tree T xt (node c)) subs) = Some (Inr subs)"
      using kid Thresh by (intro collect_po_good) (auto simp: shown_children_def)
    moreover have "unat (of_nat k :: u32) = k" using k(3) by (simp add: unat_of_nat)
    ultimately show ?thesis using Thresh k terminal_num_show [OF k(3)] by (auto simp: core)
  next
    case (ExtT e)
    then show ?thesis using node(2) by (auto simp: core leaf_readable_def ext_text_ok_def)
  qed (use node(2) kid core_no_wrap [of "node m"] assms(2) in
    \<open>auto simp: core leaf_readable_def locks_decimal_def parse_terminal_readable map_res_def multi_from_tree_good\<close>)
qed

lemma ms_from_ms_tree:
  assumes "every_node (text_good T xt) m" "locks_decimal T"
  shows "ms_from_tree T (ms_tree T xt (node m)) = Some (Inr m)"
  using terminal_from_ms_tree [OF assms] make_good(1) [OF every_node_root [OF assms(1)]] by (simp add: ms_from_tree_def)

interpretation miniscript_text: tree_text "\<lambda>m. ms_tree T xt (node m)" "ms_from_tree T" "\<lambda>m. Some (Inr m)"
    "\<lambda>m. locks_decimal T \<and> every_node (text_good T xt) m"
  for T :: "('pk, 'h, 'e, 'z) ms_text_env_scheme" and xt :: "'e \<Rightarrow> tree"
  by unfold_locales (simp_all add: ms_tree_ok ms_from_ms_tree)

lemma ms_from_show:
  assumes "locks_decimal T" "every_node (text_good T xt) m" "\<And>e. show_tree (xt e) = ext_show T e"
    and "tree_depth (ms_tree T xt (node m)) < MAX_RECURSION_DEPTH" "V (ms_show T m) = Inr ()"
  shows "ms_from_str_ext V T p (ms_show T m) =
      (case ext_check (mt_keys T) (mt_checks T) (mt_ctx T) p m of
         Inl e \<Rightarrow> Some (Inl (crate_error.AnalysisError e))
       | Inr _ \<Rightarrow> if base (corr (ty m)) \<noteq> Base_B then Some (Inl NonTopLevel) else Some (Inr m))"
  using miniscript_text.from_str_tree [of T xt m V] assms ms_show_tree [OF assms(3)]
  by (simp add: ms_from_str_ext_def ms_show_def map_err_def split: sum.splits)

end
