(* ===== verification/Demo_Text.thy ===== *)
theory Demo_Text
  imports Demo_Script Checksum Policy_Text Text_Miniscript
begin

text \<open>Printers and parsers for keys and hashes that are names, and the texts the witnesses use.\<close>

definition demo_text_env :: "(string, string) text_env" where
  "demo_text_env = \<lparr>pk_from_str = Inr, sha256_from_str = Inr, hash256_from_str = Inr, ripemd160_from_str = Inr, hash160_from_str = Inr,
     pk_show = id, sha256_show = id, hash256_show = id, ripemd160_show = id, hash160_show = id,
     lock_show = (\<lambda>t. show_nat (unat t)), sequence_show = (\<lambda>t. show_nat (unat t))\<rparr>"

definition string_keys :: "string key_info" where
  "string_keys = \<lparr>is_uncompressed = (\<lambda>_. False), is_x_only_key = (\<lambda>_. False), key_to_string = id\<rparr>"

definition demo_ms_text :: "(string, string, unit) ms_text_env" where
  "demo_ms_text = text_env.extend demo_text_env (ms_text_env.fields (\<lambda>_. Inl []) (\<lambda>_. []) (\<lambda>_ _. None) (\<lambda>_. ''ext'')
     Segwitv0 no_ext demo_lock string_keys no_ext_checks)"

definition demo_ext_tree :: "unit \<Rightarrow> tree" where
  "demo_ext_tree e = Tree ''ext'' []"

lemma demo_locks_decimal: "locks_decimal demo_text_env" "locks_decimal demo_ms_text"
  by (simp_all add: locks_decimal_def demo_text_env_def demo_ms_text_def text_env.defs ms_text_env.defs)

text \<open>\<open>and_v(v:pk(A),or_d(pkh(B),ltv:older(12)))\<close>.\<close>

definition text_ms :: "(string, string, unit) miniscript" where
  "text_ms = mk (AndV (mk (Verify (mk (Check (mk (PkK ''A''))))))
     (mk (OrD (mk (Check (mk (PkH ''B'')))) (mk (OrI (mk FalseT) (mk (AndV (mk (Verify (mk (terminal.Older 12)))) (mk TrueT))))))))"

lemma text_ms_show: "ms_show demo_ms_text text_ms = ''and_v(v:pk(A),or_d(pkh(B),ltv:older(12)))''"
  by code_simp

lemma text_ms_parts:
  "ms_wf no_ext demo_lock Ecdsa text_ms"
  "every_node (\<lambda>m. check_global_validity string_keys no_ext_checks Segwitv0 m = Inr ()) text_ms"
  "every_node (\<lambda>m. leaf_readable demo_ms_text demo_ext_tree (node m)) text_ms"
  by code_simp+

lemma demo_ms_text_sel:
  "mt_keys demo_ms_text = string_keys" "mt_checks demo_ms_text = no_ext_checks" "mt_ctx demo_ms_text = Segwitv0"
  "mt_ext demo_ms_text = no_ext" "mt_lock demo_ms_text = demo_lock" "ext_show demo_ms_text = (\<lambda>_. ''ext'')"
  by (simp_all add: demo_ms_text_def text_env.defs ms_text_env.defs)

lemma text_ms_good: "every_node (text_good demo_ms_text demo_ext_tree) text_ms"
  using every_node_conj [OF text_ms_parts(1) [unfolded ms_wf_def] every_node_conj [OF text_ms_parts(2,3)]]
  by (simp add: text_good_def [abs_def] demo_ms_text_sel)

lemma text_ms_depth: "tree_depth (ms_tree demo_ms_text demo_ext_tree (node text_ms)) < MAX_RECURSION_DEPTH"
  by (simp add: text_ms_def ms_tree_base ms_tree_depth shown_children_def MAX_RECURSION_DEPTH_def)

text \<open>\<open>or(9@and(pk(A),after(100)),1@thresh(2,pk(B),pk(C),sha256(H)))\<close>.\<close>

definition demo_concrete :: "(string, string) concrete" where
  "demo_concrete = COr [(9, CAnd [CKey ''A'', CAfter 100]), (1, CThreshold 2 [CKey ''B'', CKey ''C'', CSha256 ''H''])]"

lemma demo_concrete_ok:
  "parseable demo_text_env demo_concrete" "tree_depth (concrete_to_tree demo_text_env demo_concrete) < MAX_RECURSION_DEPTH"
  "check_timelocks demo_lock demo_concrete = Inr ()" "is_valid demo_lock demo_concrete = Inr ()"
  by (simp add: demo_concrete_def readable_def demo_text_env_def, simp add: demo_concrete_def MAX_RECURSION_DEPTH_def, code_simp+)

lemma demo_one_unit: "one_unit demo_lock"
  by (auto simp: one_unit_def demo_lock_def)

lemma demo_checksum: "\<exists>k. desc_checksum ''pk'' = Inr k" "\<exists>k. desc_checksum ''pj'' = Inr k"
  by (simp_all add: desc_checksum_def INPUT_CHARSET_def split: prod.splits)

end
