(* ===== verification/Ext_Index.thy ===== *)
theory Ext_Index
  imports Text_Tree Decode
begin

text \<open>
  Index expressions (\<open>extensions/index_ops.rs\<close>): the input and output indices that the covenant fragments
  compute with. \<open>usize\<close> values are below \<open>2 ^ 64\<close>; arithmetic that leaves this range, and a division
  by zero, is a panic.
\<close>

section \<open>Data and text\<close>

datatype idx_expr =
    IConst nat
  | CurrIdx
  | IAdd idx_expr idx_expr
  | ISub idx_expr idx_expr
  | IMul idx_expr idx_expr
  | IDiv idx_expr idx_expr

fun idx_script_size :: "idx_expr \<Rightarrow> nat" where
  "idx_script_size (IConst i) = script_num_size i"
| "idx_script_size CurrIdx = 1"
| "idx_script_size (IAdd x y) = idx_script_size x + idx_script_size y + 1"
| "idx_script_size (ISub x y) = idx_script_size x + idx_script_size y + 1"
| "idx_script_size (IMul x y) = idx_script_size x + idx_script_size y + 6"
| "idx_script_size (IDiv x y) = idx_script_size x + idx_script_size y + 7"

fun idx_show :: "idx_expr \<Rightarrow> string" where
  "idx_show (IConst i) = show_nat i"
| "idx_show CurrIdx = ''curr_idx''"
| "idx_show (IAdd x y) = ''idx_add('' @ idx_show x @ '','' @ idx_show y @ '')''"
| "idx_show (ISub x y) = ''idx_sub('' @ idx_show x @ '','' @ idx_show y @ '')''"
| "idx_show (IMul x y) = ''idx_mul('' @ idx_show x @ '','' @ idx_show y @ '')''"
| "idx_show (IDiv x y) = ''idx_div('' @ idx_show x @ '','' @ idx_show y @ '')''"

text \<open>The error shows the tree with \<open>Debug\<close>, which the model replaces by its text.\<close>

fun idx_from_tree :: "tree \<Rightarrow> crate_error + idx_expr" where
  "idx_from_tree (Tree name args) =
     (if name = ''curr_idx'' \<and> args = [] then Inr CurrIdx
      else if name \<in> {''idx_add'', ''idx_sub'', ''idx_mul'', ''idx_div''} \<and> length args = 2 then
        bind_res (idx_from_tree (args ! 0)) (\<lambda>x.
        bind_res (idx_from_tree (args ! 1)) (\<lambda>y.
          Inr (if name = ''idx_add'' then IAdd x y
               else if name = ''idx_sub'' then ISub x y
               else if name = ''idx_mul'' then IMul x y
               else IDiv x y)))
      else if args = [] then map_res IConst (parse_terminal num_error_string (Tree name args) (expr_parse_num (uint_from_str 64)))
      else Inl (Unexpected (''Unexpected token: '' @ show_tree (Tree name args))))"

declare idx_from_tree.simps [simp del]

section \<open>Script\<close>

text \<open>\<open>*i as i64\<close>.\<close>

definition usize_as_i64 :: "nat \<Rightarrow> int" where
  "usize_as_i64 i = sint (of_nat i :: 64 word)"

fun idx_push :: "('b, 'pk, 'h, 'e) builder \<Rightarrow> idx_expr \<Rightarrow> 'b \<Rightarrow> 'b" where
  "idx_push B (IConst i) b = push_int B b (usize_as_i64 i)"
| "idx_push B CurrIdx b = push_opcode B b OP_PUSHCURRENTINPUTINDEX"
| "idx_push B (IAdd x y) b = push_opcode B (idx_push B y (idx_push B x b)) OP_ADD"
| "idx_push B (ISub x y) b = push_opcode B (idx_push B y (idx_push B x b)) OP_SUB"
| "idx_push B (IMul x y) b =
     (let b = push_opcode B (idx_push B x b) OP_SCRIPTNUMTOLE64;
          b = push_opcode B (idx_push B y b) OP_SCRIPTNUMTOLE64;
          b = push_int B (push_opcode B b OP_MUL64) 1
      in push_opcode B (push_opcode B b OP_EQUALVERIFY) OP_LE64TOSCRIPTNUM)"
| "idx_push B (IDiv x y) b =
     (let b = push_opcode B (idx_push B x b) OP_SCRIPTNUMTOLE64;
          b = push_opcode B (idx_push B y b) OP_SCRIPTNUMTOLE64;
          b = push_int B (push_opcode B b OP_DIV64) 1
      in push_opcode B (push_opcode B (push_opcode B b OP_EQUALVERIFY) OP_NIP) OP_LE64TOSCRIPTNUM)"

section \<open>Evaluation\<close>

definition checked_usize :: "int \<Rightarrow> nat option" where
  "checked_usize v = (if 0 \<le> v \<and> v < 2 ^ 64 then Some (nat v) else None)"

text \<open>The index of the current input is all that the transaction contributes. The code never returns an error.\<close>

fun idx_eval :: "nat \<Rightarrow> idx_expr \<Rightarrow> nat option" where
  "idx_eval idx (IConst i) = Some i"
| "idx_eval idx CurrIdx = Some idx"
| "idx_eval idx (IAdd x y) =
     Option.bind (idx_eval idx x) (\<lambda>a. Option.bind (idx_eval idx y) (\<lambda>b. checked_usize (int a + int b)))"
| "idx_eval idx (ISub x y) =
     Option.bind (idx_eval idx x) (\<lambda>a. Option.bind (idx_eval idx y) (\<lambda>b. checked_usize (int a - int b)))"
| "idx_eval idx (IMul x y) =
     Option.bind (idx_eval idx x) (\<lambda>a. Option.bind (idx_eval idx y) (\<lambda>b. checked_usize (int a * int b)))"
| "idx_eval idx (IDiv x y) =
     Option.bind (idx_eval idx x) (\<lambda>a. Option.bind (idx_eval idx y) (\<lambda>b. if b = 0 then None else Some (a div b)))"

section \<open>Reading tokens from the end\<close>

text \<open>\<open>tks.get(a..b)\<close>.\<close>

definition get_range :: "'a list \<Rightarrow> nat \<Rightarrow> nat \<Rightarrow> 'a list option" where
  "get_range tks a b = (if a \<le> b \<and> b \<le> length tks then Some (take (b - a) (drop a tks)) else None)"

text \<open>One operand, or two with the second one first, ending at a position.\<close>

definition read_one :: "(nat \<Rightarrow> ('a \<times> nat) option) \<Rightarrow> ('a \<Rightarrow> 'b) \<Rightarrow> nat \<Rightarrow> ('b \<times> nat) option" where
  "read_one rd con e = Option.bind (rd e) (\<lambda>(x, e). Some (con x, e))"

definition read_two :: "(nat \<Rightarrow> ('a \<times> nat) option) \<Rightarrow> ('a \<Rightarrow> 'a \<Rightarrow> 'b) \<Rightarrow> nat \<Rightarrow> ('b \<times> nat) option" where
  "read_two rd con e = Option.bind (rd e) (\<lambda>(y, e). Option.bind (rd e) (\<lambda>(x, e). Some (con x y, e)))"

text \<open>Two operands with \<open>SCRIPTNUMTOLE64\<close> after the first.\<close>

definition two_le64 :: "(nat \<Rightarrow> ('a \<times> nat) option) \<Rightarrow> token list \<Rightarrow> ('a \<Rightarrow> 'a \<Rightarrow> 'b) \<Rightarrow> nat \<Rightarrow> ('b \<times> nat) option" where
  "two_le64 rd tks con e =
     Option.bind (rd e) (\<lambda>(y, e).
       if e < 1 then None
       else if get_range tks (e - 1) e = Some [ScriptNumToLe64] then Option.bind (rd (e - 1)) (\<lambda>(x, e). Some (con x y, e))
       else None)"

lemma read_one_cong [fundef_cong]: "e = e' \<Longrightarrow> rd e' = rd' e' \<Longrightarrow> con = con' \<Longrightarrow> read_one rd con e = read_one rd' con' e'"
  by (simp add: read_one_def)

lemma read_two_cong [fundef_cong]:
  "e = e' \<Longrightarrow> rd e' = rd' e' \<Longrightarrow> (\<And>y p. rd' e' = Some (y, p) \<Longrightarrow> rd p = rd' p) \<Longrightarrow> con = con' \<Longrightarrow>
     read_two rd con e = read_two rd' con' e'"
  by (auto simp: read_two_def intro!: bind_option_cong)

lemma two_le64_cong [fundef_cong]:
  "e = e' \<Longrightarrow> rd e' = rd' e' \<Longrightarrow> (\<And>y p. rd' e' = Some (y, p) \<Longrightarrow> 1 \<le> p \<Longrightarrow> rd (p - 1) = rd' (p - 1)) \<Longrightarrow> con = con' \<Longrightarrow> tks = tks' \<Longrightarrow>
     two_le64 rd tks con e = two_le64 rd' tks' con' e'"
  by (auto simp: two_le64_def intro!: bind_option_cong)

lemma operand_position:
  "read_one rd con1 e = Some (z, p) \<Longrightarrow> (\<And>x q. rd e = Some (x, q) \<Longrightarrow> q < e) \<Longrightarrow> p < e"
  "read_two rd con e = Some (z, p) \<Longrightarrow> (\<And>y q. rd e = Some (y, q) \<Longrightarrow> q < e) \<Longrightarrow>
     (\<And>y q x r. rd e = Some (y, q) \<Longrightarrow> rd q = Some (x, r) \<Longrightarrow> r < q) \<Longrightarrow> p < e"
  "two_le64 rd tks con e = Some (z, p) \<Longrightarrow> (\<And>y q. rd e = Some (y, q) \<Longrightarrow> q < e) \<Longrightarrow>
     (\<And>y q x r. rd e = Some (y, q) \<Longrightarrow> 1 \<le> q \<Longrightarrow> rd (q - 1) = Some (x, r) \<Longrightarrow> r < q - 1) \<Longrightarrow> p < e"
  by (fastforce simp: read_one_def read_two_def two_le64_def bind_eq_Some_conv split: if_splits)+

text \<open>The pattern \<open>[Tk::Num(i)]\<close>.\<close>

fun num_range :: "token list \<Rightarrow> u32 option" where
  "num_range [t] = as_num t"
| "num_range _ = None"

text \<open>
  The arm of the chain of patterns that applies at a position, with the number of tokens it matches and what it
  does with the operands before them: nothing, one operand, two, two with \<open>SCRIPTNUMTOLE64\<close> between them, or an index.
\<close>

datatype 'x arm =
    Done 'x nat
  | Unary "'x \<Rightarrow> 'x" nat
  | Binary "'x \<Rightarrow> 'x \<Rightarrow> 'x" nat
  | BinaryLe64 "'x \<Rightarrow> 'x \<Rightarrow> 'x" nat
  | Indexed "idx_expr \<Rightarrow> 'x" nat

fun arm_len :: "'x arm \<Rightarrow> nat" where
  "arm_len (Done _ n) = n"
| "arm_len (Unary _ n) = n"
| "arm_len (Binary _ n) = n"
| "arm_len (BinaryLe64 _ n) = n"
| "arm_len (Indexed _ n) = n"

definition idx_arm :: "token list \<Rightarrow> nat \<Rightarrow> idx_expr arm option" where
  "idx_arm tks e =
     (if e < 1 then None
      else case Option.bind (get_range tks (e - 1) e) num_range of
        Some i \<Rightarrow> Some (Done (IConst (unat i)) 1)
      | None \<Rightarrow>
        if get_range tks (e - 1) e = Some [CurrInp] then Some (Done CurrIdx 1)
        else if get_range tks (e - 1) e = Some [Add] then Some (Binary IAdd 1)
        else if get_range tks (e - 1) e = Some [Sub] then Some (Binary ISub 1)
        else if e < 6 then None
        else if get_range tks (e - 6) e = Some [ScriptNumToLe64, Mul64, Num 1, Equal, VerifyTk, Le64ToScriptNum] then
          Some (BinaryLe64 IMul 6)
        else if e < 7 then None
        else if get_range tks (e - 7) e = Some [ScriptNumToLe64, Div64, Num 1, Equal, VerifyTk, Nip, Le64ToScriptNum] then
          Some (BinaryLe64 IDiv 7)
        else None)"

lemma idx_arm_len: "idx_arm tks e = Some a \<Longrightarrow> 1 \<le> arm_len a \<and> arm_len a \<le> e"
  by (auto simp: idx_arm_def split: if_splits option.splits)

function idx_from_tokens :: "token list \<Rightarrow> nat \<Rightarrow> (idx_expr \<times> nat) option" where
  "idx_from_tokens tks e =
     (case idx_arm tks e of
        Some (Done x n) \<Rightarrow> Some (x, e - n)
      | Some (Binary con n) \<Rightarrow> read_two (idx_from_tokens tks) con (e - n)
      | Some (BinaryLe64 con n) \<Rightarrow> two_le64 (idx_from_tokens tks) tks con (e - n)
      | _ \<Rightarrow> None)"
  by pat_completeness auto
termination
proof -
  have shorter: "p < e" if "idx_from_tokens_dom (tks, e)" "idx_from_tokens tks e = Some (x, p)" for tks e x p
    using that
  proof (induction tks e arbitrary: x p rule: idx_from_tokens.pinduct)
    case (1 tks e)
    note eq = "1.prems" [unfolded idx_from_tokens.psimps [OF "1.hyps"]]
    then obtain a where a: "idx_arm tks e = Some a" by (auto split: option.splits)
    note len = idx_arm_len [OF a]
    show ?case
    proof (cases a)
      case (Binary con n)
      then have "read_two (idx_from_tokens tks) con (e - n) = Some (x, p)" using eq a by simp
      then have "p < e - n" by (rule operand_position(2)) (use "1.IH"(1,2) a Binary in blast)+
      then show ?thesis by simp
    next
      case (BinaryLe64 con n)
      then have "two_le64 (idx_from_tokens tks) tks con (e - n) = Some (x, p)" using eq a by simp
      then have "p < e - n" by (rule operand_position(3)) (use "1.IH"(3,4) a BinaryLe64 in blast)+
      then show ?thesis by simp
    qed (use eq a len in auto)
  qed
  have "e - n < e" if "idx_arm tks e = Some a" "arm_len a = n" for tks e a n using idx_arm_len [OF that(1)] that(2) by auto
  then show "All idx_from_tokens_dom"
    by (relation "measure snd") (force dest: shorter)+
qed

declare idx_from_tokens.simps [simp del]

section \<open>Text round trip\<close>

fun idx_to_tree :: "idx_expr \<Rightarrow> tree" where
  "idx_to_tree (IConst i) = Tree (show_nat i) []"
| "idx_to_tree CurrIdx = Tree ''curr_idx'' []"
| "idx_to_tree (IAdd x y) = Tree ''idx_add'' [idx_to_tree x, idx_to_tree y]"
| "idx_to_tree (ISub x y) = Tree ''idx_sub'' [idx_to_tree x, idx_to_tree y]"
| "idx_to_tree (IMul x y) = Tree ''idx_mul'' [idx_to_tree x, idx_to_tree y]"
| "idx_to_tree (IDiv x y) = Tree ''idx_div'' [idx_to_tree x, idx_to_tree y]"

fun idx_below :: "nat \<Rightarrow> idx_expr \<Rightarrow> bool" where
  "idx_below n (IConst i) = (i < n)"
| "idx_below n CurrIdx = True"
| "idx_below n (IAdd x y) = (idx_below n x \<and> idx_below n y)"
| "idx_below n (ISub x y) = (idx_below n x \<and> idx_below n y)"
| "idx_below n (IMul x y) = (idx_below n x \<and> idx_below n y)"
| "idx_below n (IDiv x y) = (idx_below n x \<and> idx_below n y)"

lemma idx_show_tree: "show_tree (idx_to_tree x) = idx_show x"
  by (induction x) auto

lemma idx_tree_ok: "tree_ok (idx_to_tree x)"
  by (induction x) auto

lemma show_nat_not_name: "\<exists>c\<in>set s. digit_of c = None \<Longrightarrow> show_nat n \<noteq> s"
  using set_show_nat [of _ n] digit_of_char by fastforce

lemma idx_from_to_tree: "idx_below (2 ^ 64) x \<Longrightarrow> idx_from_tree (idx_to_tree x) = Inr x"
proof (induction x)
  case (IConst i)
  then have "expr_parse_num (uint_from_str 64) (show_nat i) = Inr i" by (intro expr_parse_num_nat uint_from_show) simp
  moreover have "show_nat i \<noteq> ''curr_idx''" by (rule show_nat_not_name) (simp add: digit_of_def)
  ultimately show ?case by (simp add: idx_from_tree.simps parse_terminal_def map_err_def map_res_def)
qed (simp_all add: idx_from_tree.simps)

section \<open>Tokens of an index\<close>

fun idx_toks :: "idx_expr \<Rightarrow> token list" where
  "idx_toks (IConst i) = [Num (of_nat i)]"
| "idx_toks CurrIdx = [CurrInp]"
| "idx_toks (IAdd x y) = idx_toks x @ idx_toks y @ [Add]"
| "idx_toks (ISub x y) = idx_toks x @ idx_toks y @ [Sub]"
| "idx_toks (IMul x y) =
     idx_toks x @ [ScriptNumToLe64] @ idx_toks y @ [ScriptNumToLe64, Mul64, Num 1, Equal, VerifyTk, Le64ToScriptNum]"
| "idx_toks (IDiv x y) =
     idx_toks x @ [ScriptNumToLe64] @ idx_toks y @ [ScriptNumToLe64, Div64, Num 1, Equal, VerifyTk, Nip, Le64ToScriptNum]"

lemma get_range_Some:
  "get_range tks a b = Some ts \<longleftrightarrow> a \<le> b \<and> b \<le> length tks \<and> length ts = b - a \<and> take b tks = take a tks @ ts"
proof -
  have "take b tks = take a tks @ take (b - a) (drop a tks)" if "a \<le> b" using take_add [of a "b - a" tks] that by simp
  then show ?thesis by (auto simp: get_range_def)
qed

lemma num_range_Some: "num_range ts = Some i \<longleftrightarrow> ts = [Num i]"
  by (cases ts rule: num_range.cases) (auto elim: as_num.elims)

text \<open>What a reader of operands returns ends at the given position.\<close>

definition reads :: "token list \<Rightarrow> (nat \<Rightarrow> ('a \<times> nat) option) \<Rightarrow> ('a \<Rightarrow> token list) \<Rightarrow> nat \<Rightarrow> bool" where
  "reads tks rd ts e \<longleftrightarrow> (\<forall>x p. rd e = Some (x, p) \<longrightarrow> p < e \<and> take e tks = take p tks @ ts x)"

lemma read_two_reads:
  assumes "read_two rd con e = Some (z, p)" "reads tks rd ts e" "\<And>y q. rd e = Some (y, q) \<Longrightarrow> reads tks rd ts q"
  obtains x y where "z = con x y" "p < e" "take e tks = take p tks @ ts x @ ts y"
  using assms by (fastforce simp: read_two_def reads_def bind_eq_Some_conv)

lemma two_le64_reads:
  assumes "two_le64 rd tks con e = Some (z, p)" "reads tks rd ts e" "\<And>y q. rd e = Some (y, q) \<Longrightarrow> 1 \<le> q \<Longrightarrow> reads tks rd ts (q - 1)"
  obtains x y where "z = con x y" "p < e" "take e tks = take p tks @ ts x @ [ScriptNumToLe64] @ ts y"
  using assms by (fastforce simp: two_le64_def reads_def bind_eq_Some_conv get_range_Some split: if_splits)

lemma u32_below: "unat (i :: u32) < 4294967296"
  using unsigned_less [of i] by simp

lemma idx_arm_sound:
  assumes "idx_arm tks e = Some a"
  shows "case a of
      Done x n \<Rightarrow> n \<le> e \<and> 0 < n \<and> take e tks = take (e - n) tks @ idx_toks x \<and> idx_below (2 ^ 32) x
    | Binary con n \<Rightarrow> n \<le> e \<and> (\<exists>ts. take e tks = take (e - n) tks @ ts \<and>
        (\<forall>x y. idx_toks (con x y) = idx_toks x @ idx_toks y @ ts \<and> (idx_below (2 ^ 32) (con x y) \<longleftrightarrow> idx_below (2 ^ 32) x \<and> idx_below (2 ^ 32) y)))
    | BinaryLe64 con n \<Rightarrow> n \<le> e \<and> (\<exists>ts. take e tks = take (e - n) tks @ ts \<and>
        (\<forall>x y. idx_toks (con x y) = idx_toks x @ [ScriptNumToLe64] @ idx_toks y @ ts
           \<and> (idx_below (2 ^ 32) (con x y) \<longleftrightarrow> idx_below (2 ^ 32) x \<and> idx_below (2 ^ 32) y)))
    | _ \<Rightarrow> False"
  using assms u32_below
  by (auto simp: idx_arm_def get_range_Some num_range_Some bind_eq_Some_conv split: if_splits option.splits)

lemma idx_from_tokens_sound: "reads tks (idx_from_tokens tks) idx_toks e \<and> (\<forall>x p. idx_from_tokens tks e = Some (x, p) \<longrightarrow> idx_below (2 ^ 32) x)"
proof (induction tks e rule: idx_from_tokens.induct)
  case (1 tks e)
  show ?case
  proof (cases "idx_arm tks e")
    case None
    then show ?thesis by (simp add: reads_def idx_from_tokens.simps)
  next
    case (Some a)
    note sound = idx_arm_sound [OF Some]
    show ?thesis
    proof (cases a)
      case (Done x n)
      then show ?thesis using sound by (auto simp: reads_def idx_from_tokens.simps [of tks e] Some)
    next
      case (Binary con n)
      then have eq: "idx_from_tokens tks e = read_two (idx_from_tokens tks) con (e - n)" by (simp add: idx_from_tokens.simps [of tks e] Some)
      note ih = "1.IH"(1,2) [OF Some Binary]
      have "p < e \<and> take e tks = take p tks @ idx_toks z \<and> idx_below (2 ^ 32) z"
        if z: "read_two (idx_from_tokens tks) con (e - n) = Some (z, p)" for z p
      proof -
        obtain y q x where xy: "idx_from_tokens tks (e - n) = Some (y, q)" "idx_from_tokens tks q = Some (x, p)" "z = con x y"
          using z by (auto simp: read_two_def bind_eq_Some_conv)
        then show ?thesis using ih(1) ih(2) [OF xy(1)] sound Binary by (fastforce simp: reads_def)
      qed
      then show ?thesis by (simp add: reads_def eq)
    next
      case (BinaryLe64 con n)
      then have eq: "idx_from_tokens tks e = two_le64 (idx_from_tokens tks) tks con (e - n)" by (simp add: idx_from_tokens.simps [of tks e] Some)
      note ih = "1.IH"(3,4) [OF Some BinaryLe64]
      have "p < e \<and> take e tks = take p tks @ idx_toks z \<and> idx_below (2 ^ 32) z"
        if z: "two_le64 (idx_from_tokens tks) tks con (e - n) = Some (z, p)" for z p
      proof -
        obtain y q x where xy: "idx_from_tokens tks (e - n) = Some (y, q)" "1 \<le> q" "get_range tks (q - 1) q = Some [ScriptNumToLe64]"
            "idx_from_tokens tks (q - 1) = Some (x, p)" "z = con x y"
          using z by (auto simp: two_le64_def bind_eq_Some_conv not_less split: if_splits)
        then have "take q tks = take (q - 1) tks @ [ScriptNumToLe64]" by (simp add: get_range_Some)
        then show ?thesis using xy ih(1) ih(2) [OF xy(1,2)] sound BinaryLe64 by (fastforce simp: reads_def)
      qed
      then show ?thesis by (simp add: reads_def eq)
    qed (use sound in auto)
  qed
qed

lemma idx_arm_toks:
  "idx_arm (front @ [Num i] @ post) (Suc (length front)) = Some (Done (IConst (unat i)) 1)"
  "idx_arm (front @ [CurrInp] @ post) (Suc (length front)) = Some (Done CurrIdx 1)"
  "idx_arm (front @ [Add] @ post) (Suc (length front)) = Some (Binary IAdd 1)"
  "idx_arm (front @ [Sub] @ post) (Suc (length front)) = Some (Binary ISub 1)"
  "idx_arm (front @ [ScriptNumToLe64, Mul64, Num 1, Equal, VerifyTk, Le64ToScriptNum] @ post) (length front + 6) = Some (BinaryLe64 IMul 6)"
  "idx_arm (front @ [ScriptNumToLe64, Div64, Num 1, Equal, VerifyTk, Nip, Le64ToScriptNum] @ post) (length front + 7) = Some (BinaryLe64 IDiv 7)"
  by (simp_all add: idx_arm_def get_range_def)

lemma idx_read_two:
  "idx_arm tks e = Some (Binary con n) \<Longrightarrow> idx_from_tokens tks (e - n) = Some (y, q) \<Longrightarrow> idx_from_tokens tks q = Some (x, p) \<Longrightarrow>
     idx_from_tokens tks e = Some (con x y, p)"
  by (simp add: idx_from_tokens.simps [of tks e] read_two_def)

lemma idx_read_le64:
  "idx_arm tks e = Some (BinaryLe64 con n) \<Longrightarrow> idx_from_tokens tks (e - n) = Some (y, Suc q) \<Longrightarrow> get_range tks q (Suc q) = Some [ScriptNumToLe64] \<Longrightarrow>
     idx_from_tokens tks q = Some (x, p) \<Longrightarrow> idx_from_tokens tks e = Some (con x y, p)"
  by (simp add: idx_from_tokens.simps [of tks e] two_le64_def)

lemma idx_from_toks:
  "idx_below (2 ^ 32) x \<Longrightarrow> idx_from_tokens (pre @ idx_toks x @ post) (length pre + length (idx_toks x)) = Some (x, length pre)"
proof (induction x arbitrary: pre post)
  case (IConst i)
  then have "unat (of_nat i :: u32) = i" by (simp add: unat_of_nat)
  then show ?case using idx_arm_toks(1) [of pre "of_nat i" post] IConst by (simp add: idx_from_tokens.simps)
next
  case CurrIdx
  then show ?case using idx_arm_toks(2) [of pre post] by (simp add: idx_from_tokens.simps)
next
  case (IAdd x y)
  have "idx_from_tokens (pre @ idx_toks (IAdd x y) @ post) (length pre + length (idx_toks (IAdd x y))) = Some (IAdd x y, length pre)"
    using IAdd.IH(1) [of pre "idx_toks y @ Add # post"] IAdd.IH(2) [of "pre @ idx_toks x" "Add # post"] IAdd.prems
      idx_arm_toks(3) [of "pre @ idx_toks x @ idx_toks y" post]
    by (intro idx_read_two [where con = IAdd and n = 1 and q = "length pre + length (idx_toks x)"]) (simp_all add: add.assoc)
  then show ?case .
next
  case (ISub x y)
  have "idx_from_tokens (pre @ idx_toks (ISub x y) @ post) (length pre + length (idx_toks (ISub x y))) = Some (ISub x y, length pre)"
    using ISub.IH(1) [of pre "idx_toks y @ Sub # post"] ISub.IH(2) [of "pre @ idx_toks x" "Sub # post"] ISub.prems
      idx_arm_toks(4) [of "pre @ idx_toks x @ idx_toks y" post]
    by (intro idx_read_two [where con = ISub and n = 1 and q = "length pre + length (idx_toks x)"]) (simp_all add: add.assoc)
  then show ?case .
next
  case (IMul x y)
  let ?ops = "[ScriptNumToLe64, Mul64, Num 1, Equal, VerifyTk, Le64ToScriptNum] @ post" and ?e = "length (pre @ idx_toks x @ [ScriptNumToLe64] @ idx_toks y) + 6"
  have "length pre + length (idx_toks (IMul x y)) = ?e" by simp
  moreover have "idx_from_tokens (pre @ idx_toks (IMul x y) @ post) ?e = Some (IMul x y, length pre)"
  proof (rule idx_read_le64 [where con = IMul and n = 6 and q = "length pre + length (idx_toks x)"])
    show "idx_arm (pre @ idx_toks (IMul x y) @ post) ?e = Some (BinaryLe64 IMul 6)"
      using idx_arm_toks(5) [of "pre @ idx_toks x @ [ScriptNumToLe64] @ idx_toks y" post] by simp
    show "idx_from_tokens (pre @ idx_toks (IMul x y) @ post) (?e - 6) = Some (y, Suc (length pre + length (idx_toks x)))"
      using IMul.IH(2) [of "pre @ idx_toks x @ [ScriptNumToLe64]" ?ops] IMul.prems by (simp add: add.assoc)
    show "idx_from_tokens (pre @ idx_toks (IMul x y) @ post) (length pre + length (idx_toks x)) = Some (x, length pre)"
      using IMul.IH(1) [of pre "ScriptNumToLe64 # idx_toks y @ ?ops"] IMul.prems by simp
  qed (simp add: get_range_def)
  ultimately show ?case by (simp only:)
next
  case (IDiv x y)
  let ?ops = "[ScriptNumToLe64, Div64, Num 1, Equal, VerifyTk, Nip, Le64ToScriptNum] @ post" and ?e = "length (pre @ idx_toks x @ [ScriptNumToLe64] @ idx_toks y) + 7"
  have "length pre + length (idx_toks (IDiv x y)) = ?e" by simp
  moreover have "idx_from_tokens (pre @ idx_toks (IDiv x y) @ post) ?e = Some (IDiv x y, length pre)"
  proof (rule idx_read_le64 [where con = IDiv and n = 7 and q = "length pre + length (idx_toks x)"])
    show "idx_arm (pre @ idx_toks (IDiv x y) @ post) ?e = Some (BinaryLe64 IDiv 7)"
      using idx_arm_toks(6) [of "pre @ idx_toks x @ [ScriptNumToLe64] @ idx_toks y" post] by simp
    show "idx_from_tokens (pre @ idx_toks (IDiv x y) @ post) (?e - 7) = Some (y, Suc (length pre + length (idx_toks x)))"
      using IDiv.IH(2) [of "pre @ idx_toks x @ [ScriptNumToLe64]" ?ops] IDiv.prems by (simp add: add.assoc)
    show "idx_from_tokens (pre @ idx_toks (IDiv x y) @ post) (length pre + length (idx_toks x)) = Some (x, length pre)"
      using IDiv.IH(1) [of pre "ScriptNumToLe64 # idx_toks y @ ?ops"] IDiv.prems by simp
  qed (simp add: get_range_def)
  ultimately show ?case by (simp only:)
qed

section \<open>The script of an index\<close>

fun idx_asm :: "idx_expr \<Rightarrow> instruction list" where
  "idx_asm (IConst i) = [int_instruction (usize_as_i64 i)]"
| "idx_asm CurrIdx = [Op OP_PUSHCURRENTINPUTINDEX]"
| "idx_asm (IAdd x y) = idx_asm x @ idx_asm y @ [Op OP_ADD]"
| "idx_asm (ISub x y) = idx_asm x @ idx_asm y @ [Op OP_SUB]"
| "idx_asm (IMul x y) =
     idx_asm x @ [Op OP_SCRIPTNUMTOLE64] @ idx_asm y
       @ [Op OP_SCRIPTNUMTOLE64, Op OP_MUL64, int_instruction 1, Op OP_EQUALVERIFY, Op OP_LE64TOSCRIPTNUM]"
| "idx_asm (IDiv x y) =
     idx_asm x @ [Op OP_SCRIPTNUMTOLE64] @ idx_asm y
       @ [Op OP_SCRIPTNUMTOLE64, Op OP_DIV64, int_instruction 1, Op OP_EQUALVERIFY, Op OP_NIP, Op OP_LE64TOSCRIPTNUM]"

lemma idx_push_asm:
  assumes "builder_ok B"
  shows "instructions B (idx_push B x b) = instructions B b @ idx_asm x"
  by (induction x arbitrary: b) (simp_all add: builder_simps [OF assms] op_instruction_def Let_def)

lemma usize_as_i64_small: "i < 2 ^ 63 \<Longrightarrow> usize_as_i64 i = int i"
  by (simp add: usize_as_i64_def signed_of_nat signed_take_bit_int_eq_self)

lemma int_instruction_size: "n < 2 ^ 31 \<Longrightarrow> instruction_size (int_instruction (int n)) = script_num_size n"
  using script_num_size_scriptint [of n] build_scriptint_short [of n]
  by (auto simp: int_instruction_def script_num_size_def)

lemma idx_asm_size: "idx_below (2 ^ 31) x \<Longrightarrow> sum_list (map instruction_size (idx_asm x)) = idx_script_size x"
  by (induction x) (auto simp: usize_as_i64_small int_instruction_size int_instruction_size [of 1, simplified] script_num_size_def)

lemma lexes_idx_ops:
  "lexes L [Op OP_PUSHCURRENTINPUTINDEX] [CurrInp]" "lexes L [Op OP_ADD] [Add]" "lexes L [Op OP_SUB] [Sub]"
  "lexes L [Op OP_SCRIPTNUMTOLE64] [ScriptNumToLe64]" "lexes L [Op OP_MUL64] [Mul64]" "lexes L [Op OP_DIV64] [Div64]"
  "lexes L [Op OP_EQUALVERIFY] [Equal, VerifyTk]" "lexes L [Op OP_LE64TOSCRIPTNUM] [Le64ToScriptNum]" "lexes L [Op OP_NIP] [Nip]"
  "lexes L [Op OP_DROP] [Drop]"
  by (auto intro: lexes_op)

lemma lexes_cons: "lexes L [i] ts \<Longrightarrow> lexes L is us \<Longrightarrow> lexes L (i # is) (ts @ us)"
  using lexes_append [of L "[i]" ts "is" us] by simp

lemma idx_lexes:
  assumes "lex_lib_ok L"
  shows "idx_below (2 ^ 31) x \<Longrightarrow> lexes L (idx_asm x) (idx_toks x)"
proof (induction x)
  case (IConst i)
  then show ?case using lexes_int [OF assms, of i] by (simp add: usize_as_i64_small)
next
  case (IMul x y)
  have "lexes L [Op OP_SCRIPTNUMTOLE64, Op OP_MUL64, int_instruction 1, Op OP_EQUALVERIFY, Op OP_LE64TOSCRIPTNUM]
      ([ScriptNumToLe64] @ [Mul64] @ [Num 1] @ [Equal, VerifyTk] @ [Le64ToScriptNum])"
    using lexes_int [OF assms, of 1] by (intro lexes_cons lexes_idx_ops) simp_all
  then show ?case using lexes_append [OF _ lexes_cons [OF lexes_idx_ops(4) lexes_append]] IMul by simp
next
  case (IDiv x y)
  have "lexes L [Op OP_SCRIPTNUMTOLE64, Op OP_DIV64, int_instruction 1, Op OP_EQUALVERIFY, Op OP_NIP, Op OP_LE64TOSCRIPTNUM]
      ([ScriptNumToLe64] @ [Div64] @ [Num 1] @ [Equal, VerifyTk] @ [Nip] @ [Le64ToScriptNum])"
    using lexes_int [OF assms, of 1] by (intro lexes_cons lexes_idx_ops) simp_all
  then show ?case using lexes_append [OF _ lexes_cons [OF lexes_idx_ops(4) lexes_append]] IDiv by simp
qed (auto intro!: lexes_append lexes_idx_ops)

end
