(* ===== verification/Ext_Env.thy ===== *)
theory Ext_Env
  imports Ext_Index Interpreter
begin

text \<open>
  What the covenant fragments share: the transaction they inspect (\<open>TxEnv\<close> of \<open>extensions/mod.rs\<close>), their parameters
  (\<open>CovExtArgs\<close> of \<open>extensions/param.rs\<close>), evaluation errors (\<open>EvalError\<close> of \<open>extensions/arith.rs\<close>) and the
  price oracle's signature check. Of the types of the \<open>elements\<close> crate the model has the fields that the code reads;
  hashing and signature checks are fields of the parameter \<open>ext_crypto\<close>.
\<close>

section \<open>Transactions\<close>

type_synonym i64 = "64 word"
type_synonym u64 = "64 word"

datatype conf_value = VNull | VExplicit u64 | VConfidential bytes

datatype conf_asset = ANull | AExplicit bytes | AConfidential bytes

fun value_explicit :: "conf_value \<Rightarrow> u64 option" where
  "value_explicit (VExplicit v) = Some v"
| "value_explicit _ = None"

record tx_out =
  txo_asset :: conf_asset
  txo_value :: conf_value
  txo_script_pubkey :: bytes

record tx_in =
  issuance_amount :: conf_value
  issuance_inflation_keys :: conf_value

record transaction =
  tx_input :: "tx_in list"
  tx_output :: "tx_out list"

record tx_env =
  te_tx :: transaction
  te_spent_utxos :: "tx_out list"
  te_idx :: nat

definition tx_env_new :: "transaction \<Rightarrow> tx_out list \<Rightarrow> nat \<Rightarrow> tx_env option" where
  "tx_env_new tx spent_utxos idx =
     (if length (tx_input tx) \<noteq> length spent_utxos then None
      else Some \<lparr>te_tx = tx, te_spent_utxos = spent_utxos, te_idx = idx\<rparr>)"

section \<open>Parameters and errors\<close>

datatype spk_inner = SpkScript bytes | SpkHashed bytes

datatype cov_ext_args =
    XOnlyKeyArg bytes
  | CsfsMsgArg bytes
  | AssetArg conf_asset
  | ValueArg conf_value
  | ScriptArg spk_inner

text \<open>
  What other crates contribute to the texts of the parameters: keys, hexadecimal strings and the consensus encoding of
  confidential assets and values.
\<close>

record arg_lib =
  show_xonly :: "bytes \<Rightarrow> string"
  xonly_from_str :: "string \<Rightarrow> string + bytes"
  to_hex :: "bytes \<Rightarrow> string"
  from_hex :: "string \<Rightarrow> string + bytes"
  hex_length_error :: "nat \<Rightarrow> nat \<Rightarrow> string"
  asset_serialize :: "conf_asset \<Rightarrow> bytes"
  asset_deserialize :: "bytes \<Rightarrow> string + conf_asset"
  value_serialize :: "conf_value \<Rightarrow> bytes"
  value_deserialize :: "bytes \<Rightarrow> string + conf_value"

definition MAX_STANDARD_P2WSH_STACK_ITEM_SIZE :: nat where "MAX_STANDARD_P2WSH_STACK_ITEM_SIZE = 80"

text \<open>\<open>CsfsMsg::new\<close>; a checked message is represented by its bytes.\<close>

definition csfs_msg_new :: "bytes \<Rightarrow> bytes option" where
  "csfs_msg_new msg = (if length msg > MAX_STANDARD_P2WSH_STACK_ITEM_SIZE then None else Some msg)"

definition csfs_msg_arg :: "arg_lib \<Rightarrow> string \<Rightarrow> string \<Rightarrow> nat \<Rightarrow> crate_error + bytes" where
  "csfs_msg_arg A s parent pos =
     (if parent \<noteq> ''csfs'' \<or> pos \<noteq> 1 then Inl (Unexpected ''Msg must be the first arg of csfs'')
      else
        bind_res (map_err Unexpected (from_hex A s)) (\<lambda>inner.
          case csfs_msg_new inner of
            Some x \<Rightarrow> Inr x
          | None \<Rightarrow> Inl (Unexpected (hex_length_error A 32 (length inner)))))"

text \<open>The error of the key parser is converted by \<open>From\<close>; the model keeps its text.\<close>

definition csfs_key_arg :: "arg_lib \<Rightarrow> string \<Rightarrow> string \<Rightarrow> nat \<Rightarrow> crate_error + bytes" where
  "csfs_key_arg A s parent pos =
     (if parent \<noteq> ''csfs'' \<or> pos \<noteq> 0 then Inl (Unexpected ''Key must be at first position in csfs'')
      else map_err Unexpected (xonly_from_str A s))"

definition spk_arg :: "arg_lib \<Rightarrow> string \<Rightarrow> string \<Rightarrow> nat \<Rightarrow> crate_error + spk_inner" where
  "spk_arg A s parent pos =
     (if parent \<noteq> ''spk_eq'' then Inl (Unexpected ''spk expressions can only used in spk_eq'')
      else map_res SpkScript (map_err Unexpected (from_hex A s)))"

definition asset_arg :: "arg_lib \<Rightarrow> string \<Rightarrow> string \<Rightarrow> nat \<Rightarrow> crate_error + conf_asset" where
  "asset_arg A s parent pos =
     (if parent \<noteq> ''asset_eq'' \<and> parent \<noteq> ''is_exp_asset'' then
        Inl (Unexpected ''asset expressions only allowed inside asset_eq and is_exp_asset'')
      else
        bind_res (map_err Unexpected (from_hex A s)) (\<lambda>asset_hex.
          map_err Unexpected (asset_deserialize A asset_hex)))"

definition value_arg :: "arg_lib \<Rightarrow> string \<Rightarrow> string \<Rightarrow> nat \<Rightarrow> crate_error + conf_value" where
  "value_arg A s parent pos =
     (if parent \<noteq> ''value_eq'' \<and> parent \<noteq> ''is_exp_value'' then
        Inl (Unexpected ''value expressions only allowed inside value_eq and is_exp_value'')
      else
        bind_res (map_err Unexpected (from_hex A s)) (\<lambda>asset_hex.
          map_err Unexpected (value_deserialize A asset_hex)))"

definition cov_arg_from_str :: "arg_lib \<Rightarrow> string \<Rightarrow> string \<Rightarrow> nat \<Rightarrow> crate_error + cov_ext_args" where
  "cov_arg_from_str A s parent pos =
     (if parent = ''csfs'' \<and> pos = 0 then map_res XOnlyKeyArg (csfs_key_arg A s parent pos)
      else if parent = ''csfs'' \<and> pos = 1 then map_res CsfsMsgArg (csfs_msg_arg A s parent pos)
      else if (parent, pos) \<in> {(''asset_eq'', 0), (''asset_eq'', 1), (''is_exp_asset'', 0)} then
        map_res AssetArg (asset_arg A s parent pos)
      else if (parent, pos) \<in> {(''value_eq'', 0), (''value_eq'', 1), (''is_exp_value'', 0)} then
        map_res ValueArg (value_arg A s parent pos)
      else if parent = ''spk_eq'' \<and> (pos = 0 \<or> pos = 1) then map_res ScriptArg (spk_arg A s parent pos)
      else Inl (Unexpected s))"

fun cov_arg_show :: "arg_lib \<Rightarrow> cov_ext_args \<Rightarrow> string" where
  "cov_arg_show A (XOnlyKeyArg x) = show_xonly A x"
| "cov_arg_show A (CsfsMsgArg m) = to_hex A m"
| "cov_arg_show A (AssetArg a) = to_hex A (asset_serialize A a)"
| "cov_arg_show A (ValueArg v) = to_hex A (value_serialize A v)"
| "cov_arg_show A (ScriptArg (SpkScript s)) = to_hex A s"
| "cov_arg_show A (ScriptArg (SpkHashed h)) = ''hashed_spk''"

datatype eval_error =
    TxEnvNotPresent
  | UtxoIndexOutOfBounds nat nat
  | NonExplicitInput nat
  | OutputIndexOutOfBounds nat nat
  | NonExplicitOutput nat
  | InputIndexOutOfBounds nat nat
  | NonExplicitInputIssuance nat
  | NonExplicitInputReIssuance nat
  | AddOverflow i64 i64
  | SubOverflow i64 i64
  | MulOverflow i64 i64
  | DivOverflow i64 i64
  | ModOverflow i64 i64
  | NegOverflow i64
  | MissingPrice
  | Price8BytePush
  | MissingTimestamp
  | Timstamp8BytePush
  | MissingOracleSignature
  | MalformedSig
  | TimestampInFuture
  | InvalidSignature
  | PriceOverflow

section \<open>Bytes and signatures\<close>

definition to_le_bytes :: "64 word \<Rightarrow> bytes" where
  "to_le_bytes w = map (\<lambda>i. ucast (drop_bit (8 * i) w)) [0..<8]"

fun from_le_bytes :: "bytes \<Rightarrow> 64 word" where
  "from_le_bytes [] = 0"
| "from_le_bytes (b # bs) = or (ucast b) (push_bit 8 (from_le_bytes bs))"

record ext_crypto =
  xc_schnorr_from_slice :: "bytes \<Rightarrow> bytes option"
  xc_sha256 :: "bytes \<Rightarrow> bytes"
  xc_verify_schnorr :: "bytes \<Rightarrow> bytes \<Rightarrow> bytes \<Rightarrow> bool"
  xc_xonly_from_slice :: "bytes \<Rightarrow> bytes option"

definition check_sig_price_oracle_1 :: "ext_crypto \<Rightarrow> bytes \<Rightarrow> bytes \<Rightarrow> u64 \<Rightarrow> u64 \<Rightarrow> bool" where
  "check_sig_price_oracle_1 X sig pk timestamp price =
     xc_verify_schnorr X sig (xc_sha256 X (to_le_bytes timestamp @ to_le_bytes price)) pk"

text \<open>Checked arithmetic on \<open>i64\<close>: \<open>None\<close> when the exact result does not fit.\<close>

definition checked_i64 :: "int \<Rightarrow> i64 option" where
  "checked_i64 v = (if - (2 ^ 63) \<le> v \<and> v < 2 ^ 63 then Some (word_of_int v) else None)"

definition div_euclid :: "int \<Rightarrow> int \<Rightarrow> int" where
  "div_euclid a b = (if 0 < b then a div b else - (a div - b))"

definition rem_euclid :: "int \<Rightarrow> int \<Rightarrow> int" where
  "rem_euclid a b = a mod \<bar>b\<bar>"

definition checked_add :: "i64 \<Rightarrow> i64 \<Rightarrow> i64 option" where
  "checked_add x y = checked_i64 (sint x + sint y)"

definition checked_sub :: "i64 \<Rightarrow> i64 \<Rightarrow> i64 option" where
  "checked_sub x y = checked_i64 (sint x - sint y)"

definition checked_mul :: "i64 \<Rightarrow> i64 \<Rightarrow> i64 option" where
  "checked_mul x y = checked_i64 (sint x * sint y)"

definition checked_neg :: "i64 \<Rightarrow> i64 option" where
  "checked_neg x = checked_i64 (- sint x)"

definition checked_div_euclid :: "i64 \<Rightarrow> i64 \<Rightarrow> i64 option" where
  "checked_div_euclid x y = (if y = 0 then None else checked_i64 (div_euclid (sint x) (sint y)))"

text \<open>The remainder is also refused for \<open>i64::MIN\<close> and \<open>-1\<close>, where the quotient overflows.\<close>

definition checked_rem_euclid :: "i64 \<Rightarrow> i64 \<Rightarrow> i64 option" where
  "checked_rem_euclid x y =
     (if y = 0 \<or> sint x = - (2 ^ 63) \<and> sint y = -1 then None else checked_i64 (rem_euclid (sint x) (sint y)))"

lemma div_rem_euclid:
  assumes "b \<noteq> 0"
  shows "a = div_euclid a b * b + rem_euclid a b" "0 \<le> rem_euclid a b" "rem_euclid a b < \<bar>b\<bar>"
proof -
  have "a = (a div \<bar>b\<bar>) * \<bar>b\<bar> + a mod \<bar>b\<bar>" by simp
  then show "a = div_euclid a b * b + rem_euclid a b" using assms by (cases "0 < b") (simp_all add: div_euclid_def rem_euclid_def)
qed (use assms in \<open>simp_all add: rem_euclid_def\<close>)

lemma sint_checked: "checked_i64 v = Some r \<Longrightarrow> sint r = v"
  by (auto simp: checked_i64_def sint_sbintrunc' signed_take_bit_int_eq_self split: if_splits)

lemma length_to_le_bytes [simp]: "length (to_le_bytes w) = 8"
  by (simp add: to_le_bytes_def)

lemma bit_from_le_bytes: "bit (from_le_bytes bs) n \<longleftrightarrow> n < 64 \<and> n div 8 < length bs \<and> bit (bs ! (n div 8)) (n mod 8)"
proof (induction bs arbitrary: n)
  case (Cons b bs)
  show ?case
  proof (cases "n < 8")
    case True
    then show ?thesis by (simp add: bit_simps)
  next
    case False
    then obtain m where m: "n = m + 8" by (metis add.commute le_Suc_ex not_less)
    have "\<not> bit b (m + 8)" using bit_imp_le_length [of b "m + 8"] by auto
    moreover have "(m + 8) div 8 = Suc (m div 8)" by simp
    ultimately show ?thesis using Cons [of m] by (auto simp: bit_simps m)
  qed
qed simp

lemma nth_to_le_bytes: "i < 8 \<Longrightarrow> j < 8 \<Longrightarrow> bit (to_le_bytes w ! i) j \<longleftrightarrow> bit w (8 * i + j)"
  by (simp add: to_le_bytes_def bit_simps add.commute)

lemma from_to_le_bytes [simp]: "from_le_bytes (to_le_bytes w) = w"
proof (rule bit_word_eqI)
  fix n assume "n < LENGTH(64)"
  then have "n div 8 < 8" "8 * (n div 8) + n mod 8 = n" by auto
  then show "bit (from_le_bytes (to_le_bytes w)) n = bit w n"
    using \<open>n < LENGTH(64)\<close> nth_to_le_bytes [of "n div 8" "n mod 8" w] by (simp add: bit_from_le_bytes)
qed

lemma to_from_le_bytes [simp]:
  assumes "length bs = 8"
  shows "to_le_bytes (from_le_bytes bs) = bs"
proof (rule nth_equalityI)
  fix i assume "i < length (to_le_bytes (from_le_bytes bs))"
  then have i: "i < 8" by simp
  show "to_le_bytes (from_le_bytes bs) ! i = bs ! i"
  proof (rule bit_word_eqI)
    fix j assume "j < LENGTH(8)"
    then have "j < 8" "8 * i + j < 64" using i by auto
    then show "bit (to_le_bytes (from_le_bytes bs) ! i) j = bit (bs ! i) j"
      using nth_to_le_bytes [OF i, of j "from_le_bytes bs"] i assms by (simp add: bit_from_le_bytes)
  qed
qed (use assms in simp)

end
