(* ===== verification/Ext_Arith.thy ===== *)
theory Ext_Arith
  imports Soundness Ext_Env
begin

text \<open>
  Arithmetic fragments (\<open>extensions/arith.rs\<close>): 64-bit expressions over amounts of the transaction, constants and oracle
  prices, compared by \<open>num64_eq\<close> and its relatives. A panic is \<open>None\<close>.
\<close>

section \<open>Expressions\<close>

datatype 't expr_inner =
    EConst i64
  | CurrInputIdx
  | EInput idx_expr
  | EOutput idx_expr
  | EInputIssue idx_expr
  | EInputReIssue idx_expr
  | EAdd "'t expr" "'t expr"
  | ESub "'t expr" "'t expr"
  | EMul "'t expr" "'t expr"
  | EDiv "'t expr" "'t expr"
  | EMod "'t expr" "'t expr"
  | EBitAnd "'t expr" "'t expr"
  | EBitOr "'t expr" "'t expr"
  | EXor "'t expr" "'t expr"
  | EInvert "'t expr"
  | ENegate "'t expr"
  | PriceOracle1 't u64
  | PriceOracle1W 't u64
and 't expr = Expr (e_inner: "'t expr_inner") (e_script_size: nat) (e_depth: nat)

definition inner_size_depth :: "'t expr_inner \<Rightarrow> nat \<times> nat" where
  "inner_size_depth i =
     (case i of
        EConst _ \<Rightarrow> (8 + 1, 0)
      | CurrInputIdx \<Rightarrow> (4, 0)
      | EInput i \<Rightarrow> (idx_script_size i + 3, 0)
      | EOutput i \<Rightarrow> (idx_script_size i + 3, 0)
      | EInputIssue i \<Rightarrow> (idx_script_size i + 7, 0)
      | EInputReIssue i \<Rightarrow> (idx_script_size i + 7, 0)
      | EAdd x y \<Rightarrow> (e_script_size x + e_script_size y + 3, max (e_depth x) (e_depth y))
      | ESub x y \<Rightarrow> (e_script_size x + e_script_size y + 3, max (e_depth x) (e_depth y))
      | EMul x y \<Rightarrow> (e_script_size x + e_script_size y + 3, max (e_depth x) (e_depth y))
      | EDiv x y \<Rightarrow> (e_script_size x + e_script_size y + 4, max (e_depth x) (e_depth y))
      | EMod x y \<Rightarrow> (e_script_size x + e_script_size y + 4, max (e_depth x) (e_depth y))
      | EBitAnd x y \<Rightarrow> (e_script_size x + e_script_size y + 1, max (e_depth x) (e_depth y))
      | EBitOr x y \<Rightarrow> (e_script_size x + e_script_size y + 1, max (e_depth x) (e_depth y))
      | EXor x y \<Rightarrow> (e_script_size x + e_script_size y + 1, max (e_depth x) (e_depth y))
      | EInvert x \<Rightarrow> (e_script_size x + 1, e_depth x + 1)
      | ENegate x \<Rightarrow> (e_script_size x + 3, e_depth x + 1)
      | PriceOracle1 _ _ \<Rightarrow> ((32 + 1) + (8 + 1) + 8, 0)
      | PriceOracle1W _ _ \<Rightarrow> ((32 + 1) + (8 + 1) + 11, 0))"

definition from_inner :: "'t expr_inner \<Rightarrow> 't expr" where
  "from_inner i = (case inner_size_depth i of (sz, dp) \<Rightarrow> Expr i sz dp)"

text \<open>The expr_operands of an expression, and the iterator over its terminals; the stack has its last element first.\<close>

fun expr_operands :: "'t expr_inner \<Rightarrow> 't expr list" where
  "expr_operands (EAdd x y) = [x, y]"
| "expr_operands (ESub x y) = [x, y]"
| "expr_operands (EMul x y) = [x, y]"
| "expr_operands (EDiv x y) = [x, y]"
| "expr_operands (EMod x y) = [x, y]"
| "expr_operands (EBitAnd x y) = [x, y]"
| "expr_operands (EBitOr x y) = [x, y]"
| "expr_operands (EXor x y) = [x, y]"
| "expr_operands (EInvert x) = [x]"
| "expr_operands (ENegate x) = [x]"
| "expr_operands _ = []"

lemma size_inner: "size (e_inner x) < size x"
  by (cases x) simp

lemma size_operands: "sum_list (map (\<lambda>x. Suc (size (e_inner x))) (expr_operands i)) \<le> size i"
proof -
  have "sum_list (map (\<lambda>x. Suc (size (e_inner x))) (expr_operands i)) \<le> sum_list (map size (expr_operands i))"
    by (rule sum_list_mono) (simp add: Suc_leI size_inner)
  also have "\<dots> \<le> size i" by (cases i) simp_all
  finally show ?thesis .
qed

function expr_iter_next :: "'t expr_inner list \<Rightarrow> ('t expr_inner \<times> 't expr_inner list) option" where
  "expr_iter_next [] = None"
| "expr_iter_next (i # st) = (if expr_operands i = [] then Some (i, st) else expr_iter_next (map e_inner (expr_operands i) @ st))"
  by pat_completeness auto
termination by (relation "measure (\<lambda>st. sum_list (map (\<lambda>i. Suc (size i)) st))") (auto simp: comp_def less_Suc_eq_le size_operands)

lemma expr_iter_shorter: "expr_iter_next st = Some (x, st') \<Longrightarrow> sum_list (map (\<lambda>i. Suc (size i)) st') < sum_list (map (\<lambda>i. Suc (size i)) st)"
proof (induction st rule: expr_iter_next.induct)
  case (2 i st)
  then show ?case by (cases "expr_operands i = []") (use size_operands [of i] in \<open>auto simp: comp_def\<close>)
qed simp

section \<open>Evaluation\<close>

definition explicit_amount :: "conf_value \<Rightarrow> eval_error \<Rightarrow> eval_error + i64" where
  "explicit_amount v err = (case value_explicit v of Some x \<Rightarrow> Inr x | None \<Rightarrow> Inl err)"

definition utxo_amount :: "tx_env \<Rightarrow> nat \<Rightarrow> eval_error + i64" where
  "utxo_amount env i =
     (if i \<ge> length (te_spent_utxos env) then Inl (UtxoIndexOutOfBounds i (length (te_spent_utxos env)))
      else explicit_amount (txo_value (te_spent_utxos env ! i)) (NonExplicitInput i))"

definition output_amount :: "tx_env \<Rightarrow> nat \<Rightarrow> eval_error + i64" where
  "output_amount env i =
     (if i \<ge> length (tx_output (te_tx env)) then Inl (OutputIndexOutOfBounds i (length (tx_output (te_tx env))))
      else explicit_amount (txo_value (tx_output (te_tx env) ! i)) (NonExplicitOutput i))"

definition issued_amount :: "tx_env \<Rightarrow> (tx_in \<Rightarrow> conf_value) \<Rightarrow> (nat \<Rightarrow> eval_error) \<Rightarrow> nat \<Rightarrow> eval_error + i64" where
  "issued_amount env field err i =
     (if i \<ge> length (tx_input (te_tx env)) then Inl (InputIndexOutOfBounds i (length (tx_input (te_tx env))))
      else explicit_amount (field (tx_input (te_tx env) ! i)) (err i))"

text \<open>The terminals that only look at the transaction, in the same words in \<open>eval\<close> and in \<open>satisfy\<close>.\<close>

fun leaf_amount :: "tx_env \<Rightarrow> 't expr_inner \<Rightarrow> (eval_error + i64) option" where
  "leaf_amount env (EConst c) = Some (Inr c)"
| "leaf_amount env CurrInputIdx = Some (utxo_amount env (te_idx env))"
| "leaf_amount env (EInput i) = map_option (utxo_amount env) (idx_eval (te_idx env) i)"
| "leaf_amount env (EOutput i) = map_option (output_amount env) (idx_eval (te_idx env) i)"
| "leaf_amount env (EInputIssue i) =
     map_option (issued_amount env issuance_amount NonExplicitInputIssuance) (idx_eval (te_idx env) i)"
| "leaf_amount env (EInputReIssue i) =
     map_option (issued_amount env issuance_inflation_keys NonExplicitInputReIssuance) (idx_eval (te_idx env) i)"
| "leaf_amount env _ = None"

definition ok_or :: "'a option \<Rightarrow> 'err \<Rightarrow> 'err + 'a" where
  "ok_or r e = (case r of Some x \<Rightarrow> Inr x | None \<Rightarrow> Inl e)"

unbundle bit_operations_syntax

text \<open>The operations, in the same words in \<open>eval\<close> and in \<open>satisfy\<close>.\<close>

definition add_op :: "i64 \<Rightarrow> i64 \<Rightarrow> eval_error + i64" where
  "add_op x y = ok_or (checked_add x y) (AddOverflow x y)"

definition sub_op :: "i64 \<Rightarrow> i64 \<Rightarrow> eval_error + i64" where
  "sub_op x y = ok_or (checked_sub x y) (SubOverflow x y)"

definition mul_op :: "i64 \<Rightarrow> i64 \<Rightarrow> eval_error + i64" where
  "mul_op x y = ok_or (checked_mul x y) (MulOverflow x y)"

definition div_op :: "i64 \<Rightarrow> i64 \<Rightarrow> eval_error + i64" where
  "div_op x y = ok_or (checked_div_euclid x y) (DivOverflow x y)"

definition mod_op :: "i64 \<Rightarrow> i64 \<Rightarrow> eval_error + i64" where
  "mod_op x y = ok_or (checked_rem_euclid x y) (ModOverflow x y)"

definition neg_op :: "i64 \<Rightarrow> eval_error + i64" where
  "neg_op x = ok_or (checked_neg x) (NegOverflow x)"

text \<open>Evaluation pops from the stack of the interpreter; the error, or the value, comes with the stack that is left.\<close>

type_synonym 'a ext_ev = "istack \<Rightarrow> ((eval_error + 'a) \<times> istack) option"

definition ev_return :: "(eval_error + 'a) option \<Rightarrow> 'a ext_ev" where
  "ev_return r s = map_option (\<lambda>r. (r, s)) r"

definition ev_bind :: "'a ext_ev \<Rightarrow> ('a \<Rightarrow> 'b ext_ev) \<Rightarrow> 'b ext_ev" where
  "ev_bind m f s = (case m s of None \<Rightarrow> None | Some (Inl e, s') \<Rightarrow> Some (Inl e, s') | Some (Inr x, s') \<Rightarrow> f x s')"

definition ev_two :: "'a ext_ev \<Rightarrow> 'a ext_ev \<Rightarrow> ('a \<Rightarrow> 'a \<Rightarrow> eval_error + 'b) \<Rightarrow> 'b ext_ev" where
  "ev_two mx my op = ev_bind mx (\<lambda>x. ev_bind my (\<lambda>y. ev_return (Some (op x y))))"

definition ev_one :: "'a ext_ev \<Rightarrow> ('a \<Rightarrow> eval_error + 'b) \<Rightarrow> 'b ext_ev" where
  "ev_one mx op = ev_bind mx (\<lambda>x. ev_return (Some (op x)))"

text \<open>Pop an element that must be a push of a given shape.\<close>

definition pop_push :: "eval_error \<Rightarrow> eval_error \<Rightarrow> bytes ext_ev" where
  "pop_push missing malformed s =
     (case s of
        [] \<Rightarrow> Some (Inl missing, [])
      | el # s' \<Rightarrow> Some (case try_push el of Inl _ \<Rightarrow> Inl malformed | Inr bs \<Rightarrow> Inr bs, s'))"

definition pop_u64 :: "eval_error \<Rightarrow> eval_error \<Rightarrow> u64 ext_ev" where
  "pop_u64 missing malformed =
     ev_bind (pop_push missing malformed) (\<lambda>bs.
       ev_return (Some (if length bs = 8 then Inr (from_le_bytes bs) else Inl malformed)))"

text \<open>\<open>u64::try_into\<close> an \<open>i64\<close> refuses the upper half of the range.\<close>

definition price_oracle_eval :: "ext_crypto \<Rightarrow> cov_ext_args \<Rightarrow> u64 \<Rightarrow> i64 ext_ev" where
  "price_oracle_eval X pk timestamp =
     (case pk of
        XOnlyKeyArg x_only_pk \<Rightarrow>
          ev_bind (pop_u64 MissingPrice Price8BytePush) (\<lambda>price.
          ev_bind (pop_u64 MissingTimestamp Timstamp8BytePush) (\<lambda>time_signed.
          ev_bind (pop_push MissingOracleSignature MalformedSig) (\<lambda>sig_sl.
            ev_return (Some (
              case xc_schnorr_from_slice X sig_sl of
                None \<Rightarrow> Inl MalformedSig
              | Some sig \<Rightarrow>
                  if timestamp < time_signed then Inl TimestampInFuture
                  else if check_sig_price_oracle_1 X sig x_only_pk timestamp price then
                    (if unat price < 2 ^ 63 then Inr price else Inl PriceOverflow)
                  else Inl InvalidSignature)))))
      | _ \<Rightarrow> (\<lambda>_. None))"

fun expr_eval :: "ext_crypto \<Rightarrow> tx_env \<Rightarrow> cov_ext_args expr \<Rightarrow> i64 ext_ev" where
  "expr_eval X env (Expr (EAdd x y) _ _) = ev_two (expr_eval X env x) (expr_eval X env y) add_op"
| "expr_eval X env (Expr (ESub x y) _ _) = ev_two (expr_eval X env x) (expr_eval X env y) sub_op"
| "expr_eval X env (Expr (EMul x y) _ _) = ev_two (expr_eval X env x) (expr_eval X env y) mul_op"
| "expr_eval X env (Expr (EDiv x y) _ _) = ev_two (expr_eval X env x) (expr_eval X env y) div_op"
| "expr_eval X env (Expr (EMod x y) _ _) = ev_two (expr_eval X env x) (expr_eval X env y) mod_op"
| "expr_eval X env (Expr (EBitAnd x y) _ _) = ev_two (expr_eval X env x) (expr_eval X env y) (\<lambda>x y. Inr (x AND y))"
| "expr_eval X env (Expr (EBitOr x y) _ _) = ev_two (expr_eval X env x) (expr_eval X env y) (\<lambda>x y. Inr (x OR y))"
| "expr_eval X env (Expr (EXor x y) _ _) = ev_two (expr_eval X env x) (expr_eval X env y) (\<lambda>x y. Inr (x XOR y))"
| "expr_eval X env (Expr (EInvert x) _ _) = ev_one (expr_eval X env x) (\<lambda>x. Inr (NOT x))"
| "expr_eval X env (Expr (ENegate x) _ _) = ev_one (expr_eval X env x) neg_op"
| "expr_eval X env (Expr (PriceOracle1 pk timestamp) _ _) = price_oracle_eval X pk timestamp"
| "expr_eval X env (Expr (PriceOracle1W pk timestamp) _ _) = price_oracle_eval X pk timestamp"
| "expr_eval X env (Expr leaf _ _) = ev_return (leaf_amount env leaf)"

section \<open>Satisfaction\<close>

definition sat_combine :: "satisfaction \<Rightarrow> satisfaction \<Rightarrow> satisfaction" where
  "sat_combine one two = Sat (wit_combine (stack one) (stack two)) (has_sig one \<or> has_sig two)"

definition sat_empty :: satisfaction where
  "sat_empty = Sat wit_empty False"

type_synonym sat_value = "(eval_error + i64 \<times> satisfaction) option"

definition sat_two :: "sat_value \<Rightarrow> sat_value \<Rightarrow> (i64 \<Rightarrow> i64 \<Rightarrow> eval_error + i64) \<Rightarrow> sat_value" where
  "sat_two mx my op =
     (case mx of
        Some (Inr (x, sat_x)) \<Rightarrow>
          (case my of
             Some (Inr (y, sat_y)) \<Rightarrow> Some (map_res (\<lambda>res. (res, sat_combine sat_y sat_x)) (op x y))
           | _ \<Rightarrow> my)
      | _ \<Rightarrow> mx)"

definition sat_one :: "sat_value \<Rightarrow> (i64 \<Rightarrow> eval_error + i64) \<Rightarrow> sat_value" where
  "sat_one mx op = (case mx of Some (Inr (x, sat_x)) \<Rightarrow> Some (map_res (\<lambda>res. (res, sat_x)) (op x)) | _ \<Rightarrow> mx)"

definition price_oracle_satisfy :: "('pk, 'h) satisfier \<Rightarrow> cov_ext_args \<Rightarrow> u64 \<Rightarrow> sat_value" where
  "price_oracle_satisfy s pk time =
     (case pk of
        XOnlyKeyArg xpk \<Rightarrow>
          (case lookup_price_oracle_sig s xpk time of
             Some (sig, price, time) \<Rightarrow> Some (Inr (price, Sat (Stack [sig, to_le_bytes time, to_le_bytes price]) False))
           | None \<Rightarrow> Some (Inl MissingOracleSignature))
      | _ \<Rightarrow> None)"

fun expr_satisfy :: "tx_env \<Rightarrow> ('pk, 'h) satisfier \<Rightarrow> cov_ext_args expr \<Rightarrow> sat_value" where
  "expr_satisfy env s (Expr (EAdd x y) _ _) = sat_two (expr_satisfy env s x) (expr_satisfy env s y) add_op"
| "expr_satisfy env s (Expr (ESub x y) _ _) = sat_two (expr_satisfy env s x) (expr_satisfy env s y) sub_op"
| "expr_satisfy env s (Expr (EMul x y) _ _) = sat_two (expr_satisfy env s x) (expr_satisfy env s y) mul_op"
| "expr_satisfy env s (Expr (EDiv x y) _ _) = sat_two (expr_satisfy env s x) (expr_satisfy env s y) div_op"
| "expr_satisfy env s (Expr (EMod x y) _ _) = sat_two (expr_satisfy env s x) (expr_satisfy env s y) mod_op"
| "expr_satisfy env s (Expr (EBitAnd x y) _ _) = sat_two (expr_satisfy env s x) (expr_satisfy env s y) (\<lambda>x y. Inr (x AND y))"
| "expr_satisfy env s (Expr (EBitOr x y) _ _) = sat_two (expr_satisfy env s x) (expr_satisfy env s y) (\<lambda>x y. Inr (x OR y))"
| "expr_satisfy env s (Expr (EXor x y) _ _) = sat_two (expr_satisfy env s x) (expr_satisfy env s y) (\<lambda>x y. Inr (x XOR y))"
| "expr_satisfy env s (Expr (EInvert x) _ _) = sat_one (expr_satisfy env s x) (\<lambda>x. Inr (NOT x))"
| "expr_satisfy env s (Expr (ENegate x) _ _) = sat_one (expr_satisfy env s x) neg_op"
| "expr_satisfy env s (Expr (PriceOracle1 pk time) _ _) = price_oracle_satisfy s pk time"
| "expr_satisfy env s (Expr (PriceOracle1W pk time) _ _) = price_oracle_satisfy s pk time"
| "expr_satisfy env s (Expr leaf _ _) = map_option (map_res (\<lambda>res. (res, sat_empty))) (leaf_amount env leaf)"

section \<open>Script\<close>

text \<open>An opcode that leaves a success flag, with the check that it is 1.\<close>

definition push_checked :: "('b, 'pk, 'h, 'e) builder \<Rightarrow> opcode list \<Rightarrow> 'b \<Rightarrow> 'b" where
  "push_checked B oplist b = push_opcode B (push_int B (fold (\<lambda>op b. push_opcode B b op) oplist b) 1) OP_EQUALVERIFY"

definition push_oracle :: "('b, 'pk, 'h, 'e) builder \<Rightarrow> bytes \<Rightarrow> u64 \<Rightarrow> 'b \<Rightarrow> 'b" where
  "push_oracle B xpk t b =
     (let b = push_slice B (push_opcode B (push_opcode B b OP_2DUP) OP_TOALTSTACK) (to_le_bytes t);
          b = push_opcode B (push_opcode B b OP_GREATERTHANOREQUAL64) OP_VERIFY;
          b = push_slice B (push_opcode B (push_opcode B b OP_CAT) OP_SHA256) xpk
      in push_opcode B (push_opcode B b OP_CHECKSIGFROMSTACKVERIFY) OP_FROMALTSTACK)"

text \<open>\<open>None\<close> is the \<open>unreachable!\<close> for a parameter that is not a key.\<close>

fun expr_push :: "('b, 'pk, 'h, 'e) builder \<Rightarrow> cov_ext_args expr \<Rightarrow> 'b \<Rightarrow> 'b option" where
  "expr_push B (Expr (EConst c) _ _) b = Some (push_slice B b (to_le_bytes c))"
| "expr_push B (Expr CurrInputIdx _ _) b = Some (push_checked B [OP_PUSHCURRENTINPUTINDEX, OP_INSPECTINPUTVALUE] b)"
| "expr_push B (Expr (EInput i) _ _) b = Some (push_checked B [OP_INSPECTINPUTVALUE] (idx_push B i b))"
| "expr_push B (Expr (EOutput i) _ _) b = Some (push_checked B [OP_INSPECTOUTPUTVALUE] (idx_push B i b))"
| "expr_push B (Expr (EInputIssue i) _ _) b =
     Some (push_opcode B (push_opcode B (push_checked B [OP_INSPECTINPUTISSUANCE, OP_DROP, OP_DROP] (idx_push B i b)) OP_NIP) OP_NIP)"
| "expr_push B (Expr (EInputReIssue i) _ _) b =
     Some (push_checked B [OP_INSPECTINPUTISSUANCE, OP_DROP, OP_DROP, OP_DROP, OP_DROP] (idx_push B i b))"
| "expr_push B (Expr (EAdd x y) _ _) b = map_option (push_checked B [OP_ADD64]) (Option.bind (expr_push B x b) (expr_push B y))"
| "expr_push B (Expr (ESub x y) _ _) b = map_option (push_checked B [OP_SUB64]) (Option.bind (expr_push B x b) (expr_push B y))"
| "expr_push B (Expr (EMul x y) _ _) b = map_option (push_checked B [OP_MUL64]) (Option.bind (expr_push B x b) (expr_push B y))"
| "expr_push B (Expr (EDiv x y) _ _) b =
     map_option (\<lambda>b. push_opcode B (push_checked B [OP_DIV64] b) OP_NIP) (Option.bind (expr_push B x b) (expr_push B y))"
| "expr_push B (Expr (EMod x y) _ _) b =
     map_option (\<lambda>b. push_opcode B (push_checked B [OP_DIV64] b) OP_DROP) (Option.bind (expr_push B x b) (expr_push B y))"
| "expr_push B (Expr (EBitAnd x y) _ _) b = map_option (\<lambda>b. push_opcode B b OP_AND) (Option.bind (expr_push B x b) (expr_push B y))"
| "expr_push B (Expr (EBitOr x y) _ _) b = map_option (\<lambda>b. push_opcode B b OP_OR) (Option.bind (expr_push B x b) (expr_push B y))"
| "expr_push B (Expr (EXor x y) _ _) b = map_option (\<lambda>b. push_opcode B b OP_XOR) (Option.bind (expr_push B x b) (expr_push B y))"
| "expr_push B (Expr (EInvert x) _ _) b = map_option (\<lambda>b. push_opcode B b OP_INVERT) (expr_push B x b)"
| "expr_push B (Expr (ENegate x) _ _) b = map_option (push_checked B [OP_NEG64]) (expr_push B x b)"
| "expr_push B (Expr (PriceOracle1 pk t) _ _) b =
     (case pk of XOnlyKeyArg xpk \<Rightarrow> Some (push_oracle B xpk t b) | _ \<Rightarrow> None)"
| "expr_push B (Expr (PriceOracle1W pk t) _ _) b =
     (case pk of
        XOnlyKeyArg xpk \<Rightarrow>
          Some (push_opcode B (push_opcode B (push_oracle B xpk t (push_opcode B b OP_TOALTSTACK)) OP_FROMALTSTACK) OP_SWAP)
      | _ \<Rightarrow> None)"

section \<open>Reading tokens from the end\<close>

text \<open>
  The lexer makes \<open>Bytes8\<close> of eight bytes; on another length the code panics, here the token does not match anything.
\<close>

definition as_bytes8 :: "token \<Rightarrow> bytes option" where
  "as_bytes8 t = (case t of Bytes8 b \<Rightarrow> if length b = 8 then Some b else None | _ \<Rightarrow> None)"

text \<open>The patterns with a time and a key among the tokens.\<close>

abbreviation (input) oracle_toks :: "token list \<Rightarrow> token \<Rightarrow> token \<Rightarrow> token list \<Rightarrow> token list" where
  "oracle_toks pre t k post \<equiv>
     pre @ [Dup2, ToAltStack, t, Geq64, VerifyTk, Cat, Sha256Tk, k, CheckSigFromStackVerify, FromAltStack] @ post"

definition oracle_range :: "token list \<Rightarrow> token list \<Rightarrow> token list \<Rightarrow> (bytes \<times> bytes) option" where
  "oracle_range pre post ts =
     (if length ts = length pre + 10 + length post then
        (case (as_bytes8 (ts ! (length pre + 2)), as_bytes32 (ts ! (length pre + 7))) of
           (Some time, Some xpk) \<Rightarrow> if ts = oracle_toks pre (Bytes8 time) (Bytes32 xpk) post then Some (time, xpk) else None
         | _ \<Rightarrow> None)
      else None)"

definition oracle_done :: "ext_crypto \<Rightarrow> (cov_ext_args \<Rightarrow> u64 \<Rightarrow> cov_ext_args expr_inner) \<Rightarrow> nat \<Rightarrow> bytes \<times> bytes \<Rightarrow>
    cov_ext_args expr arm option" where
  "oracle_done X con n p =
     map_option (\<lambda>xpk. Done (from_inner (con (XOnlyKeyArg xpk) (from_le_bytes (fst p)))) n) (xc_xonly_from_slice X (snd p))"

definition expr_arm :: "ext_crypto \<Rightarrow> token list \<Rightarrow> nat \<Rightarrow> cov_ext_args expr arm option" where
  "expr_arm X tks e =
     (if e < 1 \<or> e > length tks then None
      else case as_bytes8 (tks ! (e - 1)) of
        Some bytes \<Rightarrow> Some (Done (from_inner (EConst (from_le_bytes bytes))) 1)
      | None \<Rightarrow>
        if tks ! (e - 1) = Invert then Some (Unary (\<lambda>x. from_inner (EInvert x)) 1)
        else if tks ! (e - 1) = And then Some (Binary (\<lambda>x y. from_inner (EBitAnd x y)) 1)
        else if tks ! (e - 1) = Or then Some (Binary (\<lambda>x y. from_inner (EBitOr x y)) 1)
        else if tks ! (e - 1) = Xor then Some (Binary (\<lambda>x y. from_inner (EXor x y)) 1)
        else if e < 4 then None
        else if get_range tks (e - 4) e = Some [Neg64, Num 1, Equal, VerifyTk] then Some (Unary (\<lambda>x. from_inner (ENegate x)) 4)
        else if get_range tks (e - 4) e = Some [Add64, Num 1, Equal, VerifyTk] then Some (Binary (\<lambda>x y. from_inner (EAdd x y)) 4)
        else if get_range tks (e - 4) e = Some [Sub64, Num 1, Equal, VerifyTk] then Some (Binary (\<lambda>x y. from_inner (ESub x y)) 4)
        else if get_range tks (e - 4) e = Some [Mul64, Num 1, Equal, VerifyTk] then Some (Binary (\<lambda>x y. from_inner (EMul x y)) 4)
        else if e < 5 then None
        else if get_range tks (e - 5) e = Some [CurrInp, InpValue, Num 1, Equal, VerifyTk] then Some (Done (from_inner CurrInputIdx) 5)
        else if get_range tks (e - 5) e = Some [Div64, Num 1, Equal, VerifyTk, Nip] then Some (Binary (\<lambda>x y. from_inner (EDiv x y)) 5)
        else if get_range tks (e - 5) e = Some [Div64, Num 1, Equal, VerifyTk, Drop] then Some (Binary (\<lambda>x y. from_inner (EMod x y)) 5)
        else if get_range tks (e - 4) e = Some [InpValue, Num 1, Equal, VerifyTk] then Some (Indexed (\<lambda>i. from_inner (EInput i)) 4)
        else if get_range tks (e - 4) e = Some [OutValue, Num 1, Equal, VerifyTk] then Some (Indexed (\<lambda>i. from_inner (EOutput i)) 4)
        else if e < 8 then None
        else if get_range tks (e - 8) e = Some [InpIssue, Drop, Drop, Num 1, Equal, VerifyTk, Nip, Nip] then
          Some (Indexed (\<lambda>i. from_inner (EInputIssue i)) 8)
        else if get_range tks (e - 8) e = Some [InpIssue, Drop, Drop, Drop, Drop, Num 1, Equal, VerifyTk] then
          Some (Indexed (\<lambda>i. from_inner (EInputReIssue i)) 8)
        else if e < 10 then None
        else case Option.bind (get_range tks (e - 10) e) (oracle_range [] []) of
          Some p \<Rightarrow> oracle_done X PriceOracle1 10 p
        | None \<Rightarrow>
          if e < 13 then None
          else Option.bind (Option.bind (get_range tks (e - 13) e) (oracle_range [ToAltStack] [FromAltStack, SwapTk]))
                 (oracle_done X PriceOracle1W 13))"

lemma expr_arm_len: "expr_arm X tks e = Some a \<Longrightarrow> 1 \<le> arm_len a \<and> arm_len a \<le> e"
  by (auto simp: expr_arm_def oracle_done_def bind_eq_Some_conv split: if_splits option.splits)

function expr_from_tokens :: "ext_crypto \<Rightarrow> token list \<Rightarrow> nat \<Rightarrow> (cov_ext_args expr \<times> nat) option" where
  "expr_from_tokens X tks e =
     (case expr_arm X tks e of
        Some (Done x n) \<Rightarrow> Some (x, e - n)
      | Some (Unary con n) \<Rightarrow> read_one (expr_from_tokens X tks) con (e - n)
      | Some (Binary con n) \<Rightarrow> read_two (expr_from_tokens X tks) con (e - n)
      | Some (Indexed con n) \<Rightarrow> read_one (idx_from_tokens tks) con (e - n)
      | _ \<Rightarrow> None)"
  by pat_completeness auto
termination
proof -
  have shorter: "p < e" if "expr_from_tokens_dom (X, tks, e)" "expr_from_tokens X tks e = Some (x, p)" for X tks e x p
    using that
  proof (induction X tks e arbitrary: x p rule: expr_from_tokens.pinduct)
    case (1 X tks e)
    note eq = "1.prems" [unfolded expr_from_tokens.psimps [OF "1.hyps"]]
    then obtain a where a: "expr_arm X tks e = Some a" by (auto split: option.splits)
    note len = expr_arm_len [OF a]
    show ?case
    proof (cases a)
      case (Unary con n)
      then have "read_one (expr_from_tokens X tks) con (e - n) = Some (x, p)" using eq a by simp
      then have "p < e - n" by (rule operand_position(1)) (use "1.IH"(1) a Unary in blast)
      then show ?thesis by simp
    next
      case (Binary con n)
      then have "read_two (expr_from_tokens X tks) con (e - n) = Some (x, p)" using eq a by simp
      then have "p < e - n" by (rule operand_position(2)) (use "1.IH"(2,3) a Binary in blast)+
      then show ?thesis by simp
    next
      case (Indexed con n)
      then have "read_one (idx_from_tokens tks) con (e - n) = Some (x, p)" using eq a by simp
      then have "p < e - n" by (rule operand_position(1)) (use idx_from_tokens_sound [of tks "e - n"] in \<open>auto simp: reads_def\<close>)
      then show ?thesis by simp
    qed (use eq a len in auto)
  qed
  have "e - n < e" if "expr_arm X tks e = Some a" "arm_len a = n" for X tks e a n using expr_arm_len [OF that(1)] that(2) by auto
  then show "All expr_from_tokens_dom"
    by (relation "measure (\<lambda>(_, _, e). e)") (force dest: shorter)+
qed

declare expr_from_tokens.simps [simp del]

section \<open>Comparisons\<close>

datatype 't arith_inner =
    AEq "'t expr" "'t expr"
  | ALt "'t expr" "'t expr"
  | ALeq "'t expr" "'t expr"
  | AGt "'t expr" "'t expr"
  | AGeq "'t expr" "'t expr"

fun sides :: "'t arith_inner \<Rightarrow> 't expr \<times> 't expr" where
  "sides (AEq a b) = (a, b)"
| "sides (ALt a b) = (a, b)"
| "sides (ALeq a b) = (a, b)"
| "sides (AGt a b) = (a, b)"
| "sides (AGeq a b) = (a, b)"

fun compare :: "'t arith_inner \<Rightarrow> i64 \<Rightarrow> i64 \<Rightarrow> bool" where
  "compare (AEq _ _) x y = (x = y)"
| "compare (ALt _ _) x y = (x <s y)"
| "compare (ALeq _ _) x y = (x \<le>s y)"
| "compare (AGt _ _) x y = (y <s x)"
| "compare (AGeq _ _) x y = (y \<le>s x)"

datatype arith_type_error = PriceOracle1WFirst | PriceOracle1Missing

fun is_oracle :: "'t expr_inner \<Rightarrow> bool" where
  "is_oracle (PriceOracle1 _ _) = True" | "is_oracle _ = False"

fun is_oracle_w :: "'t expr_inner \<Rightarrow> bool" where
  "is_oracle_w (PriceOracle1W _ _) = True" | "is_oracle_w _ = False"

text \<open>\<open>Iterator::any\<close> over the terminals that the iterator has left.\<close>

function any_terminal :: "('t expr_inner \<Rightarrow> bool) \<Rightarrow> 't expr_inner list \<Rightarrow> bool" where
  "any_terminal f st = (case expr_iter_next st of None \<Rightarrow> False | Some (x, st') \<Rightarrow> f x \<or> any_terminal f st')"
  by pat_completeness auto
termination
proof (relation "measure (\<lambda>(_, st). sum_list (map (\<lambda>i. Suc (size i)) st))")
  show "((f, st'), (f, st)) \<in> measure (\<lambda>(_, st). sum_list (map (\<lambda>i. Suc (size i)) st))"
    if "expr_iter_next st = Some xs" "(x, st') = xs" for f :: "'t expr_inner \<Rightarrow> bool" and st xs x st'
    using that expr_iter_shorter [of st x st'] by simp
qed simp

declare any_terminal.simps [simp del]

text \<open>\<open>Arith::new\<close>; a checked value is represented by what it wraps.\<close>

definition arith_new :: "'t arith_inner \<Rightarrow> arith_type_error + 't arith_inner" where
  "arith_new expr =
     (case sides expr of (a, b) \<Rightarrow>
        case expr_iter_next [e_inner a] of
          None \<Rightarrow> if any_terminal is_oracle [e_inner b] then Inl PriceOracle1Missing else Inr expr
        | Some (t, iter) \<Rightarrow>
            if is_oracle_w t then Inl PriceOracle1WFirst
            else if any_terminal is_oracle iter then Inl PriceOracle1Missing
            else if any_terminal is_oracle [e_inner b] then Inl PriceOracle1Missing
            else Inr expr)"

definition arith_depth :: "'t arith_inner \<Rightarrow> nat" where
  "arith_depth a = (case sides a of (x, y) \<Rightarrow> max (e_depth x) (e_depth y))"

definition arith_script_size :: "'t arith_inner \<Rightarrow> nat" where
  "arith_script_size a = (case sides a of (x, y) \<Rightarrow> e_script_size x + e_script_size y + 1)"

definition arith_eval :: "ext_crypto \<Rightarrow> tx_env \<Rightarrow> cov_ext_args arith_inner \<Rightarrow> bool ext_ev" where
  "arith_eval X env a = (case sides a of (x, y) \<Rightarrow> ev_two (expr_eval X env x) (expr_eval X env y) (\<lambda>x y. Inr (compare a x y)))"

text \<open>\<open>Extension::evaluate\<close>; the interpreter's error carries no reason in the model.\<close>

definition arith_evaluate :: "ext_crypto \<Rightarrow> tx_env option \<Rightarrow> cov_ext_args arith_inner \<Rightarrow> istack \<Rightarrow>
    ((interp_error + bool) \<times> istack) option" where
  "arith_evaluate X txenv a s =
     (case txenv of
        None \<Rightarrow> Some (Inl ArithError, s)
      | Some env \<Rightarrow>
          map_option (\<lambda>(r, s). case r of
              Inr True \<Rightarrow> (Inr True, Satisfied # s)
            | Inr False \<Rightarrow> (Inr False, Dissatisfied # s)
            | Inl _ \<Rightarrow> (Inl ArithError, s)) (arith_eval X env a s))"

definition arith_satisfy_helper :: "tx_env \<Rightarrow> ('pk, 'h) satisfier \<Rightarrow> cov_ext_args arith_inner \<Rightarrow> (eval_error + satisfaction) option" where
  "arith_satisfy_helper env s c =
     (case sides c of (a, b) \<Rightarrow>
        case expr_satisfy env s a of
          Some (Inr (x, sat_a)) \<Rightarrow>
            (case expr_satisfy env s b of
               Some (Inr (y, sat_b)) \<Rightarrow> Some (Inr (if compare c x y then sat_combine sat_b sat_a else Sat Impossible False))
             | Some (Inl e) \<Rightarrow> Some (Inl e)
             | None \<Rightarrow> None)
        | Some (Inl e) \<Rightarrow> Some (Inl e)
        | None \<Rightarrow> None)"

text \<open>The satisfier holds the transaction and the spent outputs in serialised form; \<open>V\<close> gives the typed view of them.\<close>

record tx_view =
  view_tx :: "bytes \<Rightarrow> transaction"
  view_utxo :: "bytes \<Rightarrow> tx_out"

definition arith_satisfy :: "tx_view \<Rightarrow> ('pk, 'h) satisfier \<Rightarrow> cov_ext_args arith_inner \<Rightarrow> satisfaction option" where
  "arith_satisfy V s a =
     (case (lookup_tx s, lookup_spent_utxos s, lookup_curr_inp s) of
        (Some tx, Some utxos, Some curr_idx) \<Rightarrow>
          (case tx_env_new (view_tx V tx) (map (view_utxo V) utxos) curr_idx of
             Some env \<Rightarrow>
               map_option (\<lambda>r. case r of Inr sat \<Rightarrow> sat | Inl _ \<Rightarrow> sat_empty) (arith_satisfy_helper env s a)
           | None \<Rightarrow> Some (Sat Impossible False))
      | _ \<Rightarrow> Some (Sat Impossible False))"

definition arith_dissatisfy :: "('pk, 'h) satisfier \<Rightarrow> 't arith_inner \<Rightarrow> satisfaction" where
  "arith_dissatisfy s a = Sat Impossible False"

fun compare_op :: "'t arith_inner \<Rightarrow> opcode" where
  "compare_op (AEq _ _) = OP_EQUAL"
| "compare_op (ALt _ _) = OP_LESSTHAN64"
| "compare_op (ALeq _ _) = OP_LESSTHANOREQUAL64"
| "compare_op (AGt _ _) = OP_GREATERTHAN64"
| "compare_op (AGeq _ _) = OP_GREATERTHANOREQUAL64"

definition arith_push :: "('b, 'pk, 'h, 'e) builder \<Rightarrow> cov_ext_args arith_inner \<Rightarrow> 'b \<Rightarrow> 'b option" where
  "arith_push B a b =
     (case sides a of (x, y) \<Rightarrow> map_option (\<lambda>b. push_opcode B b (compare_op a)) (Option.bind (expr_push B x b) (expr_push B y)))"

definition compare_tk :: "token \<Rightarrow> ('t expr \<Rightarrow> 't expr \<Rightarrow> 't arith_inner) option" where
  "compare_tk t =
     (if t = Equal then Some AEq
      else if t = Le64 then Some ALt
      else if t = Leq64 then Some ALeq
      else if t = Ge64 then Some AGt
      else if t = Geq64 then Some AGeq
      else None)"

definition arith_from_tokens :: "ext_crypto \<Rightarrow> token list \<Rightarrow> (cov_ext_args arith_inner \<times> nat) option" where
  "arith_from_tokens X tks =
     (if tks = [] then None
      else
        Option.bind (expr_from_tokens X tks (length tks - 1)) (\<lambda>(y, pos).
        Option.bind (expr_from_tokens X tks pos) (\<lambda>(x, pos).
        Option.bind (compare_tk (last tks)) (\<lambda>con.
          case arith_new (con x y) of Inr a \<Rightarrow> Some (a, pos) | Inl _ \<Rightarrow> None))))"

definition arith_from_token_iter :: "ext_crypto \<Rightarrow> token_iter \<Rightarrow> cov_ext_args arith_inner option \<times> token_iter" where
  "arith_from_token_iter X tks =
     (case arith_from_tokens X (rev tks) of
        Some (res, last_pos) \<Rightarrow>
          (case token_advance tks (length tks - last_pos) of
             (Some _, tks') \<Rightarrow> (Some res, tks')
           | (None, tks') \<Rightarrow> (None, tks'))
      | None \<Rightarrow> (None, tks))"

section \<open>As a fragment\<close>

definition arith_ext :: "'t arith_inner extension" where
  "arith_ext = \<lparr>
     corr_prop = (\<lambda>_. \<lparr>base = Base_B, input = Input_Zero, dissatisfiable = False, is_unit = True\<rparr>),
     mall_prop = (\<lambda>_. \<lparr>dissat = Dissat_None, safe = False, non_malleable = True\<rparr>),
     extra_prop = (\<lambda>a.
       \<lparr>pk_cost = arith_script_size a, has_free_verify = False,
        ops = \<lparr>op_count_static = 0, op_sat = Some 0, op_nsat = Some 0\<rparr>,
        stack_elem_count_sat = Some 0, stack_elem_count_dissat = Some 0,
        max_sat_size = Some (0, 0), max_dissat_size = Some (0, 0), timelock_info = timelock_default,
        exec_stack_elem_count_sat = Some (arith_depth a), exec_stack_elem_count_dissat = Some (arith_depth a)\<rparr>)\<rparr>"

definition arith_segwit_ctx_checks :: "'t arith_inner \<Rightarrow> script_context_error + unit" where
  "arith_segwit_ctx_checks a = Inl (ExtensionError ''Arith opcodes only available in Taproot'')"

section \<open>Translating parameters\<close>

fun expr_translate :: "('p \<Rightarrow> 'err + 'q) \<Rightarrow> 'p expr \<Rightarrow> 'err + 'q expr" where
  "expr_translate t (Expr (EConst c) _ _) = Inr (from_inner (EConst c))"
| "expr_translate t (Expr CurrInputIdx _ _) = Inr (from_inner CurrInputIdx)"
| "expr_translate t (Expr (EInput i) _ _) = Inr (from_inner (EInput i))"
| "expr_translate t (Expr (EOutput i) _ _) = Inr (from_inner (EOutput i))"
| "expr_translate t (Expr (EInputIssue i) _ _) = Inr (from_inner (EInputIssue i))"
| "expr_translate t (Expr (EInputReIssue i) _ _) = Inr (from_inner (EInputReIssue i))"
| "expr_translate t (Expr (EAdd a b) _ _) = map_res2 (\<lambda>a b. from_inner (EAdd a b)) (expr_translate t a) (expr_translate t b)"
| "expr_translate t (Expr (ESub a b) _ _) = map_res2 (\<lambda>a b. from_inner (ESub a b)) (expr_translate t a) (expr_translate t b)"
| "expr_translate t (Expr (EMul a b) _ _) = map_res2 (\<lambda>a b. from_inner (EMul a b)) (expr_translate t a) (expr_translate t b)"
| "expr_translate t (Expr (EDiv a b) _ _) = map_res2 (\<lambda>a b. from_inner (EDiv a b)) (expr_translate t a) (expr_translate t b)"
| "expr_translate t (Expr (EMod a b) _ _) = map_res2 (\<lambda>a b. from_inner (EMod a b)) (expr_translate t a) (expr_translate t b)"
| "expr_translate t (Expr (EBitAnd a b) _ _) = map_res2 (\<lambda>a b. from_inner (EBitAnd a b)) (expr_translate t a) (expr_translate t b)"
| "expr_translate t (Expr (EBitOr a b) _ _) = map_res2 (\<lambda>a b. from_inner (EBitOr a b)) (expr_translate t a) (expr_translate t b)"
| "expr_translate t (Expr (EXor a b) _ _) = map_res2 (\<lambda>a b. from_inner (EXor a b)) (expr_translate t a) (expr_translate t b)"
| "expr_translate t (Expr (EInvert a) _ _) = map_res (\<lambda>a. from_inner (EInvert a)) (expr_translate t a)"
| "expr_translate t (Expr (ENegate a) _ _) = map_res (\<lambda>a. from_inner (ENegate a)) (expr_translate t a)"
| "expr_translate t (Expr (PriceOracle1 pk time) _ _) = map_res (\<lambda>pk. from_inner (PriceOracle1 pk time)) (t pk)"
| "expr_translate t (Expr (PriceOracle1W pk time) _ _) = map_res (\<lambda>pk. from_inner (PriceOracle1W pk time)) (t pk)"

fun arith_con :: "'p arith_inner \<Rightarrow> 'q expr \<Rightarrow> 'q expr \<Rightarrow> 'q arith_inner" where
  "arith_con (AEq _ _) = AEq"
| "arith_con (ALt _ _) = ALt"
| "arith_con (ALeq _ _) = ALeq"
| "arith_con (AGt _ _) = AGt"
| "arith_con (AGeq _ _) = AGeq"

text \<open>\<open>None\<close> is the panic of \<open>expect\<close> when the translated comparison fails the type check.\<close>

definition arith_translate :: "('p \<Rightarrow> 'err + 'q) \<Rightarrow> 'p arith_inner \<Rightarrow> ('err + 'q arith_inner) option" where
  "arith_translate t a =
     (case sides a of (x, y) \<Rightarrow>
        case map_res2 (arith_con a) (expr_translate t x) (expr_translate t y) of
          Inr res \<Rightarrow> (case arith_new res of Inr r \<Rightarrow> Some (Inr r) | Inl _ \<Rightarrow> None)
        | Inl e \<Rightarrow> Some (Inl e))"

end
