(* ===== verification/Ext_Arith_Sound.thy ===== *)
theory Ext_Arith_Sound
  imports Ext_Arith Interp_Safety
begin

text \<open>
  What the arithmetic fragments compute: the terminals in order and the check of \<open>Arith::new\<close> in their terms, evaluation
  as exact integer arithmetic, the agreement of the satisfier with the evaluator, and when their methods return.
\<close>

section \<open>Induction and terminals\<close>

lemma size_operand: "x \<in> set (expr_operands i) \<Longrightarrow> size (e_inner x) < size i"
  using member_le_sum_list [of "Suc (size (e_inner x))" "map (\<lambda>x. Suc (size (e_inner x))) (expr_operands i)"] size_operands [of i]
  by (auto simp: less_eq_Suc_le)

lemma size_operand_expr: "x \<in> set (expr_operands i) \<Longrightarrow> size x < size (Expr i n d)"
proof -
  assume x: "x \<in> set (expr_operands i)"
  have "size x \<le> sum_list (map size (expr_operands i))" using x by (intro member_le_sum_list) auto
  also have "\<dots> \<le> size i" by (cases i) simp_all
  finally show ?thesis by simp
qed

lemma expr_operands_induct: "(\<And>i n d. (\<And>x. x \<in> set (expr_operands i) \<Longrightarrow> P x) \<Longrightarrow> P (Expr i n d)) \<Longrightarrow> P x"
  by (induction x rule: measure_induct_rule [where f = size]) (metis expr.exhaust size_operand_expr)

function terminals :: "'t expr_inner \<Rightarrow> 't expr_inner list" where
  "terminals i = (if expr_operands i = [] then [i] else concat (map (\<lambda>x. terminals (e_inner x)) (expr_operands i)))"
  by pat_completeness auto
termination by (relation "measure size") (auto simp: size_operand)

declare terminals.simps [simp del]

lemma terminals_nonempty: "terminals i \<noteq> []"
proof (induction i rule: terminals.induct)
  case (1 i)
  then show ?case by (cases "expr_operands i") (simp_all add: terminals.simps [of i])
qed

lemma expr_iter_terminals:
  "case expr_iter_next st of
     None \<Rightarrow> concat (map terminals st) = []
   | Some (t, st') \<Rightarrow> concat (map terminals st) = t # concat (map terminals st')"
proof (induction st rule: expr_iter_next.induct)
  case (2 i st)
  show ?case
  proof (cases "expr_operands i = []")
    case False
    then have "concat (map terminals (i # st)) = concat (map terminals (map e_inner (expr_operands i) @ st))"
      by (simp add: terminals.simps [of i] comp_def)
    then show ?thesis using 2 [OF False] False by (simp only: expr_iter_next.simps if_False)
  qed (simp add: terminals.simps [of i])
qed simp

lemma any_terminal_iff: "any_terminal f st \<longleftrightarrow> (\<exists>t \<in> set (concat (map terminals st)). f t)"
proof (induction f st rule: any_terminal.induct)
  case (1 f st)
  show ?case
  proof (cases "expr_iter_next st")
    case None
    then show ?thesis using expr_iter_terminals [of st] by (simp add: any_terminal.simps [of f st])
  next
    case (Some r)
    obtain t st' where r: "r = (t, st')" by (cases r)
    have "concat (map terminals st) = t # concat (map terminals st')" using expr_iter_terminals [of st] Some r by simp
    then show ?thesis using 1 [OF Some r [symmetric]] Some r by (simp only: any_terminal.simps [of f st]) simp
  qed
qed

lemma expr_iter_first:
  obtains st where "expr_iter_next [i] = Some (hd (terminals i), st)" "concat (map terminals st) = tl (terminals i)"
  using expr_iter_terminals [of "[i]"] terminals_nonempty [of i] by (auto split: option.splits)

lemma arith_new_iff:
  assumes "sides a = (x, y)"
  shows "arith_new a = Inr r \<longleftrightarrow> r = a \<and> \<not> is_oracle_w (hd (terminals (e_inner x)))
    \<and> (\<forall>t \<in> set (tl (terminals (e_inner x))) \<union> set (terminals (e_inner y)). \<not> is_oracle t)"
proof (rule expr_iter_first [of "e_inner x"])
  fix st assume st: "expr_iter_next [e_inner x] = Some (hd (terminals (e_inner x)), st)" "concat (map terminals st) = tl (terminals (e_inner x))"
  have any: "any_terminal is_oracle st \<longleftrightarrow> (\<exists>t \<in> set (tl (terminals (e_inner x))). is_oracle t)"
    "any_terminal is_oracle [e_inner y] \<longleftrightarrow> (\<exists>t \<in> set (terminals (e_inner y)). is_oracle t)"
    by (simp_all only: any_terminal_iff st(2)) simp
  show ?thesis
    using assms by (auto simp: arith_new_def st(1) any simp del: expr_iter_next.simps)
qed

section \<open>Exact arithmetic\<close>

text \<open>The value of an expression without oracle prices over the integers, where it fits_i64 64 bits at every step.\<close>

definition fits_i64 :: "int \<Rightarrow> int option" where
  "fits_i64 v = (if - (2 ^ 63) \<le> v \<and> v < 2 ^ 63 then Some v else None)"

definition int_two :: "int option \<Rightarrow> int option \<Rightarrow> (int \<Rightarrow> int \<Rightarrow> int option) \<Rightarrow> int option" where
  "int_two a b f = Option.bind a (\<lambda>x. Option.bind b (f x))"

fun exact_value :: "('t expr_inner \<Rightarrow> int option) \<Rightarrow> 't expr \<Rightarrow> int option" where
  "exact_value lv (Expr (EAdd x y) _ _) = int_two (exact_value lv x) (exact_value lv y) (\<lambda>a b. fits_i64 (a + b))"
| "exact_value lv (Expr (ESub x y) _ _) = int_two (exact_value lv x) (exact_value lv y) (\<lambda>a b. fits_i64 (a - b))"
| "exact_value lv (Expr (EMul x y) _ _) = int_two (exact_value lv x) (exact_value lv y) (\<lambda>a b. fits_i64 (a * b))"
| "exact_value lv (Expr (EDiv x y) _ _) =
     int_two (exact_value lv x) (exact_value lv y) (\<lambda>a b. if b = 0 then None else fits_i64 (div_euclid a b))"
| "exact_value lv (Expr (EMod x y) _ _) =
     int_two (exact_value lv x) (exact_value lv y) (\<lambda>a b. if b = 0 \<or> a = - (2 ^ 63) \<and> b = -1 then None else fits_i64 (rem_euclid a b))"
| "exact_value lv (Expr (EBitAnd x y) _ _) = int_two (exact_value lv x) (exact_value lv y) (\<lambda>a b. Some (a AND b))"
| "exact_value lv (Expr (EBitOr x y) _ _) = int_two (exact_value lv x) (exact_value lv y) (\<lambda>a b. Some (a OR b))"
| "exact_value lv (Expr (EXor x y) _ _) = int_two (exact_value lv x) (exact_value lv y) (\<lambda>a b. Some (a XOR b))"
| "exact_value lv (Expr (EInvert x) _ _) = map_option (\<lambda>a. - a - 1) (exact_value lv x)"
| "exact_value lv (Expr (ENegate x) _ _) = Option.bind (exact_value lv x) (\<lambda>a. fits_i64 (- a))"
| "exact_value lv (Expr leaf _ _) = lv leaf"

definition amount_of :: "tx_env \<Rightarrow> 't expr_inner \<Rightarrow> int option" where
  "amount_of env leaf = (case leaf_amount env leaf of Some (Inr v) \<Rightarrow> Some (sint v) | _ \<Rightarrow> None)"

text \<open>An operation on words agrees with one on integers when it has the same result, read as a signed number.\<close>

definition agrees :: "(eval_error + i64) option \<Rightarrow> int option \<Rightarrow> bool" where
  "agrees r e \<longleftrightarrow> (case r of Some (Inr v) \<Rightarrow> e = Some (sint v) | _ \<Rightarrow> e = None)"

lemma agrees_simps [simp]:
  "agrees None e \<longleftrightarrow> e = None" "agrees (Some (Inl err)) e \<longleftrightarrow> e = None" "agrees (Some (Inr v)) e \<longleftrightarrow> e = Some (sint v)"
  by (simp_all add: agrees_def)

lemma agrees_checked: "agrees (Some (ok_or (checked_i64 v) err)) (fits_i64 v)"
  using sint_checked [of v] by (auto simp: agrees_def ok_or_def fits_i64_def checked_i64_def)

lemma agrees_ops:
  "agrees (Some (add_op x y)) (fits_i64 (sint x + sint y))"
  "agrees (Some (sub_op x y)) (fits_i64 (sint x - sint y))"
  "agrees (Some (mul_op x y)) (fits_i64 (sint x * sint y))"
  "agrees (Some (div_op x y)) (if sint y = 0 then None else fits_i64 (div_euclid (sint x) (sint y)))"
  "agrees (Some (mod_op x y)) (if sint y = 0 \<or> sint x = - (2 ^ 63) \<and> sint y = -1 then None else fits_i64 (rem_euclid (sint x) (sint y)))"
  "agrees (Some (neg_op x)) (fits_i64 (- sint x))"
  "agrees (Some (Inr (x AND y))) (Some (sint x AND sint y))"
  "agrees (Some (Inr (x OR y))) (Some (sint x OR sint y))"
  "agrees (Some (Inr (x XOR y))) (Some (sint x XOR sint y))"
  "agrees (Some (Inr (NOT x))) (Some (- sint x - 1))"
proof -
  have z: "y = 0 \<longleftrightarrow> sint y = 0" using signed_eq_0_iff [of y] by auto
  show "agrees (Some (add_op x y)) (fits_i64 (sint x + sint y))" "agrees (Some (sub_op x y)) (fits_i64 (sint x - sint y))"
    "agrees (Some (mul_op x y)) (fits_i64 (sint x * sint y))" "agrees (Some (neg_op x)) (fits_i64 (- sint x))"
    by (simp_all only: add_op_def sub_op_def mul_op_def neg_op_def checked_add_def checked_sub_def checked_mul_def checked_neg_def agrees_checked)
  show "agrees (Some (div_op x y)) (if sint y = 0 then None else fits_i64 (div_euclid (sint x) (sint y)))"
    using agrees_checked [of "div_euclid (sint x) (sint y)" "DivOverflow x y"] z
    by (simp add: div_op_def checked_div_euclid_def) (simp add: agrees_def ok_or_def)
  show "agrees (Some (mod_op x y)) (if sint y = 0 \<or> sint x = - (2 ^ 63) \<and> sint y = -1 then None else fits_i64 (rem_euclid (sint x) (sint y)))"
    using agrees_checked [of "rem_euclid (sint x) (sint y)" "ModOverflow x y"] z
    by (auto simp: mod_op_def checked_rem_euclid_def) (simp_all add: agrees_def ok_or_def)
  show "agrees (Some (Inr (x AND y))) (Some (sint x AND sint y))" "agrees (Some (Inr (x OR y))) (Some (sint x OR sint y))"
    "agrees (Some (Inr (x XOR y))) (Some (sint x XOR sint y))"
    by (simp_all add: agrees_def signed_and_eq signed_or_eq signed_xor_eq)
  show "agrees (Some (Inr (NOT x))) (Some (- sint x - 1))"
    using sint_greater_eq [of x] sint_less [of x]
    by (simp add: agrees_def signed_not_eq) (simp add: not_eq_complement signed_take_bit_int_eq_self)
qed

definition ev_agrees :: "i64 ext_ev \<Rightarrow> int option \<Rightarrow> bool" where
  "ev_agrees m e \<longleftrightarrow> (\<forall>s. agrees (map_option fst (m s)) e \<and> (\<forall>r s'. m s = Some (r, s') \<longrightarrow> s' = s))"

lemma ev_two_agrees:
  assumes "ev_agrees mx ex" "ev_agrees my ey" "\<And>x y. agrees (Some (op x y)) (f (sint x) (sint y))"
  shows "ev_agrees (ev_two mx my op) (int_two ex ey f)"
  unfolding ev_agrees_def
proof (intro allI conjI impI)
  fix s
  have x: "agrees (map_option fst (mx s)) ex" "\<And>r s'. mx s = Some (r, s') \<Longrightarrow> s' = s"
    and y: "agrees (map_option fst (my s)) ey" "\<And>r s'. my s = Some (r, s') \<Longrightarrow> s' = s"
    using assms(1,2) by (auto simp: ev_agrees_def)
  show "agrees (map_option fst (ev_two mx my op s)) (int_two ex ey f)"
    using x y assms(3)
    by (auto simp: ev_two_def ev_bind_def ev_return_def int_two_def split: option.splits prod.splits sum.splits)
  show "s' = s" if "ev_two mx my op s = Some (r, s')" for r s'
    using that x(2) y(2) by (auto simp: ev_two_def ev_bind_def ev_return_def split: option.splits prod.splits sum.splits)
qed

lemma ev_one_agrees:
  assumes "ev_agrees mx ex" "\<And>x. agrees (Some (op x)) (f (sint x))"
  shows "ev_agrees (ev_one mx op) (Option.bind ex f)"
  unfolding ev_agrees_def
proof (intro allI conjI impI)
  fix s
  have x: "agrees (map_option fst (mx s)) ex" "\<And>r s'. mx s = Some (r, s') \<Longrightarrow> s' = s"
    using assms(1) by (auto simp: ev_agrees_def)
  show "agrees (map_option fst (ev_one mx op s)) (Option.bind ex f)"
    using x assms(2)
    by (auto simp: ev_one_def ev_bind_def ev_return_def split: option.splits prod.splits sum.splits)
  show "s' = s" if "ev_one mx op s = Some (r, s')" for r s'
    using that x(2) by (auto simp: ev_one_def ev_bind_def ev_return_def split: option.splits prod.splits sum.splits)
qed

fun oracle_free :: "'t expr_inner \<Rightarrow> bool" where
  "oracle_free (PriceOracle1 _ _) = False"
| "oracle_free (PriceOracle1W _ _) = False"
| "oracle_free _ = True"

lemma terminals_operand: "x \<in> set (expr_operands i) \<Longrightarrow> set (terminals (e_inner x)) \<subseteq> set (terminals i)"
  by (subst (2) terminals.simps) auto

lemma leaf_agrees: "ev_agrees (ev_return (leaf_amount env leaf)) (amount_of env leaf)"
  by (auto simp: ev_agrees_def ev_return_def amount_of_def agrees_def split: option.splits sum.splits)

lemma expr_eval_agrees:
  "\<forall>t \<in> set (terminals (e_inner x)). oracle_free t \<Longrightarrow> ev_agrees (expr_eval X env x) (exact_value (amount_of env) x)"
proof (induction x rule: expr_operands_induct)
  case (1 i n d)
  have ih: "ev_agrees (expr_eval X env x) (exact_value (amount_of env) x)" if "x \<in> set (expr_operands i)" for x
    using 1 that terminals_operand [OF that] by auto
  have map_bind: "map_option f r = Option.bind r (\<lambda>a. Some (f a))" for f :: "int \<Rightarrow> int" and r by (cases r) auto
  have "oracle_free i" if "expr_operands i = []" using "1.prems" that by (simp add: terminals.simps [of i])
  then show ?case
    using ih
    by (cases i; simp only: expr_eval.simps exact_value.simps map_bind)
      (((rule leaf_agrees | rule ev_two_agrees ev_one_agrees | rule agrees_ops)+ | simp)+)
qed

section \<open>The satisfier and the evaluator\<close>

text \<open>
  What the documentation asks of an oracle's signature: it signs the price at the time that comes with it, which is not
  before the time of the fragment. The evaluator accepts a price only if the two times are the same and the price is not
  negative; \<open>price_met\<close> says so of a terminal, for the signature that the satisfier finds.
\<close>

definition oracle_lookup_ok :: "ext_crypto \<Rightarrow> ('pk, 'h) satisfier \<Rightarrow> bool" where
  "oracle_lookup_ok X s \<longleftrightarrow>
     (\<forall>pk t sig price time. lookup_price_oracle_sig s pk t = Some (sig, price, time) \<longrightarrow>
        length sig = 64 \<and> xc_schnorr_from_slice X sig = Some sig \<and> check_sig_price_oracle_1 X sig pk time price \<and> t \<le> time)"

definition signed_at :: "('pk, 'h) satisfier \<Rightarrow> cov_ext_args \<Rightarrow> u64 \<Rightarrow> bool" where
  "signed_at s pk t =
     (case pk of
        XOnlyKeyArg k \<Rightarrow>
          (case lookup_price_oracle_sig s k t of Some (sig, price, time) \<Rightarrow> time = t \<and> 0 \<le> sint price | None \<Rightarrow> False)
      | _ \<Rightarrow> False)"

fun price_met :: "('pk, 'h) satisfier \<Rightarrow> cov_ext_args expr_inner \<Rightarrow> bool" where
  "price_met s (PriceOracle1 pk t) = signed_at s pk t"
| "price_met s (PriceOracle1W pk t) = signed_at s pk t"
| "price_met s _ = True"

definition sat_sound :: "sat_value \<Rightarrow> i64 ext_ev \<Rightarrow> bool \<Rightarrow> bool" where
  "sat_sound sv ev met \<longleftrightarrow>
     (\<forall>v sat. sv = Some (Inr (v, sat)) \<longrightarrow>
        (\<exists>ws. sat = Sat (Stack ws) False \<and>
           (\<forall>rest. if met then ev (elems ws @ rest) = Some (Inr v, rest)
                   else \<exists>e st. ev (elems ws @ rest) = Some (Inl e, st))))"

lemma elems_append: "elems (v @ w) = elems w @ elems v"
  by (simp add: elems_def)

lemma sat_soundE:
  assumes "sat_sound (Some (Inr (v, sat))) ev met"
  obtains ws where "sat = Sat (Stack ws) False" "\<And>rest. met \<Longrightarrow> ev (elems ws @ rest) = Some (Inr v, rest)"
    "\<And>rest. \<not> met \<Longrightarrow> \<exists>e st. ev (elems ws @ rest) = Some (Inl e, st)"
  using assms by (auto simp: sat_sound_def)

lemma sat_two_sound:
  assumes "sat_sound sx ex p" "sat_sound sy ey q"
  shows "sat_sound (sat_two sx sy op) (ev_two ex ey op) (p \<and> q)"
  unfolding sat_sound_def
proof (intro allI impI)
  fix v sat assume "sat_two sx sy op = Some (Inr (v, sat))"
  then obtain x satx y saty where xy: "sx = Some (Inr (x, satx))" "sy = Some (Inr (y, saty))" "op x y = Inr v" "sat = sat_combine saty satx"
    by (auto simp: sat_two_def map_res_def split: option.splits sum.splits prod.splits)
  obtain wx where wx: "satx = Sat (Stack wx) False" "\<And>rest. p \<Longrightarrow> ex (elems wx @ rest) = Some (Inr x, rest)"
      "\<And>rest. \<not> p \<Longrightarrow> \<exists>e st. ex (elems wx @ rest) = Some (Inl e, st)"
    using sat_soundE assms(1) xy(1) by metis
  obtain wy where wy: "saty = Sat (Stack wy) False" "\<And>rest. q \<Longrightarrow> ey (elems wy @ rest) = Some (Inr y, rest)"
      "\<And>rest. \<not> q \<Longrightarrow> \<exists>e st. ey (elems wy @ rest) = Some (Inl e, st)"
    using sat_soundE assms(2) xy(2) by metis
  have "if p \<and> q then ev_two ex ey op (elems (wy @ wx) @ rest) = Some (Inr v, rest)
      else \<exists>e st. ev_two ex ey op (elems (wy @ wx) @ rest) = Some (Inl e, st)" for rest
    using wx(2,3) [of "elems wy @ rest"] wy(2,3) [of rest] xy(3)
    by (cases p; cases q) (auto simp: ev_two_def ev_bind_def ev_return_def elems_append)
  then show "\<exists>ws. sat = Sat (Stack ws) False \<and>
      (\<forall>rest. if p \<and> q then ev_two ex ey op (elems ws @ rest) = Some (Inr v, rest)
              else \<exists>e st. ev_two ex ey op (elems ws @ rest) = Some (Inl e, st))"
    using xy(4) wx(1) wy(1) by (intro exI [of _ "wy @ wx"] conjI allI) (simp_all add: sat_combine_def del: elems_simps(2))
qed

lemma sat_one_sound:
  assumes "sat_sound sx ex p"
  shows "sat_sound (sat_one sx op) (ev_one ex op) p"
  unfolding sat_sound_def
proof (intro allI impI)
  fix v sat assume "sat_one sx op = Some (Inr (v, sat))"
  then obtain x where x: "sx = Some (Inr (x, sat))" "op x = Inr v"
    by (auto simp: sat_one_def map_res_def split: option.splits sum.splits prod.splits)
  obtain ws where ws: "sat = Sat (Stack ws) False" "\<And>rest. p \<Longrightarrow> ex (elems ws @ rest) = Some (Inr x, rest)"
      "\<And>rest. \<not> p \<Longrightarrow> \<exists>e st. ex (elems ws @ rest) = Some (Inl e, st)"
    using sat_soundE assms x(1) by metis
  have "if p then ev_one ex op (elems ws @ rest) = Some (Inr v, rest) else \<exists>e st. ev_one ex op (elems ws @ rest) = Some (Inl e, st)" for rest
    using ws(2,3) [of rest] x(2) by (cases p) (auto simp: ev_one_def ev_bind_def ev_return_def)
  then show "\<exists>ws. sat = Sat (Stack ws) False \<and>
      (\<forall>rest. if p then ev_one ex op (elems ws @ rest) = Some (Inr v, rest) else \<exists>e st. ev_one ex op (elems ws @ rest) = Some (Inl e, st))"
    using ws(1) by blast
qed

lemma leaf_sat_sound: "sat_sound (map_option (map_res (\<lambda>res. (res, sat_empty))) r) (ev_return r) True"
  by (auto simp: sat_sound_def ev_return_def map_res_def sat_empty_def wit_empty_def elems_def split: sum.splits)

lemma element_from_push: "length bs \<noteq> 0 \<Longrightarrow> length bs \<noteq> 1 \<Longrightarrow> element_from bs = element.Push bs"
  by (auto simp: element_from_def)

lemma oracle_eval_time:
  assumes "length sig = 64" "xc_schnorr_from_slice X sig = Some sig"
  shows "price_oracle_eval X (XOnlyKeyArg pk) t (elems [sig, to_le_bytes time, to_le_bytes price] @ rest) =
    Some (if t < time then Inl TimestampInFuture
          else if check_sig_price_oracle_1 X sig pk t price then (if unat price < 2 ^ 63 then Inr price else Inl PriceOverflow)
          else Inl InvalidSignature, rest)"
  using assms
  by (simp add: price_oracle_eval_def pop_u64_def pop_push_def ev_bind_def ev_return_def elems_def element_from_push try_push_def)

lemma nonnegative_i64: "0 \<le> sint (w :: i64) \<longleftrightarrow> unat w < 2 ^ 63"
proof
  assume "0 \<le> sint w"
  then have "uint w = sint w" using sint_less [of w] by (simp add: uint_sint take_bit_int_eq_self)
  then show "unat w < 2 ^ 63" using sint_less [of w] by (simp add: unat_eq_nat_uint)
next
  assume "unat w < 2 ^ 63"
  then have "int (unat w) < int (2 ^ 63)" by (simp only: of_nat_less_iff)
  then have "signed_take_bit 63 (uint w) = uint w" by (intro signed_take_bit_int_eq_self) (auto intro: order_trans [OF _ unsigned_greater_eq])
  then show "0 \<le> sint w" using sint_uint [of w] by simp
qed

lemma oracle_sat_sound:
  assumes "oracle_lookup_ok X s"
  shows "sat_sound (price_oracle_satisfy s pk t) (price_oracle_eval X pk t) (signed_at s pk t)"
proof (cases pk)
  case (XOnlyKeyArg xpk)
  show ?thesis
  proof (cases "lookup_price_oracle_sig s xpk t")
    case None
    then show ?thesis by (simp add: sat_sound_def price_oracle_satisfy_def XOnlyKeyArg)
  next
    case (Some r)
    obtain sig price time where r: "r = (sig, price, time)" by (cases r)
    have ok: "length sig = 64" "xc_schnorr_from_slice X sig = Some sig" "check_sig_price_oracle_1 X sig xpk time price" "t \<le> time"
      using assms Some r by (auto simp: oracle_lookup_ok_def)
    let ?ws = "[sig, to_le_bytes time, to_le_bytes price]"
    have sat: "price_oracle_satisfy s (XOnlyKeyArg xpk) t = Some (Inr (price, Sat (Stack ?ws) False))"
      using Some r by (simp add: price_oracle_satisfy_def)
    have met: "signed_at s (XOnlyKeyArg xpk) t \<longleftrightarrow> time = t \<and> unat price < 2 ^ 63"
      using Some r by (simp add: signed_at_def nonnegative_i64)
    have "if signed_at s (XOnlyKeyArg xpk) t then price_oracle_eval X (XOnlyKeyArg xpk) t (elems ?ws @ rest) = Some (Inr price, rest)
        else \<exists>e st. price_oracle_eval X (XOnlyKeyArg xpk) t (elems ?ws @ rest) = Some (Inl e, st)" for rest
      using oracle_eval_time [OF ok(1,2), of xpk t time price rest] ok(3,4) by (cases "time = t") (simp_all add: met)
    then show ?thesis unfolding XOnlyKeyArg sat sat_sound_def by blast
  qed
qed (simp_all add: sat_sound_def price_oracle_satisfy_def)

lemma expr_sat_sound:
  assumes "oracle_lookup_ok X s"
  shows "sat_sound (expr_satisfy env s x) (expr_eval X env x) (\<forall>t \<in> set (terminals (e_inner x)). price_met s t)"
proof (induction x rule: expr_operands_induct)
  case (1 i n d)
  have two: "sat_sound (sat_two (expr_satisfy env s x) (expr_satisfy env s y) op) (ev_two (expr_eval X env x) (expr_eval X env y) op)
      (\<forall>t \<in> set (terminals i). price_met s t)" if "expr_operands i = [x, y]" for x y op
    using sat_two_sound [OF 1 1, of x y op] that by (simp add: terminals.simps [of i] ball_Un)
  have one: "sat_sound (sat_one (expr_satisfy env s x) op) (ev_one (expr_eval X env x) op)
      (\<forall>t \<in> set (terminals i). price_met s t)" if "expr_operands i = [x]" for x op
    using sat_one_sound [OF 1, of x op] that by (simp add: terminals.simps [of i])
  have leaf: "terminals i = [i]" if "expr_operands i = []" using that by (simp add: terminals.simps [of i])
  show ?case
  proof (cases "expr_operands i = [] \<and> oracle_free i")
    case True
    then have "expr_satisfy env s (Expr i n d) = map_option (map_res (\<lambda>res. (res, sat_empty))) (leaf_amount env i)"
        "expr_eval X env (Expr i n d) = ev_return (leaf_amount env i)" "price_met s i"
      by (cases i; simp)+
    then show ?thesis using True leaf leaf_sat_sound [of "leaf_amount env i"] by simp
  next
    case False
    then show ?thesis using two one leaf oracle_sat_sound [OF assms] by (cases i) simp_all
  qed
qed

text \<open>Without oracle prices, the satisfier computes what the evaluator computes, errors included, and needs no witness.\<close>

definition no_witness :: "(eval_error + i64) option \<Rightarrow> sat_value" where
  "no_witness r = map_option (map_res (\<lambda>v. (v, sat_empty))) r"

definition same_value :: "sat_value \<Rightarrow> i64 ext_ev \<Rightarrow> bool" where
  "same_value sv ev \<longleftrightarrow> (\<exists>r. sv = no_witness r \<and> ev = ev_return r)"

lemma no_witness_simps [simp]:
  "no_witness None = None" "no_witness (Some (Inl e)) = Some (Inl e)" "no_witness (Some (Inr v)) = Some (Inr (v, sat_empty))"
  by (simp_all add: no_witness_def map_res_def)

lemma sat_combine_empty [simp]: "sat_combine sat_empty sat_empty = sat_empty"
  by (simp add: sat_combine_def sat_empty_def)

lemma map_res_no_witness [simp]: "Some (map_res (\<lambda>v. (v, sat_empty)) r) = no_witness (Some r)"
  by (simp add: no_witness_def)

definition bind_two :: "(eval_error + i64) option \<Rightarrow> (eval_error + i64) option \<Rightarrow> (i64 \<Rightarrow> i64 \<Rightarrow> eval_error + 'a) \<Rightarrow> (eval_error + 'a) option" where
  "bind_two r q op = Option.bind r (\<lambda>r. case r of Inl e \<Rightarrow> Some (Inl e) | Inr x \<Rightarrow> map_option (\<lambda>q. bind_res q (op x)) q)"

lemma ev_two_return: "ev_two (ev_return r) (ev_return q) op = ev_return (bind_two r q op)"
  by (cases r; cases q; cases "the r"; cases "the q") (auto simp: fun_eq_iff bind_two_def ev_two_def ev_bind_def ev_return_def)

lemma sat_two_same: "same_value sx ex \<Longrightarrow> same_value sy ey \<Longrightarrow> same_value (sat_two sx sy op) (ev_two ex ey op)"
proof -
  assume "same_value sx ex" "same_value sy ey"
  then obtain r q where rq: "sx = no_witness r" "ex = ev_return r" "sy = no_witness q" "ey = ev_return q" by (auto simp: same_value_def)
  have "sat_two (no_witness r) (no_witness q) op = no_witness (bind_two r q op)"
    by (cases r; cases q; cases "the r"; cases "the q") (auto simp: sat_two_def bind_two_def)
  then show ?thesis using rq by (auto simp: same_value_def ev_two_return)
qed

lemma sat_one_same: "same_value sx ex \<Longrightarrow> same_value (sat_one sx op) (ev_one ex op)"
proof -
  assume "same_value sx ex"
  then obtain r where r: "sx = no_witness r" "ex = ev_return r" by (auto simp: same_value_def)
  let ?r = "map_option (\<lambda>r. bind_res r op) r"
  have "sat_one (no_witness r) op = no_witness ?r" by (cases r; cases "the r") (auto simp: sat_one_def)
  moreover have "ev_one (ev_return r) op = ev_return ?r"
    by (cases r; cases "the r") (auto simp: fun_eq_iff ev_one_def ev_bind_def ev_return_def)
  ultimately show ?thesis using r by (auto simp: same_value_def)
qed

lemma leaf_sat_same: "same_value (map_option (map_res (\<lambda>res. (res, sat_empty))) r) (ev_return r)"
  by (auto simp: same_value_def no_witness_def)

lemma expr_sat_same:
  "\<forall>t \<in> set (terminals (e_inner x)). oracle_free t \<Longrightarrow> same_value (expr_satisfy env s x) (expr_eval X env x)"
proof (induction x rule: expr_operands_induct)
  case (1 i n d)
  have ih: "same_value (expr_satisfy env s x) (expr_eval X env x)" if "x \<in> set (expr_operands i)" for x
    using 1 that terminals_operand [OF that] by auto
  have "oracle_free i" if "expr_operands i = []" using "1.prems" that by (simp add: terminals.simps [of i])
  then show ?case
    using ih
    by (cases i; simp only: expr_eval.simps expr_satisfy.simps)
      ((rule leaf_sat_same | (rule sat_two_same sat_one_same; simp) | simp)+)
qed

definition prices_met :: "('pk, 'h) satisfier \<Rightarrow> cov_ext_args arith_inner \<Rightarrow> bool" where
  "prices_met s a \<longleftrightarrow>
     list_all (price_met s) (terminals (e_inner (fst (sides a)))) \<and> list_all (price_met s) (terminals (e_inner (snd (sides a))))"

lemma arith_sat_sound:
  assumes "oracle_lookup_ok X s" "arith_satisfy_helper env s a = Some (Inr sat)" "stack sat \<noteq> Impossible"
  shows "\<exists>ws. sat = Sat (Stack ws) False
    \<and> (\<forall>rest. if prices_met s a then arith_evaluate X (Some env) a (elems ws @ rest) = Some (Inr True, Satisfied # rest)
        else \<exists>st. arith_evaluate X (Some env) a (elems ws @ rest) = Some (Inl ArithError, st))"
proof -
  obtain x y where xy: "sides a = (x, y)" by (cases "sides a")
  let ?met = "\<lambda>x. \<forall>t \<in> set (terminals (e_inner x)). price_met s t"
  have met: "prices_met s a \<longleftrightarrow> ?met x \<and> ?met y" by (simp add: prices_met_def xy list_all_iff)
  note sound = expr_sat_sound [OF assms(1), of env, unfolded sat_sound_def]
  obtain v sx where x: "expr_satisfy env s x = Some (Inr (v, sx))"
    using assms(2) by (auto simp: arith_satisfy_helper_def xy split: option.splits sum.splits)
  obtain w sy where y: "expr_satisfy env s y = Some (Inr (w, sy))"
    using assms(2) by (auto simp: arith_satisfy_helper_def xy x split: option.splits sum.splits)
  from x obtain wx where wx: "sx = Sat (Stack wx) False" "\<And>rest. if ?met x then expr_eval X env x (elems wx @ rest) = Some (Inr v, rest)
      else \<exists>e st. expr_eval X env x (elems wx @ rest) = Some (Inl e, st)"
    using sound by blast
  from y obtain wy where wy: "sy = Sat (Stack wy) False" "\<And>rest. if ?met y then expr_eval X env y (elems wy @ rest) = Some (Inr w, rest)
      else \<exists>e st. expr_eval X env y (elems wy @ rest) = Some (Inl e, st)"
    using sound by blast
  have sat: "compare a v w" "sat = Sat (Stack (wy @ wx)) False"
    using assms(2,3) by (auto simp: arith_satisfy_helper_def xy x y wx(1) wy(1) sat_combine_def split: if_splits)
  have "if prices_met s a then arith_evaluate X (Some env) a (elems (wy @ wx) @ rest) = Some (Inr True, Satisfied # rest)
      else \<exists>st. arith_evaluate X (Some env) a (elems (wy @ wx) @ rest) = Some (Inl ArithError, st)" for rest
    using wx(2) [of "elems wy @ rest"] wy(2) [of rest] sat(1)
    by (auto simp: met arith_evaluate_def arith_eval_def xy ev_two_def ev_bind_def ev_return_def elems_append split: if_splits)
  then show ?thesis using sat(2) by blast
qed

text \<open>An error of the helper becomes the empty satisfaction, and evaluating that fails.\<close>

lemma arith_sat_error:
  assumes "lookup_tx s = Some tx" "lookup_spent_utxos s = Some utxos" "lookup_curr_inp s = Some idx"
    "tx_env_new (view_tx V tx) (map (view_utxo V) utxos) idx = Some env" "arith_satisfy_helper env s a = Some (Inl e)"
  shows "arith_satisfy V s a = Some (Sat (Stack []) False)"
  using assms by (simp add: arith_satisfy_def sat_empty_def wit_empty_def)

lemma arith_error_evaluate:
  assumes "arith_satisfy_helper env s a = Some (Inl e)" "sides a = (x, y)"
    "\<forall>t \<in> set (terminals (e_inner x)) \<union> set (terminals (e_inner y)). oracle_free t"
  shows "arith_eval X env a st = Some (Inl e, st)"
proof -
  have same: "same_value (expr_satisfy env s x) (expr_eval X env x)" "same_value (expr_satisfy env s y) (expr_eval X env y)"
    using assms(3) expr_sat_same [of x] expr_sat_same [of y] by auto
  then obtain r q where rq: "expr_satisfy env s x = no_witness r" "expr_eval X env x = ev_return r"
      "expr_satisfy env s y = no_witness q" "expr_eval X env y = ev_return q"
    by (auto simp: same_value_def)
  have "bind_two r q (\<lambda>x y. Inr (compare a x y)) = Some (Inl e)"
    using assms(1) by (cases r; cases q; cases "the r"; cases "the q") (auto simp: arith_satisfy_helper_def assms(2) rq bind_two_def)
  then show ?thesis by (simp add: arith_eval_def assms(2) rq ev_two_return) (simp add: ev_return_def)
qed

section \<open>Translation of parameters\<close>

text \<open>Translation keeps the terminals apart from their parameters, so it keeps the check of \<open>Arith::new\<close>.\<close>

definition same_kind :: "'p expr_inner \<Rightarrow> 'q expr_inner \<Rightarrow> bool" where
  "same_kind t u \<longleftrightarrow> is_oracle t = is_oracle u \<and> is_oracle_w t = is_oracle_w u"

lemma terminals_two: "expr_operands i = [x, y] \<Longrightarrow> terminals i = terminals (e_inner x) @ terminals (e_inner y)"
  and terminals_one: "expr_operands i = [x] \<Longrightarrow> terminals i = terminals (e_inner x)"
  and terminals_leaf: "expr_operands i = [] \<Longrightarrow> terminals i = [i]"
  by (simp_all add: terminals.simps [of i])

lemmas terminals_simps = terminals_two terminals_one terminals_leaf

lemma e_inner_from_inner [simp]: "e_inner (from_inner i) = i"
  by (simp add: from_inner_def split: prod.split)

lemma expr_translate_kind:
  "expr_translate t x = Inr x' \<Longrightarrow> list_all2 same_kind (terminals (e_inner x)) (terminals (e_inner x'))"
proof (induction x arbitrary: x' rule: expr_operands_induct)
  case (1 i n d)
  then show ?case by (cases i) (auto simp: terminals_simps same_kind_def intro!: list_all2_appendI)
qed

lemma same_kind_oracles: "list_all2 same_kind ts us \<Longrightarrow> (\<exists>u \<in> set us. is_oracle u) \<longleftrightarrow> (\<exists>t \<in> set ts. is_oracle t)"
  by (induction rule: list_all2_induct) (auto simp: same_kind_def)

lemma arith_new_same_kind:
  assumes a: "arith_new a = Inr a" "sides a = (x, y)"
    and kinds: "list_all2 same_kind (terminals (e_inner x)) (terminals (e_inner x'))"
      "list_all2 same_kind (terminals (e_inner y)) (terminals (e_inner y'))"
  shows "arith_new (arith_con a x' y') = Inr (arith_con a x' y')"
proof -
  have s: "sides (arith_con a x' y') = (x', y')" by (cases a) auto
  obtain u us where u: "terminals (e_inner x) = u # us" using terminals_nonempty [of "e_inner x"] by (cases "terminals (e_inner x)") auto
  obtain v vs where v: "terminals (e_inner x') = v # vs" using terminals_nonempty [of "e_inner x'"] by (cases "terminals (e_inner x')") auto
  have k: "same_kind u v" "list_all2 same_kind us vs" using kinds(1) u v by auto
  have "\<forall>w \<in> set vs \<union> set (terminals (e_inner y')). \<not> is_oracle w"
    using same_kind_oracles [OF k(2)] same_kind_oracles [OF kinds(2)] a(1) u unfolding arith_new_iff [OF a(2)] by auto
  then show ?thesis using k(1) a(1) u v unfolding arith_new_iff [OF a(2)] arith_new_iff [OF s] by (simp add: same_kind_def)
qed

lemma arith_translate_total:
  assumes "arith_new a = Inr a"
  shows "arith_translate t a \<noteq> None"
proof -
  obtain x y where xy: "sides a = (x, y)" by (cases "sides a")
  have "arith_new (arith_con a x' y') = Inr (arith_con a x' y')"
    if x': "expr_translate t x = Inr x'" and y': "expr_translate t y = Inr y'" for x' y'
    using arith_new_same_kind [OF assms xy expr_translate_kind [OF x'] expr_translate_kind [OF y']] .
  then show ?thesis by (auto simp: arith_translate_def xy split: sum.splits)
qed

section \<open>Comparisons in the interpreter and in the satisfier\<close>

text \<open>
  Index arithmetic panics below zero, above the range of \<open>usize\<close> and on a division by zero. Where it does not, and oracle keys
  are x-only keys, the methods of the fragment return, whatever is on the stack.
\<close>

fun term_runs :: "tx_env \<Rightarrow> cov_ext_args expr_inner \<Rightarrow> bool" where
  "term_runs env (EInput i) = (idx_eval (te_idx env) i \<noteq> None)"
| "term_runs env (EOutput i) = (idx_eval (te_idx env) i \<noteq> None)"
| "term_runs env (EInputIssue i) = (idx_eval (te_idx env) i \<noteq> None)"
| "term_runs env (EInputReIssue i) = (idx_eval (te_idx env) i \<noteq> None)"
| "term_runs env (PriceOracle1 pk _) = (case pk of XOnlyKeyArg _ \<Rightarrow> True | _ \<Rightarrow> False)"
| "term_runs env (PriceOracle1W pk _) = (case pk of XOnlyKeyArg _ \<Rightarrow> True | _ \<Rightarrow> False)"
| "term_runs env _ = True"

definition arith_runs :: "tx_env \<Rightarrow> cov_ext_args arith_inner \<Rightarrow> bool" where
  "arith_runs env a \<longleftrightarrow>
     list_all (term_runs env) (terminals (e_inner (fst (sides a)))) \<and> list_all (term_runs env) (terminals (e_inner (snd (sides a))))"

definition ev_total :: "'a ext_ev \<Rightarrow> bool" where
  "ev_total ev \<longleftrightarrow> (\<forall>s. stack_ok s \<longrightarrow> (\<exists>r s'. ev s = Some (r, s') \<and> stack_ok s'))"

lemma ev_totalE: "ev_total ev \<Longrightarrow> stack_ok s \<Longrightarrow> (\<And>r s'. ev s = Some (r, s') \<Longrightarrow> stack_ok s' \<Longrightarrow> P) \<Longrightarrow> P"
  by (auto simp: ev_total_def)

lemma ev_return_total: "r \<noteq> None \<Longrightarrow> ev_total (ev_return r)"
  by (auto simp: ev_total_def ev_return_def)

lemma ev_bind_total: "ev_total m \<Longrightarrow> (\<And>x. ev_total (f x)) \<Longrightarrow> ev_total (ev_bind m f)"
  unfolding ev_total_def ev_bind_def by (fastforce split: sum.splits)

lemma ev_two_total: "ev_total ex \<Longrightarrow> ev_total ey \<Longrightarrow> ev_total (ev_two ex ey op)"
  by (simp add: ev_two_def ev_bind_total ev_return_total)

lemma ev_one_total: "ev_total ex \<Longrightarrow> ev_total (ev_one ex op)"
  by (simp add: ev_one_def ev_bind_total ev_return_total)

lemma pop_push_total: "ev_total (pop_push e1 e2)"
  by (auto simp: ev_total_def pop_push_def split: list.splits)

lemma oracle_eval_total: "ev_total (price_oracle_eval X (XOnlyKeyArg k) t)"
  by (simp add: price_oracle_eval_def pop_u64_def ev_bind_total ev_return_total pop_push_total)

lemma leaf_amount_total: "expr_operands i = [] \<Longrightarrow> term_runs env i \<Longrightarrow> oracle_free i \<Longrightarrow> leaf_amount env i \<noteq> None"
  by (cases i) auto

lemma sat_two_total: "\<exists>r. sx = Some r \<Longrightarrow> \<exists>r. sy = Some r \<Longrightarrow> \<exists>r. sat_two sx sy op = Some r"
  by (auto simp: sat_two_def split: sum.splits prod.splits)

lemma sat_one_total: "\<exists>r. sx = Some r \<Longrightarrow> \<exists>r. sat_one sx op = Some r"
  by (auto simp: sat_one_def split: sum.splits prod.splits)

lemma expr_runs:
  "\<forall>t \<in> set (terminals (e_inner x)). term_runs env t \<Longrightarrow> ev_total (expr_eval X env x) \<and> (\<exists>r. expr_satisfy env s x = Some r)"
proof (induction x rule: expr_operands_induct)
  case (1 i n d)
  have ih: "ev_total (expr_eval X env x)" "\<exists>r. expr_satisfy env s x = Some r" if "x \<in> set (expr_operands i)" for x
    using 1 that terminals_operand [OF that] by auto
  have leaf: "term_runs env i" if "expr_operands i = []" using "1.prems" that by (simp add: terminals.simps [of i])
  show ?case
  proof (cases "expr_operands i = [] \<and> oracle_free i")
    case True
    then have "leaf_amount env i \<noteq> None" using leaf leaf_amount_total by blast
    moreover have "expr_satisfy env s (Expr i n d) = map_option (map_res (\<lambda>res. (res, sat_empty))) (leaf_amount env i)"
        "expr_eval X env (Expr i n d) = ev_return (leaf_amount env i)"
      using True by (cases i; simp)+
    ultimately show ?thesis by (auto intro: ev_return_total)
  next
    case False
    then show ?thesis
      using ih leaf
      by (cases i) (auto simp: price_oracle_satisfy_def
        intro!: ev_two_total ev_one_total oracle_eval_total sat_two_total sat_one_total split: cov_ext_args.splits option.splits)
  qed
qed

lemma arith_evaluate_total:
  assumes "arith_runs env a" "stack_ok s"
  shows "\<exists>r s'. arith_evaluate X (Some env) a s = Some (r, s') \<and> stack_ok s'"
proof -
  obtain x y where xy: "sides a = (x, y)" by (cases "sides a")
  have "ev_total (arith_eval X env a)"
    using assms(1) expr_runs [of x env X] expr_runs [of y env X] by (auto simp: arith_runs_def list_all_iff xy arith_eval_def intro: ev_two_total)
  from ev_totalE [OF this assms(2)] obtain r s' where "arith_eval X env a s = Some (r, s')" "stack_ok s'" .
  then show ?thesis by (auto simp: arith_evaluate_def split: sum.splits bool.splits)
qed

lemma arith_satisfy_total:
  assumes "arith_runs env a" "lookup_tx s = Some tx" "lookup_spent_utxos s = Some utxos" "lookup_curr_inp s = Some idx"
    "tx_env_new (view_tx V tx) (map (view_utxo V) utxos) idx = Some env"
  shows "arith_satisfy V s a \<noteq> None"
proof -
  obtain x y where xy: "sides a = (x, y)" by (cases "sides a")
  have "expr_satisfy env s x \<noteq> None" "expr_satisfy env s y \<noteq> None"
    using assms(1) expr_runs [of x env _ s] expr_runs [of y env _ s] by (simp_all add: arith_runs_def list_all_iff xy)
  then show ?thesis using assms(2-5) by (auto simp: arith_satisfy_def arith_satisfy_helper_def xy split: sum.splits)
qed

end
