(* ===== verification/Ext_Arith_Script.thy ===== *)
theory Ext_Arith_Script
  imports Ext_Arith_Sound Decode_Sound
begin

text \<open>
  The script of the arithmetic fragments: its length is the cached size, it lexes to the tokens of the fragment, and reading
  these tokens from the end gives the fragment back. Conversely what is read has exactly the tokens that were consumed, which
  is what the script decoder asks of an extension.
\<close>

section \<open>Well-formed expressions\<close>

function expr_wf :: "'t expr \<Rightarrow> bool" where
  "expr_wf (Expr i n d) \<longleftrightarrow> inner_size_depth i = (n, d) \<and> (\<forall>x \<in> set (expr_operands i). expr_wf x)"
  by pat_completeness auto
termination by (relation "measure size") (simp_all add: size_operand_expr del: expr.size)

lemma expr_wf_from_inner [simp]: "expr_wf (from_inner i) \<longleftrightarrow> (\<forall>x \<in> set (expr_operands i). expr_wf x)"
  by (simp add: from_inner_def split: prod.split)

lemma from_inner_eq: "expr_wf (Expr i n d) \<Longrightarrow> from_inner i = Expr i n d"
  by (simp add: from_inner_def)

text \<open>Parameters are keys that the library reads back, and indices are below a bound.\<close>

definition arg_ok :: "ext_crypto \<Rightarrow> cov_ext_args \<Rightarrow> bool" where
  "arg_ok X a \<longleftrightarrow> (case a of XOnlyKeyArg k \<Rightarrow> length k = 32 \<and> xc_xonly_from_slice X k = Some k | _ \<Rightarrow> False)"

fun leaf_ok :: "ext_crypto \<Rightarrow> nat \<Rightarrow> cov_ext_args expr_inner \<Rightarrow> bool" where
  "leaf_ok X m (EInput i) = idx_below m i"
| "leaf_ok X m (EOutput i) = idx_below m i"
| "leaf_ok X m (EInputIssue i) = idx_below m i"
| "leaf_ok X m (EInputReIssue i) = idx_below m i"
| "leaf_ok X m (PriceOracle1 a _) = arg_ok X a"
| "leaf_ok X m (PriceOracle1W a _) = arg_ok X a"
| "leaf_ok X m _ = True"

definition expr_ok :: "ext_crypto \<Rightarrow> nat \<Rightarrow> cov_ext_args expr \<Rightarrow> bool" where
  "expr_ok X m x \<longleftrightarrow> expr_wf x \<and> (\<forall>t \<in> set (terminals (e_inner x)). leaf_ok X m t)"

lemma expr_ok_operand: "expr_ok X m (Expr i n d) \<Longrightarrow> x \<in> set (expr_operands i) \<Longrightarrow> expr_ok X m x"
  using terminals_operand [of x i] by (auto simp: expr_ok_def)

lemma leaf_ok_inner: "expr_operands i \<noteq> [] \<Longrightarrow> leaf_ok X m i"
  by (cases i) auto

lemma expr_ok_leaf: "expr_ok X m (Expr i n d) \<Longrightarrow> leaf_ok X m i"
  by (cases "expr_operands i = []") (auto simp: expr_ok_def terminals.simps [of i] leaf_ok_inner)

lemma expr_ok_from_inner: "expr_ok X m (from_inner i) \<longleftrightarrow> leaf_ok X m i \<and> (\<forall>x \<in> set (expr_operands i). expr_ok X m x)"
proof (cases "expr_operands i = []")
  case False
  then show ?thesis by (auto simp: expr_ok_def terminals.simps [of i] leaf_ok_inner)
qed (simp add: expr_ok_def terminals.simps [of i])

lemma idx_below_mono: "idx_below m x \<Longrightarrow> m \<le> n \<Longrightarrow> idx_below n x"
  by (induction x) auto

lemma leaf_ok_mono: "leaf_ok X m t \<Longrightarrow> m \<le> n \<Longrightarrow> leaf_ok X n t"
  by (cases t) (auto intro: idx_below_mono)

section \<open>Tokens and instructions\<close>

fun arg_key :: "cov_ext_args \<Rightarrow> bytes" where
  "arg_key (XOnlyKeyArg k) = k"
| "arg_key _ = []"

text \<open>The tokens of an expression that follow those of its expr_operands and of its index.\<close>

abbreviation checked_toks :: "token list" where
  "checked_toks \<equiv> [Num 1, Equal, VerifyTk]"

fun own_toks :: "cov_ext_args expr_inner \<Rightarrow> token list" where
  "own_toks (EConst c) = [Bytes8 (to_le_bytes c)]"
| "own_toks CurrInputIdx = CurrInp # InpValue # checked_toks"
| "own_toks (EInput i) = InpValue # checked_toks"
| "own_toks (EOutput i) = OutValue # checked_toks"
| "own_toks (EInputIssue i) = [InpIssue, Drop, Drop] @ checked_toks @ [Nip, Nip]"
| "own_toks (EInputReIssue i) = [InpIssue, Drop, Drop, Drop, Drop] @ checked_toks"
| "own_toks (EAdd _ _) = Add64 # checked_toks"
| "own_toks (ESub _ _) = Sub64 # checked_toks"
| "own_toks (EMul _ _) = Mul64 # checked_toks"
| "own_toks (EDiv _ _) = Div64 # checked_toks @ [Nip]"
| "own_toks (EMod _ _) = Div64 # checked_toks @ [Drop]"
| "own_toks (EBitAnd _ _) = [And]"
| "own_toks (EBitOr _ _) = [Or]"
| "own_toks (EXor _ _) = [Xor]"
| "own_toks (EInvert _) = [Invert]"
| "own_toks (ENegate _) = Neg64 # checked_toks"
| "own_toks (PriceOracle1 a t) = oracle_toks [] (Bytes8 (to_le_bytes t)) (Bytes32 (arg_key a)) []"
| "own_toks (PriceOracle1W a t) =
     oracle_toks [ToAltStack] (Bytes8 (to_le_bytes t)) (Bytes32 (arg_key a)) [FromAltStack, SwapTk]"

fun index_of :: "'t expr_inner \<Rightarrow> idx_expr option" where
  "index_of (EInput i) = Some i"
| "index_of (EOutput i) = Some i"
| "index_of (EInputIssue i) = Some i"
| "index_of (EInputReIssue i) = Some i"
| "index_of _ = None"

definition before_toks :: "cov_ext_args expr_inner \<Rightarrow> token list" where
  "before_toks i = (case index_of i of Some x \<Rightarrow> idx_toks x | None \<Rightarrow> [])"

function expr_toks :: "cov_ext_args expr \<Rightarrow> token list" where
  "expr_toks (Expr i n d) = concat (map expr_toks (expr_operands i)) @ before_toks i @ own_toks i"
  by pat_completeness auto
termination by (relation "measure size") (simp_all add: size_operand_expr del: expr.size)

abbreviation checked_asm :: "instruction list" where
  "checked_asm \<equiv> [int_instruction 1, Op OP_EQUALVERIFY]"

definition oracle_asm :: "bytes \<Rightarrow> u64 \<Rightarrow> instruction list" where
  "oracle_asm k t =
     [Op OP_2DUP, Op OP_TOALTSTACK, PushBytes (to_le_bytes t), Op OP_GREATERTHANOREQUAL64, Op OP_VERIFY, Op OP_CAT, Op OP_SHA256,
      PushBytes k, Op OP_CHECKSIGFROMSTACKVERIFY, Op OP_FROMALTSTACK]"

fun own_asm :: "cov_ext_args expr_inner \<Rightarrow> instruction list" where
  "own_asm (EConst c) = [PushBytes (to_le_bytes c)]"
| "own_asm CurrInputIdx = [Op OP_PUSHCURRENTINPUTINDEX, Op OP_INSPECTINPUTVALUE] @ checked_asm"
| "own_asm (EInput i) = Op OP_INSPECTINPUTVALUE # checked_asm"
| "own_asm (EOutput i) = Op OP_INSPECTOUTPUTVALUE # checked_asm"
| "own_asm (EInputIssue i) = [Op OP_INSPECTINPUTISSUANCE, Op OP_DROP, Op OP_DROP] @ checked_asm @ [Op OP_NIP, Op OP_NIP]"
| "own_asm (EInputReIssue i) = [Op OP_INSPECTINPUTISSUANCE, Op OP_DROP, Op OP_DROP, Op OP_DROP, Op OP_DROP] @ checked_asm"
| "own_asm (EAdd _ _) = Op OP_ADD64 # checked_asm"
| "own_asm (ESub _ _) = Op OP_SUB64 # checked_asm"
| "own_asm (EMul _ _) = Op OP_MUL64 # checked_asm"
| "own_asm (EDiv _ _) = Op OP_DIV64 # checked_asm @ [Op OP_NIP]"
| "own_asm (EMod _ _) = Op OP_DIV64 # checked_asm @ [Op OP_DROP]"
| "own_asm (EBitAnd _ _) = [Op OP_AND]"
| "own_asm (EBitOr _ _) = [Op OP_OR]"
| "own_asm (EXor _ _) = [Op OP_XOR]"
| "own_asm (EInvert _) = [Op OP_INVERT]"
| "own_asm (ENegate _) = Op OP_NEG64 # checked_asm"
| "own_asm (PriceOracle1 a t) = oracle_asm (arg_key a) t"
| "own_asm (PriceOracle1W a t) = Op OP_TOALTSTACK # oracle_asm (arg_key a) t @ [Op OP_FROMALTSTACK, Op OP_SWAP]"

definition before_asm :: "cov_ext_args expr_inner \<Rightarrow> instruction list" where
  "before_asm i = (case index_of i of Some x \<Rightarrow> idx_asm x | None \<Rightarrow> [])"

function expr_asm :: "cov_ext_args expr \<Rightarrow> instruction list" where
  "expr_asm (Expr i n d) = concat (map expr_asm (expr_operands i)) @ before_asm i @ own_asm i"
  by pat_completeness auto
termination by (relation "measure size") (simp_all add: size_operand_expr del: expr.size)

lemma expr_push_asm:
  assumes B: "builder_ok B"
  shows "expr_ok X m x \<Longrightarrow> \<exists>b'. expr_push B x b = Some b' \<and> instructions B b' = instructions B b @ expr_asm x"
proof (induction x arbitrary: b rule: expr_operands_induct)
  case (1 i n d)
  have ih: "\<exists>b'. expr_push B x b = Some b' \<and> instructions B b' = instructions B b @ expr_asm x" if "x \<in> set (expr_operands i)" for x b
    using 1 that expr_ok_operand by blast
  have leaf: "leaf_ok X m i" using "1.prems" expr_ok_leaf by blast
  note [simp] = builder_simps [OF B] op_instruction_def push_checked_def before_asm_def idx_push_asm [OF B]
  have two: "\<exists>b'. Option.bind (expr_push B x b) (expr_push B y) = Some b' \<and> instructions B b' = instructions B b @ expr_asm x @ expr_asm y"
    if "x \<in> set (expr_operands i)" "y \<in> set (expr_operands i)" for x y
    using ih [OF that(1), of b] ih [OF that(2)] by fastforce
  show ?case
  proof (cases i)
    case (PriceOracle1 a t)
    then show ?thesis using leaf by (auto simp: arg_ok_def push_oracle_def oracle_asm_def Let_def split: cov_ext_args.splits)
  next
    case (PriceOracle1W a t)
    then show ?thesis using leaf by (auto simp: arg_ok_def push_oracle_def oracle_asm_def Let_def split: cov_ext_args.splits)
  next
    case (EInvert x)
    then show ?thesis using ih [of x b] by auto
  next
    case (ENegate x)
    then show ?thesis using ih [of x b] by auto
  qed (use two in fastforce)+
qed

lemma index_asm_size: "leaf_ok X (2 ^ 31) i \<Longrightarrow> size_of (before_asm i) = (case index_of i of Some x \<Rightarrow> idx_script_size x | None \<Rightarrow> 0)"
  by (cases i) (simp_all add: before_asm_def idx_asm_size)

lemma own_asm_size:
  assumes "leaf_ok X (2 ^ 31) i"
  shows "fst (inner_size_depth i) = sum_list (map e_script_size (expr_operands i)) + size_of (before_asm i) + size_of (own_asm i)"
  using assms index_asm_size [OF assms]
  by (cases i) (auto simp: inner_size_depth_def oracle_asm_def arg_ok_def int_instruction_size [of 1, simplified] script_num_size_def
      split: cov_ext_args.splits)

lemma size_concat: "size_of (concat (map f xs)) = sum_list (map (\<lambda>x. size_of (f x)) xs)"
  by (induction xs) auto

lemma expr_asm_size: "expr_ok X (2 ^ 31) x \<Longrightarrow> size_of (expr_asm x) = e_script_size x"
proof (induction x rule: expr_operands_induct)
  case (1 i n d)
  have "map (\<lambda>x. size_of (expr_asm x)) (expr_operands i) = map e_script_size (expr_operands i)"
    using 1 expr_ok_operand by simp
  then have "size_of (concat (map expr_asm (expr_operands i))) = sum_list (map e_script_size (expr_operands i))"
    by (simp only: size_concat)
  then show ?case using own_asm_size [OF expr_ok_leaf [OF 1(2)]] 1(2) by (simp add: expr_ok_def)
qed

section \<open>Lexing\<close>

lemma own_lexes:
  assumes L: "lex_lib_ok L" and leaf: "leaf_ok X m i"
  shows "lexes L (own_asm i) (own_toks i)"
proof -
  have one: "int_instruction 1 = Op (OP_PUSHNUM 1)" by (simp add: int_instruction_def)
  show ?thesis
    using leaf
    by (cases i) (auto simp: lexes_def one lex_instruction_def lex_push_def oracle_asm_def arg_ok_def process_candidate_push_def
        split: cov_ext_args.splits)
qed

lemma before_lexes:
  assumes "lex_lib_ok L" "leaf_ok X (2 ^ 31) i"
  shows "before_asm i = [] \<and> before_toks i = [] \<or> lexes L (before_asm i) (before_toks i)"
  using assms by (cases i) (auto simp: before_asm_def before_toks_def intro: idx_lexes)

lemma lexes_concat:
  "(\<And>x. x \<in> set xs \<Longrightarrow> lexes L (f x) (g x)) \<Longrightarrow> lexes L is ts \<Longrightarrow> lexes L (concat (map f xs) @ is) (concat (map g xs) @ ts)"
  by (induction xs) (auto intro: lexes_append)

lemma expr_lexes:
  assumes L: "lex_lib_ok L"
  shows "expr_ok X (2 ^ 31) x \<Longrightarrow> lexes L (expr_asm x) (expr_toks x)"
proof (induction x rule: expr_operands_induct)
  case (1 i n d)
  have leaf: "leaf_ok X (2 ^ 31) i" using expr_ok_leaf 1(2) by blast
  have "lexes L (before_asm i @ own_asm i) (before_toks i @ own_toks i)"
    using before_lexes [OF L leaf] own_lexes [OF L leaf] lexes_append by auto
  then show ?case using 1 expr_ok_operand [OF 1(2)] by (simp add: lexes_concat)
qed

section \<open>Reading an expression back\<close>

fun arm_of :: "cov_ext_args expr_inner \<Rightarrow> cov_ext_args expr arm" where
  "arm_of (EInput i) = Indexed (\<lambda>i. from_inner (EInput i)) 4"
| "arm_of (EOutput i) = Indexed (\<lambda>i. from_inner (EOutput i)) 4"
| "arm_of (EInputIssue i) = Indexed (\<lambda>i. from_inner (EInputIssue i)) 8"
| "arm_of (EInputReIssue i) = Indexed (\<lambda>i. from_inner (EInputReIssue i)) 8"
| "arm_of (EAdd _ _) = Binary (\<lambda>x y. from_inner (EAdd x y)) 4"
| "arm_of (ESub _ _) = Binary (\<lambda>x y. from_inner (ESub x y)) 4"
| "arm_of (EMul _ _) = Binary (\<lambda>x y. from_inner (EMul x y)) 4"
| "arm_of (EDiv _ _) = Binary (\<lambda>x y. from_inner (EDiv x y)) 5"
| "arm_of (EMod _ _) = Binary (\<lambda>x y. from_inner (EMod x y)) 5"
| "arm_of (EBitAnd _ _) = Binary (\<lambda>x y. from_inner (EBitAnd x y)) 1"
| "arm_of (EBitOr _ _) = Binary (\<lambda>x y. from_inner (EBitOr x y)) 1"
| "arm_of (EXor _ _) = Binary (\<lambda>x y. from_inner (EXor x y)) 1"
| "arm_of (EInvert _) = Unary (\<lambda>x. from_inner (EInvert x)) 1"
| "arm_of (ENegate _) = Unary (\<lambda>x. from_inner (ENegate x)) 4"
| "arm_of i = Done (from_inner i) (length (own_toks i))"

lemma expr_arm_own:
  assumes "leaf_ok X m i" "index_of i \<noteq> None \<Longrightarrow> front \<noteq> []" "\<And>j. i = EInput j \<Longrightarrow> last front \<noteq> CurrInp"
  shows "expr_arm X (front @ own_toks i @ post) (length front + length (own_toks i)) = Some (arm_of i)"
proof (cases "index_of i")
  case None
  then show ?thesis
    using assms(1)
    by (cases i) (auto simp: expr_arm_def get_range_def nth_append as_bytes8_def oracle_range_def oracle_done_def arg_ok_def
        split: cov_ext_args.splits)
next
  case (Some j)
  then obtain fr t where fr: "front = fr @ [t]" using assms(2) by (cases front rule: rev_cases) auto
  then show ?thesis
    using Some assms(3)
    by (cases i) (auto simp: expr_arm_def get_range_def nth_append as_bytes8_def)
qed

lemma arm_of_shape:
  "index_of i = Some j \<Longrightarrow> \<exists>con. arm_of i = Indexed con (length (own_toks i)) \<and> con j = from_inner i \<and> expr_operands i = []"
  "expr_operands i = [x] \<Longrightarrow> \<exists>con. arm_of i = Unary con (length (own_toks i)) \<and> con x = from_inner i"
  "expr_operands i = [x, y] \<Longrightarrow> \<exists>con. arm_of i = Binary con (length (own_toks i)) \<and> con x y = from_inner i"
  "expr_operands i = [] \<Longrightarrow> index_of i = None \<Longrightarrow> arm_of i = Done (from_inner i) (length (own_toks i))"
  by (cases i; simp)+

lemma idx_toks_last: "idx_toks j \<noteq> []" "last (idx_toks j) = CurrInp \<longleftrightarrow> j = CurrIdx"
  by (cases j; simp)+

definition no_curr :: "'t expr \<Rightarrow> bool" where
  "no_curr x \<longleftrightarrow> EInput CurrIdx \<notin> set (terminals (e_inner x))"

lemma no_curr_leaf: "no_curr (Expr i n d) \<Longrightarrow> i \<noteq> EInput CurrIdx"
  by (auto simp: no_curr_def terminals.simps [of "EInput CurrIdx"])

lemma no_curr_operand: "no_curr (Expr i n d) \<Longrightarrow> x \<in> set (expr_operands i) \<Longrightarrow> no_curr x"
  using terminals_operand [of x i] by (auto simp: no_curr_def)

lemma expr_read_back:
  "expr_ok X (2 ^ 32) x \<Longrightarrow> no_curr x \<Longrightarrow>
     expr_from_tokens X (pre @ expr_toks x @ post) (length pre + length (expr_toks x)) = Some (x, length pre)"
proof (induction x arbitrary: pre post rule: expr_operands_induct)
  case (1 i n d)
  define own where "own = own_toks i"
  let ?ops = "concat (map expr_toks (expr_operands i)) @ before_toks i"
  let ?tks = "pre @ expr_toks (Expr i n d) @ post" and ?e = "length (pre @ ?ops) + length own"
  have ih: "expr_from_tokens X (pre' @ expr_toks x @ post') (length pre' + length (expr_toks x)) = Some (x, length pre')"
    if "x \<in> set (expr_operands i)" for x pre' post'
    using 1 that expr_ok_operand no_curr_operand by blast
  have leaf: "leaf_ok X (2 ^ 32) i" "i \<noteq> EInput CurrIdx" and i: "from_inner i = Expr i n d"
    using expr_ok_leaf [OF 1(2)] no_curr_leaf [OF 1(3)] from_inner_eq [of i n d] 1(2) by (simp_all add: expr_ok_def)
  have tks: "?tks = (pre @ ?ops) @ own @ post" and e: "length pre + length (expr_toks (Expr i n d)) = ?e" by (simp_all add: own_def)
  have arm: "expr_arm X ?tks ?e = Some (arm_of i)"
    unfolding tks own_def
    by (rule expr_arm_own [OF leaf(1)]) (use leaf(2) in \<open>auto simp: before_toks_def idx_toks_last\<close>)
  note unfold = expr_from_tokens.simps [of X ?tks ?e, unfolded arm]
  have "expr_from_tokens X ?tks ?e = Some (Expr i n d, length pre)"
  proof (cases "index_of i")
    case (Some j)
    then obtain con where con: "arm_of i = Indexed con (length own)" "con j = Expr i n d" "expr_operands i = []"
      using arm_of_shape(1) i own_def by fastforce
    have "idx_below (2 ^ 32) j" using leaf(1) Some by (cases i) auto
    then have "idx_from_tokens ?tks (length pre + length (idx_toks j)) = Some (j, length pre)"
      using idx_from_toks [of j pre "own @ post"] con(3) Some by (simp add: before_toks_def own_def)
    then show ?thesis using con Some unfold by (simp add: read_one_def before_toks_def)
  next
    case None
    then have before: "before_toks i = []" by (simp add: before_toks_def)
    consider "expr_operands i = []" | x where "expr_operands i = [x]" | x y where "expr_operands i = [x, y]" by (cases i) auto
    then show ?thesis
    proof cases
      case 1
      then show ?thesis using arm_of_shape(4) [OF 1 None] unfold i before by (simp add: own_def)
    next
      case (2 x)
      then obtain con where con: "arm_of i = Unary con (length own)" "con x = Expr i n d" using arm_of_shape(2) i own_def by fastforce
      then show ?thesis using ih [of x pre "own @ post"] 2 unfold before by (simp add: read_one_def own_def)
    next
      case (3 x y)
      then obtain con where con: "arm_of i = Binary con (length own)" "con x y = Expr i n d" using arm_of_shape(3) i own_def by fastforce
      then show ?thesis
        using ih [of x pre "expr_toks y @ own @ post"] ih [of y "pre @ expr_toks x" "own @ post"] 3 unfold before
        by (simp add: read_two_def own_def add.assoc)
    qed
  qed
  then show ?case by (simp only: e)
qed

lemma expr_toks_from_inner [simp]:
  "expr_toks (from_inner i) = concat (map expr_toks (expr_operands i)) @ before_toks i @ own_toks i"
  by (simp add: from_inner_def split: prod.split)

definition xonly_ok :: "ext_crypto \<Rightarrow> bool" where
  "xonly_ok X \<longleftrightarrow> (\<forall>bs k. xc_xonly_from_slice X bs = Some k \<longrightarrow> k = bs \<and> length bs = 32)"

lemma as_bytes8_Some: "as_bytes8 t = Some bs \<longleftrightarrow> t = Bytes8 bs \<and> length bs = 8"
  by (auto simp: as_bytes8_def split: token.splits if_splits)

lemma as_bytes32_Some: "as_bytes32 t = Some bs \<longleftrightarrow> t = Bytes32 bs"
  by (cases t rule: as_bytes32.cases) auto

lemma oracle_range_Some: "oracle_range pre post ts = Some (time, k) \<Longrightarrow> length time = 8 \<and> ts = oracle_toks pre (Bytes8 time) (Bytes32 k) post"
  by (auto simp: oracle_range_def as_bytes8_Some as_bytes32_Some split: if_splits option.splits prod.splits)

lemma take_last: "0 < e \<Longrightarrow> \<not> length tks < e \<Longrightarrow> tks ! (e - Suc 0) = t \<Longrightarrow> take e tks = take (e - Suc 0) tks @ [t]"
  by (cases e) (simp_all add: take_Suc_conv_app_nth)

lemma get_range_SomeD: "get_range tks a b = Some ts \<Longrightarrow> b \<le> length tks \<and> take b tks = take a tks @ ts"
  by (simp add: get_range_Some)

lemma oracle_done_Some:
  "oracle_done X con n (time, k) = Some a \<Longrightarrow> xonly_ok X \<Longrightarrow>
     a = Done (from_inner (con (XOnlyKeyArg k) (from_le_bytes time))) n \<and> arg_ok X (XOnlyKeyArg k)"
  by (auto simp: oracle_done_def xonly_ok_def arg_ok_def)

lemma expr_arm_sound:
  assumes "expr_arm X tks e = Some a" "xonly_ok X"
  shows "case a of
      Done x n \<Rightarrow> n \<le> e \<and> 0 < n \<and> take e tks = take (e - n) tks @ expr_toks x \<and> expr_ok X (2 ^ 32) x
    | Unary con n \<Rightarrow> n \<le> e \<and> (\<exists>ts. take e tks = take (e - n) tks @ ts \<and>
        (\<forall>x. expr_toks (con x) = expr_toks x @ ts \<and> (expr_ok X (2 ^ 32) (con x) \<longleftrightarrow> expr_ok X (2 ^ 32) x)))
    | Binary con n \<Rightarrow> n \<le> e \<and> (\<exists>ts. take e tks = take (e - n) tks @ ts \<and>
        (\<forall>x y. expr_toks (con x y) = expr_toks x @ expr_toks y @ ts
           \<and> (expr_ok X (2 ^ 32) (con x y) \<longleftrightarrow> expr_ok X (2 ^ 32) x \<and> expr_ok X (2 ^ 32) y)))
    | Indexed con n \<Rightarrow> n \<le> e \<and> (\<exists>ts. take e tks = take (e - n) tks @ ts \<and>
        (\<forall>i. expr_toks (con i) = idx_toks i @ ts \<and> (expr_ok X (2 ^ 32) (con i) \<longleftrightarrow> idx_below (2 ^ 32) i)))
    | _ \<Rightarrow> False"
proof (cases "as_bytes8 (tks ! (e - 1))")
  case (Some bs)
  then have "0 < e" "\<not> length tks < e" "a = Done (from_inner (EConst (from_le_bytes bs))) 1"
    using assms(1) by (auto simp: expr_arm_def split: if_splits)
  then show ?thesis
    using Some take_last [of e tks "Bytes8 bs"] by (simp add: as_bytes8_Some before_toks_def expr_ok_from_inner)
next
  case None
  then show ?thesis
    using assms
    by (auto simp: expr_arm_def before_toks_def expr_ok_from_inner bind_eq_Some_conv
        intro: take_last dest!: oracle_done_Some oracle_range_Some get_range_SomeD split: if_splits option.splits)
qed

lemma expr_from_tokens_sound:
  "xonly_ok X \<Longrightarrow> expr_from_tokens X tks e = Some (x, p) \<Longrightarrow>
     p < e \<and> take e tks = take p tks @ expr_toks x \<and> expr_ok X (2 ^ 32) x"
proof (induction X tks e arbitrary: x p rule: expr_from_tokens.induct)
  case (1 X tks e)
  note eq = "1.prems"(2) [unfolded expr_from_tokens.simps [of X tks e]]
  then obtain a where a: "expr_arm X tks e = Some a" by (auto split: option.splits)
  note sound = expr_arm_sound [OF a "1.prems"(1)]
  show ?case
  proof (cases a)
    case (Done y n)
    then show ?thesis using sound eq a by auto
  next
    case (Unary con n)
    note ih = "1.IH"(1) [OF a Unary "1.prems"(1)]
    obtain y where "expr_from_tokens X tks (e - n) = Some (y, p)" "x = con y"
      using eq a Unary by (auto simp: read_one_def bind_eq_Some_conv)
    then show ?thesis using ih sound Unary by fastforce
  next
    case (Binary con n)
    note ih = "1.IH"(2) [OF a Binary "1.prems"(1)] "1.IH"(3) [OF a Binary _ "1.prems"(1)]
    obtain y q z where "expr_from_tokens X tks (e - n) = Some (y, q)" "expr_from_tokens X tks q = Some (z, p)" "x = con z y"
      using eq a Binary by (auto simp: read_two_def bind_eq_Some_conv)
    then show ?thesis using ih(1) ih(2) sound Binary by fastforce
  next
    case (Indexed con n)
    obtain i where i: "idx_from_tokens tks (e - n) = Some (i, p)" "x = con i"
      using eq a Indexed by (auto simp: read_one_def bind_eq_Some_conv)
    then show ?thesis using idx_from_tokens_sound [of tks "e - n"] sound Indexed by (fastforce simp: reads_def)
  qed (use eq a in auto)
qed

section \<open>Comparisons\<close>

fun compare_token :: "'t arith_inner \<Rightarrow> token" where
  "compare_token (AEq _ _) = Equal"
| "compare_token (ALt _ _) = Le64"
| "compare_token (ALeq _ _) = Leq64"
| "compare_token (AGt _ _) = Ge64"
| "compare_token (AGeq _ _) = Geq64"

definition arith_toks :: "cov_ext_args arith_inner \<Rightarrow> token list" where
  "arith_toks a = expr_toks (fst (sides a)) @ expr_toks (snd (sides a)) @ [compare_token a]"

definition arith_asm :: "cov_ext_args arith_inner \<Rightarrow> instruction list" where
  "arith_asm a = expr_asm (fst (sides a)) @ expr_asm (snd (sides a)) @ [Op (compare_op a)]"

definition arith_ok :: "ext_crypto \<Rightarrow> nat \<Rightarrow> cov_ext_args arith_inner \<Rightarrow> bool" where
  "arith_ok X m a \<longleftrightarrow> expr_ok X m (fst (sides a)) \<and> expr_ok X m (snd (sides a)) \<and> arith_new a = Inr a"

lemma arith_push_asm:
  assumes B: "builder_ok B" and a: "arith_ok X m a"
  shows "\<exists>b'. arith_push B a b = Some b' \<and> instructions B b' = instructions B b @ arith_asm a"
proof -
  obtain x y where xy: "sides a = (x, y)" by (cases "sides a")
  obtain b1 where b1: "expr_push B x b = Some b1" "instructions B b1 = instructions B b @ expr_asm x"
    using expr_push_asm [OF B, of X m x b] a xy by (auto simp: arith_ok_def)
  obtain b2 where b2: "expr_push B y b1 = Some b2" "instructions B b2 = instructions B b1 @ expr_asm y"
    using expr_push_asm [OF B, of X m y b1] a xy by (auto simp: arith_ok_def)
  have "op_instruction (compare_op a) = Op (compare_op a)" by (cases a) (simp_all add: op_instruction_def)
  then show ?thesis by (simp add: arith_push_def arith_asm_def xy b1 b2 builder_simps [OF B])
qed

lemma arith_asm_size: "arith_ok X (2 ^ 31) a \<Longrightarrow> size_of (arith_asm a) = arith_script_size a"
  using expr_asm_size [of X "fst (sides a)"] expr_asm_size [of X "snd (sides a)"]
  by (cases "sides a") (simp add: arith_ok_def arith_asm_def arith_script_size_def)

lemma arith_lexes:
  assumes L: "lex_lib_ok L" and a: "arith_ok X (2 ^ 31) a"
  shows "lexes_v L (arith_asm a) (arith_toks a)"
proof -
  have op: "lexes_v L [Op (compare_op a)] [compare_token a]"
  proof (cases a)
    case (AEq x y)
    then show ?thesis by (auto intro: lexes_v_free)
  qed (auto intro!: lexes_v_plain lexes_op)
  show ?thesis
    unfolding arith_asm_def arith_toks_def
    using a by (intro lexes_v_append expr_lexes [OF L, where X = X] op) (simp_all add: arith_ok_def)
qed

lemma compare_tk_Some: "compare_tk t = Some con \<Longrightarrow> sides (con x y) = (x, y) \<and> compare_token (con x y) = t"
  by (auto simp: compare_tk_def split: if_splits)

lemma compare_tk_token: "sides a = (x, y) \<Longrightarrow> \<exists>con. compare_tk (compare_token a) = Some con \<and> con x y = a"
  by (cases a) (auto simp: compare_tk_def)

lemma case_ok_Some: "(case r of Inr a \<Rightarrow> Some (a, p) | Inl _ \<Rightarrow> None) = Some z \<longleftrightarrow> (\<exists>a. r = Inr a \<and> z = (a, p))"
  by (cases r) auto

lemma arith_from_tokens_sound:
  assumes X: "xonly_ok X" and a: "arith_from_tokens X tks = Some (a, p)"
  shows "tks = take p tks @ arith_toks a \<and> p \<le> length tks \<and> arith_ok X (2 ^ 32) a"
proof -
  obtain y q x con where r: "tks \<noteq> []" "expr_from_tokens X tks (length tks - 1) = Some (y, q)" "expr_from_tokens X tks q = Some (x, p)"
      "compare_tk (last tks) = Some con" "arith_new (con x y) = Inr a"
    using a by (auto simp: arith_from_tokens_def bind_eq_Some_conv case_ok_Some split: if_splits)
  have y: "take (length tks - 1) tks = take q tks @ expr_toks y" "expr_ok X (2 ^ 32) y" "q < length tks - 1"
    using expr_from_tokens_sound [OF X r(2)] by auto
  have x: "take q tks = take p tks @ expr_toks x" "expr_ok X (2 ^ 32) x" "p < q"
    using expr_from_tokens_sound [OF X r(3)] by auto
  have s: "sides (con x y) = (x, y)" "compare_token (con x y) = last tks" using compare_tk_Some [OF r(4)] by auto
  have a': "a = con x y" using r(5) arith_new_iff [OF s(1)] by auto
  have "tks = take (length tks - 1) tks @ [last tks]" using r(1) by (metis append_butlast_last_id butlast_conv_take)
  then show ?thesis using x y s a' r(5) by (simp add: arith_toks_def arith_ok_def)
qed

lemma arith_read_back:
  assumes a: "arith_ok X (2 ^ 32) a" and "no_curr (fst (sides a))" "no_curr (snd (sides a))"
  shows "arith_from_tokens X (pre @ arith_toks a) = Some (a, length pre)"
proof -
  obtain x y where xy: "sides a = (x, y)" by (cases "sides a")
  obtain con where con: "compare_tk (compare_token a) = Some con" "con x y = a" using compare_tk_token [OF xy] by blast
  have "expr_from_tokens X (pre @ arith_toks a) (length (pre @ arith_toks a) - 1) = Some (y, length (pre @ expr_toks x))"
    using expr_read_back [of X y "pre @ expr_toks x" "[compare_token a]"] a assms(3) xy
    by (simp add: arith_ok_def arith_toks_def add.assoc)
  moreover have "expr_from_tokens X (pre @ arith_toks a) (length (pre @ expr_toks x)) = Some (x, length pre)"
    using expr_read_back [of X x pre "expr_toks y @ [compare_token a]"] a assms(2) xy
    by (simp add: arith_ok_def arith_toks_def)
  ultimately show ?thesis using con a by (simp add: arith_from_tokens_def arith_ok_def) (simp add: arith_toks_def)
qed

lemma arith_token_iter:
  assumes X: "xonly_ok X"
  shows "arith_from_token_iter X ts = (Some a, ts') \<Longrightarrow> arith_toks a \<noteq> [] \<and> ts = rev (arith_toks a) @ ts'"
    "arith_from_token_iter X ts = (None, ts') \<Longrightarrow> ts' = ts"
proof -
  have sound: "rev ts = take p (rev ts) @ arith_toks a" "p \<le> length ts" if "arith_from_tokens X (rev ts) = Some (a, p)" for a p
    using arith_from_tokens_sound [OF X that] by auto
  show "arith_toks a \<noteq> [] \<and> ts = rev (arith_toks a) @ ts'" if it: "arith_from_token_iter X ts = (Some a, ts')"
  proof -
    obtain p where p: "arith_from_tokens X (rev ts) = Some (a, p)" "ts' = drop (length ts - p) ts"
      using it by (auto simp: arith_from_token_iter_def token_advance_def split: option.splits if_splits)
    have "ts = rev (arith_toks a) @ rev (take p (rev ts))" using sound(1) [OF p(1)] by (metis rev_append rev_rev_ident)
    moreover have "rev (take p (rev ts)) = ts'" using sound(2) [OF p(1)] p(2) by (simp add: rev_take)
    ultimately show ?thesis by (simp add: arith_toks_def)
  qed
  show "ts' = ts" if "arith_from_token_iter X ts = (None, ts')"
    using that sound by (auto simp: arith_from_token_iter_def token_advance_def split: option.splits if_splits)
qed

lemma arith_ext_inv: "ext_inv (corr_prop arith_ext a) (extra_prop arith_ext a)"
  by (simp add: arith_ext_def ext_inv_def)

text \<open>The fragment meets what the script decoder asks of an extension.\<close>

lemma arith_parse_env_ok:
  assumes "parse_lib_ok P B" "ext_from_tokens P = arith_from_token_iter X" "pe_ext P = arith_ext" "xonly_ok X"
  shows "parse_env_ok P B arith_toks"
  using assms(1-3) arith_token_iter [OF assms(4)] by (simp add: parse_env_ok_def arith_ext_inv)

section \<open>What a script is read back as\<close>

text \<open>
  \<open>inp_v(curr_idx)\<close> and \<open>curr_inp_v\<close> have the same script and the same value, and reading prefers the second form.
\<close>

fun read_as :: "'t expr \<Rightarrow> 't expr" where
  "read_as (Expr (EInput CurrIdx) _ _) = from_inner CurrInputIdx"
| "read_as (Expr (EAdd x y) _ _) = from_inner (EAdd (read_as x) (read_as y))"
| "read_as (Expr (ESub x y) _ _) = from_inner (ESub (read_as x) (read_as y))"
| "read_as (Expr (EMul x y) _ _) = from_inner (EMul (read_as x) (read_as y))"
| "read_as (Expr (EDiv x y) _ _) = from_inner (EDiv (read_as x) (read_as y))"
| "read_as (Expr (EMod x y) _ _) = from_inner (EMod (read_as x) (read_as y))"
| "read_as (Expr (EBitAnd x y) _ _) = from_inner (EBitAnd (read_as x) (read_as y))"
| "read_as (Expr (EBitOr x y) _ _) = from_inner (EBitOr (read_as x) (read_as y))"
| "read_as (Expr (EXor x y) _ _) = from_inner (EXor (read_as x) (read_as y))"
| "read_as (Expr (EInvert x) _ _) = from_inner (EInvert (read_as x))"
| "read_as (Expr (ENegate x) _ _) = from_inner (ENegate (read_as x))"
| "read_as (Expr leaf n d) = Expr leaf n d"

definition arith_read_as :: "'t arith_inner \<Rightarrow> 't arith_inner" where
  "arith_read_as a = arith_con a (read_as (fst (sides a))) (read_as (snd (sides a)))"

text \<open>The leaves other than \<open>inp_v(curr_idx)\<close> stay, and the operations are rebuilt from their operands.\<close>

lemma read_as_leaf: "expr_operands i = [] \<Longrightarrow> i \<noteq> EInput CurrIdx \<Longrightarrow> read_as (Expr i n d) = Expr i n d"
proof (cases i)
  case (EInput j)
  assume "i \<noteq> EInput CurrIdx"
  then show ?thesis using EInput by (cases j) auto
qed auto

lemma expr_shape_cases:
  obtains "i = EInput CurrIdx" | "expr_operands i = []" "i \<noteq> EInput CurrIdx" | "expr_operands i \<noteq> []"
  by blast

lemma read_as_toks: "expr_toks (read_as x) = expr_toks x"
proof (induction x rule: expr_operands_induct)
  case (1 i n d)
  show ?case
  proof (rule expr_shape_cases [of i])
    assume "expr_operands i \<noteq> []"
    then show ?thesis using 1 by (cases i) (auto simp: before_toks_def)
  qed (auto simp: read_as_leaf before_toks_def)
qed

lemma read_as_ok: "expr_ok X m x \<Longrightarrow> expr_ok X m (read_as x)"
proof (induction x rule: expr_operands_induct)
  case (1 i n d)
  show ?case
  proof (rule expr_shape_cases [of i])
    assume "expr_operands i \<noteq> []"
    then show ?thesis using 1(1) expr_ok_operand [OF 1(2)] by (cases i) (auto simp: expr_ok_from_inner)
  qed (use 1(2) in \<open>auto simp: read_as_leaf expr_ok_from_inner\<close>)
qed

lemma read_as_no_curr: "no_curr (read_as x)"
proof (induction x rule: expr_operands_induct)
  case (1 i n d)
  show ?case
  proof (rule expr_shape_cases [of i])
    assume "expr_operands i \<noteq> []"
    then show ?thesis using 1 by (cases i) (auto simp: no_curr_def terminals_simps)
  qed (auto simp: read_as_leaf no_curr_def terminals_simps)
qed

lemma read_as_same: "expr_wf x \<Longrightarrow> no_curr x \<Longrightarrow> read_as x = x"
proof (induction x rule: expr_operands_induct)
  case (1 i n d)
  note leaf = no_curr_leaf [OF 1(3)] and inner = from_inner_eq [OF 1(2)]
  have ih: "read_as x = x" if "x \<in> set (expr_operands i)" for x
    using 1(1) [OF that] 1(2) no_curr_operand [OF 1(3) that] that by simp
  show ?case
  proof (cases "expr_operands i = []")
    case False
    then show ?thesis using ih inner by (cases i) auto
  qed (use leaf in \<open>simp add: read_as_leaf\<close>)
qed

lemma read_as_eval: "expr_eval X env (read_as x) = expr_eval X env x"
proof (induction x rule: expr_operands_induct)
  case (1 i n d)
  show ?case
  proof (rule expr_shape_cases [of i])
    assume "expr_operands i \<noteq> []"
    then show ?thesis using 1 by (cases i) (auto simp: from_inner_def split: prod.split)
  qed (auto simp: read_as_leaf from_inner_def split: prod.split)
qed

lemma read_as_kind: "list_all2 same_kind (terminals (e_inner x)) (terminals (e_inner (read_as x)))"
proof (induction x rule: expr_operands_induct)
  case (1 i n d)
  show ?case
  proof (rule expr_shape_cases [of i])
    assume "expr_operands i \<noteq> []"
    then show ?thesis using 1 by (cases i) (auto simp: terminals_simps intro!: list_all2_appendI)
  qed (auto simp: read_as_leaf terminals_simps same_kind_def)
qed

lemma arith_read_as_ok:
  assumes "arith_ok X m a"
  shows "arith_ok X m (arith_read_as a)" "no_curr (fst (sides (arith_read_as a)))" "no_curr (snd (sides (arith_read_as a)))"
    "arith_toks (arith_read_as a) = arith_toks a" "arith_evaluate X' te (arith_read_as a) = arith_evaluate X' te a"
    "no_curr (fst (sides a)) \<Longrightarrow> no_curr (snd (sides a)) \<Longrightarrow> arith_read_as a = a"
proof -
  obtain x y where xy: "sides a = (x, y)" by (cases "sides a")
  have s: "sides (arith_read_as a) = (read_as x, read_as y)" "compare_token (arith_read_as a) = compare_token a"
      "compare (arith_read_as a) = compare a" "arith_con a x y = a"
    using xy by (cases a; simp add: arith_read_as_def fun_eq_iff)+
  have "arith_new (arith_read_as a) = Inr (arith_read_as a)"
    using arith_new_same_kind [OF _ xy read_as_kind read_as_kind] assms by (simp add: arith_ok_def arith_read_as_def xy)
  then show "arith_ok X m (arith_read_as a)" using assms by (simp add: arith_ok_def s xy read_as_ok)
  show "no_curr (fst (sides (arith_read_as a)))" "no_curr (snd (sides (arith_read_as a)))" by (simp_all add: s read_as_no_curr)
  show "arith_toks (arith_read_as a) = arith_toks a" by (simp add: arith_toks_def s xy read_as_toks)
  show "arith_evaluate X' te (arith_read_as a) = arith_evaluate X' te a"
  proof
    have "arith_eval X' env (arith_read_as a) = arith_eval X' env a" for env
      by (simp add: arith_eval_def s xy read_as_eval)
    then show "arith_evaluate X' te (arith_read_as a) st = arith_evaluate X' te a st" for st by (cases te) (simp_all add: arith_evaluate_def)
  qed
  show "arith_read_as a = a" if "no_curr (fst (sides a))" "no_curr (snd (sides a))"
    using that assms xy s(4) by (simp add: arith_read_as_def arith_ok_def expr_ok_def read_as_same)
qed

lemma arith_encode_decode:
  assumes B: "builder_ok B" and L: "lex_lib_ok L" and a: "arith_ok X (2 ^ 31) a"
  shows "\<exists>b. arith_push B a (builder_new B) = Some b \<and> script_len B b = arith_script_size a
    \<and> lex L (map Inr (instructions B b)) = Inr (arith_toks a)
    \<and> arith_from_token_iter X (token_iter_new (arith_toks a)) = (Some (arith_read_as a), [])"
proof -
  obtain b where b: "arith_push B a (builder_new B) = Some b" "instructions B b = arith_asm a"
    using arith_push_asm [OF B a, of "builder_new B"] by (auto simp: builder_simps [OF B])
  have "lex L (map Inr (instructions B b)) = Inr (arith_toks a)"
    using lexes_v_lexes [OF arith_lexes [OF L a]] by (simp add: b(2) lex_def lex_loop_run lexes_def)
  moreover have "arith_ok X (2 ^ 32) a"
    using a leaf_ok_mono [of X "2 ^ 31" _ "2 ^ 32"] by (auto simp: arith_ok_def expr_ok_def)
  note read = arith_read_as_ok [OF this]
  have "arith_from_token_iter X (token_iter_new (arith_toks a)) = (Some (arith_read_as a), [])"
    using arith_read_back [OF read(1-3), of "[]"] read(4)
    by (simp add: arith_from_token_iter_def token_iter_new_def token_advance_def)
  ultimately show ?thesis using b arith_asm_size [OF a] by (auto simp: builder_simps [OF B])
qed

end
