(* ===== verification/Ext_Arith_Text.thy ===== *)
theory Ext_Arith_Text
  imports Ext_Arith_Script
begin

text \<open>
  The text of the arithmetic fragments: \<open>Display\<close>, \<open>FromTree\<close> and \<open>FromStr\<close> of \<open>Expr\<close> and \<open>Arith\<close> (\<open>extensions/arith.rs\<close>).
  The parameter type's \<open>Display\<close> and \<open>arg_from_str\<close> are arguments.
\<close>

section \<open>Printing\<close>

text \<open>\<open>Display\<close> and \<open>from_str\<close> of \<open>i64\<close>.\<close>

definition show_i64 :: "i64 \<Rightarrow> string" where
  "show_i64 c = (if sint c < 0 then CHR ''-'' # show_nat (nat (- sint c)) else show_nat (nat (sint c)))"

definition i64_from_str :: "string \<Rightarrow> i64 option" where
  "i64_from_str s =
     (case s of
        c # d # r \<Rightarrow>
          if c = CHR ''-'' then
            Option.bind (digits_val 0 (d # r)) (\<lambda>v. if v \<le> 2 ^ 63 then Some (word_of_int (- int v)) else None)
          else map_option of_nat (uint_from_str 63 s)
      | _ \<Rightarrow> map_option of_nat (uint_from_str 63 s))"

fun expr_show :: "('t \<Rightarrow> string) \<Rightarrow> 't expr \<Rightarrow> string" where
  "expr_show shw (Expr (EConst c) _ _) = show_i64 c"
| "expr_show shw (Expr CurrInputIdx _ _) = ''curr_inp_v''"
| "expr_show shw (Expr (EInput i) _ _) = ''inp_v('' @ idx_show i @ '')''"
| "expr_show shw (Expr (EOutput i) _ _) = ''out_v('' @ idx_show i @ '')''"
| "expr_show shw (Expr (EInputIssue i) _ _) = ''inp_issue_v('' @ idx_show i @ '')''"
| "expr_show shw (Expr (EInputReIssue i) _ _) = ''inp_reissue_v('' @ idx_show i @ '')''"
| "expr_show shw (Expr (EAdd x y) _ _) = ''add('' @ expr_show shw x @ '','' @ expr_show shw y @ '')''"
| "expr_show shw (Expr (ESub x y) _ _) = ''sub('' @ expr_show shw x @ '','' @ expr_show shw y @ '')''"
| "expr_show shw (Expr (EMul x y) _ _) = ''mul('' @ expr_show shw x @ '','' @ expr_show shw y @ '')''"
| "expr_show shw (Expr (EDiv x y) _ _) = ''div('' @ expr_show shw x @ '','' @ expr_show shw y @ '')''"
| "expr_show shw (Expr (EMod x y) _ _) = ''mod('' @ expr_show shw x @ '','' @ expr_show shw y @ '')''"
| "expr_show shw (Expr (EBitAnd x y) _ _) = ''bitand('' @ expr_show shw x @ '','' @ expr_show shw y @ '')''"
| "expr_show shw (Expr (EBitOr x y) _ _) = ''bitor('' @ expr_show shw x @ '','' @ expr_show shw y @ '')''"
| "expr_show shw (Expr (EXor x y) _ _) = ''bitxor('' @ expr_show shw x @ '','' @ expr_show shw y @ '')''"
| "expr_show shw (Expr (EInvert x) _ _) = ''bitinv('' @ expr_show shw x @ '')''"
| "expr_show shw (Expr (ENegate x) _ _) = ''neg('' @ expr_show shw x @ '')''"
| "expr_show shw (Expr (PriceOracle1 pk t) _ _) = ''price_oracle1('' @ shw pk @ '','' @ show_nat (unat t) @ '')''"
| "expr_show shw (Expr (PriceOracle1W pk t) _ _) = ''price_oracle1_w('' @ shw pk @ '','' @ show_nat (unat t) @ '')''"

fun arith_name :: "'t arith_inner \<Rightarrow> string" where
  "arith_name (AEq _ _) = ''num64_eq''"
| "arith_name (ALeq _ _) = ''num64_leq''"
| "arith_name (ALt _ _) = ''num64_lt''"
| "arith_name (AGeq _ _) = ''num64_geq''"
| "arith_name (AGt _ _) = ''num64_gt''"

definition arith_show :: "('t \<Rightarrow> string) \<Rightarrow> 't arith_inner \<Rightarrow> string" where
  "arith_show shw a =
     (case sides a of (x, y) \<Rightarrow> arith_name a @ ''('' @ expr_show shw x @ '','' @ expr_show shw y @ '')'')"

section \<open>Reading\<close>

definition expr_indexed :: "string \<Rightarrow> (idx_expr \<Rightarrow> 't expr_inner) option" where
  "expr_indexed = map_of
     [(''inp_v'', EInput), (''out_v'', EOutput), (''inp_issue_v'', EInputIssue), (''inp_reissue_v'', EInputReIssue)]"

definition expr_binary :: "string \<Rightarrow> ('t expr \<Rightarrow> 't expr \<Rightarrow> 't expr_inner) option" where
  "expr_binary = map_of
     [(''add'', EAdd), (''sub'', ESub), (''mul'', EMul), (''div'', EDiv), (''mod'', EMod),
      (''bitand'', EBitAnd), (''bitor'', EBitOr), (''bitxor'', EXor)]"

definition expr_unary :: "string \<Rightarrow> ('t expr \<Rightarrow> 't expr_inner) option" where
  "expr_unary = map_of [(''bitinv'', EInvert), (''neg'', ENegate)]"

definition ext_unexpected :: "string \<Rightarrow> nat \<Rightarrow> crate_error" where
  "ext_unexpected name n = Unexpected (name @ ''('' @ show_nat n @ '' args) while parsing Extension'')"

definition oracle_from_tree :: "(string \<Rightarrow> string \<Rightarrow> nat \<Rightarrow> crate_error + 't) \<Rightarrow> string \<Rightarrow> tree \<Rightarrow> tree \<Rightarrow> crate_error + 't expr" where
  "oracle_from_tree A name a b =
     (if tree_args a \<noteq> [] \<or> tree_args b \<noteq> [] then Inl (Unexpected ''price_oracle1 expects 2 terminal arguments'')
      else
        bind_res (A (tree_name a) name 0) (\<lambda>pk.
        bind_res (expr_parse_num (uint_from_str 64) (tree_name b)) (\<lambda>t.
          Inr (from_inner (if name = ''price_oracle1'' then PriceOracle1 pk (of_nat t) else PriceOracle1W pk (of_nat t))))))"

fun expr_from_tree :: "(string \<Rightarrow> string \<Rightarrow> nat \<Rightarrow> crate_error + 't) \<Rightarrow> tree \<Rightarrow> crate_error + 't expr" where
  "expr_from_tree A (Tree name args) =
     (if length args = 1 \<and> expr_indexed name \<noteq> (None :: (idx_expr \<Rightarrow> 't expr_inner) option) then
        map_res (\<lambda>i. from_inner (the (expr_indexed name) i)) (idx_from_tree (args ! 0))
      else if name = ''curr_inp_v'' \<and> args = [] then Inr (from_inner CurrInputIdx)
      else if name \<in> {''price_oracle1'', ''price_oracle1_w''} \<and> length args = 2 then oracle_from_tree A name (args ! 0) (args ! 1)
      else if length args = 2 \<and> expr_binary name \<noteq> (None :: ('t expr \<Rightarrow> 't expr \<Rightarrow> 't expr_inner) option) then
        map_res2 (\<lambda>l r. from_inner (the (expr_binary name) l r)) (expr_from_tree A (args ! 0)) (expr_from_tree A (args ! 1))
      else if length args = 1 \<and> expr_unary name \<noteq> (None :: ('t expr \<Rightarrow> 't expr_inner) option) then
        map_res (\<lambda>l. from_inner (the (expr_unary name) l)) (expr_from_tree A (args ! 0))
      else if args = [] then
        map_res (\<lambda>c. Expr (EConst c) (8 + 1) 0) (parse_terminal num_error_string (Tree name args) (expr_parse_num i64_from_str))
      else Inl (ext_unexpected name (length args)))"

declare expr_from_tree.simps [simp del]

definition arith_of_name :: "string \<Rightarrow> ('t expr \<Rightarrow> 't expr \<Rightarrow> 't arith_inner) option" where
  "arith_of_name = map_of
     [(''num64_eq'', AEq), (''num64_geq'', AGeq), (''num64_gt'', AGt), (''num64_lt'', ALt), (''num64_leq'', ALeq)]"

fun arith_inner_from_tree :: "(string \<Rightarrow> string \<Rightarrow> nat \<Rightarrow> crate_error + 't) \<Rightarrow> tree \<Rightarrow> crate_error + 't arith_inner" where
  "arith_inner_from_tree A (Tree name args) =
     (case arith_of_name name of
        Some con \<Rightarrow>
          if length args = 2 then map_res2 con (expr_from_tree A (args ! 0)) (expr_from_tree A (args ! 1))
          else Inl (ext_unexpected name (length args))
      | None \<Rightarrow> Inl (ext_unexpected name (length args)))"

definition arith_from_str :: "(string \<Rightarrow> crate_error + unit) \<Rightarrow> (string \<Rightarrow> string \<Rightarrow> nat \<Rightarrow> crate_error + 't) \<Rightarrow> string \<Rightarrow>
    crate_error + 't arith_inner" where
  "arith_from_str V A s =
     bind_res (tree_from_str V s) (\<lambda>top.
     bind_res (arith_inner_from_tree A top) (\<lambda>inner.
       map_err (\<lambda>_. Unexpected ''Arith::new'') (arith_new inner)))"

text \<open>\<open>None\<close> is \<open>FromTokenIterError\<close>.\<close>

definition arith_from_name_tree :: "(string \<Rightarrow> string \<Rightarrow> nat \<Rightarrow> crate_error + 't) \<Rightarrow> string \<Rightarrow> tree list \<Rightarrow> 't arith_inner option" where
  "arith_from_name_tree A name args =
     (case arith_inner_from_tree A (Tree name args) of
        Inl _ \<Rightarrow> None
      | Inr inner \<Rightarrow> (case arith_new inner of Inl _ \<Rightarrow> None | Inr a \<Rightarrow> Some a))"

section \<open>Round trip\<close>

fun expr_name :: "'t expr_inner \<Rightarrow> string" where
  "expr_name (EConst c) = show_i64 c"
| "expr_name CurrInputIdx = ''curr_inp_v''"
| "expr_name (EInput i) = ''inp_v''"
| "expr_name (EOutput i) = ''out_v''"
| "expr_name (EInputIssue i) = ''inp_issue_v''"
| "expr_name (EInputReIssue i) = ''inp_reissue_v''"
| "expr_name (EAdd x y) = ''add''"
| "expr_name (ESub x y) = ''sub''"
| "expr_name (EMul x y) = ''mul''"
| "expr_name (EDiv x y) = ''div''"
| "expr_name (EMod x y) = ''mod''"
| "expr_name (EBitAnd x y) = ''bitand''"
| "expr_name (EBitOr x y) = ''bitor''"
| "expr_name (EXor x y) = ''bitxor''"
| "expr_name (EInvert x) = ''bitinv''"
| "expr_name (ENegate x) = ''neg''"
| "expr_name (PriceOracle1 pk t) = ''price_oracle1''"
| "expr_name (PriceOracle1W pk t) = ''price_oracle1_w''"

definition term_args :: "('t \<Rightarrow> string) \<Rightarrow> 't expr_inner \<Rightarrow> tree list" where
  "term_args shw i =
     (case i of
        PriceOracle1 pk t \<Rightarrow> [Tree (shw pk) [], Tree (show_nat (unat t)) []]
      | PriceOracle1W pk t \<Rightarrow> [Tree (shw pk) [], Tree (show_nat (unat t)) []]
      | _ \<Rightarrow> (case index_of i of Some j \<Rightarrow> [idx_to_tree j] | None \<Rightarrow> []))"

function expr_to_tree :: "('t \<Rightarrow> string) \<Rightarrow> 't expr \<Rightarrow> tree" where
  "expr_to_tree shw (Expr i n d) = Tree (expr_name i) (map (expr_to_tree shw) (expr_operands i) @ term_args shw i)"
  by pat_completeness auto
termination by (relation "measure (\<lambda>(_, x). size x)") (simp_all add: size_operand_expr del: expr.size)

definition term_readable :: "(string \<Rightarrow> string \<Rightarrow> nat \<Rightarrow> crate_error + 't) \<Rightarrow> ('t \<Rightarrow> string) \<Rightarrow> 't expr_inner \<Rightarrow> bool" where
  "term_readable A shw i =
     (case i of
        PriceOracle1 pk t \<Rightarrow> plain (shw pk) \<and> A (shw pk) ''price_oracle1'' 0 = Inr pk
      | PriceOracle1W pk t \<Rightarrow> plain (shw pk) \<and> A (shw pk) ''price_oracle1_w'' 0 = Inr pk
      | _ \<Rightarrow> (case index_of i of Some j \<Rightarrow> idx_below (2 ^ 64) j | None \<Rightarrow> True))"

definition expr_readable :: "(string \<Rightarrow> string \<Rightarrow> nat \<Rightarrow> crate_error + 't) \<Rightarrow> ('t \<Rightarrow> string) \<Rightarrow> 't expr \<Rightarrow> bool" where
  "expr_readable A shw x \<longleftrightarrow> expr_wf x \<and> (\<forall>t \<in> set (terminals (e_inner x)). term_readable A shw t)"

lemma expr_readable_operand: "expr_readable A shw (Expr i n d) \<Longrightarrow> x \<in> set (expr_operands i) \<Longrightarrow> expr_readable A shw x"
  using terminals_operand [of x i] by (auto simp: expr_readable_def)

lemma expr_readable_leaf: "expr_readable A shw (Expr i n d) \<Longrightarrow> term_readable A shw i"
  by (cases "expr_operands i = []") (auto simp: expr_readable_def terminals.simps [of i], cases i, auto simp: term_readable_def)

lemma expr_show_tree: "show_tree (expr_to_tree shw x) = expr_show shw x"
proof (induction x rule: expr_operands_induct)
  case (1 i n d)
  then show ?case by (cases i) (simp_all add: term_args_def idx_show_tree)
qed

lemma plain_show_i64: "plain (show_i64 c)"
  by (simp add: show_i64_def)

lemma expr_tree_ok: "expr_readable A shw x \<Longrightarrow> tree_ok (expr_to_tree shw x)"
proof (induction x rule: expr_operands_induct)
  case (1 i n d)
  have "tree_ok (expr_to_tree shw x)" if "x \<in> set (expr_operands i)" for x using 1 that expr_readable_operand by blast
  then show ?case
    using expr_readable_leaf [OF 1(2)]
    by (cases i) (auto simp: term_args_def term_readable_def idx_tree_ok plain_show_i64)
qed

lemma expr_parse_i64: "expr_parse_num i64_from_str (show_i64 c) = Inr c"
proof (cases "sint c < 0")
  case True
  define n where "n = nat (- sint c)"
  have n: "0 < n" "n \<le> 2 ^ 63" "word_of_int (- int n) = c" using True sint_greater_eq [of c] by (auto simp: n_def)
  obtain d r where dr: "show_nat n = d # r" by (cases "show_nat n") auto
  then obtain k where "0 < k" "k < 10" "d = digit_char k" using hd_show_nat [OF n(1)] by auto
  then have "49 \<le> (of_char d :: nat)" "(of_char d :: nat) \<le> 57" by (simp_all add: digit_char_range)
  moreover have "digits_val 0 (d # r) = Some n" using digits_val_show [of n] dr by simp
  moreover have "show_i64 c = CHR ''-'' # d # r" using True dr by (simp add: show_i64_def n_def)
  ultimately show ?thesis using n(2,3) by (simp add: expr_parse_num_def i64_from_str_def)
next
  case False
  define n where "n = nat (sint c)"
  have n: "n < 2 ^ 63" "of_nat n = c" using False sint_less [of c] by (auto simp: n_def)
  have "i64_from_str (show_nat n) = map_option of_nat (uint_from_str 63 (show_nat n))"
    using show_nat_digit [of n] by (auto simp: i64_from_str_def split: list.splits)
  then have "i64_from_str (show_nat n) = Some c" using uint_from_show [OF n(1)] n(2) by simp
  then show ?thesis using expr_parse_num_nat False by (simp add: show_i64_def n_def)
qed

lemma show_i64_not_name: "\<exists>c \<in> set s. digit_of c = None \<and> c \<noteq> CHR ''-'' \<Longrightarrow> show_i64 c \<noteq> s"
proof
  assume "\<exists>c \<in> set s. digit_of c = None \<and> c \<noteq> CHR ''-''" "show_i64 c = s"
  then obtain ch where "ch \<in> set (show_i64 c)" "digit_of ch = None" "ch \<noteq> CHR ''-''" by auto
  moreover have "\<exists>d<10. ch = digit_char d" if "ch \<in> set (show_i64 c)" "ch \<noteq> CHR ''-''" for ch
    using that set_show_nat by (auto simp: show_i64_def split: if_splits)
  ultimately show False by force
qed

lemma oracle_read:
  assumes "A (shw pk) name 0 = Inr pk"
  shows "oracle_from_tree A name (Tree (shw pk) []) (Tree (show_nat (unat (t :: u64))) []) =
    Inr (from_inner (if name = ''price_oracle1'' then PriceOracle1 pk t else PriceOracle1W pk t))"
proof -
  have "expr_parse_num (uint_from_str 64) (show_nat (unat t)) = Inr (unat t)"
    using unsigned_less [of t] by (intro expr_parse_num_nat uint_from_show) simp
  then show ?thesis using assms by (simp add: oracle_from_tree_def)
qed

lemmas expr_names = expr_indexed_def expr_binary_def expr_unary_def

lemma expr_from_to_tree: "expr_readable A shw x \<Longrightarrow> expr_from_tree A (expr_to_tree shw x) = Inr x"
proof (induction x rule: expr_operands_induct)
  case (1 i n d)
  have ih: "expr_from_tree A (expr_to_tree shw x) = Inr x" if "x \<in> set (expr_operands i)" for x
    using 1 that expr_readable_operand by blast
  have leaf: "term_readable A shw i" using expr_readable_leaf 1(2) by blast
  have eq: "from_inner i = Expr i n d" using 1(2) from_inner_eq by (auto simp: expr_readable_def)
  show ?case
  proof (cases i)
    case (EConst c)
    then have "n = 9" "d = 0" using eq by (simp_all add: from_inner_def inner_size_depth_def)
    moreover have "show_i64 c \<noteq> ''curr_inp_v''" by (rule show_i64_not_name) (simp add: digit_of_def)
    ultimately show ?thesis
      using EConst by (simp add: term_args_def expr_from_tree.simps parse_terminal_def expr_parse_i64 map_err_def)
  next
    case (PriceOracle1 pk t)
    then show ?thesis using leaf eq oracle_read [of A shw pk "''price_oracle1''" t]
      by (simp add: term_args_def term_readable_def expr_from_tree.simps expr_names)
  next
    case (PriceOracle1W pk t)
    then show ?thesis using leaf eq oracle_read [of A shw pk "''price_oracle1_w''" t]
      by (simp add: term_args_def term_readable_def expr_from_tree.simps expr_names)
  qed (use ih leaf eq idx_from_to_tree in \<open>auto simp: term_args_def term_readable_def expr_from_tree.simps expr_names\<close>)
qed

definition arith_to_tree :: "('t \<Rightarrow> string) \<Rightarrow> 't arith_inner \<Rightarrow> tree" where
  "arith_to_tree shw a = Tree (arith_name a) [expr_to_tree shw (fst (sides a)), expr_to_tree shw (snd (sides a))]"

definition arith_readable :: "(string \<Rightarrow> string \<Rightarrow> nat \<Rightarrow> crate_error + 't) \<Rightarrow> ('t \<Rightarrow> string) \<Rightarrow> 't arith_inner \<Rightarrow> bool" where
  "arith_readable A shw a \<longleftrightarrow> expr_readable A shw (fst (sides a)) \<and> expr_readable A shw (snd (sides a)) \<and> arith_new a = Inr a"

interpretation arith_text: tree_text "arith_to_tree shw" "arith_inner_from_tree A" Inr "arith_readable A shw"
  for A :: "string \<Rightarrow> string \<Rightarrow> nat \<Rightarrow> crate_error + 't" and shw
proof
  fix a :: "'t arith_inner" assume a: "arith_readable A shw a"
  have "plain (arith_name a)" "arith_name a \<noteq> ''musig''" by (cases a; simp)+
  then show "tree_ok (arith_to_tree shw a)" using a expr_tree_ok [of A shw] by (simp add: arith_to_tree_def arith_readable_def)
  have "arith_of_name (arith_name a) = Some con \<Longrightarrow> con (fst (sides a)) (snd (sides a)) = a" for con
    by (cases a) (auto simp: arith_of_name_def)
  moreover have "arith_of_name (arith_name a) \<noteq> (None :: ('t expr \<Rightarrow> 't expr \<Rightarrow> 't arith_inner) option)"
    by (cases a) (simp_all add: arith_of_name_def)
  ultimately show "arith_inner_from_tree A (arith_to_tree shw a) = Inr a"
    using a by (auto simp: arith_to_tree_def arith_readable_def expr_from_to_tree)
qed

lemma arith_show_tree: "show_tree (arith_to_tree shw a) = arith_show shw a"
  by (cases "sides a") (simp add: arith_to_tree_def arith_show_def expr_show_tree)

lemma arith_from_show:
  assumes "arith_readable A shw a" "tree_depth (arith_to_tree shw a) < MAX_RECURSION_DEPTH" "V (arith_show shw a) = Inr ()"
  shows "arith_from_str V A (arith_show shw a) = Inr a"
  using arith_text.from_str_tree [of A shw a V] assms
  by (simp add: arith_from_str_def arith_show_tree arith_readable_def map_err_def)

text \<open>With \<open>CovExtArgs\<close> as parameters no text names an oracle.\<close>

lemma oracle_arg_refused: "cov_arg_from_str L s ''price_oracle1'' k = Inl (Unexpected s)" "cov_arg_from_str L s ''price_oracle1_w'' k = Inl (Unexpected s)"
  by (simp_all add: cov_arg_from_str_def)

end
