(* ===== verification/Demo_Ext.thy ===== *)
theory Demo_Ext
  imports Demo_Script Ext_Arith_Text
begin

text \<open>
  A transaction, a signature scheme in which a signature is the key followed by the message, an oracle for it, and
  a comparison \<open>num64_gt(add(price_oracle1(K,7),curr_inp_v),5000)\<close>.
\<close>

definition demo_xc :: ext_crypto where
  "demo_xc = \<lparr>xc_schnorr_from_slice = (\<lambda>b. if length b = 64 then Some b else None), xc_sha256 = pad 32,
     xc_verify_schnorr = (\<lambda>sig msg pk. sig = pk @ msg), xc_xonly_from_slice = (\<lambda>b. if length b = 32 then Some b else None)\<rparr>"

definition demo_oracle :: "(u64 \<Rightarrow> u64) \<Rightarrow> (bitcoin_key, bytes) satisfier" where
  "demo_oracle delay = empty_satisfier\<lparr>lookup_price_oracle_sig := (\<lambda>pk t.
     if length pk = 32 then Some (pk @ pad 32 (to_le_bytes (delay t) @ to_le_bytes 100), 100, delay t) else None),
     lookup_tx := Some [], lookup_spent_utxos := Some [[]], lookup_curr_inp := Some 0\<rparr>"

definition demo_txo :: "u64 \<Rightarrow> tx_out" where
  "demo_txo v = \<lparr>txo_asset = ANull, txo_value = VExplicit v, txo_script_pubkey = []\<rparr>"

definition demo_tx :: transaction where
  "demo_tx = \<lparr>tx_input = [\<lparr>issuance_amount = VNull, issuance_inflation_keys = VNull\<rparr>], tx_output = [demo_txo 4000]\<rparr>"

definition demo_tx_env :: tx_env where
  "demo_tx_env = \<lparr>te_tx = demo_tx, te_spent_utxos = [demo_txo 5000], te_idx = 0\<rparr>"

definition demo_view :: tx_view where
  "demo_view = \<lparr>view_tx = (\<lambda>_. demo_tx), view_utxo = (\<lambda>_. demo_txo 5000)\<rparr>"

definition oracle_key :: bytes where "oracle_key = replicate 32 9"

definition demo_arith :: "cov_ext_args arith_inner" where
  "demo_arith = AGt (from_inner (EAdd (from_inner (PriceOracle1 (XOnlyKeyArg oracle_key) 7)) (from_inner CurrInputIdx)))
     (from_inner (EConst 5000))"

lemma demo_oracle_ok: "(\<And>t. t \<le> delay t) \<Longrightarrow> oracle_lookup_ok demo_xc (demo_oracle delay)"
  by (auto simp: oracle_lookup_ok_def demo_oracle_def demo_xc_def check_sig_price_oracle_1_def)

lemma demo_xonly_ok: "xonly_ok demo_xc"
  by (simp add: xonly_ok_def demo_xc_def)

lemma demo_arith_terminals:
  "terminals (e_inner (fst (sides demo_arith))) = [PriceOracle1 (XOnlyKeyArg oracle_key) 7, CurrInputIdx]"
  "terminals (e_inner (snd (sides demo_arith))) = [EConst 5000]"
  by (simp_all add: demo_arith_def terminals_simps)

lemma demo_arith_new: "arith_new demo_arith = Inr demo_arith"
  using arith_new_iff [of demo_arith "fst (sides demo_arith)" "snd (sides demo_arith)"] by (simp add: demo_arith_terminals)

lemma demo_arith_ok: "arith_ok demo_xc m demo_arith" "no_curr (fst (sides demo_arith))" "no_curr (snd (sides demo_arith))"
  by (simp_all add: arith_ok_def demo_arith_new expr_ok_def demo_arith_terminals no_curr_def)
    (simp_all add: demo_arith_def arg_ok_def oracle_key_def demo_xc_def)

section \<open>Scripts with comparisons\<close>

definition arith_checks :: "cov_ext_args arith_inner ext_checks" where
  "arith_checks = \<lparr>segwit_ctx_checks = arith_segwit_ctx_checks, tap_ctx_checks = (\<lambda>_. Inr ())\<rparr>"

definition arith_builder :: "(instruction list, bytes, bytes, cov_ext_args arith_inner) builder" where
  "arith_builder = \<lparr>builder_new = [], push_opcode = (\<lambda>b op. b @ [op_instruction op]),
     push_int = (\<lambda>b n. b @ [int_instruction n]), push_slice = (\<lambda>b bs. b @ [PushBytes bs]),
     push_key = (\<lambda>b pk. b @ [PushBytes (pad 33 pk)]), push_verify = add_verify,
     push_to_builder = (\<lambda>a b. b @ arith_asm a), instructions = id,
     script_len = (\<lambda>b. sum_list (map instruction_size b)),
     full_key_bytes = pad 33, xonly_key_bytes = pad 32, full_key_hash = pad 20, xonly_key_hash = pad 20,
     sha256_bytes = pad 32, hash256_bytes = pad 32, ripemd160_bytes = pad 20, hash160_bytes = pad 20,
     ext_instructions = arith_asm\<rparr>"

definition arith_parse_env :: "(bytes, bytes, cov_ext_args arith_inner) parse_env" where
  "arith_parse_env = \<lparr>key_from_slice = (\<lambda>bs. if length bs = 32 then Some bs else None),
     sha256_from_slice = (\<lambda>bs. if length bs = 32 then Some bs else None),
     hash256_from_slice = (\<lambda>bs. if length bs = 32 then Some bs else None),
     ripemd160_from_slice = (\<lambda>bs. if length bs = 20 then Some bs else None),
     hash160_from_slice = (\<lambda>bs. if length bs = 20 then Some bs else None),
     ext_from_tokens = arith_from_token_iter demo_xc, pe_ctx = Tap, pe_ext = arith_ext, pe_lock = demo_lock,
     pe_keys = demo_keys, pe_checks = arith_checks\<rparr>"

lemma arith_builder_ok: "builder_ok arith_builder"
  by (simp add: builder_ok_def arith_builder_def arith_asm_def)

lemma arith_parse_lib: "parse_lib_ok arith_parse_env arith_builder"
  by (simp add: parse_lib_ok_def arith_parse_env_def arith_builder_def Encode.key_bytes_def pad_id)

section \<open>A script with a comparison, in the interpreter and in the satisfier\<close>

definition arith_mk :: "('pk, 'h, cov_ext_args arith_inner) terminal \<Rightarrow> ('pk, 'h, cov_ext_args arith_inner) miniscript" where
  "arith_mk t = Miniscript t
     (case type_rule arith_ext demo_lock t of Inr p \<Rightarrow> p | Inl _ \<Rightarrow> ty_from_false)
     (case ext_rule arith_ext demo_lock Schnorr t of Some (Inr x) \<Rightarrow> x | _ \<Rightarrow> ext_from_false)"

lemma node_arith_mk [simp]: "node (arith_mk t) = t"
  by (simp add: arith_mk_def)

lemma every_node_arith_mk: "every_node Q (arith_mk t) \<longleftrightarrow> Q (arith_mk t) \<and> list_all (every_node Q) (children t)"
  by (simp add: every_node_def [of Q "arith_mk t"] every_child_iff list_all_iff)

text \<open>\<open>and_v(v:num64_gt(add(price_oracle1(K,7),curr_inp_v),5000),pk(B))\<close>.\<close>

definition arith_ms :: "cov_ext_args arith_inner interp_ms" where
  "arith_ms = arith_mk (AndV (arith_mk (Verify (arith_mk (ExtT demo_arith)))) (arith_mk (Check (arith_mk (PkK key_B)))))"

definition arith_lib :: "cov_ext_args arith_inner interp_lib" where
  "arith_lib = \<lparr>verify_sig = verify_sig demo_lib, sig_from_der = Some, sighash_from_u32 = ucast, schnorr_from_slice = Some,
     fullkey_from_slice = Some, xonly_from_slice = Some, key_pubkeyhash = key_pubkeyhash demo_lib,
     hash_sha256 = id, hash_hash256 = id, hash_ripemd160 = id, hash_hash160 = id, lock_is_blocks = lock_is_blocks demo_lib,
     ext_evaluate = arith_evaluate demo_xc (Some demo_tx_env), cov_verify = (\<lambda>_ _ _. True)\<rparr>"

definition arith_env :: "(bitcoin_key, bytes, cov_ext_args arith_inner) sat_env" where
  "arith_env = \<lparr>env_sig_type = Schnorr, env_pk_bytes = env_pk_bytes demo_env, env_x_only_bytes = env_x_only_bytes demo_env,
     env_varint = (\<lambda>n. if n < 253 then 1 else 3), env_stfr = demo_oracle id, env_root_has_sig = False, env_leaf_hash = [],
     env_ext_satisfy = arith_satisfy demo_view, env_ext_dissatisfy = (\<lambda>s a. Some (arith_dissatisfy s a))\<rparr>"

lemma arith_ms_wf: "ms_wf arith_ext demo_lock Schnorr arith_ms"
  by code_simp

lemma demo_arith_runs: "arith_runs demo_tx_env demo_arith"
  by (simp add: arith_runs_def demo_arith_terminals)

end
