(* ===== verification/Spec2Isabelle.thy ===== *)
theory Spec2Isabelle
  imports Demo Traversal Translate Policy_Semantic Policy_Analysis Policy_Sort Script Errors Lexer Context Lift Encode Tokens Decode Decode_Sound Demo_Script Demo_Text Demo_Ext
begin

text \<open>
  \<^bold>\<open>A verification of elements-miniscript.\<close>

  elements-miniscript is a Rust library for Miniscript on the Elements (Liquid) block chain: a typed
  language of spending conditions that compiles to Script. The development follows the core of
  the crate, in the order in which a spending condition travels through it:

  \<^item> the \<^emph>\<open>type system\<close> (\<open>miniscript/types\<close>) computes for each fragment, from the types of its
    children, a correctness type, a malleability type and resource data;
  \<^item> the \<^emph>\<open>syntax tree\<close> (\<open>miniscript/decode.rs\<close>, \<open>miniscript/mod.rs\<close>) caches them in each node;
    \<open>Miniscript::from_ast\<close> is the only way to build one;
  \<^item> the \<^emph>\<open>satisfier\<close> (\<open>miniscript/satisfy.rs\<close>) turns signatures, preimages and lock times into a
    witness, non-malleably (\<open>satisfy\<close>) or as cheaply as possible (\<open>satisfy_malleable\<close>);
  \<^item> the \<^emph>\<open>interpreter\<close> (\<open>interpreter/mod.rs\<close>, \<open>interpreter/stack.rs\<close>) runs a script against a
    witness and reports the constraints it satisfies, one iterator item at a time;
  \<^item> the \<^emph>\<open>script contexts\<close> (\<open>miniscript/context.rs\<close>, \<open>miniscript/analyzable.rs\<close>) bound sizes, opcodes and keys and
    say which scripts are sane;
  \<^item> the \<^emph>\<open>encoder\<close>, \<^emph>\<open>lexer\<close> and \<^emph>\<open>decoder\<close> (\<open>miniscript/astelem.rs\<close>, \<open>lex.rs\<close>, \<open>decode.rs\<close>) go from miniscripts
    to Script and back;
  \<^item> the \<^emph>\<open>text forms\<close> (\<open>expression.rs\<close>, \<open>miniscript/astelem.rs\<close>, \<open>descriptor/checksum.rs\<close>) print and read
    miniscripts, policies and checksums;
  \<^item> the \<^emph>\<open>policies\<close> (\<open>policy/semantic.rs\<close>, \<open>policy/concrete.rs\<close>, \<open>policy/mod.rs\<close>) describe spending conditions
    abstractly; miniscripts and concrete policies are lifted to semantic ones.

  \<^bold>\<open>Theories and what they model.\<close>

  \<^item> \<open>Prelude\<close>: machine integers, byte strings, the \<open>Result\<close> plumbing (\<open>bind_res\<close>, \<open>collect_res\<close>,
    \<open>collect_opt\<close>) and the option arithmetic the resource data uses.
  \<^item> \<open>Types_Correctness\<close>, \<open>Types_Malleability\<close>, \<open>Types_ExtData\<close>: \<open>types/correctness.rs\<close>,
    \<open>types/malleability.rs\<close>, \<open>types/extra_props.rs\<close>; one definition per method of the
    \<open>Property\<close> trait (\<open>corr_and_b\<close>, \<open>mall_and_b\<close>, \<open>ext_and_b\<close> are the three \<open>and_b\<close>), errors as
    the \<open>Inl\<close> of an \<open>error_kind\<close>, and the subtype relations as interpretations of one locale.
  \<^item> \<open>Ast\<close>: \<open>Terminal\<close> and \<open>Miniscript\<close> as mutually recursive datatypes, \<open>Type\<close> as the pair of the
    first two types, the two \<open>type_check\<close>s (\<open>type_rule\<close>, \<open>ext_rule\<close>) and \<open>from_ast\<close>. \<open>ms_wf\<close> says that
    every node carries what \<open>from_ast\<close> computes for it, which the private fields guarantee.
  \<^item> \<open>Type_Invariants\<close>: a locale for properties of nodes that every rule preserves, and its two
    interpretations: the sanity checks of the types, and the shape of the resource data.
  \<^item> \<open>Witness\<close>: the \<open>Satisfier\<close> trait as a record of functions, the implementations the crate gives
    for sequence numbers, lock times, maps, references and tuples, and the types \<open>Witness\<close> and
    \<open>Satisfaction\<close> with \<open>minimum\<close> and \<open>minimum_mall\<close>.
  \<^item> \<open>Satisfy\<close>: \<open>thresh\<close>, \<open>thresh_mall\<close>, \<open>satisfy_helper\<close>, \<open>dissatisfy_helper\<close> and the entry points.
  \<^item> \<open>Selection\<close>: the locale \<open>selection\<close> states what the recursion needs of \<open>min_fn\<close> and \<open>thresh_fn\<close>;
    \<open>(minimum, thresh)\<close> and \<open>(minimum_mall, thresh_mall)\<close> interpret it, so every lemma proved in it
    holds for both modes of the satisfier.
  \<^item> \<open>Satisfy_Typed\<close>, \<open>Signatures\<close>: what the types promise about the satisfier's output (no failed
    assertion, \<open>d\<close>, \<open>z\<close>, \<open>o\<close>, \<open>n\<close>; the meaning of \<open>safe\<close>).
  \<^item> \<open>Interpreter\<close>: stack elements, the \<open>evaluate_*\<close> functions, one turn of the loop (\<open>step\<close>), the
    loop (\<open>eval_loop\<close>), \<open>iter_next\<close>, \<open>next\<close> (\<open>iter_step\<close>) and the whole iteration (\<open>items\<close>). \<open>Runs\<close> gives a step
    relation for it and big-step rules per fragment; \<open>Interp_Safety\<close> an invariant that excludes panics, and the case in which a covenant panics.
  \<^item> \<open>Soundness\<close>: witnesses of the satisfier are accepted by the interpreter.
  \<^item> \<open>Timelocks\<close>: time lock mixing, and the lock time tests of the satisfier against the interpreter's.
  \<^item> \<open>Traversal\<close>, \<open>Translate\<close>: \<open>miniscript/iter.rs\<close> (children, keys, the two iterators) and \<open>translate_pk\<close>
    of \<open>miniscript/astelem.rs\<close> and \<open>miniscript/mod.rs\<close>, with a translator as a record of fallible functions.
  \<^item> \<open>Policy_Semantic\<close>, \<open>Policy_Analysis\<close>, \<open>Policy_Sort\<close>, \<open>Policy_Text\<close>: \<open>policy/semantic.rs\<close> with its normal form,
    entailment, time lock filters, key counts, sorting and text form.
  \<^item> \<open>Lift\<close>: \<open>policy/mod.rs\<close>, from miniscripts to semantic policies, and its agreement with the satisfier.
  \<^item> \<open>Policy_Concrete\<close>: \<open>policy/concrete.rs\<close> without the compiler: the checks, the lift and the text form.
  \<^item> \<open>Script\<close>, \<open>Errors\<close>: opcodes, instructions and script numbers of the script library, and \<open>Error\<close> of \<open>lib.rs\<close>.
  \<^item> \<open>Lexer\<close>, \<open>Tokens\<close>: \<open>miniscript/lex.rs\<close>, and the tokens that each fragment is encoded to.
  \<^item> \<open>Context\<close>: \<open>miniscript/context.rs\<close>, \<open>miniscript/limits.rs\<close> and \<open>miniscript/analyzable.rs\<close>; the trait's
    implementations are one definition by cases on the context.
  \<^item> \<open>Encode\<close>: \<open>encode\<close> and \<open>script_size\<close> of \<open>miniscript/astelem.rs\<close> over a script builder.
  \<^item> \<open>Decode\<close>, \<open>Decode_Sound\<close>: \<open>parse\<close> of \<open>miniscript/decode.rs\<close>, a loop over two stacks written as a
    \<open>partial_function\<close>, the proof that it returns on every input, and the invariant that ties its stacks
    to the tokens already read.
  \<^item> \<open>Text_Tree\<close>: \<open>expression.rs\<close>; the locale \<open>tree_text\<close> states what a text form owes to its printer, and the
    policies and miniscripts interpret it.
  \<^item> \<open>Text_Miniscript\<close>: \<open>Display\<close> and \<open>from_tree\<close> of \<open>miniscript/astelem.rs\<close>, \<open>from_str\<close> of \<open>miniscript/mod.rs\<close>.
  \<^item> \<open>Checksum\<close>: \<open>descriptor/checksum.rs\<close>, on 64-bit words.
  \<^item> \<open>Demo_Script\<close>, \<open>Demo_Text\<close>, \<open>Demo_Ext\<close>: a script library on instruction lists, a text environment on names, a
    transaction and an oracle.
  \<^item> \<open>Ext_Index\<close>, \<open>Ext_Env\<close>: \<open>extensions/index_ops.rs\<close>, and what the covenant fragments share: the transaction
    (\<open>TxEnv\<close>), their parameters (\<open>extensions/param.rs\<close>), checked 64-bit arithmetic and the oracle's signature check.
  \<^item> \<open>Ext_Arith\<close>: \<open>extensions/arith.rs\<close>; \<open>Ext_Arith_Sound\<close> relates evaluation to integers and satisfaction to evaluation,
    \<open>Ext_Arith_Script\<close> the script to its tokens and the decoder, \<open>Ext_Arith_Text\<close> the text form. The parsers from tokens
    choose an arm of their chain of patterns (\<open>idx_arm\<close>, \<open>expr_arm\<close>) and then read the operands.
  \<^item> \<open>Demo\<close>: concrete scripts and environments for the witnesses of the theorems below.

  \<^bold>\<open>Conventions.\<close> A \<open>Result\<close> is a sum with the error on the left; a panic (\<open>assert!\<close>, \<open>unwrap\<close>, \<open>expect\<close>,
  \<open>unreachable!\<close>, an index out of bounds, a subtraction below zero) is \<open>None\<close> or the constructor
  \<open>Panic\<close>. Debug assertions are not executed, except where the policies state them. Strings are lists of
  the bytes of their UTF-8 form. \<open>usize\<close> values are naturals: they count nodes,
  elements and bytes of structures that fit in memory. \<open>u32\<close> lock times and \<open>u8\<close> bytes are words.
  Vectors used as stacks are lists with the top first in the interpreter and, as the crate has
  them, bottom first in witnesses. The loop of the interpreter needs no fuel: \<open>work\<close> measures what
  is left to do, every turn decreases it, and the recursion of \<open>items\<close> decreases \<open>iter_work\<close>.

  \<^bold>\<open>Parameters.\<close> Third-party code appears as arguments: \<open>lock_lib\<close> (methods of \<open>LockTime\<close> and
  \<open>Sequence\<close>), \<open>interp_lib\<close> (signature checks and parsing, hashes), \<open>sat_env\<close> (key serialisation, the
  size of a variable-length integer), \<open>extension\<close> and the extension fields of the two environments
  (implementations of the \<open>Extension\<close> trait), \<open>builder\<close> (the script builder and serialised keys and hashes),
  \<open>lex_lib\<close> (script numbers), \<open>parse_env\<close> (keys and hashes from bytes), \<open>key_info\<close> and \<open>ext_checks\<close> (what the contexts
  ask of keys and extensions), \<open>text_env\<close> and \<open>ms_text_env\<close> (printers and parsers of keys, hashes and
  extensions), \<open>check_valid_chars\<close>, \<open>ext_crypto\<close>, \<open>arg_lib\<close> and \<open>tx_view\<close> (hashes, signatures, parameter texts and the
  transaction of a covenant). What the theorems need of them is stated by named
  predicates: \<open>leaf_sound\<close> (signatures handed out verify, keys parse and hash to their hash,
  preimages hash to the hash and 32 zero bytes do not, lock times agree), \<open>leaf_bytes_ok\<close>,
  \<open>env_dissat_ok\<close>, \<open>leaf_no_sig\<close>, \<open>ext_data_ok\<close>, \<open>ext_type_ok\<close>, \<open>ext_eval_ok\<close>, \<open>builder_ok\<close>, \<open>sizes_ok\<close>,
  \<open>lex_lib_ok\<close>, \<open>parse_env_ok\<close>, \<open>leaf_readable\<close>, \<open>locks_decimal\<close>, \<open>one_unit\<close>,
  \<open>oracle_lookup_ok\<close> (an oracle's signatures verify), \<open>xonly_ok\<close> and \<open>parse_lib_ok\<close>.

  \<^bold>\<open>What the theorems show.\<close> The satisfier and the interpreter agree, in both modes; the satisfier
  and the interpreter do not panic on well-formed scripts if the keys of raw key hashes are known and the extensions
  do not panic, which is shown of the arithmetic ones with sound indices, and a covenant panics in exactly one case; the types \<open>d\<close>, \<open>z\<close>, \<open>o\<close>, \<open>n\<close> and \<open>s\<close> mean what
  they say; the non-malleable selection leaves no alternative to a third party; type checking
  never panics and its sanity checks hold; iteration is bounded and stops after an error. Encoding is exact in
  size, what is encoded is lexed to the fragments' tokens as long as numbers fit in four bytes, and what the decoder accepts is encoded to the script it
  came from; the decoder returns on every script. Printed miniscripts and policies are read back, and a checksum
  detects every change of one character. Lifting keeps the meaning, entailment is decided, and the checks of
  policies mean what they say. The arithmetic fragments compute exact integers, their satisfactions evaluate to true unless
  an oracle signed at a later time, and their scripts and texts are read back. The last section proves of some defects that the code has them.

  \<^bold>\<open>Bounds.\<close> The recursion of the expression parser is limited by the crate itself (\<open>MAX_RECURSION_DEPTH\<close>), which
  the round trips have as a hypothesis; \<open>entails\<close> is limited by \<open>ENTAILMENT_MAX_TERMINALS\<close>. No definition uses fuel.

  \<^bold>\<open>Not modelled.\<close> The compiler (\<open>policy/compiler.rs\<close>: its search compares floating point costs), descriptors and
  their keys (elliptic curve arithmetic and addresses of other crates), PSBTs, the covenant fragments other than the arithmetic ones,
  confidential addresses, peg-ins, the decoding of transaction inputs for the interpreter, and \<open>Debug\<close> output.
\<close>

unbundle bit_operations_syntax

section \<open>Satisfaction against interpretation\<close>

text \<open>
  C1. Whatever witness \<open>Miniscript::satisfy\<close> returns for a well-formed miniscript of type \<open>B\<close>, the
  interpreter accepts it: iterating over the script with that witness ends without a panic and
  without an error. Signatures, keys, preimages and lock times come from the environment as
  described by \<open>leaf_sound\<close>.
\<close>

theorem satisfy_accepted:
  assumes "ms_wf E LL st m" and "base (corr (ty m)) = Base_B"
    and "every_node (leaf_sound (env\<lparr>env_root_has_sig := safe (mall (ty m)), env_leaf_hash := lh\<rparr>) L c) m"
    and "ms_satisfy env lh check_witness m = Some (Inr w)"
  shows "accepted L c (script_iter m w)"
  using assms(4) by (rule ms_satisfy_Inr) (rule nonmall.witness_accepted [OF assms(1,3,2)])

theorem satisfy_accepted_witness:
  "accepted demo_lib demo_ctx (script_iter demo_ms demo_witness)"
  by (rule satisfy_accepted [OF demo_wf demo_B demo_sound [unfolded demo_run_env_def] demo_satisfy])

text \<open>
  C2. The same for \<open>Miniscript::satisfy_malleable\<close>, which takes the cheapest alternative whether
  or not it can be replaced by a third party.
\<close>

theorem satisfy_malleable_accepted:
  assumes "ms_wf E LL st m" and "base (corr (ty m)) = Base_B"
    and "every_node (leaf_sound (env\<lparr>env_root_has_sig := safe (mall (ty m)), env_leaf_hash := lh\<rparr>) L c) m"
    and "ms_satisfy_malleable env lh check_witness m = Some (Inr w)"
  shows "accepted L c (script_iter m w)"
  using assms(4) by (rule ms_satisfy_malleable_Inr) (rule malleable.witness_accepted [OF assms(1,3,2)])

theorem satisfy_malleable_accepted_witness:
  "accepted demo_lib demo_ctx (script_iter demo_ms demo_witness)"
  by (rule satisfy_malleable_accepted [OF demo_wf demo_B demo_sound [unfolded demo_run_env_def] demo_satisfy_malleable])

section \<open>The satisfier\<close>

text \<open>
  C3. \<open>satisfy\<close> and \<open>satisfy_malleable\<close> do not panic on a well-formed miniscript in which the key behind every
  raw key hash is known to the satisfier, the methods of the extensions return and extensions typed \<open>d\<close> have
  a dissatisfaction without signatures (\<open>env_dissat_ok\<close>): no \<open>assert!\<close> on the signature flags, no
  \<open>unreachable!\<close> and no index of \<open>satisfy.rs\<close> fails. Without the key of a raw key hash an assertion can
  fail; the last section has a script that shows it.
\<close>

theorem satisfy_never_panics:
  assumes "ms_wf E LL st m"
    and "every_node (env_dissat_ok (env\<lparr>env_root_has_sig := safe (mall (ty m)), env_leaf_hash := lh\<rparr>)) m"
  shows "ms_satisfy env lh check_witness m \<noteq> None \<and> ms_satisfy_malleable env lh check_witness m \<noteq> None"
  using nonmall.helpers_total [OF assms] malleable.helpers_total [OF assms]
  by (auto simp: ms_satisfy_def ms_satisfy_malleable_def satisfy_def satisfy_mall_def helpers_ok_def)

theorem satisfy_never_panics_witness:
  "ms_satisfy demo_env [] (\<lambda>_. Inr () :: unit + unit) demo_ms \<noteq> None
    \<and> ms_satisfy_malleable demo_env [] (\<lambda>_. Inr () :: unit + unit) demo_ms \<noteq> None"
  by (rule satisfy_never_panics [OF demo_wf demo_dissat [unfolded demo_run_env_def]])

text \<open>
  C4. The type property \<open>d\<close> is sound: a well-formed fragment marked dissatisfiable has a
  dissatisfaction that needs no signature, in the non-malleable as in the malleable mode, if at every node
  \<open>env_dissat_ok\<close> holds: the key behind a raw key hash is known (\<open>c:raw_pkh\<close> is typed \<open>d\<close>, but its
  dissatisfaction contains the key), the methods of an extension return, and an extension typed \<open>d\<close> has a
  dissatisfaction without signatures.
\<close>

theorem dissatisfiable_has_dissatisfaction:
  assumes "ms_wf E LL st m" "every_node (env_dissat_ok env) m" "dissatisfiable (corr (ty m))"
  shows "(\<exists>d w. dissatisfy_helper env (minimum vl) (thresh vl) (node m) = Some d \<and> stack d = Stack w \<and> \<not> has_sig d)
    \<and> (\<exists>d w. dissatisfy_helper env (minimum_mall vl) (thresh_mall vl) (node m) = Some d \<and> stack d = Stack w \<and> \<not> has_sig d)"
  using nonmall.helpers_total [OF assms(1,2), of vl] malleable.helpers_total [OF assms(1,2), of vl] assms(3)
  by (auto simp: helpers_ok_def dissat_ready_def)

theorem dissatisfiable_has_dissatisfaction_witness:
  "\<exists>d w. dissatisfy_helper demo_run_env (minimum (\<lambda>_. 1)) (thresh (\<lambda>_. 1)) (node demo_thresh) = Some d
     \<and> stack d = Stack w \<and> \<not> has_sig d"
proof (rule conjunct1 [OF dissatisfiable_has_dissatisfaction])
  show "ms_wf no_ext demo_lock Ecdsa demo_thresh" by code_simp
  show "every_node (env_dissat_ok demo_run_env) demo_thresh"
    by (simp add: every_node_mk demo_thresh_def demo_pk_def env_dissat_ok_def)
  show "dissatisfiable (corr (ty demo_thresh))" by code_simp
qed

text \<open>
  C5. The input modifiers are sound, in both modes of the satisfier: the witness produced for a fragment of
  type \<open>z\<close> is empty, of type \<open>o\<close> has exactly one element, and of type \<open>n\<close> has a non-empty top element.
  \<open>leaf_bytes_ok\<close> asks that keys, signatures and preimages are not empty, and of each extension that its own
  witnesses have the shape of the type it declares, so extensions are covered only as far as they keep their
  declaration. A comparison with a price oracle does not: it is typed \<open>z\<close> and has three elements.
\<close>

theorem input_modifier_sound:
  assumes "ms_wf E LL st m" "every_node (leaf_bytes_ok env) m"
    and "satisfy_helper env (minimum vl) (thresh vl) (node m) = Some s
      \<or> satisfy_helper env (minimum_mall vl) (thresh_mall vl) (node m) = Some s" "stack s = Stack w"
  shows "(input (corr (ty m)) = Input_Zero \<longrightarrow> w = [])
    \<and> (input (corr (ty m)) \<in> {Input_One, Input_OneNonZero} \<longrightarrow> length w = 1)
    \<and> (input (corr (ty m)) \<in> {Input_OneNonZero, Input_AnyNonZero} \<longrightarrow> w \<noteq> [] \<and> last w \<noteq> [])"
proof -
  have "sat_shape (input (corr (ty m))) w"
    using shapes_okD(1) [OF nonmall.helpers_shapes [OF assms(1,2)] _ assms(4)]
      shapes_okD(1) [OF malleable.helpers_shapes [OF assms(1,2)] _ assms(4)] assms(3) by blast
  then show ?thesis by (cases "input (corr (ty m))") auto
qed

theorem input_modifier_sound_witness:
  "length [demo_hash] = 1 \<and> last [demo_hash] \<noteq> []"
proof -
  let ?m = "mk (terminal.Sha256 demo_hash) :: unit interp_ms"
  have "ms_wf no_ext demo_lock Ecdsa ?m" by code_simp
  moreover have "every_node (leaf_bytes_ok demo_env) ?m"
    by (simp add: every_node_mk leaf_bytes_ok_def demo_env_def demo_stfr_def demo_hash_def)
  moreover have "satisfy_helper demo_env (minimum (\<lambda>_. 1)) (thresh (\<lambda>_. 1)) (node ?m) = Some (Sat (Stack [demo_hash]) False)"
    by code_simp
  moreover have "input (corr (ty ?m)) = Input_OneNonZero" by code_simp
  ultimately show ?thesis
    using input_modifier_sound [of no_ext demo_lock Ecdsa ?m demo_env "\<lambda>_. 1" "Sat (Stack [demo_hash]) False" "[demo_hash]"]
    by simp
qed



text \<open>
  C7. The non-malleable threshold: the witness stacks satisfactions of exactly \<open>k\<close> children and
  dissatisfactions of the others, and the satisfaction of every child passed over is impossible
  or needs a signature, so a third party cannot trade one choice of children for another.
\<close>

theorem thresh_non_malleable:
  assumes "thresh vl k sats dissats = Some r" "stack r = Stack w" "length dissats = length sats"
  shows "\<exists>S \<subseteq> {..<length sats}. card S = k
    \<and> (\<forall>i<length sats. i \<notin> S \<longrightarrow> stack (sats ! i) = Impossible \<or> has_sig (sats ! i))
    \<and> flatten_stacks (map (\<lambda>i. if i \<in> S then sats ! i else dissats ! i) [0..<length sats]) = Stack w"
  using assms by (rule thresh_rejects)

theorem thresh_non_malleable_witness:
  "\<exists>S \<subseteq> {..<2}. card S = 1
    \<and> (\<forall>i<2. i \<notin> S \<longrightarrow> stack ([Sat (Stack [[5]]) False, Sat (Stack [[6]]) True] ! i) = Impossible
         \<or> has_sig ([Sat (Stack [[5]]) False, Sat (Stack [[6]]) True] ! i))
    \<and> flatten_stacks (map (\<lambda>i. if i \<in> S then [Sat (Stack [[5]]) False, Sat (Stack [[6]]) True] ! i
         else [Sat push_0 False, Sat push_0 False] ! i) [0..<2]) = Stack [[], [5]]"
proof -
  let ?s = "[Sat (Stack [[5]]) False, Sat (Stack [[6]]) True]" and ?d = "[Sat push_0 False, Sat push_0 False]"
  have "thresh (\<lambda>_. 1) 1 ?s ?d = Some (Sat (Stack [[], [5]]) False)" by code_simp
  then show ?thesis using thresh_non_malleable [of "\<lambda>_. 1" 1 ?s ?d "Sat (Stack [[], [5]]) False" "[[], [5]]"] by (simp add: numeral_2_eq_2)
qed

text \<open>
  C8. \<open>Satisfaction::minimum\<close> returns one of the two witnesses, and the one it rejects is
  impossible or needs a signature; when both need one the smaller witness is taken.
\<close>

theorem minimum_non_malleable:
  assumes "stack (minimum vl s1 s2) = Stack w"
  shows "(stack s1 = Stack w \<and> (stack s2 = Impossible \<or> has_sig s2) \<or> stack s2 = Stack w \<and> (stack s1 = Impossible \<or> has_sig s1))
    \<and> (\<forall>w1 w2. has_sig s1 \<and> has_sig s2 \<and> stack s1 = Stack w1 \<and> stack s2 = Stack w2 \<longrightarrow>
         witness_size vl w = min (witness_size vl w1) (witness_size vl w2))"
  using minimum_rejects [OF assms] assms
  by (auto simp: minimum_def wit_min_def nat_cmp_def split: if_splits)

theorem minimum_non_malleable_witness:
  "stack (minimum (\<lambda>_. 1) (Sat (Stack [[4, 4]]) True) (Sat (Stack [[5]]) True)) = Stack [[5]] \<and>
     witness_size (\<lambda>_. 1) [[5]] = min (witness_size (\<lambda>_. 1) [[4, 4]]) (witness_size (\<lambda>_. 1) [[5]])"
proof -
  have "stack (minimum (\<lambda>_. 1) (Sat (Stack [[4, 4]]) True) (Sat (Stack [[5]]) True)) = Stack [[5]]" by code_simp
  from this minimum_non_malleable [OF this] show ?thesis by simp
qed

text \<open>
  A \<open>multi\<close> of \<open>k\<close> keys is satisfied by the dummy element and the first \<open>k\<close> available
  signatures in key order, whatever their sizes; it is impossible when fewer are available.
\<close>

theorem multi_takes_first_signatures:
  "satisfy_helper env mf tf (Multi k keys) = Some
     (if length (available_sigs env keys) < k then Sat Impossible False
      else Sat (Stack ([] # take k (available_sigs env keys))) True)"
  by (simp add: multi_sat_eq)

text \<open>
  A \<open>multi_a\<close> is satisfied by one element per key, last key first: the last \<open>k\<close> available
  signatures and empty vectors elsewhere.
\<close>

theorem multi_a_takes_last_signatures:
  assumes "0 < k"
  shows "satisfy_helper env mf tf (MultiA k keys) = Some
     (if length (available_sigs env keys) < k then Sat Impossible False
      else Sat (Stack (greedy k (map (sig_of env) (rev keys)))) True)"
  using multi_a_sat_eq [OF assms, of env keys] by simp

theorem multi_a_takes_last_signatures_witness:
  "satisfy_helper demo_env (minimum (\<lambda>_. 1)) (thresh (\<lambda>_. 1)) (MultiA 1 [key_A, key_B]) = Some (Sat (Stack [[], [48, 2, 10, 1]]) True)"
proof -
  have "available_sigs demo_env [key_A, key_B] = [[48, 2, 10, 1]]" "map (sig_of demo_env) (rev [key_A, key_B]) = [None, Some [48, 2, 10, 1]]"
    by code_simp+
  then show ?thesis using multi_a_takes_last_signatures [of 1 demo_env _ _ "[key_A, key_B]"] by simp
qed

section \<open>The interpreter\<close>

text \<open>
  C9. The interpreter never panics on a well-formed script, whatever bytes the witness holds: the
  iteration ends, with a finite list of items no longer than the work in the script. If the script has extensions,
  \<open>ext_eval_ok\<close> asks of each of them that its \<open>evaluate\<close> returns and pushes no empty vector. Comparisons
  whose index arithmetic goes below zero or divides by zero do not meet this; the section on
  arithmetic says which of them do.
\<close>

theorem interpreter_never_panics:
  assumes "ms_wf E LL st m" "every_node (ext_eval_ok L) m"
  shows "\<exists>is. items L c (script_iter m w) = Some is \<and> length is \<le> rank (node m) + 1"
  using items_total [OF script_iter_ok [OF assms], of c w] items_bound [of L c "script_iter m w"]
  by (fastforce simp: iter_work_def script_iter_def work_fresh)

theorem interpreter_never_panics_witness:
  "\<exists>is. items demo_lib demo_ctx (script_iter demo_ms [[1], [], [2, 3]]) = Some is \<and> length is \<le> rank (node demo_ms) + 1"
  by (rule interpreter_never_panics [OF demo_wf])
    (simp add: every_node_mk demo_ms_def demo_thresh_def demo_pk_def ext_eval_ok_def)

text \<open>
  C10. The loop of \<open>iter_next\<close> terminates because every turn strictly decreases the work that the
  pending states can still cause, whatever the fragment, the counters and the stack.
\<close>

theorem loop_turn_decreases_work:
  assumes "step L c x st s = Continue st' s' \<or> step L c x st s = Yield k st' s'"
  shows "sum_list (map work st') < work x + sum_list (map work st)"
  using assms step_work [of L c x st s] by auto

theorem loop_turn_decreases_work_witness:
  "sum_list (map work [NS (mk (Verify demo_thresh)) 0 0, NS (mk (terminal.Older 10)) 0 0]) < work (NS demo_ms 0 0) + sum_list (map work [])"
  using loop_turn_decreases_work [of demo_lib demo_ctx "NS demo_ms 0 0" "[]" "[]"
      "[NS (mk (Verify demo_thresh)) 0 0, NS (mk (terminal.Older 10)) 0 0]" "[]" "SC_Ext ()"]
  by (simp add: step_def demo_ms_def)

text \<open>
  C11. After the first error the iterator yields nothing more: the next call returns \<open>None\<close> and leaves
  the iterator as it is.
\<close>

theorem iterator_stops_after_error:
  assumes "iter_step L c it = Some (Some (Inl e), it')"
  shows "iter_step L c it' = Some (None, it') \<and> items L c it = Some [Inl e]"
proof -
  have "has_errored it'" using assms by (rule iter_step_error)
  then have "iter_step L c it' = Some (None, it')" by (simp add: iter_step_def)
  then show ?thesis using assms by (simp add: items.simps [of L c it] items.simps [of L c it'])
qed

theorem iterator_stops_after_error_witness:
  "items demo_lib demo_ctx (script_iter (mk FalseT) []) = Some [Inl ScriptSatisfactionError]"
proof -
  have "\<exists>it'. iter_step demo_lib demo_ctx (script_iter (mk FalseT) []) = Some (Some (Inl ScriptSatisfactionError), it')"
    by (simp add: iter_step_def iter_next_def script_iter_def step_def iter_finish_def)
  then show ?thesis using iterator_stops_after_error by blast
qed


section \<open>Scripts: encoder, lexer and decoder\<close>

text \<open>
  C12. Decoding is the inverse of encoding: when the decoder accepts a script, the miniscript it returns
  encodes, and the encoded script has the tokens of the script that was read.
\<close>

theorem decode_then_encode:
  assumes "parse_env_ok P B et" "builder_ok B" "sizes_ok B K" "lex_lib_ok L"
    and "parse_with_ext P L ps script = Some (Inr ms)" "every_node (node_lexed B et L) ms"
  shows "\<exists>b. ms_encode B (ctx_sig_type (pe_ctx P)) ms = Some b \<and> lex L (map Inr (instructions B b)) = lex L script"
  using assms by (rule decode_encode)

theorem decode_then_encode_witness:
  "\<exists>b. ms_encode list_builder Ecdsa script_ms = Some b
     \<and> lex demo_lex (map Inr (instructions list_builder b)) = lex demo_lex (map Inr demo_script)"
  using decode_then_encode [OF demo_parse_env_ok list_builder_ok list_builder_sizes demo_lex_ok script_parses script_lexed]
  by (simp add: demo_parse_env_def)

text \<open>
  C13. The decoder always returns: its loop ends on every token sequence, no pop of its stack of
  terms fails, and the stack holds one term at the end. What it returns is well-formed, has the tokens of
  the script, all of them, and passes the checks that were asked for.
\<close>

theorem decoder_total:
  assumes "parse_env_ok P B et"
  shows "\<exists>r. parse_with_ext P L ps script = Some r \<and>
    (\<forall>ms. r = Inr ms \<longrightarrow> ms_wf (pe_ext P) (pe_lock P) (ctx_sig_type (pe_ctx P)) ms
       \<and> lex L script = Inr (toks B et (ctx_sig_type (pe_ctx P)) (node ms)) \<and> base (corr (ty ms)) = Base_B
       \<and> ext_check (pe_keys P) (pe_checks P) (pe_ctx P) ps ms = Inr ())"
  using parse_with_ext_ok [OF assms, of L ps script] by (auto simp: good_def)

theorem decoder_total_witness:
  "\<exists>r. parse_with_ext demo_parse_env demo_lex ext_params_insane [Inr (Op OP_ENDIF), Inr (Op OP_ELSE), Inr (Op OP_DROP)] = Some r"
  using decoder_total [OF demo_parse_env_ok] by blast

text \<open>
  C14. Encoding never panics on a well-formed script, and the script it builds is lexed, without error, to
  the token sequence of its fragments, if at every node \<open>node_lexed\<close> holds: the numbers of the fragment (lock times,
  thresholds, numbers of keys) are below \<open>2 ^ 31\<close>, raw key hashes have 20 bytes, and the script of an extension
  is lexed to its tokens. The bound excludes \<open>after(n)\<close> from \<open>2 ^ 31\<close> on, which the type checker accepts: the
  script number then has five bytes.
\<close>

theorem encoded_script_lexes:
  assumes "builder_ok B" "sizes_ok B K" "lex_lib_ok L" "ms_wf E LL st' m" "every_node (node_lexed B et L) m"
  shows "\<exists>b. ms_encode B st m = Some b \<and> lex L (map Inr (instructions B b)) = Inr (toks B et st (node m))"
  using lex_encode [OF assms] encode_total [OF assms(4), of B st "builder_new B"] by (auto simp: ms_encode_def)

theorem encoded_script_lexes_witness:
  "\<exists>b. ms_encode list_builder Ecdsa script_ms = Some b
     \<and> lex demo_lex (map Inr (instructions list_builder b)) = Inr (toks list_builder (\<lambda>_. [Drop]) Ecdsa (node script_ms))"
  by (rule encoded_script_lexes [OF list_builder_ok list_builder_sizes demo_lex_ok script_wf script_lexed])



text \<open>
  C16. Every script that \<open>parse\<close> accepts for version 0 witness programs meets the promises of the sanity
  checks: it is well-formed, every satisfaction needs a signature, none can be malleated, keys are not
  repeated, time locks are not mixed, and the standardness limits on size, operations and witness elements hold.
\<close>

theorem parsed_scripts_sane:
  assumes "parse_env_ok P B et" "ms_parse P L script = Some (Inr ms)" "pe_ctx P = Segwitv0"
  shows "ms_wf (pe_ext P) (pe_lock P) Ecdsa ms \<and> base (corr (ty ms)) = Base_B
    \<and> safe (mall (ty ms)) \<and> non_malleable (mall (ty ms)) \<and> distinct (keys_of (node ms))
    \<and> \<not> contains_unspendable_path (timelock_info (ext ms))
    \<and> pk_cost (ext ms) \<le> 3600 \<and> (\<exists>n. op_count (ops (ext ms)) = Some n \<and> n \<le> 201)
    \<and> (\<exists>n. stack_elem_count_sat (ext ms) = Some n \<and> n < 100)"
proof (intro conjI)
  obtain r where "parse_with_ext P L ext_params_sane script = Some r" "r = Inr ms"
    and sane: "sanity_check (pe_keys P) (pe_checks P) Segwitv0 ms = Inr ()"
    using assms(2,3) by (auto simp: ms_parse_def bind_res_Inr map_err_Inr)
  then show "ms_wf (pe_ext P) (pe_lock P) Ecdsa ms" "base (corr (ty ms)) = Base_B"
    using parse_with_ext_ok [OF assms(1), of L ext_params_sane script] assms(3) by (auto simp: good_def)
  show "safe (mall (ty ms))" "non_malleable (mall (ty ms))" "distinct (keys_of (node ms))"
    "\<not> contains_unspendable_path (timelock_info (ext ms))"
    using sane by (simp_all add: sanity_check_Inr requires_sig_def is_non_malleable_def iter_pk_keys has_mixed_timelocks_def)
  have "within_resource_limits (pe_keys P) (pe_checks P) Segwitv0 ms" using sane by (simp add: sanity_check_Inr)
  then show "pk_cost (ext ms) \<le> 3600" "\<exists>n. op_count (ops (ext ms)) = Some n \<and> n \<le> 201"
    "\<exists>n. stack_elem_count_sat (ext ms) = Some n \<and> n < 100"
    by (rule within_resource_limits_segwit)+
qed

theorem parsed_scripts_sane_witness:
  "safe (mall (ty script_ms)) \<and> non_malleable (mall (ty script_ms)) \<and> pk_cost (ext script_ms) \<le> 3600"
  using parsed_scripts_sane [OF demo_parse_env_ok script_parses_sane] by (simp add: demo_parse_env_def)


section \<open>Policies\<close>

text \<open>
  C17. The semantic policy a script lifts to says exactly when it can be spent: with a set of
  signatures, preimages and lock times, the malleable satisfier reports \<open>CouldNotSatisfy\<close> if and only if
  the lifted policy is false under them, and a witness of the non-malleable satisfier implies the policy.
\<close>

theorem lift_decides_satisfaction:
  fixes env :: "('pk, 'h, 'e) sat_env" and m lh
  defines "env' \<equiv> env\<lparr>env_root_has_sig := safe (mall (ty m)), env_leaf_hash := lh\<rparr>"
  assumes wf: "ms_wf E LL st m" "every_node (env_dissat_ok env') m" "every_node (sizes_fit env' (env_varint env)) m"
    and lift: "ms_lift K X ctx m = Inr p"
  shows "(ms_satisfy_malleable env lh cw m = Some (Inl satisfy_error.CouldNotSatisfy) \<longleftrightarrow> \<not> policy_eval (available env') p)
    \<and> (ms_satisfy env lh cw m = Some (Inr w) \<longrightarrow> policy_eval (available env') p)"
proof (intro conjI impI)
  have p: "lift_terminal (node m) = Inr p" using lift by (auto simp: ms_lift_def bind_res_Inr)
  show "ms_satisfy_malleable env lh cw m = Some (Inl satisfy_error.CouldNotSatisfy) \<longleftrightarrow> \<not> policy_eval (available env') p"
    using satisfy_malleable_lifted [OF wf(1) wf(2,3) [unfolded env'_def] p] by (simp add: env'_def)
  assume "ms_satisfy env lh cw m = Some (Inr w)"
  then show "policy_eval (available env') p"
    using satisfy_lifted [OF wf(1) p] by (simp add: env'_def)
qed

theorem lift_decides_satisfaction_witness:
  "policy_eval (available demo_run_env) demo_policy"
  using lift_decides_satisfaction [OF demo_wf _ _ demo_lift, of "[]" demo_env "\<lambda>_. Inr () :: unit + unit"] demo_dissat demo_sizes_fit
    demo_satisfy_malleable
  by (simp add: demo_run_env_def)

text \<open>
  C18. Normalisation keeps the meaning of a policy, removes every constant below the root, every
  threshold with one child and every nested conjunction or disjunction, and does nothing the second time.
\<close>

theorem normalized_correct:
  "policy_eval av (normalized p) = policy_eval av p \<and> normal (normalized p) \<and> normalized (normalized p) = normalized p"
  by (simp add: normalized_eval normalized_normal normalized_idem)

text \<open>
  C19. Entailment, on policies with at most twenty terminals: the recursion ends and the answer is implication
  between the two policies under every assignment, except in the two situations the statement names,
  where a policy that was not normalised before the call gets a wrong answer.
\<close>

theorem entails_decides_implication:
  assumes "n_terminals a \<le> entailment_max_terminals"
  shows "entails a b = Some (Inr
    (if a \<noteq> Unsatisfiable \<and> normalized a = Unsatisfiable then b \<noteq> Unsatisfiable \<and> is_const (normalized b)
     else if a = Trivial \<and> b \<noteq> Trivial then False
     else \<forall>av. policy_eval av a \<longrightarrow> policy_eval av b))"
  using entails_eq [OF assms] by simp

theorem entails_decides_implication_witness:
  "entails (Threshold 2 [Key (1::nat), policy.Older 5]) (Threshold 1 [Key 1, Key 2] :: (nat, nat) policy) = Some (Inr True)"
proof -
  have "normalized (Threshold 2 [Key (1::nat), policy.Older 5] :: (nat, nat) policy) \<noteq> Unsatisfiable" by code_simp
  then show ?thesis by (subst entails_decides_implication) (auto simp: entailment_max_terminals_def)
qed

text \<open>
  C20. \<open>minimum_n_keys\<close> is the least number of keys, counted with repetition, with which the policy can be
  satisfied, and \<open>None\<close> exactly when it cannot be satisfied.
\<close>

theorem minimum_n_keys_least:
  "minimum_n_keys p = (if \<exists>n. sat_with p n then Some (LEAST n. sat_with p n) else None)"
  by (rule minimum_n_keys_spec)

text \<open>
  Filtering a policy by age and by lock time: the filtered policy is normal, and it holds exactly when
  the policy holds with the locks that are not met taken as false.
\<close>

theorem timelock_filters:
  "policy_eval av (at_age hloc tloc a p) = policy_eval (aged (\<lambda>t. \<not> older_unmet hloc tloc a t) av) p
   \<and> policy_eval av (at_lock_time blocks n p) = policy_eval (locked_until (after_met blocks n) av) p
   \<and> normal (at_age hloc tloc a p) \<and> normal (at_lock_time blocks n p)"
  by (simp add: at_age_eval at_lock_time_eval filters_normal)

text \<open>
  Sorting makes policies comparable: it only reorders children, so it keeps the meaning, and two
  policies that differ by reordering sort to the same policy.
\<close>

theorem policy_sorted_canonical:
  fixes p q :: "('pk :: linorder, 'h :: linorder) policy"
  shows "policy_eval av (policy_sorted p) = policy_eval av p \<and> reordered p (policy_sorted p)
     \<and> (reordered p q \<longrightarrow> policy_sorted p = policy_sorted q)"
  using reordered_policy_sorted reordered_eval policy_sorted_reordered by blast

theorem policy_sorted_canonical_witness:
  "policy_sorted (Threshold 2 [Key (3::nat), Key 1]) = policy_sorted (Threshold 2 [Key 1, Key 3] :: (nat, nat) policy)"
proof -
  have "reordered (Threshold 2 [Key (3::nat), Key 1]) (Threshold 2 [Key 1, Key 3] :: (nat, nat) policy)"
    by (rule reordered.children [of _ "[Key 3, Key 1]"]) (auto intro: reordered.same simp: add_mset_commute)
  then show ?thesis using policy_sorted_canonical [of _ "Threshold 2 [Key (3::nat), Key 1] :: (nat, nat) policy"] by blast
qed

section \<open>Traversal and translation\<close>

text \<open>
  \<open>iter_pk\<close> yields every key of a script, in the order in which \<open>for_each_key\<close> visits them: a
  predicate with state sees the same keys and stops at the same one.
\<close>

theorem key_iteration_agrees:
  "real_for_each_key p (node ms) s = all_st p (iter_pk ms) s"
  by (simp add: for_each_key_keys iter_pk_keys)

text \<open>
  C21. Translating keys keeps a well-formed script well-formed, although the types are copied and not
  computed again, and maps the keys one by one in order.
\<close>

theorem translate_pk_keeps_types:
  assumes "ms_wf E LL st ms" "ms_translate_pk tr ms = Inr ms'"
  shows "ms_wf E LL st ms' \<and> ty ms' = ty ms \<and> ext ms' = ext ms
     \<and> list_all2 (\<lambda>k k'. tr_pk tr k = Inr k') (keys_of (node ms)) (keys_of (node ms'))"
proof -
  have "terminal_translate_pk tr (node ms) = Inr (node ms')"
    using assms(2) by (auto simp: ms_translate_pk_def retag_Inr)
  then show ?thesis using translate_pk_wf [OF assms] translate_pk_keys by blast
qed

theorem translate_pk_keeps_types_witness:
  "ms_wf no_ext demo_lock Ecdsa (case ms_translate_pk demo_translator demo_ms of Inr m \<Rightarrow> m)"
proof -
  obtain ms' where "ms_translate_pk demo_translator demo_ms = Inr ms'"
    by (simp add: ms_translate_pk_def retag_def demo_ms_def demo_thresh_def demo_pk_def demo_translator_def)
  then show ?thesis using translate_pk_keeps_types [OF demo_wf, of demo_translator] by simp
qed

section \<open>Types\<close>

text \<open>
  C22. On a fragment whose children are well formed, \<open>Miniscript::from_ast\<close> never panics: it
  returns the error of the type checker, or a well-formed miniscript carrying the type.
\<close>

theorem from_ast_never_panics:
  assumes "\<And>c. c \<in> set (children t) \<Longrightarrow> ms_wf E L st c \<and> every_node (\<lambda>m. ext_data_ok E (node m)) c"
    and "ext_data_ok E t"
  shows "case type_rule E L t of
      Inl k \<Rightarrow> from_ast E L st t = Some (Inl (t, k))
    | Inr p \<Rightarrow> \<exists>ms. from_ast E L st t = Some (Inr ms) \<and> node ms = t \<and> ty ms = p \<and> ms_wf E L st ms"
  using assms by (rule from_ast_total)

theorem from_ast_never_panics_witness:
  "\<exists>ms. from_ast no_ext demo_lock Ecdsa (PkK (0::nat) :: (nat, nat, unit) terminal) = Some (Inr ms)
     \<and> ms_wf no_ext demo_lock Ecdsa ms"
  using from_ast_never_panics [of "PkK (0::nat) :: (nat, nat, unit) terminal" no_ext demo_lock Ecdsa]
  by (auto simp: ext_data_ok_def)

text \<open>
  C23. The sanity checks of \<open>Correctness\<close> and \<open>Type\<close> (debug assertions after each rule) hold at
  every well-formed miniscript; fragments that take no input and can be dissatisfied are safe
  and have a unique dissatisfaction.
\<close>

theorem type_sanity:
  assumes "ms_wf E L st m" "every_node (\<lambda>m. ext_type_ok E (node m)) m"
  shows "corr_sanity_checks (corr (ty m)) \<and> type_sanity_checks (ty m)
    \<and> (input (corr (ty m)) = Input_Zero \<and> dissatisfiable (corr (ty m)) \<longrightarrow> dissat (mall (ty m)) = Dissat_Unique \<and> safe (mall (ty m)))"
  using ms_wf_type_inv [OF assms] by (simp add: type_inv_def)

theorem type_sanity_witness:
  "corr_sanity_checks (corr (ty demo_ms)) \<and> type_sanity_checks (ty demo_ms)"
  using type_sanity [OF demo_wf]
  by (simp add: every_node_mk demo_ms_def demo_thresh_def demo_pk_def ext_type_ok_def)

text \<open>
  The sanity check of \<open>ExtData\<close> holds at every well-formed miniscript, and a dissatisfiable
  fragment has all its dissatisfaction costs, so the \<open>expect\<close>s of \<open>threshold\<close> never fail.
\<close>

theorem ext_data_sanity:
  assumes "ms_wf E L st m" "every_node (\<lambda>m. ext_data_ok E (node m)) m"
  shows "ext_sanity_checks (ext m)
    \<and> (dissatisfiable (corr (ty m)) \<longrightarrow> stack_elem_count_dissat (ext m) \<noteq> None \<and> max_dissat_size (ext m) \<noteq> None
         \<and> exec_stack_elem_count_dissat (ext m) \<noteq> None \<and> op_nsat (ops (ext m)) \<noteq> None)"
  using ms_wf_ext_inv [OF assms] ext_inv_sanity ext_inv_dissat by blast

theorem ext_data_sanity_witness:
  "ext_sanity_checks (ext demo_ms)"
  using ext_data_sanity [OF demo_wf]
  by (simp add: every_node_mk demo_ms_def demo_thresh_def demo_pk_def ext_data_ok_def)

text \<open>
  The malleability rule of thresholds without its loop: the number of safe children decides
  whether a threshold is safe, non-malleable and uniquely dissatisfiable.
\<close>

theorem threshold_malleability:
  "mall_threshold k ms =
     Inr \<lparr>dissat = (if (\<forall>x\<in>set ms. dissat x = Dissat_Unique \<and> safe x) then Dissat_Unique else Dissat_Unknown),
          safe = length (filter safe ms) > length ms - k,
          non_malleable = (\<forall>x\<in>set ms. non_malleable x \<and> dissat x = Dissat_Unique)
            \<and> length (filter safe ms) \<ge> length ms - k\<rparr>"
  by (rule mall_threshold_eq)

theorem threshold_malleability_witness:
  "mall_threshold 1 [mall_from_pk_k] = Inr \<lparr>dissat = Dissat_Unique, safe = True, non_malleable = True\<rparr>"
  using threshold_malleability [of 1 "[mall_from_pk_k]"] by (simp add: mall_from_pk_k_def)

text \<open>
  The subtype relation of \<open>Type\<close> is a partial order.
\<close>

theorem subtype_partial_order:
  "type_is_subtype a a
   \<and> (type_is_subtype a b \<and> type_is_subtype b a \<longrightarrow> a = b)
   \<and> (type_is_subtype a b \<and> type_is_subtype b c \<longrightarrow> type_is_subtype a c)"
  using type_sub.sub_refl type_sub.sub_antisym type_sub.sub_trans by blast

theorem subtype_partial_order_witness:
  "type_is_subtype ty_from_pk_k ty_from_pk_k"
  using subtype_partial_order by blast

section \<open>Time locks\<close>

text \<open>
  A node mixes time locks exactly when a child does or, for \<open>k > 1\<close>, two of its children have
  locks of the same kind in different units; the result does not depend on their order.
\<close>

theorem timelock_mixing:
  "(contains_unspendable_path (combine_threshold k ts) \<longleftrightarrow>
      list_ex contains_combination ts
      \<or> (k > 1 \<and> (\<exists>i j. i < j \<and> j < length ts \<and> height_and_time (ts ! i) (ts ! j))))
   \<and> (mset us = mset ts \<longrightarrow> combine_threshold k us = combine_threshold k ts)"
  using combine_threshold_perm [of us ts k]
  by (simp add: contains_unspendable_path_def combine_threshold_eq list_ex_iff)

theorem timelock_mixing_witness:
  "contains_unspendable_path (combine_threshold 2
     [timelock_default\<lparr>csv_with_height := True\<rparr>, timelock_default, timelock_default\<lparr>csv_with_time := True\<rparr>])"
proof -
  let ?ts = "[timelock_default\<lparr>csv_with_height := True\<rparr>, timelock_default, timelock_default\<lparr>csv_with_time := True\<rparr>]"
  have "(0::nat) < 2 \<and> 2 < length ?ts \<and> height_and_time (?ts ! 0) (?ts ! 2)" "1 < (2::nat)"
    by (simp_all add: height_and_time_def)
  then show ?thesis using timelock_mixing [of 2 ?ts "[]"] by blast
qed

text \<open>
  The absolute lock time test of \<open>impl Satisfier for LockTime\<close> agrees with the interpreter's
  \<open>evaluate_after\<close>: one succeeds exactly when the other does.
\<close>

theorem after_tests_agree:
  "lock_time_check_after (lock_is_blocks L) lt n \<longleftrightarrow>
     evaluate_after L n lt s = EvOk (SC_AbsoluteTimelock n) (Satisfied # s)"
  by (rule after_agrees)

text \<open>
  The relative lock time test of \<open>impl Satisfier for Sequence\<close> implies the interpreter's
  \<open>evaluate_older\<close> for lock times that use only the bits the satisfier compares.
\<close>

theorem older_tests_agree:
  assumes "sequence_check_older rel seq n" "n AND (SEQUENCE_LOCKTIME_MASK OR SEQUENCE_LOCKTIME_TYPE_FLAG) = n"
  shows "evaluate_older n seq s = EvOk (SC_RelativeTimelock n) (Satisfied # s)"
  using assms by (rule older_agrees)

theorem older_tests_agree_witness:
  "evaluate_older 10 20 [] = EvOk (SC_RelativeTimelock 10) [Satisfied]"
  by (rule older_tests_agree [where rel = "\<lambda>_. True"]) code_simp+

text \<open>
  Without that restriction the two tests differ: the interpreter compares raw sequence
  numbers, so it accepts a time-based age for a height-based lock, which the satisfier
  rejects, and rejects a lock with an ignored bit set, which the satisfier accepts.
\<close>

theorem older_tests_differ:
  "\<not> sequence_check_older (\<lambda>_. True) 0x00400001 10
   \<and> evaluate_older 10 0x00400001 s = EvOk (SC_RelativeTimelock 10) (Satisfied # s)
   \<and> sequence_check_older (\<lambda>_. True) 1 0x00800001
   \<and> evaluate_older 0x00800001 1 s = EvErr (RelativeLocktimeNotMet 0x00800001)"
proof -
  have "\<not> sequence_check_older (\<lambda>_. True) 0x00400001 10" "sequence_check_older (\<lambda>_. True) 1 0x00800001"
    "\<not> (0x00800001 :: u32) \<le> 1" "(10 :: u32) \<le> 0x00400001" by code_simp+
  then show ?thesis by (simp add: evaluate_older_def)
qed

section \<open>Satisfiers and witnesses\<close>

text \<open>
  Tuples of satisfiers nest: a tuple of tuples answers every query as the flat tuple does,
  and the reference implementations are transparent.
\<close>

theorem tuple_satisfier_nests:
  "tuple_satisfier (map tuple_satisfier sss) = tuple_satisfier (concat sss) \<and> ref_satisfier s = s"
  by (simp add: tuple_satisfier_concat ref_satisfier_transparent)

text \<open>
  The order on witnesses is total, transitive and puts every available witness before the
  unavailable ones; \<open>cmp::min\<close> returns a lower bound of its arguments.
\<close>

theorem witness_order:
  "(wit_cmp vl a b = Less \<longleftrightarrow> wit_cmp vl b a = Greater)
   \<and> (wit_cmp vl a b \<noteq> Greater \<and> wit_cmp vl b c \<noteq> Greater \<longrightarrow> wit_cmp vl a c \<noteq> Greater)
   \<and> wit_cmp vl (Stack w) Unavailable = Less \<and> wit_cmp vl (Stack w) Impossible = Less
   \<and> wit_cmp vl (wit_min vl a b) a \<noteq> Greater \<and> wit_cmp vl (wit_min vl a b) b \<noteq> Greater"
  using wit_cmp_swap wit_cmp_trans wit_min_le by auto

theorem witness_order_witness:
  "wit_cmp (\<lambda>_. 1) (wit_min (\<lambda>_. 1) (Stack [[1]]) Impossible) (Stack [[1]]) \<noteq> Greater"
  using witness_order [of "\<lambda>_. 1" "Stack [[1]]" Impossible] by blast

section \<open>Text forms\<close>

text \<open>
  C24. What \<open>Display\<close> prints of a miniscript is read back by \<open>from_str_ext\<close> as the same miniscript, with its
  wrappers, aliases and cached types, or rejected for the reason that the requested checks give. Side conditions:
  no raw key hash occurs (these are not read back), keys, hashes and extensions print to text their own parser reads
  back, thresholds are below \<open>2 ^ 32\<close>, every node passes the checks of the context, and the text has valid characters
  and is nested less deeply than the parser's limit.
\<close>

theorem miniscript_text_roundtrip:
  assumes "ms_wf (mt_ext T) (mt_lock T) (ctx_sig_type (mt_ctx T)) ms"
    and "every_node (\<lambda>m. check_global_validity (mt_keys T) (mt_checks T) (mt_ctx T) m = Inr ()) ms"
    and "every_node (\<lambda>m. leaf_readable T xt (node m)) ms" "locks_decimal T" "\<And>e. show_tree (xt e) = ext_show T e"
    and "tree_depth (ms_tree T xt (node ms)) < MAX_RECURSION_DEPTH" "check_valid_chars (ms_show T ms) = Inr ()"
  shows "ms_from_str_ext check_valid_chars T p (ms_show T ms) =
      (case ext_check (mt_keys T) (mt_checks T) (mt_ctx T) p ms of
         Inl e \<Rightarrow> Some (Inl (crate_error.AnalysisError e))
       | Inr _ \<Rightarrow> if base (corr (ty ms)) \<noteq> Base_B then Some (Inl NonTopLevel) else Some (Inr ms))"
proof (rule ms_from_show [where xt = xt])
  show "every_node (text_good T xt) ms"
    using every_node_conj [OF assms(1) [unfolded ms_wf_def] every_node_conj [OF assms(2,3)]] by (simp add: text_good_def [abs_def])
qed (use assms in auto)

theorem miniscript_text_roundtrip_witness:
  "ms_from_str_ext (\<lambda>_. Inr ()) demo_ms_text ext_params_insane ''and_v(v:pk(A),or_d(pkh(B),ltv:older(12)))'' = Some (Inr text_ms)"
proof -
  have "ext_check string_keys no_ext_checks Segwitv0 ext_params_insane text_ms = Inr ()"
    by (auto simp: ext_check_def ext_params_insane_def ext_params_new_def contains_raw_pkh_iff text_ms_def preorder_mk)
  moreover have "base (corr (ty text_ms)) = Base_B" by code_simp
  ultimately show ?thesis
    using miniscript_text_roundtrip [of demo_ms_text text_ms demo_ext_tree "\<lambda>_. Inr ()" ext_params_insane]
      text_ms_parts text_ms_depth demo_locks_decimal(2) text_ms_show
    by (simp add: demo_ms_text_sel demo_ext_tree_def)
qed

text \<open>
  The expression parser loses nothing: printing the tree it returns gives the text it was given.
\<close>

theorem tree_parse_exact:
  "tree_from_str check_valid_chars s = Inr t \<Longrightarrow> show_tree t = s"
  by (rule tree_from_str_show)

theorem tree_parse_exact_witness:
  "tree_from_str (\<lambda>_. Inr ()) ''or(pk(A),musig(B,C))'' = Inr (Tree ''or'' [Tree ''pk'' [Tree ''A'' []], Tree ''musig(B,C)'' []])
   \<and> show_tree (Tree ''or'' [Tree ''pk'' [Tree ''A'' []], Tree ''musig(B,C)'' []]) = ''or(pk(A),musig(B,C))''"
proof -
  have "tree_from_str (\<lambda>_. Inr ()) ''or(pk(A),musig(B,C))'' = Inr (Tree ''or'' [Tree ''pk'' [Tree ''A'' []], Tree ''musig(B,C)'' []])"
    by code_simp
  then show ?thesis using tree_parse_exact by blast
qed

text \<open>
  C25. A concrete policy in the form that the parser allows is read back from its printed form, when it does not mix
  time locks. The form (\<open>parseable\<close>) is: \<open>and\<close> and \<open>or\<close> have two children, lock times are from 1 to \<open>2 ^ 31\<close>, thresholds
  are from 1 to the number of children, odds and thresholds are below \<open>2 ^ 32\<close>, and keys and hashes print to text their own
  parser reads back; the text has valid characters and is nested less deeply than the parser's limit. Other policies, such as
  an \<open>and\<close> of three children, are printed but refused by \<open>from_str\<close>.
\<close>

theorem concrete_text_roundtrip:
  assumes "locks_decimal T" "parseable T p" "tree_depth (concrete_to_tree T p) < MAX_RECURSION_DEPTH"
    and "check_valid_chars (concrete_show T p) = Inr ()" "check_timelocks L p = Inr ()"
  shows "concrete_from_str check_valid_chars T L (concrete_show T p) = Inr p"
  using assms by (rule concrete_from_show)

theorem concrete_text_roundtrip_witness:
  "concrete_from_str (\<lambda>_. Inr ()) demo_text_env demo_lock (concrete_show demo_text_env demo_concrete) = Inr demo_concrete"
  using concrete_text_roundtrip [of demo_text_env demo_concrete "\<lambda>_. Inr ()" demo_lock] demo_concrete_ok demo_locks_decimal(1) by simp

text \<open>
  The same for semantic policies, whose thresholds print as \<open>and\<close>, \<open>or\<close> or \<open>thresh\<close>.
\<close>

theorem semantic_text_roundtrip:
  assumes "locks_decimal T" "policy_parseable T p" "tree_depth (policy_to_tree T p) < MAX_RECURSION_DEPTH"
    and "check_valid_chars (policy_show T p) = Inr ()"
  shows "policy_from_str check_valid_chars T (policy_show T p) = Inr p"
  using assms by (rule policy_from_show)

theorem semantic_text_roundtrip_witness:
  "policy_from_str (\<lambda>_. Inr ()) demo_text_env ''and(pk(A),thresh(2,pk(B),older(7),pk(C)))'' =
     Inr (Threshold 2 [Key ''A'', Threshold 2 [Key ''B'', policy.Older 7, Key ''C'']])"
proof -
  let ?p = "Threshold 2 [Key ''A'', Threshold 2 [Key ''B'', policy.Older 7, Key ''C'']] :: (string, string) policy"
  have "policy_show demo_text_env ?p = ''and(pk(A),thresh(2,pk(B),older(7),pk(C)))''" by code_simp
  moreover have "policy_parseable demo_text_env ?p" by (simp add: readable_def demo_text_env_def)
  moreover have "tree_depth (policy_to_tree demo_text_env ?p) < MAX_RECURSION_DEPTH" by (simp add: MAX_RECURSION_DEPTH_def)
  ultimately show ?thesis using semantic_text_roundtrip [OF demo_locks_decimal(1), of ?p "\<lambda>_. Inr ()"] by metis
qed

text \<open>
  C26. A descriptor checksum protects every character: when a text with its checksum is accepted, no text in which one
  character differs is accepted with that checksum.
\<close>

theorem checksum_rejects_substitution:
  assumes "verify_checksum check_valid_chars (xs @ a # ys @ CHR ''#'' # k) = Inr (xs @ a # ys)"
    and "a \<noteq> b" "CHR ''#'' \<notin> set (xs @ a # b # ys)"
  shows "verify_checksum check_valid_chars' (xs @ b # ys @ CHR ''#'' # k) \<noteq> Inr d"
  using assms verify_checksum_Inr [of "xs @ a # ys" check_valid_chars k] verify_checksum_Inr [of "xs @ b # ys" check_valid_chars' k]
    substitution_detected [of xs a ys k b k]
  by auto

theorem checksum_rejects_substitution_witness:
  "\<exists>k. verify_checksum (\<lambda>_. Inr ()) (''pk#'' @ k) = Inr ''pk'' \<and> verify_checksum (\<lambda>_. Inr ()) (''pj#'' @ k) \<noteq> Inr ''pj''"
proof -
  obtain k where k: "desc_checksum ''pk'' = Inr k" using demo_checksum(1) by blast
  have "verify_checksum (\<lambda>_. Inr ()) (''pk#'' @ k) = Inr ''pk''" using k verify_checksum_Inr [of "''pk''" "\<lambda>_. Inr ()" k] by simp
  then show ?thesis using checksum_rejects_substitution [of "\<lambda>_. Inr ()" "''p''" "CHR ''k''" "[]" k "CHR ''j''" "\<lambda>_. Inr ()" "''pj''"] by auto
qed

text \<open>
  C27. What the checksum formatter writes, in whatever pieces, is accepted by \<open>verify_checksum\<close>, which returns the text without
  the checksum.
\<close>

theorem written_checksum_verifies:
  assumes "write_str d1 (formatter_new [] False) = Some f" "write_str d2 f = Some g" "CHR ''#'' \<notin> set (d1 @ d2)"
    and "check_valid_chars (fmt_out (write_checksum_if_not_alt g)) = Inr ()"
  shows "verify_checksum check_valid_chars (fmt_out (write_checksum_if_not_alt g)) = Inr (d1 @ d2)"
proof -
  have "write_str (d1 @ d2) (formatter_new [] False) = Some g" using assms(1,2) by (simp add: write_str_append)
  then obtain k where k: "desc_checksum (d1 @ d2) = Inr k" "fmt_out (write_checksum g) = (d1 @ d2) @ CHR ''#'' # k"
    using written_checksum by blast
  moreover have "\<not> fmt_alternate g" using assms(1,2) by (auto simp: write_str_def formatter_new_def split: prod.splits sum.splits)
  ultimately show ?thesis using assms(3,4) verify_checksum_Inr [of "d1 @ d2" check_valid_chars k] by (simp add: write_checksum_if_not_alt_def)
qed

theorem written_checksum_verifies_witness:
  "\<exists>f g. write_str ''p'' (formatter_new [] False) = Some f \<and> write_str ''k'' f = Some g
     \<and> verify_checksum (\<lambda>_. Inr ()) (fmt_out (write_checksum_if_not_alt g)) = Inr ''pk''"
proof -
  obtain f where f: "write_str ''p'' (formatter_new [] False) = Some f"
    by (auto simp: write_str_def formatter_new_def INPUT_CHARSET_def split: prod.splits)
  obtain g where g: "write_str ''k'' f = Some g"
    by (auto simp: write_str_def INPUT_CHARSET_def split: prod.splits)
  show ?thesis using f g written_checksum_verifies [of "''p''" f "''k''" g "\<lambda>_. Inr ()"] by auto
qed

section \<open>Concrete policies\<close>

text \<open>
  C28. A valid concrete policy can be lifted, and the lifted policy has its meaning: it is true for exactly the same
  sets of satisfied keys, hashes and time locks.
\<close>

theorem valid_policy_lifts:
  "is_valid L p = Inr () \<Longrightarrow> \<exists>s. concrete_lift L p = Inr s \<and> (\<forall>av. policy_eval av s = concrete_eval av p)"
  by (rule valid_lift)

theorem valid_policy_lifts_witness:
  "\<exists>s. concrete_lift demo_lock demo_concrete = Inr s \<and> (\<forall>av. policy_eval av s = concrete_eval av demo_concrete)"
  using valid_policy_lifts demo_concrete_ok(4) by blast

text \<open>
  C29. \<open>is_safe_nonmalleable\<close> does not panic on a valid policy, and its first result says exactly that the policy cannot be
  met without a key once every \<open>TRIVIAL\<close> in it is taken as unsatisfiable. For a policy without \<open>TRIVIAL\<close> this is that
  it cannot be met without a key; with \<open>TRIVIAL\<close> it is not, since \<open>TRIVIAL\<close> itself is reported as safe.
\<close>

theorem safety_check_exact:
  assumes "is_valid L p = Inr ()"
  shows "\<exists>s m. is_safe_nonmalleable p = Some (s, m) \<and> (s \<longleftrightarrow> \<not> concrete_eval keyless (trivial_unmet p))
    \<and> (no_trivial p \<longrightarrow> (s \<longleftrightarrow> \<not> concrete_eval keyless p))"
  using valid_safe_total [OF assms] safe_exact no_trivial_unmet [of p] by fastforce

theorem safety_check_exact_witness:
  "\<exists>s m. is_safe_nonmalleable demo_concrete = Some (s, m) \<and> (s \<longleftrightarrow> \<not> concrete_eval keyless demo_concrete)"
proof -
  have "no_trivial demo_concrete" by (simp add: demo_concrete_def)
  then show ?thesis using safety_check_exact [OF demo_concrete_ok(4)] by blast
qed

text \<open>
  C30. A policy that passes \<open>check_timelocks\<close> has no way of being met that needs a height lock and a time lock of the
  same kind: whatever children of its thresholds are chosen, the leaves used never mix.
\<close>

theorem timelock_check_sound:
  assumes "one_unit L" "check_timelocks L p = Inr ()" "spends p S"
  shows "\<not> mixes L S"
  using timelocks_sound [OF assms(1,3)] assms(2) by (simp add: check_timelocks_def split: if_splits)

theorem timelock_check_sound_witness:
  "spends (CAnd [CKey ''A'', CAfter 100]) {CKey ''A'' :: (string, string) concrete, CAfter 100}
   \<and> \<not> mixes demo_lock {CKey ''A'' :: (string, string) concrete, CAfter 100}"
proof -
  have "spends (CAnd [CKey ''A'', CAfter 100]) (\<Union> (set [{CKey ''A'' :: (string, string) concrete}, {CAfter 100}]))"
    by (rule spends.conj) (auto intro: spends.leaf)
  moreover have "check_timelocks demo_lock (CAnd [CKey ''A'', CAfter 100] :: (string, string) concrete) = Inr ()" by code_simp
  ultimately show ?thesis using timelock_check_sound [OF demo_one_unit, of "CAnd [CKey ''A'', CAfter 100]"] by (simp add: insert_commute)
qed


section \<open>Arithmetic fragments\<close>

text \<open>
  C31. The satisfaction that the satisfier computes for a comparison against the evaluator, for an oracle whose signatures are
  valid and not older than the fragment asks (\<open>oracle_lookup_ok\<close>). Run on this witness, and whatever is below it on
  the stack, evaluation succeeds, consumes exactly the witness and pushes \<open>Satisfied\<close>, if every price that the comparison uses
  is not negative and was signed at exactly the time that its fragment names (\<open>prices_met\<close>; nothing is asked of a comparison
  without price oracles). If one price is negative or was signed later, which the specification allows, evaluation is an error.
\<close>

theorem arith_satisfaction_evaluates:
  assumes "oracle_lookup_ok X s" "arith_satisfy_helper env s a = Some (Inr sat)" "stack sat \<noteq> Impossible"
  shows "\<exists>ws. sat = Sat (Stack ws) False
    \<and> (\<forall>rest. if prices_met s a then arith_evaluate X (Some env) a (elems ws @ rest) = Some (Inr True, Satisfied # rest)
        else \<exists>st. arith_evaluate X (Some env) a (elems ws @ rest) = Some (Inl ArithError, st))"
  using assms by (rule arith_sat_sound)

theorem arith_satisfaction_evaluates_witness:
  "\<exists>ws. arith_evaluate demo_xc (Some demo_tx_env) demo_arith (elems ws @ [Dissatisfied]) = Some (Inr True, [Satisfied, Dissatisfied])"
proof -
  have sat: "arith_satisfy_helper demo_tx_env (demo_oracle id) demo_arith =
      Some (Inr (Sat (Stack [oracle_key @ pad 32 (to_le_bytes 7 @ to_le_bytes 100), to_le_bytes 7, to_le_bytes 100]) False))"
    by code_simp
  have "prices_met (demo_oracle id) demo_arith"
    by (simp add: prices_met_def demo_arith_terminals signed_at_def demo_oracle_def oracle_key_def)
  moreover have "oracle_lookup_ok demo_xc (demo_oracle id)" by (rule demo_oracle_ok) simp
  ultimately show ?thesis using arith_satisfaction_evaluates [OF _ sat, of demo_xc] by auto
qed



text \<open>
  C33. Scripts of comparisons round trip. Pushing a checked comparison, whose constant indices are below \<open>2 ^ 31\<close> and whose oracle
  keys the key parser reads (\<open>arith_ok\<close>), onto an empty builder gives a script of exactly the cached size, which lexes to
  tokens that are read back, all of them consumed, as the same comparison with \<open>inp_v(curr_idx)\<close> replaced by
  \<open>curr_inp_v\<close>, which has the same script. What is read evaluates as what was written, and it is the same comparison if
  \<open>inp_v(curr_idx)\<close> does not occur. A comment of the parser says that parsing cannot round trip because operations associate; it can.
\<close>

theorem arith_script_roundtrip:
  assumes "builder_ok B" "lex_lib_ok L" "arith_ok X (2 ^ 31) a"
  shows "\<exists>b ts. arith_push B a (builder_new B) = Some b \<and> script_len B b = arith_script_size a
    \<and> lex L (map Inr (instructions B b)) = Inr ts \<and> arith_from_token_iter X (token_iter_new ts) = (Some (arith_read_as a), [])
    \<and> (\<forall>te st. arith_evaluate X' te (arith_read_as a) st = arith_evaluate X' te a st)
    \<and> (no_curr (fst (sides a)) \<and> no_curr (snd (sides a)) \<longrightarrow> arith_read_as a = a)"
  using arith_encode_decode [OF assms] arith_read_as_ok(5,6) [OF assms(3)] by metis

theorem arith_script_roundtrip_witness:
  "\<exists>b ts. arith_push list_builder demo_arith (builder_new list_builder) = Some b \<and> script_len list_builder b = arith_script_size demo_arith
    \<and> lex demo_lex (map Inr (instructions list_builder b)) = Inr ts \<and> arith_from_token_iter demo_xc (token_iter_new ts) = (Some demo_arith, [])"
  using arith_script_roundtrip [OF list_builder_ok demo_lex_ok demo_arith_ok(1)] demo_arith_ok(2,3) by metis

text \<open>
  C34. The decoder is sound with comparisons as extension: it returns on every script, and a miniscript it returns is
  well-formed and has exactly the tokens of the script, those of its comparisons included. This discharges, for the
  fragment of the crate, what decoding asks of an extension.
\<close>

theorem arith_scripts_decode:
  assumes "parse_lib_ok P B" "ext_from_tokens P = arith_from_token_iter X" "pe_ext P = arith_ext" "xonly_ok X"
  shows "\<exists>r. parse_with_ext P L ps script = Some r \<and>
    (\<forall>ms. r = Inr ms \<longrightarrow> ms_wf arith_ext (pe_lock P) (ctx_sig_type (pe_ctx P)) ms
       \<and> lex L script = Inr (toks B arith_toks (ctx_sig_type (pe_ctx P)) (node ms)))"
  using parse_with_ext_ok [OF arith_parse_env_ok [OF assms], of L ps script] assms(3) by (auto simp: good_def)

theorem arith_scripts_decode_witness:
  "\<exists>r. parse_with_ext arith_parse_env demo_lex ext_params_insane (map Inr (arith_asm demo_arith)) = Some r \<and>
    (\<forall>ms. r = Inr ms \<longrightarrow> ms_wf arith_ext (pe_lock arith_parse_env) (ctx_sig_type (pe_ctx arith_parse_env)) ms
       \<and> lex demo_lex (map Inr (arith_asm demo_arith)) = Inr (toks arith_builder arith_toks (ctx_sig_type (pe_ctx arith_parse_env)) (node ms)))"
  by (rule arith_scripts_decode [OF arith_parse_lib _ _ demo_xonly_ok]) (simp_all add: arith_parse_env_def)

text \<open>
  C35. The printed form of a checked comparison is read back, negative constants and index expressions included, if the
  parameter type reads back the oracle keys that occur in it (\<open>arith_readable\<close>), and the text has valid characters and is nested
  less deeply than the parser's limit. The crate's own \<open>CovExtArgs\<close> reads no oracle key, so with it the theorem covers
  comparisons without price oracles.
\<close>

theorem arith_text_roundtrip:
  assumes "arith_readable A shw a" "tree_depth (arith_to_tree shw a) < MAX_RECURSION_DEPTH" "V (arith_show shw a) = Inr ()"
  shows "arith_from_str V A (arith_show shw a) = Inr a"
  using assms by (rule arith_from_show)

definition text_arith :: "string arith_inner" where
  "text_arith = ALt (from_inner (EOutput (ISub (IConst 5) CurrIdx))) (from_inner (EMod (from_inner (EConst (-8))) (from_inner (PriceOracle1W ''K'' 7))))"

theorem arith_text_roundtrip_witness:
  "arith_from_str (\<lambda>_. Inr ()) (\<lambda>s _ _. Inr s) ''num64_lt(out_v(idx_sub(5,curr_idx)),mod(-8,price_oracle1_w(K,7)))'' = Inr text_arith"
proof -
  have shw: "arith_show id text_arith = ''num64_lt(out_v(idx_sub(5,curr_idx)),mod(-8,price_oracle1_w(K,7)))''" by code_simp
  have "arith_new text_arith = Inr text_arith"
    using arith_new_iff [of text_arith "fst (sides text_arith)" "snd (sides text_arith)"] by (simp add: text_arith_def terminals_simps)
  then have rd: "arith_readable (\<lambda>s _ _. Inr s) id text_arith"
    by (simp add: arith_readable_def) (simp add: text_arith_def expr_readable_def terminals_simps term_readable_def)
  have dp: "tree_depth (arith_to_tree id text_arith) < MAX_RECURSION_DEPTH"
    by (simp add: arith_to_tree_def text_arith_def from_inner_def inner_size_depth_def term_args_def MAX_RECURSION_DEPTH_def)
  show ?thesis using arith_text_roundtrip [OF rd dp, of "\<lambda>_. Inr ()"] shw by simp
qed

text \<open>
  C36. Translating the parameters of a checked comparison never panics: the check that \<open>translate_ext\<close> repeats, and expects to
  succeed, succeeds.
\<close>

theorem arith_translation_never_panics:
  assumes "arith_new a = Inr a"
  shows "arith_translate t a \<noteq> None"
  using assms by (rule arith_translate_total)

theorem arith_translation_never_panics_witness:
  "arith_translate (\<lambda>a. case a of XOnlyKeyArg k \<Rightarrow> Inr (length k) | _ \<Rightarrow> Inl ()) demo_arith \<noteq> None"
  by (rule arith_translation_never_panics [OF demo_arith_new])

text \<open>
  C37. Scripts with comparisons do not panic where their index arithmetic is sound: if in every comparison of a well-formed script the index
  expressions stay in range for the current input, divide by nothing that is zero, and oracle keys are x-only keys (\<open>arith_runs\<close>), then the
  interpreter ends on every witness, with as few items as above, and the satisfier, with the key behind every raw key hash known,
  returns in both modes. This discharges, for the comparisons of the crate, what \<open>ext_eval_ok\<close> and \<open>env_dissat_ok\<close> ask of an
  extension.
\<close>

definition arith_node_runs :: "tx_env \<Rightarrow> ('pk, 'h, cov_ext_args arith_inner) sat_env \<Rightarrow> ('pk, 'h, cov_ext_args arith_inner) miniscript \<Rightarrow> bool" where
  "arith_node_runs te env m =
     (case node m of
        ExtT a \<Rightarrow> arith_runs te a
      | RawPkH h \<Rightarrow> wit_pkh_public_key env h \<noteq> Unavailable
      | _ \<Rightarrow> True)"

theorem arith_scripts_never_panic:
  fixes env :: "(bitcoin_key, bytes, cov_ext_args arith_inner) sat_env"
  defines "stfr \<equiv> env_stfr env"
  assumes wf: "ms_wf arith_ext LL st m"
    and interp: "ext_evaluate L = arith_evaluate X (Some te)"
    and sat: "env_ext_satisfy env = arith_satisfy V" "env_ext_dissatisfy env = (\<lambda>s a. Some (arith_dissatisfy s a))"
    and tx: "lookup_tx stfr = Some tx" "lookup_spent_utxos stfr = Some utxos" "lookup_curr_inp stfr = Some idx"
      "tx_env_new (view_tx V tx) (map (view_utxo V) utxos) idx = Some te"
    and runs: "every_node (arith_node_runs te (env\<lparr>env_root_has_sig := safe (mall (ty m)), env_leaf_hash := lh\<rparr>)) m"
  shows "(\<exists>is. items L c (script_iter m w) = Some is \<and> length is \<le> rank (node m) + 1)
    \<and> ms_satisfy env lh check_witness m \<noteq> None \<and> ms_satisfy_malleable env lh check_witness m \<noteq> None"
proof -
  let ?env = "env\<lparr>env_root_has_sig := safe (mall (ty m)), env_leaf_hash := lh\<rparr>"
  have "every_node (ext_eval_ok L) m"
    using runs by (rule every_node_mono [rotated])
      (auto simp: arith_node_runs_def ext_eval_ok_def interp arith_evaluate_total split: terminal.splits)
  then have "\<exists>is. items L c (script_iter m w) = Some is \<and> length is \<le> rank (node m) + 1"
    using items_total [OF script_iter_ok [OF wf], of L c w] items_bound [of L c "script_iter m w"]
    by (fastforce simp: iter_work_def script_iter_def work_fresh)
  moreover have "every_node (\<lambda>m. node_wf arith_ext LL st m \<and> arith_node_runs te ?env m) m"
    using wf runs by (simp add: ms_wf_def every_node_conj)
  then have "every_node (env_dissat_ok ?env) m"
  proof (rule every_node_mono [rotated])
    fix n assume n: "node_wf arith_ext LL st n \<and> arith_node_runs te ?env n"
    then have "type_rule arith_ext LL (node n) = Inr (ty n)" by (simp add: node_wf_iff)
    then have "\<not> dissatisfiable (corr (ty n))" if "node n = ExtT a" for a
      using that by (auto simp: arith_ext_def ty_from_ext_def dest!: sym [of _ "ty n"])
    moreover have "arith_satisfy V stfr a \<noteq> None" if "node n = ExtT a" for a
      using arith_satisfy_total [OF _ tx] n that by (simp add: arith_node_runs_def)
    ultimately show "env_dissat_ok ?env n"
      using n by (auto simp: env_dissat_ok_def arith_node_runs_def sat stfr_def split: terminal.splits)
  qed
  then have "helpers_ok (minimum (env_varint env)) (thresh (env_varint env)) ?env m"
      "helpers_ok (minimum_mall (env_varint env)) (thresh_mall (env_varint env)) ?env m"
    using nonmall.helpers_total [OF wf] malleable.helpers_total [OF wf] by auto
  ultimately show ?thesis
    by (auto simp: ms_satisfy_def ms_satisfy_malleable_def satisfy_def satisfy_mall_def helpers_ok_def)
qed

theorem arith_scripts_never_panic_witness:
  "(\<exists>is. items arith_lib demo_ctx (script_iter arith_ms [[1], [], [2, 3]]) = Some is \<and> length is \<le> rank (node arith_ms) + 1)
   \<and> ms_satisfy arith_env [] (\<lambda>_. Inr () :: unit + unit) arith_ms \<noteq> None
   \<and> ms_satisfy_malleable arith_env [] (\<lambda>_. Inr () :: unit + unit) arith_ms \<noteq> None"
  by (rule arith_scripts_never_panic [where te = demo_tx_env and tx = "[]" and utxos = "[[]]" and idx = 0 and V = demo_view and X = demo_xc,
        OF arith_ms_wf])
    (simp_all add: arith_lib_def arith_env_def demo_oracle_def demo_view_def tx_env_new_def demo_tx_env_def [symmetric] demo_tx_def
      arith_ms_def every_node_arith_mk arith_node_runs_def demo_arith_runs, simp add: demo_tx_env_def demo_tx_def)

section \<open>What the model shows of the code's defects\<close>

text \<open>
  The satisfaction cost of a threshold counts one child too many: \<open>thresh(1,pk(A),a:0)\<close> is
  satisfied by a signature of \<open>A\<close>, but its \<open>stack_elem_count_sat\<close> and \<open>max_sat_size\<close> say that it
  cannot be satisfied.
\<close>

definition thresh_one :: "unit interp_ms" where
  "thresh_one = mk (Thresh 1 [demo_pk key_A, mk (Alt (mk FalseT))])"

theorem threshold_cost_counts_too_many:
  "ms_wf no_ext demo_lock Ecdsa thresh_one
   \<and> ms_satisfy demo_env [] (\<lambda>_. Inr () :: unit + unit) thresh_one = Some (Inr [[48, 2, 10, 1]])
   \<and> stack_elem_count_sat (ext thresh_one) = None \<and> max_sat_size (ext thresh_one) = None"
  by (intro conjI) code_simp+

text \<open>
  The opcode count of a threshold is not the worst case: the cheapest children are counted as
  satisfied. In \<open>thresh(1,pk(A),s:pk(B),aj:multi(1,...))\<close> the last child costs three opcodes when
  satisfied, and the threshold reports none.
\<close>

definition thresh_ops :: "unit interp_ms" where
  "thresh_ops = mk (Thresh 1 [demo_pk key_A, mk (Swap (demo_pk key_B)), mk (Alt (mk (NonZero (mk (Multi 1 [key_A, key_B, key_A])))))])"

theorem threshold_op_count_too_small:
  "ms_wf no_ext demo_lock Ecdsa thresh_ops
   \<and> op_sat (ops (ext (mk (Alt (mk (NonZero (mk (Multi 1 [key_A, key_B, key_A]) :: unit interp_ms))))))) = Some 3
   \<and> op_sat (ops (ext thresh_ops)) = Some 0"
  by (intro conjI) code_simp+

text \<open>
  The hypothesis on raw key hashes is needed: a well-formed miniscript makes \<open>satisfy\<close> panic
  when the key of a raw key hash is unknown, because the dissatisfaction then chosen for
  \<open>or_i\<close> contains a signature.
\<close>

definition raw_pkh_ms :: "unit interp_ms" where
  "raw_pkh_ms = mk (OrB
     (mk (OrI (mk (Check (mk (RawPkH [1])))) (mk (AndV (mk (Verify (demo_pk key_A))) (demo_pk key_B)))))
     (mk (Swap (demo_pk key_B))))"

theorem unknown_raw_key_panics:
  "ms_wf no_ext demo_lock Ecdsa raw_pkh_ms
   \<and> ms_satisfy demo_env [] (\<lambda>_. Inr () :: unit + unit) raw_pkh_ms = None"
  by (intro conjI) code_simp+

text \<open>
  C38. When the interpreter panics on a covenant: the iteration over a well-formed covenant script, with an ECDSA key and any
  witness, panics if and only if executing the script leaves true on top of exactly twelve pushes of which the second
  from the bottom, the sighash type, is not four bytes long. It is read with \<open>slice_to_u32_le\<close>, which asserts a length of four,
  and the bytes come from the witness. Extensions in the script must evaluate without panic (\<open>ext_eval_ok\<close>).
\<close>

theorem covenant_panics_iff:
  assumes "ms_wf E LL st m" "every_node (ext_eval_ok L) m"
  shows "items L c (cov_iter (Fullkey pk) m w) = None \<longleftrightarrow>
    (\<exists>s. reaches L c [NS m 0 0] (elems w) [] (Satisfied # s) \<and> malformed_sighash s)"
  using cov_iter_None [OF assms] by (simp add: elems_def)

theorem covenant_panics_iff_witness:
  "items demo_lib demo_ctx (cov_iter (Fullkey [2, 3]) (mk TrueT) (replicate 12 [5])) = None"
proof -
  have "step demo_lib demo_ctx (NS (mk TrueT) 0 0) [] (elems (replicate 12 [5])) = Continue [] (Satisfied # elems (replicate 12 [5]))"
    by (simp add: step_def)
  then have "reaches demo_lib demo_ctx [NS (mk TrueT) 0 0] (elems (replicate 12 [5])) [] (Satisfied # elems (replicate 12 [5]))"
    by (rule reaches_step)
  moreover have "malformed_sighash (elems (replicate 12 [5]))" by code_simp
  moreover have "ms_wf no_ext demo_lock Ecdsa (mk TrueT :: unit interp_ms)" by code_simp
  moreover have "every_node (ext_eval_ok demo_lib) (mk TrueT :: unit interp_ms)" by (simp add: every_node_mk ext_eval_ok_def)
  ultimately show ?thesis using covenant_panics_iff [of no_ext demo_lock Ecdsa "mk TrueT" demo_lib] by blast
qed

text \<open>
  C39. When the arithmetic of a comparison fails, because an amount is confidential, an index is out of bounds or a result
  overflows, \<open>satisfy\<close> returns the empty satisfaction, as if nothing were needed, and evaluating it is an error.
\<close>

theorem arith_error_satisfied:
  assumes "lookup_tx s = Some tx" "lookup_spent_utxos s = Some utxos" "lookup_curr_inp s = Some idx"
    "tx_env_new (view_tx V tx) (map (view_utxo V) utxos) idx = Some env" "arith_satisfy_helper env s a = Some (Inl e)"
    "sides a = (x, y)" "\<forall>t \<in> set (terminals (e_inner x)) \<union> set (terminals (e_inner y)). oracle_free t"
  shows "arith_satisfy V s a = Some (Sat (Stack []) False) \<and> arith_evaluate X (Some env) a st = Some (Inl ArithError, st)"
  using arith_sat_error [OF assms(1-5)] arith_error_evaluate [OF assms(5-7)] by (simp add: arith_evaluate_def)

definition overflow_arith :: "cov_ext_args arith_inner" where
  "overflow_arith = AEq (from_inner (EAdd (from_inner CurrInputIdx) (from_inner (EConst (2 ^ 63 - 1))))) (from_inner (EConst 0))"

theorem arith_error_satisfied_witness:
  "arith_satisfy demo_view (demo_oracle id) overflow_arith = Some (Sat (Stack []) False)
   \<and> arith_evaluate demo_xc (Some demo_tx_env) overflow_arith [] = Some (Inl ArithError, [])"
proof -
  have err: "arith_satisfy_helper demo_tx_env (demo_oracle id) overflow_arith = Some (Inl (AddOverflow 5000 (2 ^ 63 - 1)))" by code_simp
  have sides: "sides overflow_arith =
      (from_inner (EAdd (from_inner CurrInputIdx) (from_inner (EConst (2 ^ 63 - 1)))), from_inner (EConst 0))"
    by (simp add: overflow_arith_def)
  show ?thesis
    by (rule arith_error_satisfied [where tx = "[]" and utxos = "[[]]" and idx = 0, OF _ _ _ _ err sides])
      (simp_all add: demo_oracle_def demo_view_def tx_env_new_def demo_tx_env_def demo_tx_def terminals_simps)
qed

text \<open>
  C40. A price that the oracle signed after the time of the fragment, which is what the documentation of \<open>price_oracle1\<close>
  asks for and what its script checks, is refused by the evaluator, however valid the signature.
\<close>

theorem oracle_price_refused:
  assumes "length sig = 64" "xc_schnorr_from_slice X sig = Some sig" "check_sig_price_oracle_1 X sig pk time price" "t < time"
  shows "price_oracle_eval X (XOnlyKeyArg pk) t (elems [sig, to_le_bytes time, to_le_bytes price] @ rest) = Some (Inl TimestampInFuture, rest)"
  using oracle_eval_time [OF assms(1,2)] assms(4) by simp

theorem oracle_price_refused_witness:
  "price_oracle_eval demo_xc (XOnlyKeyArg oracle_key) 7
     (elems [oracle_key @ pad 32 (to_le_bytes 8 @ to_le_bytes 100), to_le_bytes 8, to_le_bytes 100] @ []) = Some (Inl TimestampInFuture, [])"
  by (rule oracle_price_refused)
    (simp_all add: demo_xc_def check_sig_price_oracle_1_def oracle_key_def)

end
